(* ===== verification/Prelude.thy ===== *)
theory Prelude
  imports Main "HOL-Library.Sublist" "HOL-Library.State_Monad"
begin

text \<open>
  The prelude of the development: the names of the model's basic types, the parts of Go's
  standard library the sources use on strings and machine integers, and the generic list
  lemmas the components share.

  Go strings are byte sequences, so a \<open>string\<close> (a list of 8-bit characters) models them
  byte for byte: \<open>length\<close> is Go's \<open>len\<close>. Instants and durations are integers counting
  nanoseconds, as in Go's \<open>time\<close> package; an instant counts from the Unix epoch.
  \<open>trim_space\<close> knows every white-space code point of Unicode by its UTF-8 bytes;
  \<open>to_lower\<close> and \<open>go_quote\<close> treat bytes outside ASCII as Go treats lower-case,
  printable letters: they pass through.
\<close>

named_theorems keeps_rules \<open>composition rules for relations kept by a monadic program\<close>
named_theorems row_simps \<open>what a statement does to one row\<close>

section \<open>Basic types\<close>

type_synonym bytes = string
type_synonym time = int
type_synonym duration = int
type_synonym uuid = nat

abbreviation (input) nil_uuid :: uuid where "nil_uuid \<equiv> 0"

definition second :: duration where "second = 1000000000"
definition minute :: duration where "minute = 60 * second"
definition hour :: duration where "hour = 60 * minute"

lemmas duration_defs = second_def minute_def hour_def

text \<open>\<open>time.Unix(sec, 0)\<close>, and the zero \<open>time.Time\<close> (year 1), which \<open>IsZero\<close> tests for.\<close>

definition unix :: "int \<Rightarrow> time" where
  "unix sec = sec * second"

definition zero_time :: time where
  "zero_time = unix (- 62135596800)"

lemma unix_mono [simp]: "unix a \<le> unix b \<longleftrightarrow> a \<le> b" "unix a < unix b \<longleftrightarrow> a < b"
  by (simp_all add: unix_def second_def)

lemma unix_pos [simp]: "0 < unix a \<longleftrightarrow> 0 < a"
  by (simp add: unix_def second_def zero_less_mult_iff)

lemma unix_inject [simp]: "unix a = unix b \<longleftrightarrow> a = b"
  by (simp add: unix_def second_def)

section \<open>Machine integers\<close>

text \<open>Go's conversion \<open>int32(x)\<close> keeps the low 32 bits, read in two's complement.\<close>

definition int32_of :: "int \<Rightarrow> int" where
  "int32_of x = (x + 2 ^ 31) mod 2 ^ 32 - 2 ^ 31"

definition int4_max :: int where "int4_max = 2 ^ 31 - 1"

lemma int32_of_range: "- (2 ^ 31) \<le> int32_of x \<and> int32_of x \<le> int4_max"
  by (simp add: int32_of_def int4_max_def)

lemma int32_of_id: "- (2 ^ 31) \<le> x \<Longrightarrow> x \<le> int4_max \<Longrightarrow> int32_of x = x"
  by (simp add: int32_of_def int4_max_def)

section \<open>Go's strings package\<close>

definition byte :: "char \<Rightarrow> nat" where
  "byte c = of_char c"

definition has_prefix :: "string \<Rightarrow> string \<Rightarrow> bool" where
  "has_prefix s p \<longleftrightarrow> take (length p) s = p"

fun contains :: "string \<Rightarrow> string \<Rightarrow> bool" where
  "contains [] p \<longleftrightarrow> p = []"
| "contains (c # s) p \<longleftrightarrow> has_prefix (c # s) p \<or> contains s p"

lemma has_prefix_iff: "has_prefix s p \<longleftrightarrow> (\<exists>r. s = p @ r)"
  by (metis append_eq_conv_conj append_take_drop_id has_prefix_def)

lemma has_prefix_append [simp]: "has_prefix (p @ r) p"
  by (simp add: has_prefix_def)

lemma contains_iff: "contains s p \<longleftrightarrow> (\<exists>a b. s = a @ p @ b)"
proof (induction s)
  case (Cons c s)
  have "(\<exists>a b. c # s = a @ p @ b) \<longleftrightarrow> (\<exists>b. c # s = p @ b) \<or> (\<exists>a b. s = a @ p @ b)"
    by (metis append_Cons append_eq_Cons_conv append_Nil)
  with Cons show ?case by (simp add: has_prefix_iff)
qed auto

definition ascii_lower :: "char \<Rightarrow> char" where
  "ascii_lower c = (if 65 \<le> byte c \<and> byte c \<le> 90 then char_of (byte c + 32) else c)"

definition to_lower :: "string \<Rightarrow> string" where
  "to_lower s = map ascii_lower s"

text \<open>The UTF-8 encodings of the code points \<open>unicode.IsSpace\<close> accepts.\<close>

definition go_spaces :: "string list" where
  "go_spaces =
     [[CHR 0x09], [CHR 0x0A], [CHR 0x0B], [CHR 0x0C], [CHR 0x0D], [CHR 0x20],
      [CHR 0xC2, CHR 0x85], [CHR 0xC2, CHR 0xA0], [CHR 0xE1, CHR 0x9A, CHR 0x80],
      [CHR 0xE2, CHR 0x80, CHR 0x80], [CHR 0xE2, CHR 0x80, CHR 0x81],
      [CHR 0xE2, CHR 0x80, CHR 0x82], [CHR 0xE2, CHR 0x80, CHR 0x83],
      [CHR 0xE2, CHR 0x80, CHR 0x84], [CHR 0xE2, CHR 0x80, CHR 0x85],
      [CHR 0xE2, CHR 0x80, CHR 0x86], [CHR 0xE2, CHR 0x80, CHR 0x87],
      [CHR 0xE2, CHR 0x80, CHR 0x88], [CHR 0xE2, CHR 0x80, CHR 0x89],
      [CHR 0xE2, CHR 0x80, CHR 0x8A], [CHR 0xE2, CHR 0x80, CHR 0xA8],
      [CHR 0xE2, CHR 0x80, CHR 0xA9], [CHR 0xE2, CHR 0x80, CHR 0xAF],
      [CHR 0xE2, CHR 0x81, CHR 0x9F], [CHR 0xE3, CHR 0x80, CHR 0x80]]"

function strip_left :: "string list \<Rightarrow> string \<Rightarrow> string" where
  "strip_left ps s =
     (case find (\<lambda>p. p \<noteq> [] \<and> has_prefix s p) ps of
        None \<Rightarrow> s
      | Some p \<Rightarrow> strip_left ps (drop (length p) s))"
  by pat_completeness auto
termination
  by (relation "measure (\<lambda>(ps, s). length s)")
     (auto simp: find_Some_iff has_prefix_iff)

declare strip_left.simps [simp del]

definition trim_space :: "string \<Rightarrow> string" where
  "trim_space s = rev (strip_left (map rev go_spaces) (rev (strip_left go_spaces s)))"

text \<open>\<open>strings.Join\<close>.\<close>

fun join :: "string \<Rightarrow> string list \<Rightarrow> string" where
  "join sep [] = []"
| "join sep [x] = x"
| "join sep (x # y # xs) = x @ sep @ join sep (y # xs)"

text \<open>The verb \<open>%d\<close>.\<close>

fun decimal :: "nat \<Rightarrow> string" where
  "decimal n = (if n < 10 then [char_of (48 + n)] else decimal (n div 10) @ [char_of (48 + n mod 10)])"

declare decimal.simps [simp del]

definition format_int :: "int \<Rightarrow> string" where
  "format_int i = (if i < 0 then CHR ''-'' # decimal (nat (- i)) else decimal (nat i))"

lemma decimal_length: "n < 10 ^ Suc k \<Longrightarrow> length (decimal n) \<le> Suc k"
proof (induction k arbitrary: n)
  case 0
  then show ?case by (simp add: decimal.simps [of n])
next
  case (Suc k)
  have "n div 10 < 10 ^ Suc k" using Suc.prems by (simp add: less_mult_imp_div_less mult.commute)
  with Suc.IH show ?case by (cases "n < 10") (simp_all add: decimal.simps [of n])
qed

text \<open>\<open>strconv.Quote\<close>, what the verb \<open>%q\<close> prints.\<close>

definition hex_digit :: "nat \<Rightarrow> char" where
  "hex_digit n = (if n < 10 then char_of (48 + n) else char_of (87 + n))"

definition quote_byte :: "char \<Rightarrow> string" where
  "quote_byte c =
     (if c = CHR 0x22 then [CHR 0x5C, CHR 0x22]
      else if c = CHR 0x5C then [CHR 0x5C, CHR 0x5C]
      else if c = CHR 0x07 then [CHR 0x5C, CHR ''a'']
      else if c = CHR 0x08 then [CHR 0x5C, CHR ''b'']
      else if c = CHR 0x0C then [CHR 0x5C, CHR ''f'']
      else if c = CHR 0x0A then [CHR 0x5C, CHR ''n'']
      else if c = CHR 0x0D then [CHR 0x5C, CHR ''r'']
      else if c = CHR 0x09 then [CHR 0x5C, CHR ''t'']
      else if c = CHR 0x0B then [CHR 0x5C, CHR ''v'']
      else if byte c < 32 \<or> byte c = 127
           then [CHR 0x5C, CHR ''x'', hex_digit (byte c div 16), hex_digit (byte c mod 16)]
      else [c])"

definition go_quote :: "string \<Rightarrow> string" where
  "go_quote s = [CHR 0x22] @ concat (map quote_byte s) @ [CHR 0x22]"

section \<open>Lists of rows\<close>

lemma find_cong_None: "find P xs = None \<longleftrightarrow> (\<forall>x \<in> set xs. \<not> P x)"
  by (auto simp: find_None_iff)

lemma find_mem: "find P xs = Some x \<Longrightarrow> x \<in> set xs \<and> P x"
  by (auto simp: find_Some_iff)

lemma find_append_None: "find P xs = None \<Longrightarrow> find P (xs @ ys) = find P ys"
  by (induction xs) (simp_all split: if_splits)

lemma find_key_unique:
  assumes "distinct (map k xs)" "x \<in> set xs"
  shows "find (\<lambda>y. k y = k x) xs = Some x"
  using assms
proof (induction xs)
  case (Cons a xs)
  then show ?case by (cases "a = x") (auto simp: image_iff)
qed simp

lemma filter_key_unique:
  assumes "distinct (map k xs)" "x \<in> set xs"
  shows "filter (\<lambda>y. k y = k x) xs = [x]"
  using assms
proof (induction xs)
  case (Cons a xs)
  then show ?case
    by (cases "a = x") (auto simp: image_iff filter_empty_conv)
qed simp

lemma distinct_map_append1:
  "distinct (map k xs) \<Longrightarrow> find (\<lambda>y. k y = k x) xs = None \<Longrightarrow> distinct (map k (xs @ [x]))"
  by (auto simp: find_None_iff)

lemma list_all2_map_eq:
  "list_all2 R xs ys \<Longrightarrow> (\<And>x y. R x y \<Longrightarrow> f x = g y) \<Longrightarrow> map f xs = map g ys"
  by (induction rule: list_all2_induct) auto

lemma list_all2_mem: "list_all2 R xs ys \<Longrightarrow> x \<in> set xs \<Longrightarrow> \<exists>y \<in> set ys. R x y"
  by (induction rule: list_all2_induct) auto

lemma list_all2_mem2: "list_all2 R xs ys \<Longrightarrow> y \<in> set ys \<Longrightarrow> \<exists>x \<in> set xs. R x y"
  by (induction rule: list_all2_induct) auto

lemma list_all2_conj_left:
  "list_all2 R xs ys \<Longrightarrow> (\<And>x. x \<in> set xs \<Longrightarrow> P x) \<Longrightarrow> list_all2 (\<lambda>x y. P x \<and> R x y) xs ys"
  by (induction rule: list_all2_induct) auto

end
