(* ===== verification/Errors.thy ===== *)
theory Errors
  imports Prelude
begin

text \<open>
  Go error values and the translation of driver errors. An error is a chain of wrappers
  (\<open>fmt.Errorf\<close> with one \<open>%w\<close>) over a sentinel, a plain text, a list of field errors or
  a driver error; \<open>err_is\<close> is \<open>errors.Is\<close> and \<open>err_text\<close> the \<open>Error\<close> method.
  The sentinels are those of internal/domain, internal/stripe, internal/auth and
  internal/worker. \<open>map_error\<close> is \<open>mapError\<close> of internal/repository/postgres/errors.go.
\<close>

section \<open>Error values\<close>

datatype sentinel =
    ErrNotFound | ErrConflict | ErrValidation | ErrStaleEvent | ErrEventNotClaimed
  | ErrTokenReused
  | ErrSignatureVerification | ErrInvalidRequest | ErrUpstream
  | ErrCredentialsMismatch | ErrTokenInvalid | ErrTokenExpired
  | ErrPasswordTooShort | ErrPasswordTooLong | ErrPasswordInvalid
  | ErrDeadLettered

fun sentinel_text :: "sentinel \<Rightarrow> string" where
  "sentinel_text ErrNotFound = ''resource not found''"
| "sentinel_text ErrConflict = ''resource conflict''"
| "sentinel_text ErrValidation = ''validation failed''"
| "sentinel_text ErrStaleEvent = ''stale stripe event''"
| "sentinel_text ErrEventNotClaimed = ''webhook event is not claimed for processing''"
| "sentinel_text ErrTokenReused = ''refresh token was already used''"
| "sentinel_text ErrSignatureVerification = ''stripe webhook signature verification failed''"
| "sentinel_text ErrInvalidRequest = ''stripe rejected the request''"
| "sentinel_text ErrUpstream = ''stripe upstream failure''"
| "sentinel_text ErrCredentialsMismatch = ''invalid credentials''"
| "sentinel_text ErrTokenInvalid = ''token is not valid''"
| "sentinel_text ErrTokenExpired = ''token has expired''"
| "sentinel_text ErrPasswordTooShort = ''password must be at least 12 characters''"
| "sentinel_text ErrPasswordTooLong = ''password must be at most 72 bytes''"
| "sentinel_text ErrPasswordInvalid = ''password is not valid UTF-8''"
| "sentinel_text ErrDeadLettered = ''webhook events are dead-lettered''"

text \<open>A field error: the field and the detail.\<close>

record FieldError =
  fe_Field :: string
  fe_Detail :: string

definition FieldError_text :: "FieldError \<Rightarrow> string" where
  "FieldError_text e = fe_Field e @ '': '' @ fe_Detail e"

definition FieldErrors_text :: "FieldError list \<Rightarrow> string" where
  "FieldErrors_text es = join ''; '' (map FieldError_text es)"

text \<open>
  What the driver reports: no row (\<open>pgx.ErrNoRows\<close>), a server error with its SQLSTATE,
  constraint name and message (\<open>pgconn.PgError\<close>), or anything else (the connection, the
  context, a scan).
\<close>

datatype pg_error =
    NoRows
  | PgError (pg_Code: string) (pg_ConstraintName: string) (pg_Message: string)
  | DriverError string

fun pg_error_text :: "pg_error \<Rightarrow> string" where
  "pg_error_text NoRows = ''no rows in result set''"
| "pg_error_text (PgError code c msg) = ''ERROR: '' @ msg @ '' (SQLSTATE '' @ code @ '')''"
| "pg_error_text (DriverError msg) = msg"

datatype goerr =
    Sentinel sentinel
  | Text string
  | Wrap string goerr string
  | FieldErrs "FieldError list"
  | FieldErr FieldError
  | Driver pg_error

fun err_text :: "goerr \<Rightarrow> string" where
  "err_text (Sentinel s) = sentinel_text s"
| "err_text (Text t) = t"
| "err_text (Wrap pre e post) = pre @ err_text e @ post"
| "err_text (FieldErrs es) = FieldErrors_text es"
| "err_text (FieldErr e) = FieldError_text e"
| "err_text (Driver e) = pg_error_text e"

fun err_is :: "goerr \<Rightarrow> sentinel \<Rightarrow> bool" where
  "err_is (Sentinel s) t \<longleftrightarrow> s = t"
| "err_is (Text _) t \<longleftrightarrow> False"
| "err_is (Wrap _ e _) t \<longleftrightarrow> err_is e t"
| "err_is (FieldErrs _) t \<longleftrightarrow> t = ErrValidation"
| "err_is (FieldErr _) t \<longleftrightarrow> t = ErrValidation"
| "err_is (Driver _) t \<longleftrightarrow> False"

text \<open>An error matches at most one sentinel, so the order of \<open>errors.Is\<close> cases is immaterial.\<close>

lemma err_is_unique: "err_is e s \<Longrightarrow> err_is e t \<Longrightarrow> s = t"
  by (induction e) auto

lemma err_is_distinct: "err_is e s \<Longrightarrow> s \<noteq> t \<Longrightarrow> \<not> err_is e t"
  using err_is_unique by blast

section \<open>SQLSTATE translation\<close>

abbreviation codeUniqueViolation :: string where "codeUniqueViolation \<equiv> ''23505''"
abbreviation codeForeignKeyViolation :: string where "codeForeignKeyViolation \<equiv> ''23503''"
abbreviation codeCheckViolation :: string where "codeCheckViolation \<equiv> ''23514''"
abbreviation codeNotNullViolation :: string where "codeNotNullViolation \<equiv> ''23502''"
abbreviation codeInvalidTextRepr :: string where "codeInvalidTextRepr \<equiv> ''22P02''"
abbreviation codeStringDataTruncated :: string where "codeStringDataTruncated \<equiv> ''22001''"

text \<open>Codes the schema can raise that \<open>mapError\<close> has no case for.\<close>

abbreviation codeNumericOutOfRange :: string where "codeNumericOutOfRange \<equiv> ''22003''"
abbreviation codeInvalidLimit :: string where "codeInvalidLimit \<equiv> ''2201W''"

definition constraintMessages :: "(string \<times> string) list" where
  "constraintMessages =
    [(''uq_users_email_active'', ''a live user already exists with this email''),
     (''uq_users_stripe_customer_id'', ''this Stripe customer is already linked to another user''),
     (''subscriptions_stripe_subscription_id_key'', ''this Stripe subscription has already been recorded''),
     (''subscriptions_user_id_fkey'', ''the referenced user does not exist, or still has billing history''),
     (''processed_webhooks_pkey'', ''this Stripe event has already been recorded''),
     (''users_email_format_chk'', ''email is not a valid address''),
     (''users_stripe_customer_id_format_chk'', ''stripe_customer_id must look like cus_...''),
     (''subscriptions_period_order_chk'', ''current_period_end must be after current_period_start''),
     (''subscriptions_quantity_positive_chk'', ''quantity must be greater than zero''),
     (''subscriptions_canceled_at_chk'', ''canceled_at is required when status is canceled''),
     (''subscriptions_currency_format_chk'', ''currency must be a three-letter lowercase ISO 4217 code''),
     (''processed_webhooks_event_id_format_chk'', ''event_id must look like evt_...''),
     (''processed_webhooks_processed_at_chk'', ''processed_at must be set for a settled event and unset otherwise''),
     (''processed_webhooks_last_error_chk'', ''last_error is required when status is failed''),
     (''subscriptions_stripe_subscription_id_format_chk'', ''stripe_subscription_id must look like sub_...'')]"

definition constraint_detail :: "string \<Rightarrow> string \<Rightarrow> string" where
  "constraint_detail c msg =
     (case map_of constraintMessages c of
        Some d \<Rightarrow> (if d = [] then msg else d)
      | None \<Rightarrow> msg)"

text \<open>\<open>mapError\<close> on an error that is not nil; \<open>mapError\<close> itself keeps nil.\<close>

fun map_error :: "string \<Rightarrow> pg_error \<Rightarrow> goerr" where
  "map_error op NoRows = Wrap (op @ '': '') (Sentinel ErrNotFound) []"
| "map_error op (DriverError m) = Wrap (op @ '': '') (Driver (DriverError m)) []"
| "map_error op (PgError code c msg) =
     (let detail = constraint_detail c msg
      in if code = codeUniqueViolation
         then Wrap (op @ '': '' @ detail @ '': '') (Sentinel ErrConflict) []
         else if code = codeForeignKeyViolation
         then Wrap (op @ '': '' @ detail @ '': '') (Sentinel ErrConflict) []
         else if code \<in> {codeCheckViolation, codeNotNullViolation, codeInvalidTextRepr,
                         codeStringDataTruncated}
         then Wrap (op @ '': '' @ detail @ '': '') (Sentinel ErrValidation) []
         else Wrap (op @ '': '') (Driver (PgError code c msg)) [])"

definition mapError :: "string \<Rightarrow> pg_error option \<Rightarrow> goerr option" where
  "mapError op e = map_option (map_error op) e"

lemma map_error_NotFound: "err_is (map_error op e) ErrNotFound \<longleftrightarrow> e = NoRows"
  by (cases e) (auto simp: Let_def)

lemma map_error_Conflict:
  "err_is (map_error op e) ErrConflict \<longleftrightarrow>
     (\<exists>c m. e = PgError codeUniqueViolation c m \<or> e = PgError codeForeignKeyViolation c m)"
  by (cases e) (auto simp: Let_def)

lemma map_error_Validation:
  "err_is (map_error op e) ErrValidation \<longleftrightarrow>
     (\<exists>c m code. e = PgError code c m \<and> code \<in> {codeCheckViolation, codeNotNullViolation,
        codeInvalidTextRepr, codeStringDataTruncated})"
  by (cases e) (auto simp: Let_def)

lemma map_error_only:
  "err_is (map_error op e) s \<Longrightarrow> s \<in> {ErrNotFound, ErrConflict, ErrValidation}"
  by (cases e) (auto simp: Let_def split: if_splits)

lemmas map_error_sentinels = map_error_NotFound map_error_Conflict map_error_Validation

lemma map_error_other [simp]:
  "\<not> err_is (map_error op e) ErrStaleEvent"
  "\<not> err_is (map_error op e) ErrEventNotClaimed"
  "\<not> err_is (map_error op e) ErrTokenReused"
  "\<not> err_is (map_error op e) ErrSignatureVerification"
  using map_error_only by blast+

end
