(* ===== verification/Domain.thy ===== *)
theory Domain
  imports Errors
begin

text \<open>
  internal/domain/models.go: the statuses, the four entities and their \<open>Validate\<close> methods.
  A Go pointer field is an option; a Go map is an association list with distinct keys (a nil
  map and an empty one behave alike). Statuses are Go strings, so a value outside the known
  ones exists and \<open>Valid\<close> has work to do. \<open>json.Valid\<close> is a parameter of
  \<open>ProcessedWebhook_Validate\<close>.
\<close>

section \<open>Validation results\<close>

text \<open>\<open>validator.add\<close> under a condition, and \<open>validator.result\<close>.\<close>

definition vadd :: "bool \<Rightarrow> string \<Rightarrow> string \<Rightarrow> FieldError list" where
  "vadd bad field detail = (if bad then [\<lparr>fe_Field = field, fe_Detail = detail\<rparr>] else [])"

definition vresult :: "FieldError list \<Rightarrow> goerr option" where
  "vresult errs = (if errs = [] then None else Some (FieldErrs errs))"

lemma vadd_Nil [simp]: "vadd bad f d = [] \<longleftrightarrow> \<not> bad"
  by (simp add: vadd_def)

lemma vresult_None [simp]: "vresult es = None \<longleftrightarrow> es = []"
  by (simp add: vresult_def)

lemma vresult_Some: "vresult es = Some e \<Longrightarrow> e = FieldErrs es \<and> err_is e ErrValidation"
  by (auto simp: vresult_def split: if_splits)

section \<open>Statuses\<close>

type_synonym SubscriptionStatus = string

abbreviation SubscriptionIncomplete :: SubscriptionStatus where
  "SubscriptionIncomplete \<equiv> ''incomplete''"
abbreviation SubscriptionIncompleteExpired :: SubscriptionStatus where
  "SubscriptionIncompleteExpired \<equiv> ''incomplete_expired''"
abbreviation SubscriptionTrialing :: SubscriptionStatus where
  "SubscriptionTrialing \<equiv> ''trialing''"
abbreviation SubscriptionActive :: SubscriptionStatus where
  "SubscriptionActive \<equiv> ''active''"
abbreviation SubscriptionPastDue :: SubscriptionStatus where
  "SubscriptionPastDue \<equiv> ''past_due''"
abbreviation SubscriptionCanceled :: SubscriptionStatus where
  "SubscriptionCanceled \<equiv> ''canceled''"
abbreviation SubscriptionUnpaid :: SubscriptionStatus where
  "SubscriptionUnpaid \<equiv> ''unpaid''"
abbreviation SubscriptionPaused :: SubscriptionStatus where
  "SubscriptionPaused \<equiv> ''paused''"

definition SubscriptionStatus_Valid :: "SubscriptionStatus \<Rightarrow> bool" where
  "SubscriptionStatus_Valid s \<longleftrightarrow>
     s \<in> {SubscriptionIncomplete, SubscriptionIncompleteExpired, SubscriptionTrialing,
          SubscriptionActive, SubscriptionPastDue, SubscriptionCanceled,
          SubscriptionUnpaid, SubscriptionPaused}"

definition SubscriptionStatus_IsLive :: "SubscriptionStatus \<Rightarrow> bool" where
  "SubscriptionStatus_IsLive s \<longleftrightarrow>
     s \<in> {SubscriptionTrialing, SubscriptionActive, SubscriptionPastDue}"

definition SubscriptionStatus_IsTerminal :: "SubscriptionStatus \<Rightarrow> bool" where
  "SubscriptionStatus_IsTerminal s \<longleftrightarrow>
     s \<in> {SubscriptionCanceled, SubscriptionIncompleteExpired}"

text \<open>
  The Go type of webhook statuses is a string; the database enum has exactly the four known
  values and is the datatype \<open>webhook_status\<close>.
\<close>

datatype webhook_status = WebhookProcessing | WebhookSucceeded | WebhookFailed | WebhookSkipped

fun WebhookStatus_text :: "webhook_status \<Rightarrow> string" where
  "WebhookStatus_text WebhookProcessing = ''processing''"
| "WebhookStatus_text WebhookSucceeded = ''succeeded''"
| "WebhookStatus_text WebhookFailed = ''failed''"
| "WebhookStatus_text WebhookSkipped = ''skipped''"

definition WebhookStatus_Valid :: "string \<Rightarrow> bool" where
  "WebhookStatus_Valid s \<longleftrightarrow>
     s \<in> {WebhookStatus_text WebhookProcessing, WebhookStatus_text WebhookSucceeded,
          WebhookStatus_text WebhookFailed, WebhookStatus_text WebhookSkipped}"

lemma WebhookStatus_text_inject: "WebhookStatus_text a = WebhookStatus_text b \<longleftrightarrow> a = b"
  by (cases a; cases b) simp_all

lemma WebhookStatus_text_Valid: "WebhookStatus_Valid (WebhookStatus_text s)"
  by (cases s) (simp_all add: WebhookStatus_Valid_def)

section \<open>Users\<close>

record User =
  u_ID :: uuid
  u_Email :: string
  u_EmailVerifiedAt :: "time option"
  u_PasswordHash :: "string option"
  u_FullName :: "string option"
  u_StripeCustomerID :: "string option"
  u_Metadata :: "(string \<times> string) list"
  u_CreatedAt :: time
  u_UpdatedAt :: time
  u_DeletedAt :: "time option"

definition contains_any :: "string \<Rightarrow> string \<Rightarrow> bool" where
  "contains_any s cs \<longleftrightarrow> list_ex (\<lambda>c. c \<in> set cs) s"

definition email_errors :: "string \<Rightarrow> FieldError list" where
  "email_errors email =
     (if email = [] then vadd True ''email'' ''is required''
      else if length email < 3 \<or> length email > 320
      then vadd True ''email'' ''must be between 3 and 320 characters''
      else vadd (\<not> contains email ''@'' \<or> contains_any email [CHR '' '', CHR 0x09, CHR 0x0A])
             ''email'' ''is not a valid address'')"

text \<open>\<open>Validate\<close> trims the address in place: the method returns the user it leaves behind.\<close>

definition User_Validate :: "User \<Rightarrow> goerr option \<times> User" where
  "User_Validate u0 =
     (let u = u0\<lparr>u_Email := trim_space (u_Email u0)\<rparr>
      in (vresult
            (email_errors (u_Email u) @
             vadd (case u_StripeCustomerID u of None \<Rightarrow> False | Some c \<Rightarrow> \<not> has_prefix c ''cus_'')
               ''stripe_customer_id'' ''must begin with cus_'' @
             vadd (list_ex (\<lambda>(k, v). trim_space k = []) (u_Metadata u))
               ''metadata'' ''keys must not be blank''),
          u))"

definition User_IsDeleted :: "User \<Rightarrow> bool" where
  "User_IsDeleted u \<longleftrightarrow> u_DeletedAt u \<noteq> None"

section \<open>Subscriptions\<close>

record Subscription =
  s_ID :: uuid
  s_UserID :: uuid
  s_StripeSubscriptionID :: string
  s_StripeCustomerID :: string
  s_StripePriceID :: string
  s_StripeProductID :: "string option"
  s_Status :: SubscriptionStatus
  s_Quantity :: int
  s_Currency :: "string option"
  s_UnitAmount :: "int option"
  s_CurrentPeriodStart :: time
  s_CurrentPeriodEnd :: time
  s_CancelAtPeriodEnd :: bool
  s_CancelAt :: "time option"
  s_CanceledAt :: "time option"
  s_EndedAt :: "time option"
  s_TrialStart :: "time option"
  s_TrialEnd :: "time option"
  s_LatestInvoiceID :: "string option"
  s_DefaultPaymentMethodID :: "string option"
  s_PaymentFailedAt :: "time option"
  s_PaymentFailureCount :: int
  s_LastPaymentError :: "string option"
  s_NextPaymentAttemptAt :: "time option"
  s_LastInvoiceEventID :: "string option"
  s_LastInvoiceEventAt :: "time option"
  s_LastStripeEventID :: "string option"
  s_LastStripeEventAt :: "time option"
  s_Metadata :: "(string \<times> string) list"
  s_CreatedAt :: time
  s_UpdatedAt :: time

definition trial_order :: "time option \<Rightarrow> time option \<Rightarrow> bool" where
  "trial_order start fin \<longleftrightarrow>
     (case (start, fin) of (Some a, Some b) \<Rightarrow> a < b | _ \<Rightarrow> True)"

definition Subscription_Validate :: "Subscription \<Rightarrow> goerr option" where
  "Subscription_Validate s = vresult
     (vadd (s_UserID s = nil_uuid) ''user_id'' ''is required'' @
      vadd (\<not> has_prefix (s_StripeSubscriptionID s) ''sub_'')
        ''stripe_subscription_id'' ''must begin with sub_'' @
      vadd (\<not> has_prefix (s_StripeCustomerID s) ''cus_'')
        ''stripe_customer_id'' ''must begin with cus_'' @
      vadd (\<not> has_prefix (s_StripePriceID s) ''price_'')
        ''stripe_price_id'' ''must begin with price_'' @
      vadd (\<not> SubscriptionStatus_Valid (s_Status s))
        ''status'' (go_quote (s_Status s) @ '' is not a known subscription status'') @
      vadd (s_Quantity s \<le> 0) ''quantity'' ''must be greater than zero'' @
      vadd (case s_Currency s of None \<Rightarrow> False | Some c \<Rightarrow> length c \<noteq> 3 \<or> c \<noteq> to_lower c)
        ''currency'' ''must be a three-letter lowercase ISO 4217 code'' @
      vadd (case s_UnitAmount s of None \<Rightarrow> False | Some a \<Rightarrow> a < 0)
        ''unit_amount'' ''must not be negative'' @
      vadd (\<not> s_CurrentPeriodStart s < s_CurrentPeriodEnd s)
        ''current_period_end'' ''must be after current_period_start'' @
      vadd (\<not> trial_order (s_TrialStart s) (s_TrialEnd s))
        ''trial_end'' ''must be after trial_start'' @
      vadd (s_Status s = SubscriptionCanceled \<and> s_CanceledAt s = None)
        ''canceled_at'' ''is required when status is canceled'' @
      vadd (s_PaymentFailureCount s < 0)
        ''payment_failure_count'' ''must not be negative'' @
      vadd ((s_PaymentFailedAt s = None) \<noteq> (s_PaymentFailureCount s = 0))
        ''payment_failed_at'' ''must be set exactly when payment_failure_count is greater than zero'')"

definition Subscription_IsLive :: "Subscription \<Rightarrow> bool" where
  "Subscription_IsLive s \<longleftrightarrow> SubscriptionStatus_IsLive (s_Status s)"

definition Subscription_InDunning :: "Subscription \<Rightarrow> bool" where
  "Subscription_InDunning s \<longleftrightarrow> s_PaymentFailedAt s \<noteq> None"

section \<open>Refresh tokens\<close>

record RefreshToken =
  t_ID :: uuid
  t_UserID :: uuid
  t_TokenHash :: string
  t_FamilyID :: uuid
  t_IssuedAt :: time
  t_ExpiresAt :: time
  t_UsedAt :: "time option"
  t_RevokedAt :: "time option"
  t_RevokedReason :: "string option"
  t_CreatedAt :: time
  t_UpdatedAt :: time

definition RefreshToken_Usable :: "RefreshToken \<Rightarrow> time \<Rightarrow> bool" where
  "RefreshToken_Usable t now \<longleftrightarrow>
     t_RevokedAt t = None \<and> t_UsedAt t = None \<and> now < t_ExpiresAt t"

section \<open>The idempotency ledger's entity\<close>

record ProcessedWebhook =
  w_EventID :: string
  w_EventType :: string
  w_APIVersion :: "string option"
  w_Livemode :: bool
  w_RequestID :: "string option"
  w_Status :: string
  w_Attempts :: int
  w_LastError :: "string option"
  w_Payload :: bytes
  w_StripeCreatedAt :: time
  w_ReceivedAt :: time
  w_ProcessedAt :: "time option"
  w_CreatedAt :: time
  w_UpdatedAt :: time

definition ProcessedWebhook_Validate :: "(bytes \<Rightarrow> bool) \<Rightarrow> ProcessedWebhook \<Rightarrow> goerr option" where
  "ProcessedWebhook_Validate json_valid w = vresult
     (vadd (\<not> has_prefix (w_EventID w) ''evt_'') ''event_id'' ''must begin with evt_'' @
      vadd (trim_space (w_EventType w) = []) ''event_type'' ''is required'' @
      vadd (w_StripeCreatedAt w = zero_time) ''stripe_created_at'' ''is required'' @
      vadd (w_Status w \<noteq> [] \<and> \<not> WebhookStatus_Valid (w_Status w))
        ''status'' (go_quote (w_Status w) @ '' is not a known webhook status'') @
      vadd (w_Payload w \<noteq> [] \<and> \<not> json_valid (w_Payload w)) ''payload'' ''must be valid JSON'')"

definition ProcessedWebhook_IsSettled :: "ProcessedWebhook \<Rightarrow> bool" where
  "ProcessedWebhook_IsSettled w \<longleftrightarrow>
     w_Status w = WebhookStatus_text WebhookSucceeded \<or>
     w_Status w = WebhookStatus_text WebhookSkipped"

section \<open>Facts about statuses and validation\<close>

lemma live_not_terminal:
  "SubscriptionStatus_IsLive s \<Longrightarrow> \<not> SubscriptionStatus_IsTerminal s"
  by (auto simp: SubscriptionStatus_IsLive_def SubscriptionStatus_IsTerminal_def)

lemma Subscription_Validate_None:
  "Subscription_Validate s = None \<longleftrightarrow>
     s_UserID s \<noteq> nil_uuid \<and> has_prefix (s_StripeSubscriptionID s) ''sub_'' \<and>
     has_prefix (s_StripeCustomerID s) ''cus_'' \<and> has_prefix (s_StripePriceID s) ''price_'' \<and>
     SubscriptionStatus_Valid (s_Status s) \<and> 0 < s_Quantity s \<and>
     (\<forall>c. s_Currency s = Some c \<longrightarrow> length c = 3 \<and> c = to_lower c) \<and>
     (\<forall>a. s_UnitAmount s = Some a \<longrightarrow> 0 \<le> a) \<and>
     s_CurrentPeriodStart s < s_CurrentPeriodEnd s \<and>
     trial_order (s_TrialStart s) (s_TrialEnd s) \<and>
     (s_Status s = SubscriptionCanceled \<longrightarrow> s_CanceledAt s \<noteq> None) \<and>
     0 \<le> s_PaymentFailureCount s \<and>
     (s_PaymentFailedAt s = None \<longleftrightarrow> s_PaymentFailureCount s = 0)"
  unfolding Subscription_Validate_def vresult_None append_is_Nil_conv vadd_Nil
  by (auto split: option.splits)

lemma Subscription_Validate_error:
  "Subscription_Validate s = Some e \<Longrightarrow> err_is e ErrValidation"
  unfolding Subscription_Validate_def by (drule vresult_Some) simp

lemma User_Validate_error: "fst (User_Validate u) = Some e \<Longrightarrow> err_is e ErrValidation"
  unfolding User_Validate_def Let_def by (drule fst_conv [THEN subst]) (auto dest: vresult_Some)

lemma ProcessedWebhook_Validate_error:
  "ProcessedWebhook_Validate jv w = Some e \<Longrightarrow> err_is e ErrValidation"
  unfolding ProcessedWebhook_Validate_def by (drule vresult_Some) simp

end
