(* ===== verification/Store.thy ===== *)
theory Store
  imports Domain
begin

text \<open>
  The database as the repositories see it: the four tables of migrations/ as lists of rows,
  with the server's clock, the CHECK constraints, and the shape of an UPDATE.

  A row is checked against the table's CHECK constraints when it is written, in the order
  PostgreSQL checks them (by name), unique indexes next, foreign keys last; the
  \<open>set_updated_at\<close> trigger stamps a row that changed. \<open>now()\<close>,
  \<open>clock_timestamp()\<close> and Go's \<open>time.Now\<close> read the one clock. A \<open>metadata\<close>
  column is a Go string map, so the constraint that it is a JSON object holds by its type.
\<close>

section \<open>JSON values\<close>

datatype json =
    JNull
  | JBool bool
  | JNum string
  | JStr string
  | JArr "json list"
  | JObj "(string \<times> json) list"

fun is_JObj :: "json \<Rightarrow> bool" where
  "is_JObj (JObj _) \<longleftrightarrow> True"
| "is_JObj _ \<longleftrightarrow> False"

text \<open>The operators \<open>->\<close> and \<open>#>\<close>; \<open>None\<close> is SQL's NULL.\<close>

fun jget :: "string \<Rightarrow> json \<Rightarrow> json option" where
  "jget k (JObj kvs) = map_of kvs k"
| "jget k _ = None"

fun jpath :: "string list \<Rightarrow> json \<Rightarrow> json option" where
  "jpath [] j = Some j"
| "jpath (k # ks) j = (case jget k j of None \<Rightarrow> None | Some v \<Rightarrow> jpath ks v)"

text \<open>\<open>jsonb ?| text[]\<close>: a key of an object, an element of an array, or the string itself.\<close>

fun jhas_any :: "json \<Rightarrow> string list \<Rightarrow> bool" where
  "jhas_any (JObj kvs) ks \<longleftrightarrow> list_ex (\<lambda>(k, _). k \<in> set ks) kvs"
| "jhas_any (JArr xs) ks \<longleftrightarrow> list_ex (\<lambda>x. case x of JStr s \<Rightarrow> s \<in> set ks | _ \<Rightarrow> False) xs"
| "jhas_any (JStr s) ks \<longleftrightarrow> s \<in> set ks"
| "jhas_any _ ks \<longleftrightarrow> False"

text \<open>\<open>jsonb_build_object\<close> turns a NULL argument into JSON null.\<close>

definition jval :: "json option \<Rightarrow> json" where
  "jval v = (case v of None \<Rightarrow> JNull | Some j \<Rightarrow> j)"

fun jsonb_strip_nulls :: "json \<Rightarrow> json" where
  "jsonb_strip_nulls (JObj kvs) =
     JObj (concat (map (\<lambda>(k, v). if v = JNull then [] else [(k, jsonb_strip_nulls v)]) kvs))"
| "jsonb_strip_nulls (JArr xs) = JArr (map jsonb_strip_nulls xs)"
| "jsonb_strip_nulls j = j"

section \<open>Tables\<close>

record hook_row =
  h_event_id :: string
  h_event_type :: string
  h_api_version :: "string option"
  h_livemode :: bool
  h_request_id :: "string option"
  h_status :: webhook_status
  h_attempts :: int
  h_last_error :: "string option"
  h_payload :: "json option"
  h_stripe_created_at :: time
  h_received_at :: time
  h_processed_at :: "time option"
  h_created_at :: time
  h_updated_at :: time
  h_payload_purged_at :: "time option"

record db =
  clock :: time
  users :: "User list"
  subs :: "Subscription list"
  hooks :: "hook_row list"
  tokens :: "RefreshToken list"

section \<open>CHECK constraints\<close>

definition is_alnum :: "char \<Rightarrow> bool" where
  "is_alnum c \<longleftrightarrow> 48 \<le> byte c \<and> byte c \<le> 57 \<or> 65 \<le> byte c \<and> byte c \<le> 90 \<or>
                  97 \<le> byte c \<and> byte c \<le> 122"

definition is_alpha :: "char \<Rightarrow> bool" where
  "is_alpha c \<longleftrightarrow> 65 \<le> byte c \<and> byte c \<le> 90 \<or> 97 \<le> byte c \<and> byte c \<le> 122"

definition is_lower :: "char \<Rightarrow> bool" where
  "is_lower c \<longleftrightarrow> 97 \<le> byte c \<and> byte c \<le> 122"

definition is_space :: "char \<Rightarrow> bool" where
  "is_space c \<longleftrightarrow> byte c = 32 \<or> 9 \<le> byte c \<and> byte c \<le> 13"

text \<open>\<open>s ~ '^<prefix>[A-Za-z0-9]+$'\<close>.\<close>

definition id_format :: "string \<Rightarrow> string \<Rightarrow> bool" where
  "id_format p s \<longleftrightarrow> has_prefix s p \<and> drop (length p) s \<noteq> [] \<and> list_all is_alnum (drop (length p) s)"

text \<open>\<open>char_length\<close> counts the bytes that start a UTF-8 sequence.\<close>

definition rune_start :: "char \<Rightarrow> bool" where
  "rune_start c \<longleftrightarrow> byte c < 128 \<or> 192 \<le> byte c"

definition char_length :: "string \<Rightarrow> nat" where
  "char_length s = length (filter rune_start s)"

text \<open>\<open>email ~ '^[^@[:space:]]+@[^@[:space:]]+\.[A-Za-z]{2,}$'\<close>.\<close>

definition email_format :: "string \<Rightarrow> bool" where
  "email_format s \<longleftrightarrow>
     (let user = takeWhile (\<lambda>c. c \<noteq> CHR ''@'') s;
          dom = drop (Suc (length user)) s;
          tld = takeWhile (\<lambda>c. c \<noteq> CHR ''.'') (rev dom);
          host = drop (Suc (length tld)) (rev dom)
      in user \<noteq> [] \<and> length user < length s \<and> CHR ''@'' \<notin> set dom \<and>
         \<not> list_ex is_space s \<and> 2 \<le> length tld \<and> list_all is_alpha tld \<and> host \<noteq> [])"

type_synonym 'r checks = "(string \<times> ('r \<Rightarrow> bool)) list"

definition check_violation :: "string \<Rightarrow> string \<Rightarrow> pg_error" where
  "check_violation table c =
     PgError codeCheckViolation c
       (''new row for relation '' @ go_quote table @ '' violates check constraint '' @ go_quote c)"

definition check_row :: "string \<Rightarrow> 'r checks \<Rightarrow> 'r \<Rightarrow> pg_error option" where
  "check_row table cs r =
     map_option (\<lambda>(c, _). check_violation table c) (find (\<lambda>(c, ok). \<not> ok r) cs)"

definition passes :: "'r checks \<Rightarrow> 'r \<Rightarrow> bool" where
  "passes cs r \<longleftrightarrow> list_all (\<lambda>(c, ok). ok r) cs"

lemma check_row_None: "check_row t cs r = None \<longleftrightarrow> passes cs r"
  by (auto simp: check_row_def passes_def find_None_iff list_all_iff)

lemma check_row_Some: "check_row t cs r = Some e \<Longrightarrow> \<exists>c m. e = PgError codeCheckViolation c m"
  by (auto simp: check_row_def check_violation_def)

definition user_checks :: "User checks" where
  "user_checks =
    [(''users_email_format_chk'', \<lambda>u. email_format (u_Email u)),
     (''users_email_length_chk'', \<lambda>u. 3 \<le> char_length (u_Email u) \<and> char_length (u_Email u) \<le> 320),
     (''users_stripe_customer_id_format_chk'',
        \<lambda>u. case u_StripeCustomerID u of None \<Rightarrow> True | Some c \<Rightarrow> id_format ''cus_'' c)]"

definition sub_checks :: "Subscription checks" where
  "sub_checks =
    [(''subscriptions_canceled_at_chk'',
        \<lambda>s. s_Status s \<noteq> SubscriptionCanceled \<or> s_CanceledAt s \<noteq> None),
     (''subscriptions_currency_format_chk'',
        \<lambda>s. case s_Currency s of None \<Rightarrow> True | Some c \<Rightarrow> length c = 3 \<and> list_all is_lower c),
     (''subscriptions_dunning_consistency_chk'',
        \<lambda>s. (s_PaymentFailedAt s = None \<and> s_PaymentFailureCount s = 0) \<or>
            (s_PaymentFailedAt s \<noteq> None \<and> 0 < s_PaymentFailureCount s)),
     (''subscriptions_payment_failure_count_chk'', \<lambda>s. 0 \<le> s_PaymentFailureCount s),
     (''subscriptions_period_order_chk'', \<lambda>s. s_CurrentPeriodStart s < s_CurrentPeriodEnd s),
     (''subscriptions_quantity_positive_chk'', \<lambda>s. 0 < s_Quantity s),
     (''subscriptions_stripe_customer_id_format_chk'', \<lambda>s. id_format ''cus_'' (s_StripeCustomerID s)),
     (''subscriptions_stripe_price_id_format_chk'', \<lambda>s. id_format ''price_'' (s_StripePriceID s)),
     (''subscriptions_stripe_subscription_id_format_chk'',
        \<lambda>s. id_format ''sub_'' (s_StripeSubscriptionID s)),
     (''subscriptions_trial_order_chk'', \<lambda>s. trial_order (s_TrialStart s) (s_TrialEnd s)),
     (''subscriptions_unit_amount_non_negative_chk'',
        \<lambda>s. case s_UnitAmount s of None \<Rightarrow> True | Some a \<Rightarrow> 0 \<le> a)]"

definition settled_status :: "webhook_status \<Rightarrow> bool" where
  "settled_status s \<longleftrightarrow> s = WebhookSucceeded \<or> s = WebhookSkipped"

definition pii_keys :: "string list" where
  "pii_keys = [''customer_details'', ''billing_details'', ''customer_email'']"

text \<open>
  A payload marked as purged holds none of the personal fields under data.object: it is NULL,
  or data is not an object, or data.object does not have them.
\<close>

definition purged_payload_ok :: "hook_row \<Rightarrow> bool" where
  "purged_payload_ok h \<longleftrightarrow>
     h_payload_purged_at h = None \<or>
     (case h_payload h of
        None \<Rightarrow> True
      | Some j \<Rightarrow>
          \<not> ((case jget ''data'' j of None \<Rightarrow> False | Some v \<Rightarrow> is_JObj v) \<and>
             (case jpath [''data'', ''object''] j of
                None \<Rightarrow> False | Some v \<Rightarrow> jhas_any v pii_keys)))"

definition hook_checks :: "hook_row checks" where
  "hook_checks =
    [(''processed_webhooks_attempts_positive_chk'', \<lambda>h. 1 \<le> h_attempts h),
     (''processed_webhooks_event_id_format_chk'', \<lambda>h. id_format ''evt_'' (h_event_id h)),
     (''processed_webhooks_event_type_not_blank_chk'',
        \<lambda>h. list_ex (\<lambda>c. c \<noteq> CHR '' '') (h_event_type h)),
     (''processed_webhooks_last_error_chk'', \<lambda>h. h_status h \<noteq> WebhookFailed \<or> h_last_error h \<noteq> None),
     (''processed_webhooks_payload_is_object_chk'',
        \<lambda>h. case h_payload h of None \<Rightarrow> True | Some j \<Rightarrow> is_JObj j),
     (''processed_webhooks_processed_at_chk'',
        \<lambda>h. settled_status (h_status h) \<longleftrightarrow> h_processed_at h \<noteq> None),
     (''processed_webhooks_purged_payload_chk'', purged_payload_ok)]"

definition is_hex :: "char \<Rightarrow> bool" where
  "is_hex c \<longleftrightarrow> 48 \<le> byte c \<and> byte c \<le> 57 \<or> 97 \<le> byte c \<and> byte c \<le> 102"

definition token_checks :: "RefreshToken checks" where
  "token_checks =
    [(''refresh_tokens_expiry_after_issue_chk'', \<lambda>t. t_IssuedAt t < t_ExpiresAt t),
     (''refresh_tokens_revoked_reason_chk'', \<lambda>t. t_RevokedAt t = None \<or> t_RevokedReason t \<noteq> None),
     (''refresh_tokens_token_hash_format_chk'',
        \<lambda>t. length (t_TokenHash t) = 64 \<and> list_all is_hex (t_TokenHash t))]"

lemmas checks_defs = user_checks_def sub_checks_def hook_checks_def token_checks_def

definition unique_violation :: "string \<Rightarrow> pg_error" where
  "unique_violation c =
     PgError codeUniqueViolation c (''duplicate key value violates unique constraint '' @ go_quote c)"

definition fk_violation :: "string \<Rightarrow> string \<Rightarrow> pg_error" where
  "fk_violation table c =
     PgError codeForeignKeyViolation c
       (''insert or update on table '' @ go_quote table @ '' violates foreign key constraint '' @ go_quote c)"

definition int4_out_of_range :: pg_error where
  "int4_out_of_range = PgError codeNumericOutOfRange [] ''integer out of range''"

definition invalid_limit :: pg_error where
  "invalid_limit = PgError codeInvalidLimit [] ''LIMIT must not be negative''"

section \<open>Statements over a table\<close>

text \<open>
  An UPDATE: the rows that satisfy the predicate are replaced, every other row stays; the
  first row that cannot be written aborts the statement. It returns the rows it wrote and
  the table it leaves.
\<close>

fun sql_update :: "('r \<Rightarrow> bool) \<Rightarrow> ('r \<Rightarrow> pg_error + 'r) \<Rightarrow> 'r list \<Rightarrow> pg_error + ('r list \<times> 'r list)" where
  "sql_update P f [] = Inr ([], [])"
| "sql_update P f (r # rs) =
     (if P r
      then (case f r of
              Inl e \<Rightarrow> Inl e
            | Inr r' \<Rightarrow> (case sql_update P f rs of
                           Inl e \<Rightarrow> Inl e
                         | Inr (hit, all) \<Rightarrow> Inr (r' # hit, r' # all)))
      else (case sql_update P f rs of
              Inl e \<Rightarrow> Inl e
            | Inr (hit, all) \<Rightarrow> Inr (hit, r # all)))"

text \<open>The rows a scan visits: ORDER BY, rows locked by others passed over, LIMIT.\<close>

definition scan_limit :: "('r \<Rightarrow> time) \<Rightarrow> ('r \<Rightarrow> bool) \<Rightarrow> ('r \<Rightarrow> bool) \<Rightarrow> int \<Rightarrow> 'r list \<Rightarrow> 'r list" where
  "scan_limit key P lockedr lim rows =
     take (nat lim) (filter (\<lambda>r. P r \<and> \<not> lockedr r) (sort_key key rows))"

text \<open>
  Writing one row: the trigger \<open>set_updated_at\<close> fires when the row differs from the stored
  one, then the CHECK constraints are tested.
\<close>

definition write_row ::
  "string \<Rightarrow> 'r checks \<Rightarrow> ('r \<Rightarrow> 'r) \<Rightarrow> ('r \<Rightarrow> 'r) \<Rightarrow> 'r \<Rightarrow> pg_error + 'r" where
  "write_row table cs touch upd r =
     (let r1 = upd r; r2 = (if r1 = r then r1 else touch r1)
      in case check_row table cs r2 of Some e \<Rightarrow> Inl e | None \<Rightarrow> Inr r2)"

definition touch_hook :: "db \<Rightarrow> hook_row \<Rightarrow> hook_row" where
  "touch_hook d h = h\<lparr>h_updated_at := clock d\<rparr>"

definition touch_sub :: "db \<Rightarrow> Subscription \<Rightarrow> Subscription" where
  "touch_sub d s = s\<lparr>s_UpdatedAt := clock d\<rparr>"

definition touch_user :: "db \<Rightarrow> User \<Rightarrow> User" where
  "touch_user d u = u\<lparr>u_UpdatedAt := clock d\<rparr>"

definition touch_token :: "db \<Rightarrow> RefreshToken \<Rightarrow> RefreshToken" where
  "touch_token d t = t\<lparr>t_UpdatedAt := clock d\<rparr>"

definition row_step :: "('r \<Rightarrow> bool) \<Rightarrow> ('r \<Rightarrow> pg_error + 'r) \<Rightarrow> 'r \<Rightarrow> 'r \<Rightarrow> bool" where
  "row_step P f r r' \<longleftrightarrow> (if P r then f r = Inr r' else r' = r)"

lemma sql_update_rel:
  assumes "sql_update P f rs = Inr (hit, all)"
  shows "list_all2 (row_step P f) rs all"
  using assms
  by (induction rs arbitrary: hit all)
     (auto simp: row_step_def split: if_splits sum.splits prod.splits)

lemma sql_update_hit:
  assumes "sql_update P f rs = Inr (hit, all)"
  shows "list_all2 (\<lambda>r r'. f r = Inr r') (filter P rs) hit"
  using assms
  by (induction rs arbitrary: hit all) (auto split: if_splits sum.splits prod.splits)

lemma sql_update_none:
  "(\<And>r. r \<in> set rs \<Longrightarrow> \<not> P r) \<Longrightarrow> sql_update P f rs = Inr ([], rs)"
  by (induction rs) auto

lemma sql_update_hit_sub: "sql_update P f rs = Inr (hit, all) \<Longrightarrow> set hit \<subseteq> set all"
  by (induction rs arbitrary: hit all) (auto split: if_splits sum.splits prod.splits)

lemma sql_update_error:
  "sql_update P f rs = Inl e \<Longrightarrow> \<exists>r \<in> set rs. P r \<and> f r = Inl e"
  by (induction rs) (auto split: if_splits sum.splits prod.splits)

lemma sql_update_total:
  "(\<And>r. r \<in> set rs \<Longrightarrow> P r \<Longrightarrow> f r = Inr (g r)) \<Longrightarrow>
   sql_update P f rs = Inr (map g (filter P rs), map (\<lambda>r. if P r then g r else r) rs)"
  by (induction rs) auto

text \<open>An UPDATE keyed by a column it does not change writes at most the one row with the key.\<close>

lemma sql_update_key:
  assumes "distinct (map k rs)" "r \<in> set rs" "P r"
    and "\<And>x. x \<in> set rs \<Longrightarrow> P x \<Longrightarrow> k x = k r" "f r = Inr r'"
  shows "sql_update P f rs = Inr ([r'], map (\<lambda>x. if k x = k r then r' else x) rs)"
proof -
  have same: "x = r" if "x \<in> set rs" "k x = k r" for x
    using assms(1,2) that by (auto simp: distinct_map inj_on_def)
  have *: "sql_update P f rs = Inr (map (\<lambda>_. r') (filter P rs), map (\<lambda>x. if P x then r' else x) rs)"
    using assms(3-5) same by (intro sql_update_total) auto
  have "filter P rs = filter (\<lambda>x. k x = k r) rs"
    using assms(3,4) same by (intro filter_cong) auto
  then have "map (\<lambda>_. r') (filter P rs) = [r']"
    using filter_key_unique [OF assms(1,2)] by simp
  moreover have "map (\<lambda>x. if P x then r' else x) rs = map (\<lambda>x. if k x = k r then r' else x) rs"
    using assms(3,4) same by auto
  ultimately show ?thesis using * by simp
qed

lemma write_row_ok:
  "write_row t cs touch upd r = Inr r' \<longleftrightarrow>
     r' = (if upd r = r then upd r else touch (upd r)) \<and> passes cs r'"
  by (cases "check_row t cs (if upd r = r then upd r else touch (upd r))")
     (auto simp: write_row_def Let_def check_row_None [symmetric, of cs _ t])

lemma write_row_error:
  "write_row t cs touch upd r = Inl e \<Longrightarrow> \<exists>c m. e = PgError codeCheckViolation c m"
  by (auto simp: write_row_def Let_def split: option.splits dest: check_row_Some)

lemma scan_limit_set: "r \<in> set (scan_limit key P l lim rows) \<Longrightarrow> r \<in> set rows \<and> P r \<and> \<not> l r"
  by (auto simp: scan_limit_def dest: in_set_takeD)

lemma scan_limit_length: "length (scan_limit key P l lim rows) \<le> nat lim"
  by (simp add: scan_limit_def)

section \<open>Tables that only grow\<close>

text \<open>
  A table with a unique key grows: no row disappears, each row evolves in a way the relation
  \<open>evolves\<close> allows, and new rows come after the old ones under new keys. The locale holds
  what the laws of \<open>evolves\<close> give for whole tables.
\<close>

definition table_grows :: "('r \<Rightarrow> 'k) \<Rightarrow> ('r \<Rightarrow> 'r \<Rightarrow> bool) \<Rightarrow> 'r list \<Rightarrow> 'r list \<Rightarrow> bool" where
  "table_grows key evolves rs rs' \<longleftrightarrow>
     (distinct (map key rs) \<longrightarrow>
        distinct (map key rs') \<and> (\<exists>old new. rs' = old @ new \<and> list_all2 evolves rs old))"

locale row_evolution =
  fixes key :: "'r \<Rightarrow> 'k" and evolves :: "'r \<Rightarrow> 'r \<Rightarrow> bool"
  assumes evolves_refl: "evolves r r"
    and evolves_trans: "evolves r1 r2 \<Longrightarrow> evolves r2 r3 \<Longrightarrow> evolves r1 r3"
    and evolves_key: "evolves r r' \<Longrightarrow> key r' = key r"
begin

lemma grows_all2:
  "(distinct (map key rs) \<Longrightarrow> list_all2 evolves rs rs') \<Longrightarrow> table_grows key evolves rs rs'"
  unfolding table_grows_def
  using list_all2_map_eq [of evolves rs rs' key key] evolves_key
  by (auto intro: exI [of _ "[]"])

lemma grows_refl: "table_grows key evolves rs rs"
  by (rule grows_all2) (simp add: list_all2_same evolves_refl)

lemma grows_append:
  assumes "\<And>x. x \<in> set rs \<Longrightarrow> key x \<noteq> key r"
  shows "table_grows key evolves rs (rs @ [r])"
  unfolding table_grows_def
proof (intro impI conjI exI)
  assume "distinct (map key rs)"
  then show "distinct (map key (rs @ [r]))"
    using assms by (simp add: image_iff) metis
  show "rs @ [r] = rs @ [r]" ..
  show "list_all2 evolves rs rs" by (simp add: list_all2_same evolves_refl)
qed

lemma grows_trans:
  assumes "table_grows key evolves a b" "table_grows key evolves b c"
  shows "table_grows key evolves a c"
  unfolding table_grows_def
proof (intro impI)
  assume "distinct (map key a)"
  then obtain o1 n1 where b: "distinct (map key b)" "b = o1 @ n1" "list_all2 evolves a o1"
    using assms(1) by (auto simp: table_grows_def)
  then obtain o2 n2 where c: "distinct (map key c)" "c = o2 @ n2" "list_all2 evolves b o2"
    using assms(2) by (auto simp: table_grows_def)
  from c(3) b(2) obtain o3 n3 where o2: "o2 = o3 @ n3" "list_all2 evolves o1 o3"
    by (auto simp: list_all2_append1)
  with b(3) have "list_all2 evolves a o3"
    using list_all2_trans [of evolves evolves evolves] evolves_trans by blast
  then show "distinct (map key c) \<and> (\<exists>old new. c = old @ new \<and> list_all2 evolves a old)"
    using c o2 by auto
qed

lemma grows_row:
  assumes "table_grows key evolves rs rs'" "distinct (map key rs)" "r \<in> set rs"
  shows "\<exists>r' \<in> set rs'. evolves r r'"
proof -
  obtain old new where "rs' = old @ new" "list_all2 evolves rs old"
    using assms(1,2) by (auto simp: table_grows_def)
  with list_all2_mem [OF this(2) assms(3)] show ?thesis by auto
qed

text \<open>An UPDATE grows the table if it evolves each row it writes.\<close>

lemma grows_update:
  assumes "sql_update P f rs = Inr (hit, rs')"
    and "\<And>r r'. distinct (map key rs) \<Longrightarrow> r \<in> set rs \<Longrightarrow> P r \<Longrightarrow> f r = Inr r' \<Longrightarrow> evolves r r'"
  shows "table_grows key evolves rs rs'"
proof (rule grows_all2)
  assume "distinct (map key rs)"
  have "list_all2 (\<lambda>r r'. r \<in> set rs \<and> row_step P f r r') rs rs'"
    by (rule list_all2_conj_left [OF sql_update_rel [OF assms(1)]])
  then show "list_all2 evolves rs rs'"
    by (rule list_all2_mono)
       (use assms(2) \<open>distinct (map key rs)\<close> evolves_refl in \<open>auto simp: row_step_def split: if_splits\<close>)
qed

end

end
