(* ===== verification/Exec.thy ===== *)
theory Exec
  imports Store
begin

text \<open>
  Running programs against the database.

  A worker is not alone and its calls can fail. Before each statement of a worker the
  environment takes a step, an \<open>env_step\<close> of the plan: the other workers change the database
  in any way (\<open>es_others\<close>, the clock included), hold some rows locked (what
  \<open>SKIP LOCKED\<close> passes over), the server draws a random uuid, and the statement runs, is
  never sent, or takes effect while its reply is lost. A plan that has run out means a quiet
  environment. A transaction that locks its row takes place at the lock: the others' changes
  come before the lock is granted or after the commit, and a rollback returns to the state at
  the lock. \<open>ctx.Err()\<close> answers from a list of polls.

  \<open>keeps R m\<close> is the rely-guarantee statement of the development: if every step of the
  environment satisfies \<open>R\<close>, so does the program \<open>m\<close>, from before its first statement to
  after its last. The locale \<open>db_relation\<close> proves its composition rules once, for every
  reflexive and transitive relation on databases.
\<close>

section \<open>The world\<close>

datatype fault = NoFault | NotSent string | ReplyLost string

record env_step =
  es_others :: "db \<Rightarrow> db"
  es_locked :: "string list"
  es_rand :: uuid
  es_fault :: fault

datatype level = Debug | Info | Warn | Error

text \<open>Calls on the metrics registry, with their label values.\<close>

datatype metric =
    ObserveWebhook string string duration
  | SetLedger int int int
  | SetDunning int
  | SetPayloadsPastWindow int
  | IncAuth string string
  | IncTokenRefresh string
  | IncInFlight
  | DecInFlight
  | ObserveRequest string string string duration int

text \<open>
  A client's bucket in the rate limiter: the calls made on its limiter so far, which is all
  its state can depend on, and when it was last seen.
\<close>

datatype limiter_call = ReserveN time | CancelAt time

record bucket =
  bk_limiter :: "limiter_call list"
  bk_lastSeen :: time

text \<open>
  Beside the database the world holds what lives in the process: the rate limiter's buckets,
  how many draws were made from the random source, the digests bcrypt compared, metrics and
  log lines.
\<close>

record world =
  w_db :: db
  w_plan :: "env_step list"
  w_polls :: "bool list"
  w_buckets :: "(string \<times> bucket) list"
  w_draws :: nat
  w_compares :: "string list"
  w_metrics :: "metric list"
  w_logs :: "(level \<times> string) list"

type_synonym 'a prog = "(world, 'a) state"
type_synonym 'a result = "goerr + 'a"

definition fresh_uuid :: "db \<Rightarrow> uuid" where
  "fresh_uuid d =
     Suc (foldr max (map u_ID (users d) @ map s_ID (subs d) @ map t_ID (tokens d)) 0)"

definition quiet_step :: "db \<Rightarrow> env_step" where
  "quiet_step d = \<lparr>es_others = id, es_locked = [], es_rand = fresh_uuid d, es_fault = NoFault\<rparr>"

definition next_step :: "world \<Rightarrow> env_step \<times> world" where
  "next_step w =
     (case w_plan w of
        [] \<Rightarrow> (quiet_step (w_db w), w)
      | s # rest \<Rightarrow> (s, w\<lparr>w_plan := rest\<rparr>))"

definition quiet :: "db \<Rightarrow> world" where
  "quiet d = \<lparr>w_db = d, w_plan = [], w_polls = [], w_buckets = [], w_draws = 0, w_compares = [], w_metrics = [], w_logs = []\<rparr>"

section \<open>Statements\<close>

text \<open>
  A statement is a function from the environment's step and the database to an error or a
  reply and the new database. An error is marked by whether the driver reports it on sending
  the query or on reading its rows.
\<close>

type_synonym 'a stmt = "env_step \<Rightarrow> db \<Rightarrow> pg_error + 'a \<times> db"

datatype phase = OnSend | OnRead

definition exec :: "bool \<Rightarrow> 'a stmt \<Rightarrow> (phase \<times> pg_error + 'a) prog" where
  "exec shared body = State (\<lambda>w.
     let (s, w1) = next_step w;
         d = (if shared then es_others s (w_db w1) else w_db w1)
     in case es_fault s of
          NotSent m \<Rightarrow> (Inl (OnSend, DriverError m), w1\<lparr>w_db := d\<rparr>)
        | NoFault \<Rightarrow> (case body s d of
                         Inl e \<Rightarrow> (Inl (OnRead, e), w1\<lparr>w_db := d\<rparr>)
                       | Inr (a, d') \<Rightarrow> (Inr a, w1\<lparr>w_db := d'\<rparr>))
        | ReplyLost m \<Rightarrow>
            (Inl (OnRead, DriverError m),
             w1\<lparr>w_db := (case body s d of Inl e \<Rightarrow> d | Inr (a, d') \<Rightarrow> d')\<rparr>))"

text \<open>\<open>pool.QueryRow\<close> and \<open>pool.Exec\<close>; the same on a transaction; \<open>pool.Query\<close>.\<close>

definition run_stmt :: "'a stmt \<Rightarrow> (pg_error + 'a) prog" where
  "run_stmt body = do { r \<leftarrow> exec True body; State_Monad.return (map_sum snd id r) }"

definition tx_stmt :: "'a stmt \<Rightarrow> (pg_error + 'a) prog" where
  "tx_stmt body = do { r \<leftarrow> exec False body; State_Monad.return (map_sum snd id r) }"

definition query_rows :: "string \<Rightarrow> 'a stmt \<Rightarrow> 'a result prog" where
  "query_rows op body = do {
     r \<leftarrow> exec True body;
     State_Monad.return (case r of
       Inl (OnSend, e) \<Rightarrow> Inl (map_error op e)
     | Inl (OnRead, e) \<Rightarrow> Inl (map_error (op @ '': iterate'') e)
     | Inr a \<Rightarrow> Inr a) }"

text \<open>
  A transaction: \<open>Begin\<close>, the statement that locks its row, the rest, which decides whether
  to commit and with what result, and \<open>Commit\<close>. \<open>defer tx.Rollback\<close> undoes everything
  since the lock on every other path.
\<close>

datatype 'a verdict = Abort goerr | Commit string "'a result"

definition set_db :: "db \<Rightarrow> unit prog" where
  "set_db d = State (\<lambda>w. ((), w\<lparr>w_db := d\<rparr>))"

definition get_db :: "db prog" where
  "get_db = State (\<lambda>w. (w_db w, w))"

definition commit_stmt :: "unit stmt" where
  "commit_stmt s d = Inr ((), d)"

definition commit_tx :: "db \<Rightarrow> string \<Rightarrow> 'a result \<Rightarrow> 'a result prog" where
  "commit_tx d0 op res = do {
     r \<leftarrow> exec False commit_stmt;
     (case r of
        Inr _ \<Rightarrow> State_Monad.return res
      | Inl (OnSend, e) \<Rightarrow> do { set_db d0; State_Monad.return (Inl (map_error op e)) }
      | Inl (OnRead, e) \<Rightarrow> State_Monad.return (Inl (map_error op e))) }"

definition after_lock :: "('a \<Rightarrow> 'b verdict prog) \<Rightarrow> 'a \<Rightarrow> 'b result prog" where
  "after_lock rest a = do {
     d0 \<leftarrow> get_db;
     v \<leftarrow> rest a;
     (case v of
        Abort e \<Rightarrow> do { set_db d0; State_Monad.return (Inl e) }
      | Commit op res \<Rightarrow> commit_tx d0 op res) }"

definition transaction ::
  "string \<Rightarrow> string \<Rightarrow> 'a stmt \<Rightarrow> ('a \<Rightarrow> 'b verdict prog) \<Rightarrow> 'b result prog" where
  "transaction begin_op lock_op lock rest = do {
     b \<leftarrow> run_stmt commit_stmt;
     (case b of
        Inl e \<Rightarrow> State_Monad.return (Inl (map_error begin_op e))
      | Inr _ \<Rightarrow> do {
          l \<leftarrow> run_stmt lock;
          (case l of
             Inl e \<Rightarrow> State_Monad.return (Inl (map_error lock_op e))
           | Inr a \<Rightarrow> after_lock rest a) }) }"

section \<open>Logging, metrics, time, cancellation\<close>

definition log_line :: "level \<Rightarrow> string \<Rightarrow> unit prog" where
  "log_line l m = State (\<lambda>w. ((), w\<lparr>w_logs := w_logs w @ [(l, m)]\<rparr>))"

definition observe :: "bool \<Rightarrow> metric \<Rightarrow> unit prog" where
  "observe on m = State (\<lambda>w. ((), if on then w\<lparr>w_metrics := w_metrics w @ [m]\<rparr> else w))"

definition get_now :: "time prog" where
  "get_now = State (\<lambda>w. (clock (w_db w), w))"

text \<open>The number of the next draw from the process's random source.\<close>

definition draw :: "nat prog" where
  "draw = State (\<lambda>w. (w_draws w, w\<lparr>w_draws := Suc (w_draws w)\<rparr>))"

definition note_compare :: "string \<Rightarrow> unit prog" where
  "note_compare digest = State (\<lambda>w. ((), w\<lparr>w_compares := w_compares w @ [digest]\<rparr>))"

definition get_buckets :: "(string \<times> bucket) list prog" where
  "get_buckets = State (\<lambda>w. (w_buckets w, w))"

definition set_buckets :: "(string \<times> bucket) list \<Rightarrow> unit prog" where
  "set_buckets bs = State (\<lambda>w. ((), w\<lparr>w_buckets := bs\<rparr>))"

definition ctx_err :: "bool prog" where
  "ctx_err = State (\<lambda>w. case w_polls w of [] \<Rightarrow> (False, w) | b # bs \<Rightarrow> (b, w\<lparr>w_polls := bs\<rparr>))"

section \<open>Evaluation in a quiet world\<close>

lemma run_bind [simp]:
  "run_state (State_Monad.bind m f) w = (case run_state m w of (a, w') \<Rightarrow> run_state (f a) w')"
  by (simp add: State_Monad.bind_def)

lemma exec_quiet:
  assumes "w_plan w = []"
  shows "run_state (exec b body) w =
    (case body (quiet_step (w_db w)) (w_db w) of
       Inl e \<Rightarrow> (Inl (OnRead, e), w) | Inr (a, d') \<Rightarrow> (Inr a, w\<lparr>w_db := d'\<rparr>))"
  using assms by (simp add: exec_def next_step_def quiet_step_def split: sum.splits)

lemma run_stmt_quiet:
  assumes "w_plan w = []"
  shows "run_state (run_stmt body) w =
    (case body (quiet_step (w_db w)) (w_db w) of
       Inl e \<Rightarrow> (Inl e, w) | Inr (a, d') \<Rightarrow> (Inr a, w\<lparr>w_db := d'\<rparr>))"
  by (simp add: run_stmt_def exec_quiet [OF assms] split: sum.splits prod.splits)

lemma tx_stmt_quiet:
  assumes "w_plan w = []"
  shows "run_state (tx_stmt body) w =
    (case body (quiet_step (w_db w)) (w_db w) of
       Inl e \<Rightarrow> (Inl e, w) | Inr (a, d') \<Rightarrow> (Inr a, w\<lparr>w_db := d'\<rparr>))"
  by (simp add: tx_stmt_def exec_quiet [OF assms] split: sum.splits prod.splits)

lemma query_rows_quiet:
  assumes "w_plan w = []"
  shows "run_state (query_rows op body) w =
    (case body (quiet_step (w_db w)) (w_db w) of
       Inl e \<Rightarrow> (Inl (map_error (op @ '': iterate'') e), w)
     | Inr (a, d') \<Rightarrow> (Inr a, w\<lparr>w_db := d'\<rparr>))"
  by (simp add: query_rows_def exec_quiet [OF assms] split: sum.splits prod.splits)

lemma commit_quiet: "w_plan w = [] \<Longrightarrow> run_state (commit_tx d0 op res) w = (res, w)"
  by (simp add: commit_tx_def exec_quiet commit_stmt_def)

lemma begin_quiet: "w_plan w = [] \<Longrightarrow> run_state (run_stmt commit_stmt) w = (Inr (), w)"
  by (simp add: run_stmt_quiet commit_stmt_def)

lemma effects_run [simp]:
  "run_state (log_line l m) w = ((), w\<lparr>w_logs := w_logs w @ [(l, m)]\<rparr>)"
  "run_state (observe on x) w = ((), if on then w\<lparr>w_metrics := w_metrics w @ [x]\<rparr> else w)"
  "run_state get_now w = (clock (w_db w), w)"
  "run_state draw w = (w_draws w, w\<lparr>w_draws := Suc (w_draws w)\<rparr>)"
  "run_state (note_compare x2) w = ((), w\<lparr>w_compares := w_compares w @ [x2]\<rparr>)"
  "run_state get_buckets w = (w_buckets w, w)"
  "run_state (set_buckets bs) w = ((), w\<lparr>w_buckets := bs\<rparr>)"
  "run_state get_db w = (w_db w, w)"
  "run_state (set_db d) w = ((), w\<lparr>w_db := d\<rparr>)"
  by (simp_all add: log_line_def observe_def get_now_def draw_def note_compare_def
      get_buckets_def set_buckets_def get_db_def set_db_def)

lemma ctx_err_quiet [simp]: "w_polls w = [] \<Longrightarrow> run_state ctx_err w = (False, w)"
  by (simp add: ctx_err_def)

text \<open>A transaction in a quiet world, with a lock that reads.\<close>

lemma transaction_quiet:
  assumes "w_plan w = []" "\<And>s d a d'. lock s d = Inr (a, d') \<Longrightarrow> d' = d"
  shows "run_state (transaction bo lo lock rest) w =
    (case lock (quiet_step (w_db w)) (w_db w) of
       Inl e \<Rightarrow> (Inl (map_error lo e), w)
     | Inr (a, _) \<Rightarrow> run_state (after_lock rest a) w)"
proof (cases "lock (quiet_step (w_db w)) (w_db w)")
  case (Inr ad)
  then have "snd ad = w_db w" using assms(2) by (metis prod.collapse)
  with Inr show ?thesis
    using assms(1) by (simp add: transaction_def commit_stmt_def run_stmt_quiet case_prod_beta)
qed (simp add: transaction_def commit_stmt_def run_stmt_quiet assms(1))

text \<open>A reply means that the statement ran on some database.\<close>

lemma run_stmt_Inr:
  "run_state (run_stmt body) w = (Inr a, w1) \<Longrightarrow> \<exists>s d. body s d = Inr (a, w_db w1)"
  by (auto simp: run_stmt_def exec_def Let_def split: prod.splits fault.splits sum.splits) blast

lemmas quiet_simps = exec_quiet run_stmt_quiet tx_stmt_quiet query_rows_quiet commit_quiet begin_quiet

lemma quiet_fields [simp]:
  "w_db (quiet d) = d" "w_plan (quiet d) = []" "w_polls (quiet d) = []"
  by (simp_all add: quiet_def)

lemma quiet_step_fields [simp]:
  "es_others (quiet_step d) = id" "es_locked (quiet_step d) = []" "es_fault (quiet_step d) = NoFault"
  "es_rand (quiet_step d) = fresh_uuid d"
  by (simp_all add: quiet_step_def)

section \<open>Relations kept by programs\<close>

definition env_ok :: "(db \<Rightarrow> db \<Rightarrow> bool) \<Rightarrow> world \<Rightarrow> bool" where
  "env_ok R w \<longleftrightarrow> (\<forall>s \<in> set (w_plan w). \<forall>d. R d (es_others s d))"

text \<open>A program uses up the first steps of the plan and the first polls, so a quiet world stays quiet.\<close>

definition advances :: "world \<Rightarrow> world \<Rightarrow> bool" where
  "advances w w' \<longleftrightarrow> suffix (w_plan w') (w_plan w) \<and> suffix (w_polls w') (w_polls w)"

definition keeps_if :: "(db \<Rightarrow> bool) \<Rightarrow> (db \<Rightarrow> db \<Rightarrow> bool) \<Rightarrow> 'a prog \<Rightarrow> bool" where
  "keeps_if P R m \<longleftrightarrow> (\<forall>w a w'. P (w_db w) \<longrightarrow> env_ok R w \<longrightarrow> run_state m w = (a, w') \<longrightarrow>
     R (w_db w) (w_db w') \<and> advances w w')"

definition keeps :: "(db \<Rightarrow> db \<Rightarrow> bool) \<Rightarrow> 'a prog \<Rightarrow> bool" where
  "keeps R m \<longleftrightarrow> keeps_if (\<lambda>d. True) R m"

text \<open>A statement alone satisfies \<open>R\<close> whenever it has an effect.\<close>

definition stmt_ok :: "(db \<Rightarrow> db \<Rightarrow> bool) \<Rightarrow> 'a stmt \<Rightarrow> bool" where
  "stmt_ok R body \<longleftrightarrow> (\<forall>s d a d'. body s d = Inr (a, d') \<longrightarrow> R d d')"

lemma env_ok_quiet [simp]: "env_ok R (quiet d)"
  by (simp add: env_ok_def)

lemma advances_refl [simp]: "advances w w"
  by (simp add: advances_def)

lemma advances_trans: "advances w1 w2 \<Longrightarrow> advances w2 w3 \<Longrightarrow> advances w1 w3"
  unfolding advances_def by (auto intro: suffix_order.trans)

lemma advances_env_ok: "advances w w' \<Longrightarrow> env_ok R w \<Longrightarrow> env_ok R w'"
  by (auto simp: advances_def env_ok_def suffix_def)

lemma advances_quiet: "advances w w' \<Longrightarrow> w_plan w = [] \<Longrightarrow> w_plan w' = []"
  by (simp add: advances_def)

lemma advances_polls: "advances w w' \<Longrightarrow> w_polls w = [] \<Longrightarrow> w_polls w' = []"
  by (simp add: advances_def)

lemma stmt_okI: "(\<And>s d a d'. body s d = Inr (a, d') \<Longrightarrow> R d d') \<Longrightarrow> stmt_ok R body"
  by (auto simp: stmt_ok_def)

lemma stmt_okD: "stmt_ok R body \<Longrightarrow> body s d = Inr (a, d') \<Longrightarrow> R d d'"
  by (auto simp: stmt_ok_def)

lemma keeps_ifI:
  "(\<And>w a w'. P (w_db w) \<Longrightarrow> env_ok R w \<Longrightarrow> run_state m w = (a, w') \<Longrightarrow>
      R (w_db w) (w_db w') \<and> advances w w') \<Longrightarrow> keeps_if P R m"
  by (auto simp: keeps_if_def)

lemma keeps_ifD:
  "keeps_if P R m \<Longrightarrow> P (w_db w) \<Longrightarrow> env_ok R w \<Longrightarrow> run_state m w = (a, w') \<Longrightarrow>
   R (w_db w) (w_db w') \<and> advances w w' \<and> env_ok R w'"
  unfolding keeps_if_def using advances_env_ok by blast

lemma keepsI:
  "(\<And>w a w'. env_ok R w \<Longrightarrow> run_state m w = (a, w') \<Longrightarrow> R (w_db w) (w_db w') \<and> advances w w') \<Longrightarrow>
   keeps R m"
  by (simp add: keeps_def keeps_ifI)

lemma keepsD:
  "keeps R m \<Longrightarrow> env_ok R w \<Longrightarrow> run_state m w = (a, w') \<Longrightarrow>
   R (w_db w) (w_db w') \<and> advances w w' \<and> env_ok R w'"
  unfolding keeps_def by (erule keeps_ifD) auto

lemma keeps_keeps_if: "keeps R m \<Longrightarrow> keeps_if P R m"
  by (simp add: keeps_def keeps_if_def)

text \<open>What running one statement does, whatever the driver reports.\<close>

lemma next_step_advances:
  assumes "next_step w = (s, w1)"
  shows "advances w w1" "w_db w1 = w_db w"
  using assms by (auto simp: next_step_def advances_def suffix_def split: list.splits)

lemma exec_effect:
  assumes "run_state (exec b body) w = (r, w')" "next_step w = (s, w1)"
  defines "d \<equiv> if b then es_others s (w_db w) else w_db w"
  shows "advances w w'"
    and "(w_db w' = d \<and> (\<exists>e. r = Inl e)) \<or> (\<exists>a. body s d = Inr (a, w_db w') \<and> (\<forall>x. r = Inr x \<longrightarrow> x = a))"
proof -
  note n = next_step_advances [OF assms(2)]
  have "w_plan w' = w_plan w1 \<and> w_polls w' = w_polls w1"
    using assms(1,2) by (auto simp: exec_def Let_def split: fault.splits sum.splits if_splits)
  then show "advances w w'" using n(1) by (simp add: advances_def)
  show "(w_db w' = d \<and> (\<exists>e. r = Inl e)) \<or> (\<exists>a. body s d = Inr (a, w_db w') \<and> (\<forall>x. r = Inr x \<longrightarrow> x = a))"
    using assms(1,2) n(2)
    by (cases "body s d") (auto simp: exec_def d_def Let_def split: fault.splits)
qed

lemma tx_stmt_effect:
  assumes "run_state (tx_stmt body) w = (r, w')"
  shows "advances w w'"
    and "(w_db w' = w_db w \<and> (\<exists>e. r = Inl e)) \<or> (\<exists>s a. body s (w_db w) = Inr (a, w_db w'))"
proof -
  obtain r1 where e: "run_state (exec False body) w = (r1, w')" and r: "r = map_sum snd id r1"
    using assms by (auto simp: tx_stmt_def split: prod.splits)
  obtain s w1 where "next_step w = (s, w1)" by fastforce
  note eff = exec_effect [OF e this]
  show "advances w w'" by (rule eff(1))
  show "(w_db w' = w_db w \<and> (\<exists>e. r = Inl e)) \<or> (\<exists>s a. body s (w_db w) = Inr (a, w_db w'))"
    using eff(2) r by auto
qed

locale db_relation =
  fixes R :: "db \<Rightarrow> db \<Rightarrow> bool"
  assumes R_refl: "R d d"
    and R_trans: "R d1 d2 \<Longrightarrow> R d2 d3 \<Longrightarrow> R d1 d3"
begin

lemma keeps_return [keeps_rules]: "keeps R (State_Monad.return x)"
  by (rule keepsI) (simp add: R_refl)

lemma keeps_bind [keeps_rules]:
  assumes "keeps R m" "\<And>a. keeps R (f a)"
  shows "keeps R (State_Monad.bind m f)"
proof (rule keepsI)
  fix w b w2
  assume w: "env_ok R w" and run: "run_state (State_Monad.bind m f) w = (b, w2)"
  obtain a w1 where m: "run_state m w = (a, w1)" by fastforce
  with run have f: "run_state (f a) w1 = (b, w2)" by simp
  note 1 = keepsD [OF assms(1) w m]
  with keepsD [OF assms(2) _ f] show "R (w_db w) (w_db w2) \<and> advances w w2"
    using R_trans advances_trans by blast
qed

lemma keeps_if [keeps_rules]:
  "keeps R m \<Longrightarrow> keeps R n \<Longrightarrow> keeps R (if b then m else n)"
  by simp

lemma keeps_case_sum [keeps_rules]:
  "(\<And>e. keeps R (f e)) \<Longrightarrow> (\<And>a. keeps R (g a)) \<Longrightarrow>
   keeps R (case r of Inl e \<Rightarrow> f e | Inr a \<Rightarrow> g a)"
  by (simp split: sum.split)

lemma keeps_case_option [keeps_rules]:
  "keeps R m \<Longrightarrow> (\<And>a. keeps R (g a)) \<Longrightarrow> keeps R (case r of None \<Rightarrow> m | Some a \<Rightarrow> g a)"
  by (simp split: option.split)

lemma keeps_case_prod [keeps_rules]:
  "(\<And>a b. keeps R (f a b)) \<Longrightarrow> keeps R (case p of (a, b) \<Rightarrow> f a b)"
  by (simp split: prod.split)

lemma keeps_effects [keeps_rules]:
  "keeps R (log_line l m)" "keeps R (observe on x)" "keeps R get_now" "keeps R get_db"
  "keeps R draw" "keeps R (note_compare c)" "keeps R get_buckets" "keeps R (set_buckets bs)"
  by (rule keepsI, auto simp: R_refl advances_def)+

lemma keeps_ctx_err [keeps_rules]: "keeps R ctx_err"
  by (rule keepsI) (auto simp: ctx_err_def R_refl advances_def suffix_def split: list.splits)

lemma others_ok:
  assumes "env_ok R w" "next_step w = (s, w1)"
  shows "R d (es_others s d)"
  using assms R_refl by (auto simp: next_step_def env_ok_def quiet_step_def split: list.splits)

lemma keeps_exec:
  assumes "stmt_ok R body"
  shows "keeps R (exec b body)"
proof (rule keepsI)
  fix w r w'
  assume w: "env_ok R w" and run: "run_state (exec b body) w = (r, w')"
  obtain s w1 where n: "next_step w = (s, w1)" by fastforce
  note eff = exec_effect [OF run n]
  let ?d = "if b then es_others s (w_db w) else w_db w"
  have a: "R (w_db w) ?d" using others_ok [OF w n] R_refl by simp
  have "w_db w' = ?d \<or> (\<exists>a. body s ?d = Inr (a, w_db w'))" using eff(2) by blast
  then have "R ?d (w_db w')" using stmt_okD [OF assms] R_refl by metis
  with a eff(1) show "R (w_db w) (w_db w') \<and> advances w w'" using R_trans by blast
qed

lemma keeps_run_stmt: "stmt_ok R body \<Longrightarrow> keeps R (run_stmt body)"
  unfolding run_stmt_def by (intro keeps_bind keeps_exec keeps_return)

lemma keeps_tx_stmt: "stmt_ok R body \<Longrightarrow> keeps R (tx_stmt body)"
  unfolding tx_stmt_def by (intro keeps_bind keeps_exec keeps_return)

lemma keeps_query_rows: "stmt_ok R body \<Longrightarrow> keeps R (query_rows op body)"
  unfolding query_rows_def by (intro keeps_bind keeps_exec keeps_return)

lemma stmt_ok_commit: "stmt_ok R commit_stmt"
  by (simp add: stmt_ok_def commit_stmt_def R_refl)

text \<open>
  A transaction that locks with a read keeps \<open>R\<close> if what follows does from any state the
  lock may have seen: a rollback returns to the lock.
\<close>

lemma keeps_after_lock:
  assumes "keeps_if P R (rest a)"
  shows "keeps_if P R (after_lock rest a)"
proof (rule keeps_ifI)
  fix w b w'
  assume p: "P (w_db w)" and w: "env_ok R w" and run: "run_state (after_lock rest a) w = (b, w')"
  obtain v w1 where v: "run_state (rest a) w = (v, w1)" by fastforce
  note 1 = keeps_ifD [OF assms p w v]
  obtain r w2 where c: "run_state (exec False commit_stmt) w1 = (r, w2)" by fastforce
  note 2 = keepsD [OF keeps_exec [OF stmt_ok_commit] _ c]
  have R2: "R (w_db w) (w_db w2)" "advances w w2"
    using 1 2 R_trans advances_trans by blast+
  have "w' = w2 \<or> w' = w2\<lparr>w_db := w_db w\<rparr> \<or> w' = w1\<lparr>w_db := w_db w\<rparr>"
    using run v c
    by (cases v; cases r) (auto simp: after_lock_def commit_tx_def split: prod.splits phase.splits)
  then show "R (w_db w) (w_db w') \<and> advances w w'"
    using R2 1 R_refl by (auto simp: advances_def)
qed

lemma keeps_transaction:
  assumes lock: "\<And>s d a d'. lock s d = Inr (a, d') \<Longrightarrow> d' = d \<and> L a d"
    and rest: "\<And>a. keeps_if (L a) R (rest a)"
  shows "keeps R (transaction bo lo lock rest)"
proof -
  have locked: "keeps R (do { l \<leftarrow> run_stmt lock;
      (case l of Inl e \<Rightarrow> State_Monad.return (Inl (map_error lo e)) | Inr a \<Rightarrow> after_lock rest a) })"
  proof (rule keepsI)
    fix w b w'
    assume w: "env_ok R w" and run: "run_state (do { l \<leftarrow> run_stmt lock;
      (case l of Inl e \<Rightarrow> State_Monad.return (Inl (map_error lo e)) | Inr a \<Rightarrow> after_lock rest a) }) w = (b, w')"
    obtain l w1 where l: "run_state (run_stmt lock) w = (l, w1)" by fastforce
    have "stmt_ok R lock" using lock R_refl by (fastforce simp: stmt_ok_def)
    note 1 = keepsD [OF keeps_run_stmt [OF this] w l]
    show "R (w_db w) (w_db w') \<and> advances w w'"
    proof (cases l)
      case (Inl e)
      with run l 1 show ?thesis by auto
    next
      case (Inr a)
      have "L a (w_db w1)"
        using run_stmt_Inr [OF l [unfolded Inr]] lock by metis
      moreover have "run_state (after_lock rest a) w1 = (b, w')" using run l Inr by simp
      ultimately show ?thesis
        using keeps_ifD [OF keeps_after_lock [where P = "L a" and rest = rest and a = a, OF rest], of w1 b w']
          1 R_trans advances_trans by blast
    qed
  qed
  show ?thesis
    unfolding transaction_def
    by (rule keeps_bind [OF keeps_run_stmt [OF stmt_ok_commit]], rule keeps_case_sum)
       (rule keeps_return locked)+
qed

lemma keeps_if_return: "keeps_if P R (State_Monad.return x)"
  by (rule keeps_keeps_if [OF keeps_return])

lemma keeps_if_tx_stmt:
  assumes "\<And>s d a d'. P d \<Longrightarrow> body s d = Inr (a, d') \<Longrightarrow> R d d'"
  shows "keeps_if P R (do { r \<leftarrow> tx_stmt body; State_Monad.return (f r) })"
proof (rule keeps_ifI)
  fix w a w'
  assume p: "P (w_db w)"
    and run: "run_state (do { r \<leftarrow> tx_stmt body; State_Monad.return (f r) }) w = (a, w')"
  then obtain r where "run_state (tx_stmt body) w = (r, w')" by (auto split: prod.splits)
  from tx_stmt_effect [OF this] show "R (w_db w) (w_db w') \<and> advances w w'"
    using assms p R_refl by auto
qed

end

end
