(* ===== verification/Webhook_Repo.thy ===== *)
theory Webhook_Repo
  imports Exec
begin

text \<open>
  internal/repository/postgres/webhook_repo.go: the idempotency ledger. Each SQL statement is
  a pure function on the database (\<open>*_stmt\<close>) and each Go method runs it and interprets the
  reply. \<open>make_interval(secs => d.Seconds())\<close> is the duration itself: the rounding of the
  float to microseconds is left out, and the back-off \<open>base * 2^(attempts-1)\<close> is exact.

  \<open>json.Valid\<close>, the server's reading of \<open>jsonb\<close> and its printing are the parameter
  \<open>J\<close>.

  The locale \<open>hook_relation\<close> is what a client relies on when it calls the repository: the
  statements satisfy \<open>R\<close>. It gives \<open>keeps R\<close> for every method. \<open>ledger_grows\<close> is the
  relation that matters most: no row of the ledger ever disappears, a settled row keeps its
  outcome, attempts never fall, and a payload changes only into its skeleton.
\<close>

section \<open>Parameters and data\<close>

record jsonlib =
  json_valid :: "bytes \<Rightarrow> bool"
  jsonb_in :: "bytes \<Rightarrow> pg_error + json"
  jsonb_out :: "json \<Rightarrow> bytes"

definition defaultStaleClaimAfter :: duration where
  "defaultStaleClaimAfter = 5 * minute"

definition maxLastErrorLen :: nat where
  "maxLastErrorLen = 2000"

record PurgeQuery =
  pq_SettledAfter :: duration
  pq_UnsettledAfter :: duration
  pq_Limit :: int

record PurgeResult =
  pr_Settled :: int
  pr_Unsettled :: int

definition PurgeResult_Total :: "PurgeResult \<Rightarrow> int" where
  "PurgeResult_Total r = pr_Settled r + pr_Unsettled r"

record RetentionStats =
  rs_WithPayload :: int
  rs_Purged :: int
  rs_DueNow :: int
  rs_OldestPayload :: "time option"

record RetryQuery =
  rq_MaxAttempts :: int
  rq_BaseBackoff :: duration
  rq_MaxBackoff :: duration
  rq_Limit :: int

record LedgerStats =
  ls_Processing :: int
  ls_Retryable :: int
  ls_DeadLettered :: int
  ls_OldestUnsettled :: "time option"

definition LedgerStats_Unsettled :: "LedgerStats \<Rightarrow> int" where
  "LedgerStats_Unsettled s = ls_Processing s + ls_Retryable s + ls_DeadLettered s"

text \<open>The repository's one field, as \<open>NewWebhookRepo\<close> sets it.\<close>

definition NewWebhookRepo :: "duration \<Rightarrow> duration" where
  "NewWebhookRepo staleClaimAfter =
     (if staleClaimAfter \<le> 0 then defaultStaleClaimAfter else staleClaimAfter)"

section \<open>Free text for last_error\<close>

text \<open>The loop of \<open>truncate\<close> that backs the cut up to a rune boundary.\<close>

fun rune_cut :: "string \<Rightarrow> nat \<Rightarrow> nat" where
  "rune_cut s 0 = 0"
| "rune_cut s (Suc n) = (if rune_start (s ! Suc n) then Suc n else rune_cut s n)"

definition ellipsis :: string where
  "ellipsis = [CHR 0xE2, CHR 0x80, CHR 0xA6]"

definition truncate_str :: "string \<Rightarrow> string" where
  "truncate_str s =
     (if length s \<le> maxLastErrorLen then s
      else take (rune_cut s maxLastErrorLen) s @ ellipsis)"

definition failureReason :: "goerr option \<Rightarrow> string" where
  "failureReason cause =
     (case cause of
        None \<Rightarrow> ''unspecified failure''
      | Some e \<Rightarrow> if err_text e = [] then ''unspecified failure'' else truncate_str (err_text e))"

section \<open>Claiming\<close>

definition hook_write :: "db \<Rightarrow> (hook_row \<Rightarrow> hook_row) \<Rightarrow> hook_row \<Rightarrow> pg_error + hook_row" where
  "hook_write d upd h = write_row ''processed_webhooks'' hook_checks (touch_hook d) upd h"

text \<open>\<open>attempts = attempts + 1\<close> on an INTEGER column.\<close>

definition hook_bump :: "db \<Rightarrow> (hook_row \<Rightarrow> hook_row) \<Rightarrow> hook_row \<Rightarrow> pg_error + hook_row" where
  "hook_bump d upd h =
     (if int4_max < h_attempts h + 1 then Inl int4_out_of_range
      else hook_write d (\<lambda>h. (upd h)\<lparr>h_attempts := h_attempts h + 1\<rparr>) h)"

definition hook_update ::
  "(hook_row \<Rightarrow> bool) \<Rightarrow> (hook_row \<Rightarrow> pg_error + hook_row) \<Rightarrow> db \<Rightarrow> pg_error + (hook_row list \<times> db)" where
  "hook_update P f d =
     (case sql_update P f (hooks d) of
        Inl e \<Rightarrow> Inl e
      | Inr (hit, all) \<Rightarrow> Inr (hit, d\<lparr>hooks := all\<rparr>))"

definition payloadOrNil :: "bytes \<Rightarrow> bytes option" where
  "payloadOrNil p = (if p = [] then None else Some p)"

definition jsonb_arg :: "jsonlib \<Rightarrow> bytes option \<Rightarrow> pg_error + json option" where
  "jsonb_arg J p =
     (case p of None \<Rightarrow> Inr None
      | Some b \<Rightarrow> (case jsonb_in J b of Inl e \<Rightarrow> Inl e | Inr j \<Rightarrow> Inr (Some j)))"

definition claim_row :: "ProcessedWebhook \<Rightarrow> json option \<Rightarrow> time \<Rightarrow> hook_row" where
  "claim_row w p now =
     \<lparr>h_event_id = w_EventID w, h_event_type = w_EventType w, h_api_version = w_APIVersion w,
      h_livemode = w_Livemode w, h_request_id = w_RequestID w, h_status = WebhookProcessing,
      h_attempts = 1, h_last_error = None, h_payload = p,
      h_stripe_created_at = w_StripeCreatedAt w, h_received_at = now, h_processed_at = None,
      h_created_at = now, h_updated_at = now, h_payload_purged_at = None\<rparr>"

definition claimable :: "time \<Rightarrow> duration \<Rightarrow> hook_row \<Rightarrow> bool" where
  "claimable now stale h \<longleftrightarrow>
     h_status h = WebhookFailed \<or> h_status h = WebhookProcessing \<and> h_updated_at h < now - stale"

definition to_processing :: "hook_row \<Rightarrow> hook_row" where
  "to_processing h = h\<lparr>h_status := WebhookProcessing, h_last_error := None\<rparr>"

definition claim_stmt :: "jsonlib \<Rightarrow> duration \<Rightarrow> ProcessedWebhook \<Rightarrow> hook_row stmt" where
  "claim_stmt J stale w s d =
     (case jsonb_arg J (payloadOrNil (w_Payload w)) of
        Inl e \<Rightarrow> Inl e
      | Inr p \<Rightarrow>
          (let new = claim_row w p (clock d)
           in case check_row ''processed_webhooks'' hook_checks new of
                Some e \<Rightarrow> Inl e
              | None \<Rightarrow>
                  if find (\<lambda>h. h_event_id h = w_EventID w) (hooks d) = None
                  then Inr (new, d\<lparr>hooks := hooks d @ [new]\<rparr>)
                  else (case hook_update
                               (\<lambda>h. h_event_id h = w_EventID w \<and> claimable (clock d) stale h)
                               (hook_bump d to_processing) d of
                          Inl e \<Rightarrow> Inl e
                        | Inr ([], d') \<Rightarrow> Inl NoRows
                        | Inr (h # _, d') \<Rightarrow> Inr (h, d'))))"

text \<open>A claim reports whether it was granted and fills in the record's columns.\<close>

definition TryClaimEvent ::
  "jsonlib \<Rightarrow> duration \<Rightarrow> ProcessedWebhook \<Rightarrow> (bool \<times> ProcessedWebhook) result prog" where
  "TryClaimEvent J stale w =
     (case ProcessedWebhook_Validate (json_valid J) w of
        Some e \<Rightarrow> State_Monad.return (Inl e)
      | None \<Rightarrow> do {
          r \<leftarrow> run_stmt (claim_stmt J stale w);
          State_Monad.return (case r of
            Inr h \<Rightarrow> Inr (True, w\<lparr>w_Attempts := h_attempts h,
                                   w_Status := WebhookStatus_text (h_status h),
                                   w_ReceivedAt := h_received_at h, w_CreatedAt := h_created_at h,
                                   w_UpdatedAt := h_updated_at h\<rparr>)
          | Inl e \<Rightarrow> (if e = NoRows then Inr (False, w)
                       else Inl (map_error ''claim webhook event'' e))) })"

section \<open>Settling\<close>

definition held :: "string \<Rightarrow> hook_row \<Rightarrow> bool" where
  "held eventID h \<longleftrightarrow> h_event_id h = eventID \<and> h_status h = WebhookProcessing"

definition mark_stmt :: "string \<Rightarrow> (time \<Rightarrow> hook_row \<Rightarrow> hook_row) \<Rightarrow> hook_row list stmt" where
  "mark_stmt eventID upd s d = hook_update (held eventID) (hook_write d (upd (clock d))) d"

definition to_succeeded :: "time \<Rightarrow> hook_row \<Rightarrow> hook_row" where
  "to_succeeded now h =
     h\<lparr>h_status := WebhookSucceeded, h_processed_at := Some now, h_last_error := None\<rparr>"

definition to_skipped :: "string \<Rightarrow> time \<Rightarrow> hook_row \<Rightarrow> hook_row" where
  "to_skipped reason now h =
     h\<lparr>h_status := WebhookSkipped, h_processed_at := Some now, h_last_error := Some reason\<rparr>"

definition to_failed :: "string \<Rightarrow> time \<Rightarrow> hook_row \<Rightarrow> hook_row" where
  "to_failed reason now h =
     h\<lparr>h_status := WebhookFailed, h_last_error := Some reason, h_processed_at := None\<rparr>"

text \<open>What the three \<open>Mark\<close> methods make of the reply.\<close>

definition settle_reply :: "string \<Rightarrow> string \<Rightarrow> pg_error + hook_row list \<Rightarrow> goerr option" where
  "settle_reply op eventID r =
     (case r of
        Inl e \<Rightarrow> Some (map_error op e)
      | Inr hit \<Rightarrow> (if hit = [] then Some (Wrap (op @ '' '' @ eventID @ '': '') (Sentinel ErrEventNotClaimed) [])
                    else None))"

definition MarkEventProcessed :: "string \<Rightarrow> goerr option prog" where
  "MarkEventProcessed eventID = do {
     r \<leftarrow> run_stmt (mark_stmt eventID to_succeeded);
     State_Monad.return (settle_reply ''mark webhook processed'' eventID r) }"

definition MarkEventSkipped :: "string \<Rightarrow> string \<Rightarrow> goerr option prog" where
  "MarkEventSkipped eventID reason = do {
     r \<leftarrow> run_stmt (mark_stmt eventID (to_skipped (truncate_str reason)));
     State_Monad.return (settle_reply ''mark webhook skipped'' eventID r) }"

definition MarkEventFailed :: "string \<Rightarrow> goerr option \<Rightarrow> goerr option prog" where
  "MarkEventFailed eventID cause = do {
     r \<leftarrow> run_stmt (mark_stmt eventID (to_failed (failureReason cause)));
     State_Monad.return (settle_reply ''mark webhook failed'' eventID r) }"

section \<open>Reclaiming and retrying\<close>

definition abandoned :: "time \<Rightarrow> duration \<Rightarrow> hook_row \<Rightarrow> bool" where
  "abandoned now stale h \<longleftrightarrow> h_status h = WebhookProcessing \<and> h_updated_at h < now - stale"

definition locked_by_others :: "env_step \<Rightarrow> hook_row \<Rightarrow> bool" where
  "locked_by_others s h \<longleftrightarrow> h_event_id h \<in> set (es_locked s)"

definition reclaim_stmt :: "duration \<Rightarrow> int \<Rightarrow> string \<Rightarrow> string list stmt" where
  "reclaim_stmt stale limit reason s d =
     (if limit < 0 then Inl invalid_limit
      else let ids = map h_event_id (scan_limit h_updated_at (abandoned (clock d) stale)
                                       (locked_by_others s) limit (hooks d))
           in case hook_update (\<lambda>h. h_event_id h \<in> set ids) (hook_write d (to_failed reason (clock d))) d of
                Inl e \<Rightarrow> Inl e
              | Inr (hit, d') \<Rightarrow> Inr (map h_event_id hit, d'))"

definition ReclaimAbandonedEvents :: "duration \<Rightarrow> int \<Rightarrow> string list result prog" where
  "ReclaimAbandonedEvents staleAfter limit =
     query_rows ''reclaim abandoned events''
       (reclaim_stmt staleAfter limit ''claim abandoned by a worker that did not settle it'')"

definition scanWebhook :: "jsonlib \<Rightarrow> hook_row \<Rightarrow> ProcessedWebhook" where
  "scanWebhook J h =
     \<lparr>w_EventID = h_event_id h, w_EventType = h_event_type h, w_APIVersion = h_api_version h,
      w_Livemode = h_livemode h, w_RequestID = h_request_id h,
      w_Status = WebhookStatus_text (h_status h), w_Attempts = h_attempts h,
      w_LastError = h_last_error h,
      w_Payload = (case h_payload h of None \<Rightarrow> [] | Some j \<Rightarrow> jsonb_out J j),
      w_StripeCreatedAt = h_stripe_created_at h, w_ReceivedAt = h_received_at h,
      w_ProcessedAt = h_processed_at h, w_CreatedAt = h_created_at h, w_UpdatedAt = h_updated_at h\<rparr>"

definition backoff :: "duration \<Rightarrow> duration \<Rightarrow> int \<Rightarrow> duration" where
  "backoff base cap attempts = min (base * 2 ^ nat (attempts - 1)) cap"

definition retryable :: "RetryQuery \<Rightarrow> time \<Rightarrow> hook_row \<Rightarrow> bool" where
  "retryable q now h \<longleftrightarrow>
     h_status h = WebhookFailed \<and> h_attempts h < rq_MaxAttempts q \<and>
     h_updated_at h < now - backoff (rq_BaseBackoff q) (rq_MaxBackoff q) (h_attempts h)"

definition list_retryable_stmt :: "jsonlib \<Rightarrow> RetryQuery \<Rightarrow> ProcessedWebhook list stmt" where
  "list_retryable_stmt J q s d =
     (if rq_Limit q < 0 then Inl invalid_limit
      else Inr (map (scanWebhook J)
                  (scan_limit h_updated_at (retryable q (clock d)) (\<lambda>_. False) (rq_Limit q) (hooks d)),
                d))"

definition ListRetryableEvents :: "jsonlib \<Rightarrow> RetryQuery \<Rightarrow> ProcessedWebhook list result prog" where
  "ListRetryableEvents J q = query_rows ''list retryable events'' (list_retryable_stmt J q)"

definition retry_claim_stmt :: "string \<Rightarrow> int \<Rightarrow> hook_row list stmt" where
  "retry_claim_stmt eventID maxAttempts s d =
     hook_update (\<lambda>h. h_event_id h = eventID \<and> h_status h = WebhookFailed \<and> h_attempts h < maxAttempts)
       (hook_bump d to_processing) d"

definition ClaimEventForRetry :: "string \<Rightarrow> int \<Rightarrow> bool result prog" where
  "ClaimEventForRetry eventID maxAttempts = do {
     r \<leftarrow> run_stmt (retry_claim_stmt eventID maxAttempts);
     State_Monad.return (case r of
       Inl e \<Rightarrow> Inl (map_error ''claim event for retry'' e)
     | Inr hit \<Rightarrow> Inr (length hit = 1)) }"

definition min_time :: "time list \<Rightarrow> time option" where
  "min_time ts = (case ts of [] \<Rightarrow> None | t # r \<Rightarrow> Some (foldr min r t))"

definition count :: "('r \<Rightarrow> bool) \<Rightarrow> 'r list \<Rightarrow> int" where
  "count P rows = int (length (filter P rows))"

definition ledger_stats :: "int \<Rightarrow> db \<Rightarrow> LedgerStats" where
  "ledger_stats maxAttempts d =
     \<lparr>ls_Processing = count (\<lambda>h. h_status h = WebhookProcessing) (hooks d),
      ls_Retryable = count (\<lambda>h. h_status h = WebhookFailed \<and> h_attempts h < maxAttempts) (hooks d),
      ls_DeadLettered = count (\<lambda>h. h_status h = WebhookFailed \<and> maxAttempts \<le> h_attempts h) (hooks d),
      ls_OldestUnsettled =
        min_time (map h_updated_at
          (filter (\<lambda>h. h_status h = WebhookProcessing \<or> h_status h = WebhookFailed) (hooks d)))\<rparr>"

definition WebhookRepo_LedgerStats :: "int \<Rightarrow> LedgerStats result prog" where
  "WebhookRepo_LedgerStats maxAttempts = do {
     r \<leftarrow> run_stmt (\<lambda>s d. Inr (ledger_stats maxAttempts d, d));
     State_Monad.return (case r of Inl e \<Rightarrow> Inl (map_error ''ledger stats'' e) | Inr st \<Rightarrow> Inr st) }"

section \<open>Retention\<close>

definition payloadSkeleton :: "json \<Rightarrow> json" where
  "payloadSkeleton p = jsonb_strip_nulls (JObj
     [(''id'', jval (jget ''id'' p)),
      (''object'', jval (jget ''object'' p)),
      (''type'', jval (jget ''type'' p)),
      (''created'', jval (jget ''created'' p)),
      (''livemode'', jval (jget ''livemode'' p)),
      (''api_version'', jval (jget ''api_version'' p)),
      (''data'', JObj [(''object'', jsonb_strip_nulls (JObj
         [(''id'', jval (jpath [''data'', ''object'', ''id''] p)),
          (''object'', jval (jpath [''data'', ''object'', ''object''] p))]))])])"

definition purge_due :: "PurgeQuery \<Rightarrow> time \<Rightarrow> hook_row \<Rightarrow> bool" where
  "purge_due q now h \<longleftrightarrow>
     h_payload h \<noteq> None \<and> h_payload_purged_at h = None \<and> h_status h \<noteq> WebhookProcessing \<and>
     (settled_status (h_status h) \<and> h_received_at h < now - pq_SettledAfter q \<or>
      h_status h = WebhookFailed \<and> h_received_at h < now - pq_UnsettledAfter q)"

definition to_purged :: "time \<Rightarrow> hook_row \<Rightarrow> hook_row" where
  "to_purged now h =
     h\<lparr>h_payload := map_option payloadSkeleton (h_payload h), h_payload_purged_at := Some now\<rparr>"

definition purge_stmt :: "PurgeQuery \<Rightarrow> webhook_status list stmt" where
  "purge_stmt q s d =
     (if pq_Limit q < 0 then Inl invalid_limit
      else let ids = map h_event_id (scan_limit h_received_at (purge_due q (clock d))
                                       (locked_by_others s) (pq_Limit q) (hooks d))
           in case hook_update (\<lambda>h. h_event_id h \<in> set ids) (hook_write d (to_purged (clock d))) d of
                Inl e \<Rightarrow> Inl e
              | Inr (hit, d') \<Rightarrow> Inr (map h_status hit, d'))"

text \<open>The loop over the rows.\<close>

definition purge_tally :: "webhook_status list \<Rightarrow> PurgeResult" where
  "purge_tally sts = foldl (\<lambda>r st.
     if WebhookStatus_text st = WebhookStatus_text WebhookFailed
     then r\<lparr>pr_Unsettled := pr_Unsettled r + 1\<rparr> else r\<lparr>pr_Settled := pr_Settled r + 1\<rparr>)
     \<lparr>pr_Settled = 0, pr_Unsettled = 0\<rparr> sts"

definition PurgePayloads :: "PurgeQuery \<Rightarrow> PurgeResult result prog" where
  "PurgePayloads q = do {
     r \<leftarrow> query_rows ''purge payloads'' (purge_stmt q);
     State_Monad.return (map_sum id purge_tally r) }"

definition retention_stats :: "PurgeQuery \<Rightarrow> db \<Rightarrow> RetentionStats" where
  "retention_stats q d =
     (let full = \<lambda>h. h_payload h \<noteq> None \<and> h_payload_purged_at h = None
      in \<lparr>rs_WithPayload = count full (hooks d),
          rs_Purged = count (\<lambda>h. h_payload_purged_at h \<noteq> None) (hooks d),
          rs_DueNow = count (purge_due q (clock d)) (hooks d),
          rs_OldestPayload = min_time (map h_received_at (filter full (hooks d)))\<rparr>)"

definition WebhookRepo_RetentionStats :: "PurgeQuery \<Rightarrow> RetentionStats result prog" where
  "WebhookRepo_RetentionStats q = do {
     r \<leftarrow> run_stmt (\<lambda>s d. Inr (retention_stats q d, d));
     State_Monad.return (case r of Inl e \<Rightarrow> Inl (map_error ''retention stats'' e) | Inr st \<Rightarrow> Inr st) }"

section \<open>Facts about last_error texts and skeletons\<close>

lemma rune_cut_le: "rune_cut s n \<le> n"
  by (induction n) auto

lemma rune_cut_start: "rune_cut s n = 0 \<or> rune_start (s ! rune_cut s n)"
  by (induction n) auto

text \<open>Every byte between the boundary found and the limit continues a sequence.\<close>

lemma rune_cut_last: "rune_cut s n < i \<Longrightarrow> i \<le> n \<Longrightarrow> \<not> rune_start (s ! i)"
  by (induction n) (auto simp: le_Suc_eq split: if_splits)

lemma failureReason_not_nil: "failureReason cause \<noteq> []"
proof (cases cause)
  case (Some e)
  then show ?thesis
    by (auto simp: failureReason_def truncate_str_def maxLastErrorLen_def ellipsis_def)
qed (simp add: failureReason_def)

lemma is_JObj_skeleton [simp]: "is_JObj (payloadSkeleton p)"
  by (simp add: payloadSkeleton_def)

text \<open>The keys of a skeleton, at the top and under data.object, are those of the allowlist.\<close>

fun jkeys :: "json \<Rightarrow> string list" where
  "jkeys (JObj kvs) = map fst kvs"
| "jkeys _ = []"

lemma jkeys_strip: "set (jkeys (jsonb_strip_nulls (JObj kvs))) \<subseteq> fst ` set kvs"
  by (force split: if_splits)

lemma skeleton_object:
  "jpath [''data'', ''object''] (payloadSkeleton p) =
     Some (jsonb_strip_nulls (jsonb_strip_nulls (JObj
         [(''id'', jval (jpath [''data'', ''object'', ''id''] p)),
          (''object'', jval (jpath [''data'', ''object'', ''object''] p))])))"
  unfolding payloadSkeleton_def by simp

lemma jhas_any_JObj: "is_JObj j \<Longrightarrow> jhas_any j ks \<longleftrightarrow> set (jkeys j) \<inter> set ks \<noteq> {}"
  by (cases j) (auto simp: list_ex_iff)

lemma skeleton_object_keys:
  "jpath [''data'', ''object''] (payloadSkeleton p) = Some v \<Longrightarrow>
   is_JObj v \<and> set (jkeys v) \<subseteq> {''id'', ''object''}"
  unfolding skeleton_object by (auto split: if_splits)

text \<open>So a purged row satisfies the constraint on purged payloads.\<close>

lemma skeleton_no_pii:
  "jpath [''data'', ''object''] (payloadSkeleton p) = Some v \<Longrightarrow> \<not> jhas_any v pii_keys"
  using skeleton_object_keys [of p v] jhas_any_JObj [of v pii_keys]
  by (auto simp: pii_keys_def)

lemma purged_ok: "purged_payload_ok (touch_hook d (to_purged now h))"
proof (cases "h_payload h")
  case (Some j)
  then show ?thesis
    using skeleton_no_pii [of j]
    by (cases "jpath [''data'', ''object''] (payloadSkeleton j)")
       (simp_all add: purged_payload_ok_def to_purged_def touch_hook_def del: jpath.simps)
qed (simp add: purged_payload_ok_def to_purged_def touch_hook_def)

lemma passes_purged:
  assumes "passes hook_checks h"
  shows "passes hook_checks (touch_hook d (to_purged now h))"
  using assms purged_ok [of d now h]
  by (simp add: passes_def hook_checks_def to_purged_def touch_hook_def split: option.splits)

section \<open>How a ledger row evolves\<close>

definition payload_evolves :: "hook_row \<Rightarrow> hook_row \<Rightarrow> bool" where
  "payload_evolves h h' \<longleftrightarrow>
     (h_payload h' = h_payload h \<and> h_payload_purged_at h' = h_payload_purged_at h) \<or>
     (h_payload_purged_at h = None \<and> h_payload_purged_at h' \<noteq> None \<and>
      h_payload h' = map_option payloadSkeleton (h_payload h))"

definition hook_evolves :: "hook_row \<Rightarrow> hook_row \<Rightarrow> bool" where
  "hook_evolves h h' \<longleftrightarrow>
     h_event_id h' = h_event_id h \<and> h_event_type h' = h_event_type h \<and>
     h_api_version h' = h_api_version h \<and> h_livemode h' = h_livemode h \<and>
     h_request_id h' = h_request_id h \<and> h_stripe_created_at h' = h_stripe_created_at h \<and>
     h_received_at h' = h_received_at h \<and> h_created_at h' = h_created_at h \<and>
     h_attempts h \<le> h_attempts h' \<and> payload_evolves h h' \<and>
     (settled_status (h_status h) \<longrightarrow>
        h_status h' = h_status h \<and> h_attempts h' = h_attempts h \<and>
        h_processed_at h' = h_processed_at h \<and> h_last_error h' = h_last_error h)"

lemma hook_evolves_refl [simp]: "hook_evolves h h"
  by (simp add: hook_evolves_def payload_evolves_def)

lemma payload_evolves_trans:
  "payload_evolves a b \<Longrightarrow> payload_evolves b c \<Longrightarrow> payload_evolves a c"
  by (auto simp: payload_evolves_def)

lemma hook_evolves_trans: "hook_evolves a b \<Longrightarrow> hook_evolves b c \<Longrightarrow> hook_evolves a c"
  using payload_evolves_trans [of a b c] unfolding hook_evolves_def by (auto simp: settled_status_def)

lemma hook_evolves_key: "hook_evolves h h' \<Longrightarrow> h_event_id h' = h_event_id h"
  by (simp add: hook_evolves_def)

interpretation hook_rows: row_evolution h_event_id hook_evolves
  by unfold_locales (auto intro: hook_evolves_trans simp: hook_evolves_key)

text \<open>
  The ledger's primary key, and the relation between two ledgers over which the first may
  have evolved into the second.
\<close>

definition ids_unique :: "db \<Rightarrow> bool" where
  "ids_unique d \<longleftrightarrow> distinct (map h_event_id (hooks d))"

definition ledger_grows :: "db \<Rightarrow> db \<Rightarrow> bool" where
  "ledger_grows d d' \<longleftrightarrow> table_grows h_event_id hook_evolves (hooks d) (hooks d')"

lemma ledger_grows_same [simp]: "hooks d' = hooks d \<Longrightarrow> ledger_grows d d'"
  by (simp add: ledger_grows_def hook_rows.grows_refl)

lemma ledger_grows_trans: "ledger_grows a b \<Longrightarrow> ledger_grows b c \<Longrightarrow> ledger_grows a c"
  unfolding ledger_grows_def by (rule hook_rows.grows_trans)

lemma ledger_grows_unique: "ledger_grows d d' \<Longrightarrow> ids_unique d \<Longrightarrow> ids_unique d'"
  by (simp add: ledger_grows_def ids_unique_def table_grows_def)

lemma ledger_grows_row:
  "ledger_grows d d' \<Longrightarrow> ids_unique d \<Longrightarrow> h \<in> set (hooks d) \<Longrightarrow>
   \<exists>h' \<in> set (hooks d'). hook_evolves h h'"
  unfolding ledger_grows_def ids_unique_def by (rule hook_rows.grows_row)

lemma hook_update_grows:
  assumes "hook_update P f d = Inr (hit, d')"
    and "\<And>h h'. ids_unique d \<Longrightarrow> h \<in> set (hooks d) \<Longrightarrow> P h \<Longrightarrow> f h = Inr h' \<Longrightarrow> hook_evolves h h'"
  shows "ledger_grows d d'"
  using assms(1) hook_rows.grows_update [OF _ assms(2) [unfolded ids_unique_def]]
  by (auto simp: hook_update_def ledger_grows_def split: sum.splits prod.splits)

lemma hook_write_evolves:
  assumes "hook_write d upd h = Inr h'" "hook_evolves h (upd h)"
  shows "hook_evolves h h'"
  using assms
  by (auto simp: hook_write_def write_row_ok touch_hook_def hook_evolves_def payload_evolves_def
      split: if_splits)

lemma hook_bump_evolves:
  assumes "hook_bump d to_processing h = Inr h'" "\<not> settled_status (h_status h)"
  shows "hook_evolves h h'"
proof -
  have "hook_write d (\<lambda>h. (to_processing h)\<lparr>h_attempts := h_attempts h + 1\<rparr>) h = Inr h'"
    using assms(1) by (simp add: hook_bump_def split: if_splits)
  then show ?thesis
    by (rule hook_write_evolves)
       (use assms(2) in \<open>simp add: to_processing_def hook_evolves_def payload_evolves_def\<close>)
qed

lemma unsettled_evolves:
  "\<not> settled_status (h_status h) \<Longrightarrow>
   hook_evolves h (to_succeeded now h) \<and> hook_evolves h (to_skipped r now h) \<and>
   hook_evolves h (to_failed r now h)"
  by (simp add: to_succeeded_def to_skipped_def to_failed_def hook_evolves_def payload_evolves_def)

lemma purged_evolves:
  "h_payload_purged_at h = None \<Longrightarrow> hook_evolves h (to_purged now h)"
  by (simp add: to_purged_def hook_evolves_def payload_evolves_def)

lemma held_unsettled: "held e h \<Longrightarrow> \<not> settled_status (h_status h)"
  by (simp add: held_def settled_status_def)

section \<open>Frames\<close>

text \<open>The statements write the ledger and nothing else.\<close>

lemma hook_update_frame: "hook_update P f d = Inr (hit, d') \<Longrightarrow> \<exists>hs. d' = d\<lparr>hooks := hs\<rparr>"
  by (auto simp: hook_update_def split: sum.splits)

lemma claim_frame: "claim_stmt J win w s d = Inr (h, d') \<Longrightarrow> \<exists>hs. d' = d\<lparr>hooks := hs\<rparr>"
  by (auto simp: claim_stmt_def Let_def dest!: hook_update_frame
      split: sum.splits option.splits if_splits list.splits prod.splits)

lemma mark_frame: "mark_stmt e upd s d = Inr (hs, d') \<Longrightarrow> \<exists>hs. d' = d\<lparr>hooks := hs\<rparr>"
  unfolding mark_stmt_def by (rule hook_update_frame)

lemma reclaim_frame: "reclaim_stmt win l r s d = Inr (ids, d') \<Longrightarrow> \<exists>hs. d' = d\<lparr>hooks := hs\<rparr>"
  by (auto simp: reclaim_stmt_def Let_def dest!: hook_update_frame split: if_splits sum.splits prod.splits)

lemma retry_claim_frame: "retry_claim_stmt e m s d = Inr (hs, d') \<Longrightarrow> \<exists>hs. d' = d\<lparr>hooks := hs\<rparr>"
  unfolding retry_claim_stmt_def by (rule hook_update_frame)

lemma purge_frame: "purge_stmt q s d = Inr (sts, d') \<Longrightarrow> \<exists>hs. d' = d\<lparr>hooks := hs\<rparr>"
  by (auto simp: purge_stmt_def Let_def dest!: hook_update_frame split: if_splits sum.splits prod.splits)

lemmas hook_frames = claim_frame mark_frame reclaim_frame retry_claim_frame purge_frame

section \<open>The repository's contract\<close>

text \<open>
  What a client of the repository relies on: each statement that writes satisfies \<open>R\<close>. A
  client that only settles the events named by \<open>ids\<close> relies on the first part alone.
\<close>

locale settle_relation = db_relation R for R :: "db \<Rightarrow> db \<Rightarrow> bool" +
  fixes ids :: "string \<Rightarrow> bool"
  assumes mark_ok: "ids eventID \<Longrightarrow> upd \<in> {to_succeeded, to_skipped reason, to_failed reason} \<Longrightarrow>
                    stmt_ok R (mark_stmt eventID upd)"
begin

lemma keeps_Mark:
  assumes "ids e"
  shows "keeps R (MarkEventProcessed e)" "keeps R (MarkEventSkipped e r)" "keeps R (MarkEventFailed e c)"
  unfolding MarkEventProcessed_def MarkEventSkipped_def MarkEventFailed_def
  by (intro keeps_return keeps_bind keeps_run_stmt mark_ok [OF assms, where reason = "truncate_str r"]
        mark_ok [OF assms, where reason = "failureReason c"]; simp)+

end

locale hook_relation = settle_relation R "\<lambda>_. True" for R :: "db \<Rightarrow> db \<Rightarrow> bool" +
  assumes claim_ok: "stmt_ok R (claim_stmt J stale w)"
    and reclaim_ok: "stmt_ok R (reclaim_stmt stale limit reason)"
    and retry_claim_ok: "stmt_ok R (retry_claim_stmt eventID maxAttempts)"
    and purge_ok: "stmt_ok R (purge_stmt q)"
begin

lemma read_ok: "stmt_ok R (\<lambda>s d. Inr (f d, d))"
  by (simp add: stmt_ok_def R_refl)

lemma keeps_TryClaimEvent [keeps_rules]: "keeps R (TryClaimEvent J stale w)"
  unfolding TryClaimEvent_def
  by (intro keeps_case_option keeps_return keeps_bind keeps_run_stmt claim_ok)

lemma keeps_Reclaim [keeps_rules]: "keeps R (ReclaimAbandonedEvents stale limit)"
  unfolding ReclaimAbandonedEvents_def by (intro keeps_query_rows reclaim_ok)

lemma keeps_List [keeps_rules]: "keeps R (ListRetryableEvents J q)"
  unfolding ListRetryableEvents_def
  by (rule keeps_query_rows) (auto simp: stmt_ok_def list_retryable_stmt_def R_refl)

lemma keeps_ClaimForRetry [keeps_rules]: "keeps R (ClaimEventForRetry e m)"
  unfolding ClaimEventForRetry_def by (intro keeps_bind keeps_return keeps_run_stmt retry_claim_ok)

lemma keeps_Stats [keeps_rules]: "keeps R (WebhookRepo_LedgerStats m)" "keeps R (WebhookRepo_RetentionStats q)"
  unfolding WebhookRepo_LedgerStats_def WebhookRepo_RetentionStats_def
  by (intro keeps_bind keeps_return keeps_run_stmt read_ok)+

lemma keeps_Purge [keeps_rules]: "keeps R (PurgePayloads q)"
  unfolding PurgePayloads_def by (intro keeps_bind keeps_return keeps_query_rows purge_ok)

end

section \<open>The ledger only grows\<close>

lemma mark_grows:
  assumes "upd \<in> {to_succeeded, to_skipped reason, to_failed reason}"
  shows "stmt_ok ledger_grows (mark_stmt eventID upd)"
proof (rule stmt_okI)
  fix s d a d'
  assume "mark_stmt eventID upd s d = Inr (a, d')"
  then show "ledger_grows d d'"
    unfolding mark_stmt_def
    by (rule hook_update_grows)
       (use assms held_unsettled unsettled_evolves hook_write_evolves in blast)
qed

lemma same_id_row:
  assumes "distinct (map h_event_id hs)" "h \<in> set hs" "h_event_id h \<in> h_event_id ` S" "S \<subseteq> set hs"
  shows "h \<in> S"
  using assms by (auto simp: distinct_map inj_on_def)

text \<open>
  The scans of \<open>reclaim_stmt\<close> and \<open>purge_stmt\<close> name rows by id: with ids unique, the rows
  they write are the rows they selected.
\<close>

lemma scanned_row:
  assumes "distinct (map h_event_id hs)" "h \<in> set hs"
    and "h_event_id h \<in> set (map h_event_id (scan_limit key P l lim hs))"
  shows "P h \<and> \<not> l h"
proof -
  have "h \<in> set (scan_limit key P l lim hs)"
    using assms by (intro same_id_row [OF assms(1,2)]) (auto dest: scan_limit_set)
  then show ?thesis by (auto dest: scan_limit_set)
qed

lemma claim_stmt_cases:
  assumes "claim_stmt J stale w s d = Inr (h, d')"
  obtains (new) p where "jsonb_arg J (payloadOrNil (w_Payload w)) = Inr p"
      "h = claim_row w p (clock d)" "passes hook_checks h"
      "find (\<lambda>x. h_event_id x = w_EventID w) (hooks d) = None" "d' = d\<lparr>hooks := hooks d @ [h]\<rparr>"
    | (again) hit where
      "hook_update (\<lambda>h. h_event_id h = w_EventID w \<and> claimable (clock d) stale h)
         (hook_bump d to_processing) d = Inr (h # hit, d')"
  using assms
  by (auto simp: claim_stmt_def Let_def check_row_None
      split: sum.splits option.splits if_splits list.splits prod.splits)

lemma claim_grows: "stmt_ok ledger_grows (claim_stmt J stale w)"
proof (rule stmt_okI)
  fix s d h d'
  assume "claim_stmt J stale w s d = Inr (h, d')"
  then show "ledger_grows d d'"
  proof (cases rule: claim_stmt_cases)
    case (new p)
    then show ?thesis
      by (auto simp: ledger_grows_def find_None_iff claim_row_def intro!: hook_rows.grows_append)
  next
    case (again hit)
    then show ?thesis
      by (rule hook_update_grows)
         (auto simp: claimable_def settled_status_def dest!: hook_bump_evolves)
  qed
qed

lemma retry_claim_grows: "stmt_ok ledger_grows (retry_claim_stmt e m)"
proof (rule stmt_okI)
  fix s d a d'
  assume "retry_claim_stmt e m s d = Inr (a, d')"
  then show "ledger_grows d d'"
    unfolding retry_claim_stmt_def
    by (rule hook_update_grows) (auto simp: settled_status_def dest!: hook_bump_evolves)
qed

lemma reclaim_grows: "stmt_ok ledger_grows (reclaim_stmt stale limit reason)"
proof (rule stmt_okI)
  fix s d a d'
  assume "reclaim_stmt stale limit reason s d = Inr (a, d')"
  then obtain hit where "hook_update
      (\<lambda>h. h_event_id h \<in> set (map h_event_id (scan_limit h_updated_at (abandoned (clock d) stale)
              (locked_by_others s) limit (hooks d))))
      (hook_write d (to_failed reason (clock d))) d = Inr (hit, d')"
    by (auto simp: reclaim_stmt_def Let_def split: if_splits sum.splits prod.splits)
  then show "ledger_grows d d'"
  proof (rule hook_update_grows)
    fix h h'
    assume "ids_unique d" "h \<in> set (hooks d)"
      "h_event_id h \<in> set (map h_event_id (scan_limit h_updated_at (abandoned (clock d) stale)
          (locked_by_others s) limit (hooks d)))"
      and w: "hook_write d (to_failed reason (clock d)) h = Inr h'"
    then have "abandoned (clock d) stale h"
      using scanned_row unfolding ids_unique_def by blast
    then show "hook_evolves h h'"
      by (intro hook_write_evolves [OF w]) (simp add: abandoned_def unsettled_evolves settled_status_def)
  qed
qed

lemma purge_grows: "stmt_ok ledger_grows (purge_stmt q)"
proof (rule stmt_okI)
  fix s d a d'
  assume "purge_stmt q s d = Inr (a, d')"
  then obtain hit where "hook_update
      (\<lambda>h. h_event_id h \<in> set (map h_event_id (scan_limit h_received_at (purge_due q (clock d))
              (locked_by_others s) (pq_Limit q) (hooks d))))
      (hook_write d (to_purged (clock d))) d = Inr (hit, d')"
    by (auto simp: purge_stmt_def Let_def split: if_splits sum.splits prod.splits)
  then show "ledger_grows d d'"
  proof (rule hook_update_grows)
    fix h h'
    assume "ids_unique d" "h \<in> set (hooks d)"
      "h_event_id h \<in> set (map h_event_id (scan_limit h_received_at (purge_due q (clock d))
          (locked_by_others s) (pq_Limit q) (hooks d)))"
      and w: "hook_write d (to_purged (clock d)) h = Inr h'"
    then have "purge_due q (clock d) h"
      using scanned_row unfolding ids_unique_def by blast
    then show "hook_evolves h h'"
      by (intro hook_write_evolves [OF w]) (simp add: purge_due_def purged_evolves)
  qed
qed

lemmas ledger_grows_stmts = claim_grows mark_grows reclaim_grows retry_claim_grows purge_grows

interpretation ledger: hook_relation ledger_grows
  by unfold_locales (auto intro: ledger_grows_trans ledger_grows_stmts)

section \<open>What a claim decides\<close>

definition hooks_wf :: "db \<Rightarrow> bool" where
  "hooks_wf d \<longleftrightarrow> ids_unique d \<and> (\<forall>h \<in> set (hooks d). passes hook_checks h)"

definition claimed_again :: "db \<Rightarrow> hook_row \<Rightarrow> hook_row" where
  "claimed_again d h =
     h\<lparr>h_status := WebhookProcessing, h_last_error := None, h_attempts := h_attempts h + 1,
       h_updated_at := clock d\<rparr>"

definition replace_hook :: "hook_row \<Rightarrow> db \<Rightarrow> db" where
  "replace_hook h d =
     d\<lparr>hooks := map (\<lambda>x. if h_event_id x = h_event_id h then h else x) (hooks d)\<rparr>"

lemma hook_bump_ok:
  assumes "passes hook_checks h" "\<not> settled_status (h_status h)" "h_attempts h < int4_max"
  shows "hook_bump d to_processing h = Inr (claimed_again d h)"
proof -
  define h1 where "h1 = (to_processing h)\<lparr>h_attempts := h_attempts h + 1\<rparr>"
  have "h_attempts h1 \<noteq> h_attempts h" by (simp add: h1_def)
  then have "h1 \<noteq> h" by metis
  moreover have "touch_hook d h1 = claimed_again d h"
    by (simp add: h1_def touch_hook_def to_processing_def claimed_again_def)
  moreover have "passes hook_checks (claimed_again d h)"
    using assms(1,2)
    by (simp add: passes_def hook_checks_def claimed_again_def settled_status_def
        purged_payload_ok_def split: option.splits)
  ultimately have "hook_write d (\<lambda>h. (to_processing h)\<lparr>h_attempts := h_attempts h + 1\<rparr>) h =
      Inr (claimed_again d h)"
    by (simp add: hook_write_def write_row_ok h1_def)
  then show ?thesis using assms(3) by (simp add: hook_bump_def)
qed

text \<open>An UPDATE of one row of the ledger, by its id.\<close>

lemma hook_update_one:
  assumes "ids_unique d" "h \<in> set (hooks d)" "P h" "f h = Inr h'" "h_event_id h' = h_event_id h"
    and "\<And>x. x \<in> set (hooks d) \<Longrightarrow> P x \<Longrightarrow> h_event_id x = h_event_id h"
  shows "hook_update P f d = Inr ([h'], replace_hook h' d)"
proof -
  have "sql_update P f (hooks d) =
      Inr ([h'], map (\<lambda>x. if h_event_id x = h_event_id h then h' else x) (hooks d))"
    by (rule sql_update_key) (fact assms(1) [unfolded ids_unique_def] assms(2-4,6))+
  then show ?thesis by (simp add: hook_update_def replace_hook_def assms(5))
qed

lemma hook_update_none:
  "(\<And>x. x \<in> set (hooks d) \<Longrightarrow> \<not> P x) \<Longrightarrow> hook_update P f d = Inr ([], d)"
  by (simp add: hook_update_def sql_update_none)

lemma find_id_SomeD:
  "find (\<lambda>x. h_event_id x = e) (hooks d) = Some h \<Longrightarrow> h \<in> set (hooks d) \<and> h_event_id h = e"
  using find_mem [of "\<lambda>x. h_event_id x = e"] by auto

lemma same_id_unique:
  "ids_unique d \<Longrightarrow> h \<in> set (hooks d) \<Longrightarrow> x \<in> set (hooks d) \<Longrightarrow> h_event_id x = h_event_id h \<Longrightarrow> x = h"
  by (auto simp: ids_unique_def distinct_map inj_on_def)

lemma claim_stmt_existing:
  assumes "hooks_wf d" "find (\<lambda>x. h_event_id x = w_EventID w) (hooks d) = Some h"
    and "jsonb_arg J (payloadOrNil (w_Payload w)) = Inr p"
    and "passes hook_checks (claim_row w p (clock d))" "claimable (clock d) stale h \<Longrightarrow> h_attempts h < int4_max"
  shows "claim_stmt J stale w s d =
    (if claimable (clock d) stale h then Inr (claimed_again d h, replace_hook (claimed_again d h) d)
     else Inl NoRows)"
proof -
  have h: "h \<in> set (hooks d)" "h_event_id h = w_EventID w" "passes hook_checks h" "ids_unique d"
    using assms(1) find_id_SomeD [OF assms(2)] by (auto simp: hooks_wf_def)
  let ?P = "\<lambda>x. h_event_id x = w_EventID w \<and> claimable (clock d) stale x"
  have "hook_update ?P (hook_bump d to_processing) d =
      (if claimable (clock d) stale h then Inr ([claimed_again d h], replace_hook (claimed_again d h) d)
       else Inr ([], d))"
  proof (cases "claimable (clock d) stale h")
    case True
    then have "\<not> settled_status (h_status h)" by (auto simp: claimable_def settled_status_def)
    then show ?thesis
      using True h assms(5)
      by (simp, intro hook_update_one [where h = h])
         (auto simp: hook_bump_ok claimed_again_def)
  next
    case False
    have "\<not> ?P x" if "x \<in> set (hooks d)" for x
      using same_id_unique [OF h(4,1) that] h(2) False by auto
    then show ?thesis using False by (simp add: hook_update_none)
  qed
  then show ?thesis
    using assms(2-4) by (auto simp: claim_stmt_def check_row_None [THEN iffD2] Let_def)
qed

lemma claim_stmt_new:
  assumes "find (\<lambda>x. h_event_id x = w_EventID w) (hooks d) = None"
    and "jsonb_arg J (payloadOrNil (w_Payload w)) = Inr p"
    and "passes hook_checks (claim_row w p (clock d))"
  shows "claim_stmt J stale w s d =
    Inr (claim_row w p (clock d), d\<lparr>hooks := hooks d @ [claim_row w p (clock d)]\<rparr>)"
  using assms by (auto simp: claim_stmt_def check_row_None [THEN iffD2] Let_def)

text \<open>After a granted claim the event's row is in flight, stamped with the time of the claim.\<close>

lemma claim_stmt_holds:
  assumes "claim_stmt J stale w s d = Inr (h, d')" "ids_unique d"
  shows "h \<in> set (hooks d') \<and> held (w_EventID w) h \<and> h_updated_at h = clock d \<and> clock d' = clock d \<and>
         ids_unique d'"
proof -
  have u: "ids_unique d'"
    by (rule ledger_grows_unique [OF stmt_okD [OF claim_grows assms(1)] assms(2)])
  from assms(1) show ?thesis
  proof (cases rule: claim_stmt_cases)
    case (new p)
    then show ?thesis using u by (simp add: held_def claim_row_def)
  next
    case (again hit)
    let ?P = "\<lambda>h. h_event_id h = w_EventID w \<and> claimable (clock d) stale h"
    obtain all where upd: "sql_update ?P (hook_bump d to_processing) (hooks d) = Inr (h # hit, all)"
      and d': "d' = d\<lparr>hooks := all\<rparr>"
      using again by (auto simp: hook_update_def split: sum.splits)
    obtain r where r: "r \<in> set (filter ?P (hooks d))" "hook_bump d to_processing r = Inr h"
      using sql_update_hit [OF upd] unfolding list_all2_Cons2
      by (metis list.set_intros(1))
    then have "h = touch_hook d ((to_processing r)\<lparr>h_attempts := h_attempts r + 1\<rparr>) \<or>
               h = (to_processing r)\<lparr>h_attempts := h_attempts r + 1\<rparr> \<and> h = r"
      by (auto simp: hook_bump_def hook_write_def write_row_ok split: if_splits)
    moreover have "(to_processing r)\<lparr>h_attempts := h_attempts r + 1\<rparr> \<noteq> r"
    proof
      assume "(to_processing r)\<lparr>h_attempts := h_attempts r + 1\<rparr> = r"
      then have "h_attempts ((to_processing r)\<lparr>h_attempts := h_attempts r + 1\<rparr>) = h_attempts r" by simp
      then show False by simp
    qed
    ultimately have "h = touch_hook d ((to_processing r)\<lparr>h_attempts := h_attempts r + 1\<rparr>)" by auto
    then show ?thesis
      using r sql_update_hit_sub [OF upd] u
      by (auto simp: d' held_def touch_hook_def to_processing_def)
  qed
qed

section \<open>Well-formedness is kept\<close>

lemma hook_update_wf:
  assumes "hook_update P f d = Inr (hit, d')" "hooks_wf d" "ledger_grows d d'"
    and "\<And>h h'. f h = Inr h' \<Longrightarrow> passes hook_checks h'"
  shows "hooks_wf d'"
proof -
  obtain all where u: "sql_update P f (hooks d) = Inr (hit, all)" and d': "d' = d\<lparr>hooks := all\<rparr>"
    using assms(1) by (auto simp: hook_update_def split: sum.splits)
  have "passes hook_checks h'" if h': "h' \<in> set all" for h'
  proof -
    obtain h where "h \<in> set (hooks d)" "row_step P f h h'"
      using list_all2_mem2 [OF sql_update_rel [OF u] h'] by blast
    then show ?thesis using assms(2,4) by (auto simp: row_step_def hooks_wf_def split: if_splits)
  qed
  moreover have "ids_unique d'" using ledger_grows_unique assms(2,3) by (simp add: hooks_wf_def)
  ultimately show ?thesis by (simp add: hooks_wf_def d')
qed

lemma hook_write_passes: "hook_write d upd h = Inr h' \<Longrightarrow> passes hook_checks h'"
  by (auto simp: hook_write_def write_row_ok)

lemma hook_bump_passes: "hook_bump d upd h = Inr h' \<Longrightarrow> passes hook_checks h'"
  by (simp add: hook_bump_def hook_write_passes split: if_splits)

lemma claim_stmt_wf:
  assumes "claim_stmt J win w s d = Inr (h, d')" "hooks_wf d"
  shows "hooks_wf d'"
proof -
  have grows: "ledger_grows d d'" by (rule stmt_okD [OF claim_grows assms(1)])
  from assms(1) show ?thesis
  proof (cases rule: claim_stmt_cases)
    case (new p)
    then show ?thesis
      using assms(2) ledger_grows_unique [OF grows] by (auto simp: hooks_wf_def)
  next
    case (again hit)
    then show ?thesis by (rule hook_update_wf [OF _ assms(2) grows]) (rule hook_bump_passes)
  qed
qed

lemma mark_stmt_wf:
  assumes "mark_stmt e upd s d = Inr (hs, d')" "hooks_wf d" "ledger_grows d d'"
  shows "hooks_wf d'"
  using hook_update_wf [OF assms(1) [unfolded mark_stmt_def] assms(2,3) hook_write_passes] .

lemma retry_claim_wf:
  assumes "retry_claim_stmt e m s d = Inr (hs, d')" "hooks_wf d"
  shows "hooks_wf d'"
  using hook_update_wf [OF assms(1) [unfolded retry_claim_stmt_def] assms(2)
      stmt_okD [OF retry_claim_grows assms(1)] hook_bump_passes] .

lemma scan_update_wf:
  assumes "reclaim_stmt win l r s d = Inr (ids, d') \<or> purge_stmt q s d = Inr (sts, d')" "hooks_wf d"
  shows "hooks_wf d'"
proof -
  obtain P hit upd where "hook_update P (hook_write d upd) d = Inr (hit, d')"
    using assms(1)
    by (auto simp: reclaim_stmt_def purge_stmt_def Let_def split: if_splits sum.splits prod.splits)
  moreover have "ledger_grows d d'" using assms(1) stmt_okD [OF reclaim_grows] stmt_okD [OF purge_grows] by blast
  ultimately show ?thesis by (rule hook_update_wf [OF _ assms(2) _ hook_write_passes])
qed

section \<open>Settling a row\<close>

lemma mark_stmt_held:
  assumes "ids_unique d" "h \<in> set (hooks d)" "held e h" "passes hook_checks (touch_hook d (upd (clock d) h))"
    and "upd (clock d) h \<noteq> h" "h_event_id (upd (clock d) h) = h_event_id h"
  shows "mark_stmt e upd s d =
    Inr ([touch_hook d (upd (clock d) h)], replace_hook (touch_hook d (upd (clock d) h)) d)"
  unfolding mark_stmt_def
  by (rule hook_update_one [where h = h])
     (use assms in \<open>auto simp: hook_write_def write_row_ok touch_hook_def held_def\<close>)

lemma mark_stmt_not_held:
  "(\<And>h. h \<in> set (hooks d) \<Longrightarrow> \<not> held e h) \<Longrightarrow> mark_stmt e upd s d = Inr ([], d)"
  unfolding mark_stmt_def by (rule hook_update_none)

lemma passes_settled:
  assumes "passes hook_checks h"
  shows "passes hook_checks (touch_hook d (to_succeeded now h))"
    and "passes hook_checks (touch_hook d (to_skipped r now h))"
    and "passes hook_checks (touch_hook d (to_failed r now h))"
  using assms
  by (simp_all add: passes_def hook_checks_def to_succeeded_def to_skipped_def to_failed_def
      touch_hook_def settled_status_def purged_payload_ok_def split: option.splits)

lemma held_changes:
  "held e h \<Longrightarrow> to_succeeded now h \<noteq> h \<and> to_skipped r now h \<noteq> h \<and> to_failed r now h \<noteq> h"
proof -
  assume "held e h"
  then have "h_status (to_succeeded now h) \<noteq> h_status h" "h_status (to_skipped r now h) \<noteq> h_status h"
    "h_status (to_failed r now h) \<noteq> h_status h"
    by (simp_all add: held_def to_succeeded_def to_skipped_def to_failed_def)
  then show ?thesis by metis
qed

section \<open>Properties\<close>

text \<open>Concrete values the witnesses evaluate on.\<close>

definition sample_jsonlib :: jsonlib where
  "sample_jsonlib = \<lparr>json_valid = (\<lambda>b. True), jsonb_in = (\<lambda>b. Inr (JObj [(''id'', JStr b)])),
                     jsonb_out = (\<lambda>j. ''{}'')\<rparr>"

definition sample_hook :: ProcessedWebhook where
  "sample_hook =
     \<lparr>w_EventID = ''evt_1'', w_EventType = ''invoice.paid'', w_APIVersion = None, w_Livemode = True,
      w_RequestID = None, w_Status = [], w_Attempts = 0, w_LastError = None, w_Payload = ''{}'',
      w_StripeCreatedAt = unix 1700000000, w_ReceivedAt = zero_time, w_ProcessedAt = None,
      w_CreatedAt = zero_time, w_UpdatedAt = zero_time\<rparr>"

definition sample_row :: "webhook_status \<Rightarrow> hook_row" where
  "sample_row st =
     (claim_row sample_hook (Some (JObj [])) (unix 1700000000))
       \<lparr>h_status := st, h_last_error := Some ''boom'',
        h_processed_at := (if settled_status st then Some (unix 1700000000) else None)\<rparr>"

definition sample_db :: "webhook_status \<Rightarrow> db" where
  "sample_db st = \<lparr>clock = unix 1700000060, users = [], subs = [], hooks = [sample_row st], tokens = []\<rparr>"

lemmas sample_defs = sample_db_def sample_row_def claim_row_def sample_hook_def sample_jsonlib_def

lemma sample_db_wf: "hooks_wf (sample_db st)"
  by (cases st)
     (simp_all add: hooks_wf_def ids_unique_def passes_def hook_checks_def sample_defs
        id_format_def has_prefix_def is_alnum_def byte_def purged_payload_ok_def settled_status_def)

lemma sample_hook_valid:
  "ProcessedWebhook_Validate (json_valid sample_jsonlib) sample_hook = None"
  "passes hook_checks (claim_row sample_hook (Some (JObj [(''id'', JStr ''{}'')])) t)"
   apply code_simp
  apply (simp add: passes_def hook_checks_def sample_defs id_format_def has_prefix_def
      is_alnum_def byte_def purged_payload_ok_def settled_status_def)
  done

text \<open>
  C15 (decision of a claim). A delivery whose record is valid is granted its claim exactly when
  the ledger has no row for the event, or the row failed, or it has been in flight for longer
  than the stale window. A first claim appends a row in flight with one attempt; a repeated
  one moves the row back in flight, counts the attempt and clears the error; a refused one
  changes nothing.
\<close>

theorem TryClaimEvent_decides:
  assumes "w_plan W = []" "hooks_wf (w_db W)"
    and "ProcessedWebhook_Validate (json_valid J) w = None"
    and "jsonb_arg J (payloadOrNil (w_Payload w)) = Inr p"
    and "passes hook_checks (claim_row w p (clock (w_db W)))"
    and "\<forall>h \<in> set (hooks (w_db W)). h_attempts h < int4_max"
  shows "case find (\<lambda>h. h_event_id h = w_EventID w) (hooks (w_db W)) of
      None \<Rightarrow> \<exists>w'. w_Attempts w' = 1 \<and>
        run_state (TryClaimEvent J stale w) W =
          (Inr (True, w'), W\<lparr>w_db := (w_db W)\<lparr>hooks := hooks (w_db W) @ [claim_row w p (clock (w_db W))]\<rparr>\<rparr>)
    | Some h \<Rightarrow>
        if h_status h = WebhookFailed \<or>
           h_status h = WebhookProcessing \<and> h_updated_at h < clock (w_db W) - stale
        then \<exists>w'. w_Attempts w' = h_attempts h + 1 \<and>
          run_state (TryClaimEvent J stale w) W =
            (Inr (True, w'), W\<lparr>w_db := replace_hook (claimed_again (w_db W) h) (w_db W)\<rparr>)
        else run_state (TryClaimEvent J stale w) W = (Inr (False, w), W)"
proof (cases "find (\<lambda>h. h_event_id h = w_EventID w) (hooks (w_db W))")
  case None
  then show ?thesis
    using claim_stmt_new [OF None assms(4,5)]
    by (simp add: TryClaimEvent_def assms(1,3) run_stmt_quiet claim_row_def)
next
  case (Some h)
  then have "h_attempts h < int4_max" using assms(6) find_id_SomeD by blast
  then show ?thesis
    using claim_stmt_existing [OF assms(2) Some assms(4,5)]
    by (simp add: Some TryClaimEvent_def assms(1,3) run_stmt_quiet claimable_def claimed_again_def)
qed

theorem TryClaimEvent_decides_witness:
  "\<exists>w'. w_Attempts w' = 2 \<and>
     run_state (TryClaimEvent sample_jsonlib (5 * minute) sample_hook) (quiet (sample_db WebhookFailed)) =
       (Inr (True, w'), (quiet (sample_db WebhookFailed))
          \<lparr>w_db := replace_hook (claimed_again (sample_db WebhookFailed) (sample_row WebhookFailed))
                     (sample_db WebhookFailed)\<rparr>)"
  using TryClaimEvent_decides [of "quiet (sample_db WebhookFailed)" sample_jsonlib sample_hook
      "Some (JObj [(''id'', JStr ''{}'')])" "5 * minute"] sample_db_wf sample_hook_valid
  by (simp add: sample_db_def sample_row_def claim_row_def sample_hook_def sample_jsonlib_def
      jsonb_arg_def payloadOrNil_def int4_max_def)

text \<open>
  Settling needs the claim. \<open>MarkEventProcessed\<close> settles the row of an event that is
  in flight, stamping it with the time, and reports no error; on an event that is not in
  flight, settled or failed or reclaimed by others, it changes nothing and reports
  \<open>ErrEventNotClaimed\<close>.
\<close>

theorem MarkEventProcessed_settles:
  assumes "w_plan W = []" "hooks_wf (w_db W)" "h \<in> set (hooks (w_db W))"
  shows "run_state (MarkEventProcessed (h_event_id h)) W =
    (if h_status h = WebhookProcessing
     then (None, W\<lparr>w_db := replace_hook
             (h\<lparr>h_status := WebhookSucceeded, h_processed_at := Some (clock (w_db W)),
                h_last_error := None, h_updated_at := clock (w_db W)\<rparr>) (w_db W)\<rparr>)
     else (Some (Wrap (''mark webhook processed '' @ h_event_id h @ '': '')
                   (Sentinel ErrEventNotClaimed) []), W))"
proof (cases "h_status h = WebhookProcessing")
  case True
  then have held: "held (h_event_id h) h" by (simp add: held_def)
  have *: "mark_stmt (h_event_id h) to_succeeded s (w_db W) =
      Inr ([touch_hook (w_db W) (to_succeeded (clock (w_db W)) h)],
           replace_hook (touch_hook (w_db W) (to_succeeded (clock (w_db W)) h)) (w_db W))" for s
    using assms(2,3) held held_changes [OF held]
    by (intro mark_stmt_held passes_settled) (auto simp: hooks_wf_def to_succeeded_def)
  show ?thesis
    using True
    by (simp add: MarkEventProcessed_def assms(1) run_stmt_quiet * settle_reply_def
        touch_hook_def to_succeeded_def)
next
  case False
  have "\<not> held (h_event_id h) x" if "x \<in> set (hooks (w_db W))" for x
    using same_id_unique [OF _ assms(3) that] assms(2) False by (auto simp: held_def hooks_wf_def)
  then have "mark_stmt (h_event_id h) to_succeeded s (w_db W) = Inr ([], w_db W)" for s
    by (rule mark_stmt_not_held)
  then show ?thesis
    using False by (simp add: MarkEventProcessed_def assms(1) run_stmt_quiet settle_reply_def)
qed

theorem MarkEventProcessed_settles_witness:
  "fst (run_state (MarkEventProcessed ''evt_1'') (quiet (sample_db WebhookProcessing))) = None"
  using MarkEventProcessed_settles [of "quiet (sample_db WebhookProcessing)" "sample_row WebhookProcessing"]
    sample_db_wf
  by (simp add: sample_db_def sample_row_def claim_row_def sample_hook_def)

end
