(* ===== verification/Subscription_Repo.thy ===== *)
theory Subscription_Repo
  imports Webhook_Repo
begin

text \<open>
  internal/repository/postgres/subscription_repo.go. A subscription row carries two cursors,
  one per event stream: \<open>last_stripe_event_at\<close> for customer.subscription.* events and
  \<open>last_invoice_event_at\<close> for invoice.payment_* events. Both update methods lock the row,
  compare the event's time with the stream's cursor, and write.

  The locale \<open>sub_relation\<close> is the contract a client relies on: an insert satisfies
  \<open>R\<close>, and so does each UPDATE when the row was locked and the event is not stale.
  \<open>subs_evolve\<close> says that no subscription disappears, that its identity does not change
  and that neither cursor moves back.
\<close>

section \<open>Data\<close>

record InvoicePaymentUpdate =
  ip_StripeSubscriptionID :: string
  ip_Succeeded :: bool
  ip_EventID :: string
  ip_EventCreatedAt :: time
  ip_InvoiceID :: "string option"
  ip_FailureReason :: "string option"
  ip_NextAttemptAt :: "time option"
  ip_CurrentPeriodStart :: "time option"
  ip_CurrentPeriodEnd :: "time option"

record SubscriptionStatusUpdate =
  su_StripeSubscriptionID :: string
  su_Status :: SubscriptionStatus
  su_EventID :: string
  su_EventCreatedAt :: time
  su_CurrentPeriodStart :: "time option"
  su_CurrentPeriodEnd :: "time option"
  su_CancelAtPeriodEnd :: "bool option"
  su_CancelAt :: "time option"
  su_CanceledAt :: "time option"
  su_EndedAt :: "time option"
  su_TrialEnd :: "time option"
  su_StripePriceID :: "string option"
  su_Quantity :: "int option"
  su_LatestInvoiceID :: "string option"
  su_DefaultPaymentMethodID :: "string option"

text \<open>\<open>COALESCE(param, column)\<close>, on a column that is NOT NULL and on one that is not.\<close>

definition coalesce :: "'a option \<Rightarrow> 'a \<Rightarrow> 'a" where
  "coalesce p c = (case p of None \<Rightarrow> c | Some x \<Rightarrow> x)"

definition coalesce_null :: "'a option \<Rightarrow> 'a option \<Rightarrow> 'a option" where
  "coalesce_null p c = (case p of None \<Rightarrow> c | Some x \<Rightarrow> Some x)"

definition nullIfEmpty :: "string \<Rightarrow> string option" where
  "nullIfEmpty s = (if s = [] then None else Some s)"

definition derefOr :: "string option \<Rightarrow> string \<Rightarrow> string" where
  "derefOr s fallback = (case s of None \<Rightarrow> fallback | Some t \<Rightarrow> if t = [] then fallback else t)"

definition bad_enum :: "string \<Rightarrow> pg_error" where
  "bad_enum v =
     PgError codeInvalidTextRepr []
       (''invalid input value for enum subscription_status: '' @ go_quote v)"

definition sub_write :: "db \<Rightarrow> (Subscription \<Rightarrow> Subscription) \<Rightarrow> Subscription \<Rightarrow> pg_error + Subscription" where
  "sub_write d upd s = write_row ''subscriptions'' sub_checks (touch_sub d) upd s"

text \<open>\<open>UPDATE ... RETURNING\<close> through \<open>QueryRow\<close>: the first row, or no rows.\<close>

definition sub_update ::
  "(Subscription \<Rightarrow> bool) \<Rightarrow> (Subscription \<Rightarrow> pg_error + Subscription) \<Rightarrow> db \<Rightarrow> pg_error + Subscription \<times> db" where
  "sub_update P f d =
     (case sql_update P f (subs d) of
        Inl e \<Rightarrow> Inl e
      | Inr ([], all) \<Rightarrow> Inl NoRows
      | Inr (r # _, all) \<Rightarrow> Inr (r, d\<lparr>subs := all\<rparr>))"

section \<open>Creating and reading\<close>

text \<open>The dunning columns and the invoice cursor are not inserted: they take their defaults.\<close>

definition new_sub_row :: "Subscription \<Rightarrow> uuid \<Rightarrow> time \<Rightarrow> Subscription" where
  "new_sub_row s i now =
     s\<lparr>s_ID := i, s_PaymentFailedAt := None, s_PaymentFailureCount := 0, s_LastPaymentError := None,
       s_NextPaymentAttemptAt := None, s_LastInvoiceEventID := None, s_LastInvoiceEventAt := None,
       s_CreatedAt := now, s_UpdatedAt := now\<rparr>"

definition create_sub_stmt :: "Subscription \<Rightarrow> Subscription stmt" where
  "create_sub_stmt s st d =
     (let row = new_sub_row s (es_rand st) (clock d)
      in if \<not> SubscriptionStatus_Valid (s_Status s) then Inl (bad_enum (s_Status s))
         else case check_row ''subscriptions'' sub_checks row of
           Some e \<Rightarrow> Inl e
         | None \<Rightarrow>
             if list_ex (\<lambda>x. s_ID x = s_ID row) (subs d)
             then Inl (unique_violation ''subscriptions_pkey'')
             else if list_ex (\<lambda>x. s_StripeSubscriptionID x = s_StripeSubscriptionID row) (subs d)
             then Inl (unique_violation ''subscriptions_stripe_subscription_id_key'')
             else if \<not> list_ex (\<lambda>u. u_ID u = s_UserID row) (users d)
             then Inl (fk_violation ''subscriptions'' ''subscriptions_user_id_fkey'')
             else Inr (row, d\<lparr>subs := subs d @ [row]\<rparr>))"

definition CreateSubscription :: "Subscription \<Rightarrow> Subscription result prog" where
  "CreateSubscription s =
     (case Subscription_Validate s of
        Some e \<Rightarrow> State_Monad.return (Inl e)
      | None \<Rightarrow> do {
          r \<leftarrow> run_stmt (create_sub_stmt s);
          State_Monad.return (case r of
            Inl e \<Rightarrow> Inl (map_error ''create subscription'' e)
          | Inr row \<Rightarrow> Inr (s\<lparr>s_ID := s_ID row, s_CreatedAt := s_CreatedAt row,
                                s_UpdatedAt := s_UpdatedAt row\<rparr>)) })"

definition first_row :: "('r \<Rightarrow> bool) \<Rightarrow> (db \<Rightarrow> 'r list) \<Rightarrow> 'r stmt" where
  "first_row P table s d = (case find P (table d) of None \<Rightarrow> Inl NoRows | Some r \<Rightarrow> Inr (r, d))"

definition query_row :: "string \<Rightarrow> 'r stmt \<Rightarrow> 'r result prog" where
  "query_row op body = do {
     r \<leftarrow> run_stmt body;
     State_Monad.return (case r of Inl e \<Rightarrow> Inl (map_error op e) | Inr x \<Rightarrow> Inr x) }"

definition GetSubscriptionByStripeID :: "string \<Rightarrow> Subscription result prog" where
  "GetSubscriptionByStripeID sid =
     query_row ''get subscription by stripe id'' (first_row (\<lambda>s. s_StripeSubscriptionID s = sid) subs)"

definition GetLatestSubscriptionByUserID :: "uuid \<Rightarrow> Subscription result prog" where
  "GetLatestSubscriptionByUserID userID =
     query_row ''get latest subscription by user id''
       (first_row (\<lambda>s. s_UserID s = userID) (\<lambda>d. sort_key (\<lambda>s. - s_CreatedAt s) (subs d)))"

definition CountInDunning :: "int result prog" where
  "CountInDunning =
     query_row ''count subscriptions in dunning''
       (\<lambda>s d. Inr (count (\<lambda>x. s_PaymentFailedAt x \<noteq> None) (subs d), d))"

section \<open>Applying events\<close>

definition by_stripe_id :: "string \<Rightarrow> Subscription \<Rightarrow> bool" where
  "by_stripe_id sid s \<longleftrightarrow> s_StripeSubscriptionID s = sid"

text \<open>\<open>SELECT <cursor> ... FOR UPDATE\<close>.\<close>

definition lock_cursor :: "(Subscription \<Rightarrow> time option) \<Rightarrow> string \<Rightarrow> time option stmt" where
  "lock_cursor cursor sid s d =
     (case find (by_stripe_id sid) (subs d) of None \<Rightarrow> Inl NoRows | Some r \<Rightarrow> Inr (cursor r, d))"

definition stale :: "time \<Rightarrow> time option \<Rightarrow> bool" where
  "stale eventAt appliedAt \<longleftrightarrow> (case appliedAt of None \<Rightarrow> False | Some t \<Rightarrow> eventAt < t)"

definition apply_status :: "SubscriptionStatusUpdate \<Rightarrow> Subscription \<Rightarrow> Subscription" where
  "apply_status u s =
     s\<lparr>s_Status := su_Status u,
       s_CurrentPeriodStart := coalesce (su_CurrentPeriodStart u) (s_CurrentPeriodStart s),
       s_CurrentPeriodEnd := coalesce (su_CurrentPeriodEnd u) (s_CurrentPeriodEnd s),
       s_CancelAtPeriodEnd := coalesce (su_CancelAtPeriodEnd u) (s_CancelAtPeriodEnd s),
       s_CancelAt := coalesce_null (su_CancelAt u) (s_CancelAt s),
       s_CanceledAt := coalesce_null (su_CanceledAt u) (s_CanceledAt s),
       s_EndedAt := coalesce_null (su_EndedAt u) (s_EndedAt s),
       s_TrialEnd := coalesce_null (su_TrialEnd u) (s_TrialEnd s),
       s_StripePriceID := coalesce (su_StripePriceID u) (s_StripePriceID s),
       s_Quantity := coalesce (su_Quantity u) (s_Quantity s),
       s_LatestInvoiceID := coalesce_null (su_LatestInvoiceID u) (s_LatestInvoiceID s),
       s_DefaultPaymentMethodID := coalesce_null (su_DefaultPaymentMethodID u) (s_DefaultPaymentMethodID s),
       s_LastStripeEventID := nullIfEmpty (su_EventID u),
       s_LastStripeEventAt := Some (su_EventCreatedAt u)\<rparr>"

definition update_status_stmt :: "SubscriptionStatusUpdate \<Rightarrow> Subscription stmt" where
  "update_status_stmt u st d =
     (if \<not> SubscriptionStatus_Valid (su_Status u) then Inl (bad_enum (su_Status u))
      else sub_update (by_stripe_id (su_StripeSubscriptionID u)) (sub_write d (apply_status u)) d)"

definition apply_tx ::
  "string \<Rightarrow> bool \<Rightarrow> Subscription stmt \<Rightarrow> Subscription verdict prog" where
  "apply_tx op is_stale body =
     (if is_stale then State_Monad.return (Abort (Sentinel ErrStaleEvent))
      else do {
        r \<leftarrow> tx_stmt body;
        State_Monad.return (case r of
          Inl e \<Rightarrow> Abort (map_error op e)
        | Inr s \<Rightarrow> Commit (op @ '': commit'') (Inr s)) })"

definition UpdateSubscriptionStatus :: "SubscriptionStatusUpdate \<Rightarrow> Subscription result prog" where
  "UpdateSubscriptionStatus u =
     transaction ''update subscription status: begin'' ''update subscription status: lock row''
       (lock_cursor s_LastStripeEventAt (su_StripeSubscriptionID u))
       (\<lambda>appliedAt. apply_tx ''update subscription status'' (stale (su_EventCreatedAt u) appliedAt)
                      (update_status_stmt u))"

definition apply_paid :: "InvoicePaymentUpdate \<Rightarrow> Subscription \<Rightarrow> Subscription" where
  "apply_paid u s =
     s\<lparr>s_LatestInvoiceID := coalesce_null (ip_InvoiceID u) (s_LatestInvoiceID s),
       s_CurrentPeriodStart := coalesce (ip_CurrentPeriodStart u) (s_CurrentPeriodStart s),
       s_CurrentPeriodEnd := coalesce (ip_CurrentPeriodEnd u) (s_CurrentPeriodEnd s),
       s_PaymentFailedAt := None, s_PaymentFailureCount := 0, s_LastPaymentError := None,
       s_NextPaymentAttemptAt := None,
       s_LastInvoiceEventID := nullIfEmpty (ip_EventID u),
       s_LastInvoiceEventAt := Some (ip_EventCreatedAt u)\<rparr>"

definition apply_unpaid :: "InvoicePaymentUpdate \<Rightarrow> Subscription \<Rightarrow> Subscription" where
  "apply_unpaid u s =
     s\<lparr>s_LatestInvoiceID := coalesce_null (ip_InvoiceID u) (s_LatestInvoiceID s),
       s_PaymentFailedAt := Some (ip_EventCreatedAt u),
       s_PaymentFailureCount := s_PaymentFailureCount s + 1,
       s_LastPaymentError := Some (truncate_str (derefOr (ip_FailureReason u) ''payment failed'')),
       s_NextPaymentAttemptAt := ip_NextAttemptAt u,
       s_LastInvoiceEventID := nullIfEmpty (ip_EventID u),
       s_LastInvoiceEventAt := Some (ip_EventCreatedAt u)\<rparr>"

definition invoice_write :: "InvoicePaymentUpdate \<Rightarrow> db \<Rightarrow> Subscription \<Rightarrow> pg_error + Subscription" where
  "invoice_write u d s =
     (if ip_Succeeded u then sub_write d (apply_paid u) s
      else if int4_max < s_PaymentFailureCount s + 1 then Inl int4_out_of_range
      else sub_write d (apply_unpaid u) s)"

definition invoice_stmt :: "InvoicePaymentUpdate \<Rightarrow> Subscription stmt" where
  "invoice_stmt u st d = sub_update (by_stripe_id (ip_StripeSubscriptionID u)) (invoice_write u d) d"

definition RecordInvoicePayment :: "InvoicePaymentUpdate \<Rightarrow> Subscription result prog" where
  "RecordInvoicePayment u =
     transaction ''record invoice payment: begin'' ''record invoice payment: lock row''
       (lock_cursor s_LastInvoiceEventAt (ip_StripeSubscriptionID u))
       (\<lambda>appliedAt. apply_tx ''record invoice payment'' (stale (ip_EventCreatedAt u) appliedAt)
                      (invoice_stmt u))"

section \<open>Frames\<close>

lemma sub_update_frame: "sub_update P f d = Inr (r, d') \<Longrightarrow> \<exists>ss. d' = d\<lparr>subs := ss\<rparr>"
  by (auto simp: sub_update_def split: sum.splits list.splits prod.splits)

lemma create_sub_frame: "create_sub_stmt x s d = Inr (r, d') \<Longrightarrow> \<exists>ss. d' = d\<lparr>subs := ss\<rparr>"
  by (auto simp: create_sub_stmt_def Let_def split: if_splits option.splits)

lemma update_status_frame: "update_status_stmt u s d = Inr (r, d') \<Longrightarrow> \<exists>ss. d' = d\<lparr>subs := ss\<rparr>"
  by (auto simp: update_status_stmt_def dest!: sub_update_frame split: if_splits)

lemma invoice_frame: "invoice_stmt v s d = Inr (r, d') \<Longrightarrow> \<exists>ss. d' = d\<lparr>subs := ss\<rparr>"
  unfolding invoice_stmt_def by (rule sub_update_frame)

lemmas sub_frames = create_sub_frame update_status_frame invoice_frame

section \<open>The repository's contract\<close>

locale sub_relation = db_relation +
  assumes create_ok: "stmt_ok R (create_sub_stmt s)"
    and status_ok: "lock_cursor s_LastStripeEventAt (su_StripeSubscriptionID u) st0 d = Inr (c, d) \<Longrightarrow>
        \<not> stale (su_EventCreatedAt u) c \<Longrightarrow> update_status_stmt u st d = Inr (r, d') \<Longrightarrow> R d d'"
    and invoice_ok: "lock_cursor s_LastInvoiceEventAt (ip_StripeSubscriptionID v) st0 d = Inr (c, d) \<Longrightarrow>
        \<not> stale (ip_EventCreatedAt v) c \<Longrightarrow> invoice_stmt v st d = Inr (r, d') \<Longrightarrow> R d d'"
begin

lemma keeps_query_row: "stmt_ok R body \<Longrightarrow> keeps R (query_row op body)"
  unfolding query_row_def by (intro keeps_bind keeps_run_stmt keeps_return)

lemma first_row_ok: "stmt_ok R (first_row P table)"
  by (auto simp: stmt_ok_def first_row_def R_refl split: option.splits)

lemma keeps_CreateSubscription [keeps_rules]: "keeps R (CreateSubscription s)"
  unfolding CreateSubscription_def
  by (intro keeps_case_option keeps_bind keeps_run_stmt keeps_return create_ok)

lemma keeps_sub_reads [keeps_rules]:
  "keeps R (GetSubscriptionByStripeID sid)" "keeps R (GetLatestSubscriptionByUserID uid)"
  "keeps R CountInDunning"
  unfolding GetSubscriptionByStripeID_def GetLatestSubscriptionByUserID_def CountInDunning_def
  by (intro keeps_query_row first_row_ok, intro keeps_query_row first_row_ok,
      intro keeps_query_row) (simp add: stmt_ok_def R_refl)

text \<open>The guard between the lock and the write is what makes the write satisfy \<open>R\<close>.\<close>

lemma keeps_apply_tx:
  assumes "\<not> is_stale \<Longrightarrow> (\<And>st d r d'. P d \<Longrightarrow> body st d = Inr (r, d') \<Longrightarrow> R d d')"
  shows "keeps_if P R (apply_tx op is_stale body)"
  unfolding apply_tx_def
  using assms by (cases is_stale) (simp_all add: keeps_if_return keeps_if_tx_stmt)

lemma lock_cursor_reads: "lock_cursor f sid st d = Inr (c, d') \<Longrightarrow> d' = d"
  by (auto simp: lock_cursor_def split: option.splits)

lemma keeps_UpdateSubscriptionStatus [keeps_rules]: "keeps R (UpdateSubscriptionStatus u)"
  unfolding UpdateSubscriptionStatus_def
proof (rule keeps_transaction [where
      L = "\<lambda>c d. \<exists>st. lock_cursor s_LastStripeEventAt (su_StripeSubscriptionID u) st d = Inr (c, d)"])
  fix s d a d'
  assume "lock_cursor s_LastStripeEventAt (su_StripeSubscriptionID u) s d = Inr (a, d')"
  then show "d' = d \<and> (\<exists>st. lock_cursor s_LastStripeEventAt (su_StripeSubscriptionID u) st d = Inr (a, d))"
    using lock_cursor_reads by blast
qed (rule keeps_apply_tx, use status_ok in blast)

lemma keeps_RecordInvoicePayment [keeps_rules]: "keeps R (RecordInvoicePayment v)"
  unfolding RecordInvoicePayment_def
proof (rule keeps_transaction [where
      L = "\<lambda>c d. \<exists>st. lock_cursor s_LastInvoiceEventAt (ip_StripeSubscriptionID v) st d = Inr (c, d)"])
  fix s d a d'
  assume "lock_cursor s_LastInvoiceEventAt (ip_StripeSubscriptionID v) s d = Inr (a, d')"
  then show "d' = d \<and> (\<exists>st. lock_cursor s_LastInvoiceEventAt (ip_StripeSubscriptionID v) st d = Inr (a, d))"
    using lock_cursor_reads by blast
qed (rule keeps_apply_tx, use invoice_ok in blast)

end

section \<open>How a subscription evolves\<close>

definition cursor_le :: "time option \<Rightarrow> time option \<Rightarrow> bool" where
  "cursor_le a b \<longleftrightarrow> (case a of None \<Rightarrow> True | Some t \<Rightarrow> (case b of None \<Rightarrow> False | Some t' \<Rightarrow> t \<le> t'))"

lemma cursor_le_refl [simp]: "cursor_le a a"
  by (simp add: cursor_le_def split: option.splits)

lemma cursor_le_trans: "cursor_le a b \<Longrightarrow> cursor_le b c \<Longrightarrow> cursor_le a c"
  by (auto simp: cursor_le_def split: option.splits)

lemma not_stale: "\<not> stale t c \<longleftrightarrow> cursor_le c (Some t)"
  by (auto simp: stale_def cursor_le_def split: option.splits)

definition sub_evolves :: "Subscription \<Rightarrow> Subscription \<Rightarrow> bool" where
  "sub_evolves s s' \<longleftrightarrow>
     s_ID s' = s_ID s \<and> s_UserID s' = s_UserID s \<and>
     s_StripeSubscriptionID s' = s_StripeSubscriptionID s \<and>
     s_StripeCustomerID s' = s_StripeCustomerID s \<and>
     s_StripeProductID s' = s_StripeProductID s \<and> s_Currency s' = s_Currency s \<and>
     s_UnitAmount s' = s_UnitAmount s \<and> s_TrialStart s' = s_TrialStart s \<and>
     s_Metadata s' = s_Metadata s \<and> s_CreatedAt s' = s_CreatedAt s \<and>
     cursor_le (s_LastStripeEventAt s) (s_LastStripeEventAt s') \<and>
     cursor_le (s_LastInvoiceEventAt s) (s_LastInvoiceEventAt s')"

lemma sub_evolves_trans: "sub_evolves a b \<Longrightarrow> sub_evolves b c \<Longrightarrow> sub_evolves a c"
  unfolding sub_evolves_def using cursor_le_trans by auto

interpretation sub_rows: row_evolution s_StripeSubscriptionID sub_evolves
  by (unfold_locales, simp add: sub_evolves_def, erule sub_evolves_trans, assumption)
     (simp add: sub_evolves_def)

definition sids_unique :: "db \<Rightarrow> bool" where
  "sids_unique d \<longleftrightarrow> distinct (map s_StripeSubscriptionID (subs d))"

definition subs_evolve :: "db \<Rightarrow> db \<Rightarrow> bool" where
  "subs_evolve d d' \<longleftrightarrow> table_grows s_StripeSubscriptionID sub_evolves (subs d) (subs d')"

lemma subs_evolve_same [simp]: "subs d' = subs d \<Longrightarrow> subs_evolve d d'"
  by (simp add: subs_evolve_def sub_rows.grows_refl)

lemma subs_evolve_trans: "subs_evolve a b \<Longrightarrow> subs_evolve b c \<Longrightarrow> subs_evolve a c"
  unfolding subs_evolve_def by (rule sub_rows.grows_trans)

lemma subs_evolve_row:
  "subs_evolve d d' \<Longrightarrow> sids_unique d \<Longrightarrow> s \<in> set (subs d) \<Longrightarrow> \<exists>s' \<in> set (subs d'). sub_evolves s s'"
  unfolding subs_evolve_def sids_unique_def by (rule sub_rows.grows_row)

lemma create_sub_cases:
  assumes "create_sub_stmt s st d = Inr (r, d')"
  shows "r = new_sub_row s (es_rand st) (clock d)" "d' = d\<lparr>subs := subs d @ [r]\<rparr>"
    "passes sub_checks r" "SubscriptionStatus_Valid (s_Status r)"
    "\<forall>x \<in> set (subs d). s_ID x \<noteq> s_ID r \<and> s_StripeSubscriptionID x \<noteq> s_StripeSubscriptionID r"
    "\<exists>u \<in> set (users d). u_ID u = s_UserID r"
  using assms
  by (auto simp: create_sub_stmt_def Let_def check_row_None list_ex_iff new_sub_row_def
      split: if_splits option.splits)

lemma create_evolves: "stmt_ok subs_evolve (create_sub_stmt s)"
proof (rule stmt_okI)
  fix st d r d'
  assume "create_sub_stmt s st d = Inr (r, d')"
  note c = create_sub_cases [OF this]
  from c(5) have "\<And>x. x \<in> set (subs d) \<Longrightarrow> s_StripeSubscriptionID x \<noteq> s_StripeSubscriptionID r" by blast
  from sub_rows.grows_append [OF this] show "subs_evolve d d'"
    by (simp add: subs_evolve_def c(2))
qed

lemma sub_updateD:
  assumes "sub_update P f d = Inr (r, d')"
  obtains hit all where "sql_update P f (subs d) = Inr (r # hit, all)" "d' = d\<lparr>subs := all\<rparr>"
  using assms by (auto simp: sub_update_def split: sum.splits prod.splits list.splits)

lemma lock_cursor_row:
  assumes "lock_cursor f sid st d = Inr (c, d)" "sids_unique d" "s \<in> set (subs d)" "by_stripe_id sid s"
  shows "c = f s"
proof -
  have "find (\<lambda>y. s_StripeSubscriptionID y = s_StripeSubscriptionID s) (subs d) = Some s"
    using find_key_unique [of s_StripeSubscriptionID] assms(2,3) by (simp add: sids_unique_def)
  then show ?thesis
    using assms(1,4) by (auto simp: lock_cursor_def by_stripe_id_def [abs_def] split: option.splits)
qed

lemma sub_write_ok:
  "sub_write d upd s = Inr s' \<longleftrightarrow>
     s' = (if upd s = s then upd s else touch_sub d (upd s)) \<and> passes sub_checks s'"
  by (simp add: sub_write_def write_row_ok)

lemma status_evolves:
  assumes "lock_cursor s_LastStripeEventAt (su_StripeSubscriptionID u) st0 d = Inr (c, d)"
    and "\<not> stale (su_EventCreatedAt u) c" "update_status_stmt u st d = Inr (r, d')"
  shows "subs_evolve d d'"
proof -
  have "sub_update (by_stripe_id (su_StripeSubscriptionID u)) (sub_write d (apply_status u)) d = Inr (r, d')"
    using assms(3) by (simp add: update_status_stmt_def split: if_splits)
  then show ?thesis
  proof (rule sub_updateD)
    fix hit all
    assume "sql_update (by_stripe_id (su_StripeSubscriptionID u)) (sub_write d (apply_status u)) (subs d) =
            Inr (r # hit, all)" and d': "d' = d\<lparr>subs := all\<rparr>"
    from this(1) have "table_grows s_StripeSubscriptionID sub_evolves (subs d) all"
    proof (rule sub_rows.grows_update)
      fix s s'
      assume "distinct (map s_StripeSubscriptionID (subs d))" "s \<in> set (subs d)"
        "by_stripe_id (su_StripeSubscriptionID u) s" and w: "sub_write d (apply_status u) s = Inr s'"
      then have "c = s_LastStripeEventAt s"
        using lock_cursor_row [OF assms(1)] by (simp add: sids_unique_def)
      then show "sub_evolves s s'"
        using w assms(2)
        by (auto simp: sub_write_ok touch_sub_def apply_status_def sub_evolves_def not_stale split: if_splits)
    qed
    then show ?thesis by (simp add: subs_evolve_def d')
  qed
qed

lemma invoice_write_ok:
  "invoice_write u d s = Inr s' \<longleftrightarrow>
     (ip_Succeeded u \<or> s_PaymentFailureCount s + 1 \<le> int4_max) \<and>
     sub_write d (if ip_Succeeded u then apply_paid u else apply_unpaid u) s = Inr s'"
  by (auto simp: invoice_write_def)

lemma invoice_evolves:
  assumes "lock_cursor s_LastInvoiceEventAt (ip_StripeSubscriptionID u) st0 d = Inr (c, d)"
    and "\<not> stale (ip_EventCreatedAt u) c" "invoice_stmt u st d = Inr (r, d')"
  shows "subs_evolve d d'"
  using assms(3) unfolding invoice_stmt_def
proof (rule sub_updateD)
  fix hit all
  assume "sql_update (by_stripe_id (ip_StripeSubscriptionID u)) (invoice_write u d) (subs d) =
          Inr (r # hit, all)" and d': "d' = d\<lparr>subs := all\<rparr>"
  from this(1) have "table_grows s_StripeSubscriptionID sub_evolves (subs d) all"
  proof (rule sub_rows.grows_update)
    fix s s'
    assume "distinct (map s_StripeSubscriptionID (subs d))" "s \<in> set (subs d)"
      "by_stripe_id (ip_StripeSubscriptionID u) s" and w: "invoice_write u d s = Inr s'"
    then have "c = s_LastInvoiceEventAt s"
      using lock_cursor_row [OF assms(1)] by (simp add: sids_unique_def)
    then show "sub_evolves s s'"
      using w assms(2)
      by (auto simp: invoice_write_ok sub_write_ok touch_sub_def apply_paid_def apply_unpaid_def
          sub_evolves_def not_stale split: if_splits)
  qed
  then show ?thesis by (simp add: subs_evolve_def d')
qed

interpretation cursors: sub_relation subs_evolve
  by unfold_locales (auto intro: subs_evolve_trans create_evolves status_evolves invoice_evolves)

section \<open>The effect on one row\<close>

definition replace_sub :: "Subscription \<Rightarrow> db \<Rightarrow> db" where
  "replace_sub s d =
     d\<lparr>subs := map (\<lambda>x. if s_StripeSubscriptionID x = s_StripeSubscriptionID s then s else x) (subs d)\<rparr>"

text \<open>\<open>find\<close> by Stripe id, and the row a locked update leaves, stamped when it changed.\<close>

definition the_sub :: "string \<Rightarrow> db \<Rightarrow> Subscription option" where
  "the_sub sid d = find (by_stripe_id sid) (subs d)"

definition stamped :: "db \<Rightarrow> (Subscription \<Rightarrow> Subscription) \<Rightarrow> Subscription \<Rightarrow> Subscription" where
  "stamped d upd s = (if upd s = s then s else touch_sub d (upd s))"

lemma the_sub_Some: "the_sub sid d = Some s \<Longrightarrow> s \<in> set (subs d) \<and> s_StripeSubscriptionID s = sid"
  unfolding the_sub_def by (drule find_mem) (simp add: by_stripe_id_def)

lemma the_sub_replace:
  assumes "the_sub sid d = Some s" "s_StripeSubscriptionID s' = sid"
  shows "the_sub sid (replace_sub s' d) = Some s'"
proof -
  have "find (by_stripe_id sid)
      (map (\<lambda>x. if s_StripeSubscriptionID x = s_StripeSubscriptionID s' then s' else x) xs) = Some s'"
    if "find (by_stripe_id sid) xs = Some s" for xs
    using that by (induction xs) (auto simp: by_stripe_id_def assms(2))
  then show ?thesis using assms(1) by (simp add: the_sub_def replace_sub_def)
qed

lemma sids_unique_replace [simp]: "sids_unique (replace_sub s d) = sids_unique d"
proof -
  have "map s_StripeSubscriptionID (subs (replace_sub s d)) = map s_StripeSubscriptionID (subs d)"
    by (simp add: replace_sub_def)
  then show ?thesis unfolding sids_unique_def by presburger
qed

lemma clock_replace_sub [simp]: "clock (replace_sub s d) = clock d"
  by (simp add: replace_sub_def)

lemma sub_update_ok:
  assumes "sids_unique d" "the_sub sid d = Some s" "f s = Inr s'" "s_StripeSubscriptionID s' = sid"
  shows "sub_update (by_stripe_id sid) f d = Inr (s', replace_sub s' d)"
proof -
  have "sql_update (by_stripe_id sid) f (subs d) = Inr ([s'],
      map (\<lambda>x. if s_StripeSubscriptionID x = s_StripeSubscriptionID s then s' else x) (subs d))"
    by (rule sql_update_key)
       (use assms the_sub_Some [OF assms(2)] in \<open>auto simp: by_stripe_id_def sids_unique_def\<close>)
  with assms(4) the_sub_Some [OF assms(2)] show ?thesis by (simp add: sub_update_def replace_sub_def)
qed

lemma sub_update_fails:
  assumes "sids_unique d" "the_sub sid d = Some s" "f s = Inl e"
  shows "sub_update (by_stripe_id sid) f d = Inl e"
proof -
  have s: "s \<in> set (subs d)" "by_stripe_id sid s"
    using the_sub_Some [OF assms(2)] by (auto simp: by_stripe_id_def)
  have "\<exists>e'. sql_update (by_stripe_id sid) f (subs d) = Inl e'"
  proof (rule ccontr)
    assume "\<nexists>e'. sql_update (by_stripe_id sid) f (subs d) = Inl e'"
    then obtain hit all where "sql_update (by_stripe_id sid) f (subs d) = Inr (hit, all)"
      by (metis obj_sumE surj_pair)
    from sql_update_rel [OF this] obtain s' where "row_step (by_stripe_id sid) f s s'"
      using list_all2_mem [OF _ s(1)] by blast
    then show False using assms(3) s(2) by (simp add: row_step_def)
  qed
  then obtain e' where e': "sql_update (by_stripe_id sid) f (subs d) = Inl e'" ..
  then obtain x where "x \<in> set (subs d)" "by_stripe_id sid x" "f x = Inl e'"
    using sql_update_error by blast
  moreover from this s assms(1) have "x = s"
    by (auto simp: by_stripe_id_def sids_unique_def distinct_map inj_on_def)
  ultimately show ?thesis using e' assms(3) by (simp add: sub_update_def)
qed

lemma write_row_cases:
  "sub_write d upd s =
     (case check_row ''subscriptions'' sub_checks (stamped d upd s) of
        Some e \<Rightarrow> Inl e | None \<Rightarrow> Inr (stamped d upd s))"
  by (simp add: sub_write_def write_row_def stamped_def Let_def split: option.split)

lemma stamped_id:
  "s_StripeSubscriptionID (upd s) = s_StripeSubscriptionID s \<Longrightarrow>
   s_StripeSubscriptionID (stamped d upd s) = s_StripeSubscriptionID s"
  by (simp add: stamped_def touch_sub_def)

text \<open>The three outcomes of the guarded transaction in a quiet world.\<close>

lemma guarded_quiet:
  assumes "w_plan W = []"
  shows "run_state (transaction bo lo (lock_cursor cur sid) (\<lambda>c. apply_tx op (stale t c) body)) W =
    (case the_sub sid (w_db W) of
       None \<Rightarrow> (Inl (map_error lo NoRows), W)
     | Some s \<Rightarrow>
         if stale t (cur s) then (Inl (Sentinel ErrStaleEvent), W)
         else (case body (quiet_step (w_db W)) (w_db W) of
                 Inl e \<Rightarrow> (Inl (map_error op e), W)
               | Inr (r, d') \<Rightarrow> (Inr r, W\<lparr>w_db := d'\<rparr>)))"
proof (subst transaction_quiet [OF assms])
  show "lock_cursor cur sid s d = Inr (a, d') \<Longrightarrow> d' = d" for s d a d'
    by (auto simp: lock_cursor_def split: option.splits)
qed (auto simp: lock_cursor_def the_sub_def [symmetric] after_lock_def apply_tx_def assms
      tx_stmt_quiet commit_quiet split: option.split sum.split prod.split)

lemma update_status_quiet:
  assumes "sids_unique d" "the_sub (su_StripeSubscriptionID u) d = Some s" "SubscriptionStatus_Valid (su_Status u)"
  shows "update_status_stmt u st d =
    (case check_row ''subscriptions'' sub_checks (stamped d (apply_status u) s) of
       Some e \<Rightarrow> Inl e
     | None \<Rightarrow> Inr (stamped d (apply_status u) s, replace_sub (stamped d (apply_status u) s) d))"
proof -
  have "s_StripeSubscriptionID (stamped d (apply_status u) s) = su_StripeSubscriptionID u"
    using the_sub_Some [OF assms(2)] by (subst stamped_id) (simp_all add: apply_status_def)
  then show ?thesis
    using sub_update_ok [OF assms(1,2), where f = "sub_write d (apply_status u)"]
      sub_update_fails [OF assms(1,2), where f = "sub_write d (apply_status u)"] assms(3)
    by (cases "check_row ''subscriptions'' sub_checks (stamped d (apply_status u) s)")
       (simp_all add: update_status_stmt_def write_row_cases)
qed

lemma invoice_quiet:
  assumes "sids_unique d" "the_sub (ip_StripeSubscriptionID u) d = Some s"
    and "ip_Succeeded u \<or> s_PaymentFailureCount s < int4_max"
  defines "upd \<equiv> if ip_Succeeded u then apply_paid u else apply_unpaid u"
  shows "invoice_stmt u st d =
    (case check_row ''subscriptions'' sub_checks (stamped d upd s) of
       Some e \<Rightarrow> Inl e
     | None \<Rightarrow> Inr (stamped d upd s, replace_sub (stamped d upd s) d))"
proof -
  have "s_StripeSubscriptionID (stamped d upd s) = ip_StripeSubscriptionID u"
    using the_sub_Some [OF assms(2)]
    by (subst stamped_id) (simp_all add: upd_def apply_paid_def apply_unpaid_def)
  moreover have "invoice_write u d s = sub_write d upd s"
    using assms(3) by (auto simp: invoice_write_def upd_def)
  ultimately show ?thesis
    using sub_update_ok [OF assms(1,2), where f = "invoice_write u d"]
      sub_update_fails [OF assms(1,2), where f = "invoice_write u d"]
    by (cases "check_row ''subscriptions'' sub_checks (stamped d upd s)")
       (simp_all add: invoice_stmt_def write_row_cases)
qed

section \<open>Properties\<close>

text \<open>
  Every branch of a status update. In a database with unique Stripe ids,
  \<open>UpdateSubscriptionStatus\<close> reports not-found when there is no row, reports a stale event
  when the event is strictly older than the row's cursor, reports the violated constraint as
  a validation error, all three leaving the database as it was, and otherwise replaces exactly
  the subscription's row by the merged one and returns it.
\<close>

theorem UpdateSubscriptionStatus_outcomes:
  assumes "w_plan W = []" "sids_unique (w_db W)" "SubscriptionStatus_Valid (su_Status u)"
  shows "run_state (UpdateSubscriptionStatus u) W =
    (case the_sub (su_StripeSubscriptionID u) (w_db W) of
       None \<Rightarrow> (Inl (Wrap ''update subscription status: lock row: '' (Sentinel ErrNotFound) []), W)
     | Some s \<Rightarrow>
         if stale (su_EventCreatedAt u) (s_LastStripeEventAt s)
         then (Inl (Sentinel ErrStaleEvent), W)
         else (let s' = stamped (w_db W) (apply_status u) s
               in case check_row ''subscriptions'' sub_checks s' of
                    Some e \<Rightarrow> (Inl (map_error ''update subscription status'' e), W)
                  | None \<Rightarrow> (Inr s', W\<lparr>w_db := replace_sub s' (w_db W)\<rparr>)))"
  using assms
  by (simp add: UpdateSubscriptionStatus_def guarded_quiet update_status_quiet Let_def
      split: option.split)

definition sample_sub :: Subscription where
  "sample_sub =
     \<lparr>s_ID = 1, s_UserID = 7, s_StripeSubscriptionID = ''sub_1'', s_StripeCustomerID = ''cus_1'',
      s_StripePriceID = ''price_1'', s_StripeProductID = None, s_Status = SubscriptionActive,
      s_Quantity = 1, s_Currency = Some ''usd'', s_UnitAmount = Some 900,
      s_CurrentPeriodStart = unix 100, s_CurrentPeriodEnd = unix 200, s_CancelAtPeriodEnd = False,
      s_CancelAt = None, s_CanceledAt = None, s_EndedAt = None, s_TrialStart = None, s_TrialEnd = None,
      s_LatestInvoiceID = None, s_DefaultPaymentMethodID = None, s_PaymentFailedAt = None,
      s_PaymentFailureCount = 0, s_LastPaymentError = None, s_NextPaymentAttemptAt = None,
      s_LastInvoiceEventID = None, s_LastInvoiceEventAt = None, s_LastStripeEventID = Some ''evt_0'',
      s_LastStripeEventAt = Some (unix 150), s_Metadata = [], s_CreatedAt = unix 100,
      s_UpdatedAt = unix 100\<rparr>"

definition sample_update :: "string \<Rightarrow> int \<Rightarrow> SubscriptionStatus \<Rightarrow> SubscriptionStatusUpdate" where
  "sample_update ev sec st =
     \<lparr>su_StripeSubscriptionID = ''sub_1'', su_Status = st, su_EventID = ev,
      su_EventCreatedAt = unix sec, su_CurrentPeriodStart = Some (unix 200),
      su_CurrentPeriodEnd = Some (unix 300), su_CancelAtPeriodEnd = Some False, su_CancelAt = None,
      su_CanceledAt = None, su_EndedAt = None, su_TrialEnd = None, su_StripePriceID = None,
      su_Quantity = Some 2, su_LatestInvoiceID = None, su_DefaultPaymentMethodID = None\<rparr>"

definition sample_invoice :: "bool \<Rightarrow> int \<Rightarrow> InvoicePaymentUpdate" where
  "sample_invoice ok sec =
     \<lparr>ip_StripeSubscriptionID = ''sub_1'', ip_Succeeded = ok, ip_EventID = ''evt_9'',
      ip_EventCreatedAt = unix sec, ip_InvoiceID = Some ''in_1'',
      ip_FailureReason = Some ''card_declined'', ip_NextAttemptAt = None,
      ip_CurrentPeriodStart = None, ip_CurrentPeriodEnd = None\<rparr>"

definition sub_db :: db where
  "sub_db = \<lparr>clock = unix 1000, users = [], subs = [sample_sub], hooks = [], tokens = []\<rparr>"

lemma sample_invoice_fields [simp]:
  "ip_StripeSubscriptionID (sample_invoice ok t) = ''sub_1''" "ip_Succeeded (sample_invoice ok t) = ok"
  "ip_EventCreatedAt (sample_invoice ok t) = unix t"
  by (simp_all add: sample_invoice_def)

lemma sample_update_fields [simp]:
  "su_StripeSubscriptionID (sample_update e t st) = ''sub_1''" "su_Status (sample_update e t st) = st"
  "su_EventCreatedAt (sample_update e t st) = unix t" "su_EventID (sample_update e t st) = e"
  by (simp_all add: sample_update_def)

lemma sub_db_row [simp]:
  "subs sub_db = [sample_sub]"
  "sids_unique sub_db" "the_sub ''sub_1'' sub_db = Some sample_sub"
  "s_LastStripeEventAt sample_sub = Some (unix 150)" "s_LastInvoiceEventAt sample_sub = None"
  "s_PaymentFailureCount sample_sub = 0"
  by (simp_all add: sids_unique_def the_sub_def sub_db_def sample_sub_def by_stripe_id_def)

theorem UpdateSubscriptionStatus_outcomes_witness:
  "run_state (UpdateSubscriptionStatus (sample_update ''evt_1'' 149 SubscriptionPastDue)) (quiet sub_db) =
     (Inl (Sentinel ErrStaleEvent), quiet sub_db)"
  using UpdateSubscriptionStatus_outcomes
      [of "quiet sub_db" "sample_update ''evt_1'' 149 SubscriptionPastDue"]
  by (simp add: SubscriptionStatus_Valid_def stale_def)

text \<open>
  Every branch of an invoice event. \<open>RecordInvoicePayment\<close> guards on the invoice
  stream's own cursor: not-found, stale and constraint violations leave the database as it
  was; a payment clears the dunning columns; a failed payment sets the failure time, adds one
  to the counter, and replaces the reason and the next attempt.
\<close>

theorem RecordInvoicePayment_outcomes:
  assumes "w_plan W = []" "sids_unique (w_db W)"
    and "\<forall>s \<in> set (subs (w_db W)). s_PaymentFailureCount s < int4_max"
  shows "run_state (RecordInvoicePayment u) W =
    (case the_sub (ip_StripeSubscriptionID u) (w_db W) of
       None \<Rightarrow> (Inl (Wrap ''record invoice payment: lock row: '' (Sentinel ErrNotFound) []), W)
     | Some s \<Rightarrow>
         if stale (ip_EventCreatedAt u) (s_LastInvoiceEventAt s)
         then (Inl (Sentinel ErrStaleEvent), W)
         else (let s' = stamped (w_db W) (if ip_Succeeded u then apply_paid u else apply_unpaid u) s
               in case check_row ''subscriptions'' sub_checks s' of
                    Some e \<Rightarrow> (Inl (map_error ''record invoice payment'' e), W)
                  | None \<Rightarrow> (Inr s', W\<lparr>w_db := replace_sub s' (w_db W)\<rparr>)))"
proof (cases "the_sub (ip_StripeSubscriptionID u) (w_db W)")
  case (Some s)
  then have "s_PaymentFailureCount s < int4_max" using assms(3) the_sub_Some by blast
  with Some assms(1,2) show ?thesis
    by (simp add: RecordInvoicePayment_def guarded_quiet invoice_quiet Let_def split: option.split)
qed (simp add: RecordInvoicePayment_def guarded_quiet assms(1))

theorem RecordInvoicePayment_outcomes_witness:
  "fst (run_state (RecordInvoicePayment (sample_invoice False 149)) (quiet sub_db)) =
     Inr (stamped sub_db (apply_unpaid (sample_invoice False 149)) sample_sub)"
proof -
  have "passes sub_checks (stamped sub_db (apply_unpaid (sample_invoice False 149)) sample_sub)"
    by (simp add: passes_def sub_checks_def stamped_def touch_sub_def apply_unpaid_def
        sample_invoice_def sample_sub_def id_format_def has_prefix_def is_alnum_def is_lower_def
        byte_def trial_order_def)
  then show ?thesis
    using RecordInvoicePayment_outcomes [of "quiet sub_db" "sample_invoice False 149"]
    by (simp add: stale_def int4_max_def check_row_None [THEN iffD2] Let_def)
qed

section \<open>Unordered delivery\<close>

text \<open>
  The specification of the two event streams. A stream's state is its cursor and what it
  carries: the status, or the count of failed payments since the last success. An event
  replaces the state unless it is older than the cursor.
\<close>

definition status_view :: "Subscription \<Rightarrow> time option \<times> SubscriptionStatus" where
  "status_view s = (s_LastStripeEventAt s, s_Status s)"

definition dunning_view :: "Subscription \<Rightarrow> time option \<times> int" where
  "dunning_view s = (s_LastInvoiceEventAt s, s_PaymentFailureCount s)"

definition spec_status ::
  "SubscriptionStatusUpdate \<Rightarrow> time option \<times> SubscriptionStatus \<Rightarrow> time option \<times> SubscriptionStatus" where
  "spec_status u v = (if stale (su_EventCreatedAt u) (fst v) then v
                      else (Some (su_EventCreatedAt u), su_Status u))"


text \<open>Deliveries handled one after the other.\<close>

definition deliver :: "SubscriptionStatusUpdate list \<Rightarrow> world \<Rightarrow> world" where
  "deliver us W = fold (\<lambda>u W. snd (run_state (UpdateSubscriptionStatus u) W)) us W"


text \<open>
  Updates that satisfy the table's constraints on any row that satisfies them and whose trial
  began at \<open>start\<close>.
\<close>

definition period_ok :: "time option \<Rightarrow> time option \<Rightarrow> bool" where
  "period_ok a b \<longleftrightarrow> (a = None \<and> b = None) \<or> (\<exists>x y. a = Some x \<and> b = Some y \<and> x < y)"

definition sound_update :: "time option \<Rightarrow> SubscriptionStatusUpdate \<Rightarrow> bool" where
  "sound_update start u \<longleftrightarrow>
     SubscriptionStatus_Valid (su_Status u) \<and>
     (su_Status u = SubscriptionCanceled \<longrightarrow> su_CanceledAt u \<noteq> None) \<and>
     period_ok (su_CurrentPeriodStart u) (su_CurrentPeriodEnd u) \<and>
     (\<forall>q. su_Quantity u = Some q \<longrightarrow> 0 < q) \<and>
     (\<forall>p. su_StripePriceID u = Some p \<longrightarrow> id_format ''price_'' p) \<and> trial_order start (su_TrialEnd u)"

lemma period_ok_coalesce:
  "period_ok a b \<Longrightarrow> x < y \<Longrightarrow> coalesce a x < coalesce b (y::int)"
  by (auto simp: period_ok_def coalesce_def)

lemma passes_stamped: "passes sub_checks s \<Longrightarrow> passes sub_checks (upd s) \<Longrightarrow> passes sub_checks (stamped d upd s)"
  by (simp add: stamped_def passes_def sub_checks_def touch_sub_def)

lemma passes_apply_status:
  assumes "passes sub_checks s" "sound_update (s_TrialStart s) u"
  shows "passes sub_checks (apply_status u s)"
proof -
  have "trial_order (s_TrialStart s) (coalesce_null (su_TrialEnd u) (s_TrialEnd s))"
    using assms by (cases "su_TrialEnd u") (simp_all add: passes_def sub_checks_def sound_update_def coalesce_null_def)
  then show ?thesis
    using assms period_ok_coalesce [of "su_CurrentPeriodStart u" "su_CurrentPeriodEnd u"]
    by (auto simp: passes_def sub_checks_def apply_status_def sound_update_def coalesce_def coalesce_null_def
        split: option.splits)
qed



lemma view_stamped [simp]:
  "status_view (stamped d upd s) = status_view (upd s)"
  "dunning_view (stamped d upd s) = dunning_view (upd s)"
  by (auto simp: stamped_def status_view_def dunning_view_def touch_sub_def)

lemma view_apply [simp]:
  "status_view (apply_status u s) = (Some (su_EventCreatedAt u), su_Status u)"
  "dunning_view (apply_status u s) = dunning_view s"
  "status_view (apply_paid v s) = status_view s"
  "dunning_view (apply_paid v s) = (Some (ip_EventCreatedAt v), 0)"
  "status_view (apply_unpaid v s) = status_view s"
  "dunning_view (apply_unpaid v s) = (Some (ip_EventCreatedAt v), s_PaymentFailureCount s + 1)"
  by (simp_all add: status_view_def dunning_view_def apply_status_def apply_paid_def apply_unpaid_def)

text \<open>What holds of a subscription while events are delivered one after the other.\<close>

definition recorded :: "string \<Rightarrow> world \<Rightarrow> Subscription \<Rightarrow> bool" where
  "recorded sid W s \<longleftrightarrow>
     w_plan W = [] \<and> sids_unique (w_db W) \<and> the_sub sid (w_db W) = Some s \<and> passes sub_checks s"

lemma recorded_replace:
  assumes "recorded sid W s" "s_StripeSubscriptionID s' = sid" "passes sub_checks s'"
  shows "recorded sid (W\<lparr>w_db := replace_sub s' (w_db W)\<rparr>) s'"
  using assms the_sub_replace by (simp add: recorded_def)

lemma stamped_trial_start [simp]: "s_TrialStart (stamped d (apply_status u) s) = s_TrialStart s"
  by (simp add: stamped_def apply_status_def touch_sub_def)

lemma stamped_apply_id [simp]:
  "s_StripeSubscriptionID (stamped d (apply_status u) s) = s_StripeSubscriptionID s"
  "s_StripeSubscriptionID (stamped d (apply_paid v) s) = s_StripeSubscriptionID s"
  "s_StripeSubscriptionID (stamped d (apply_unpaid v) s) = s_StripeSubscriptionID s"
  by (simp_all add: stamped_id apply_status_def apply_paid_def apply_unpaid_def)

text \<open>One delivery refines one step of the specification and leaves the other stream alone.\<close>

lemma status_step:
  assumes "recorded sid W s" "su_StripeSubscriptionID u = sid" "sound_update (s_TrialStart s) u"
  obtains s' where "recorded sid (snd (run_state (UpdateSubscriptionStatus u) W)) s'"
    "status_view s' = spec_status u (status_view s)" "dunning_view s' = dunning_view s"
    "s_TrialStart s' = s_TrialStart s"
proof -
  have s: "the_sub sid (w_db W) = Some s" "passes sub_checks s" "w_plan W = []" "sids_unique (w_db W)"
    using assms(1) by (simp_all add: recorded_def)
  have valid: "SubscriptionStatus_Valid (su_Status u)" using assms(3) by (simp add: sound_update_def)
  let ?s = "stamped (w_db W) (apply_status u) s"
  have p: "passes sub_checks ?s" using passes_stamped passes_apply_status s(2) assms(3) by blast
  show thesis
  proof (cases "stale (su_EventCreatedAt u) (s_LastStripeEventAt s)")
    case True
    then have "snd (run_state (UpdateSubscriptionStatus u) W) = W"
      using s valid by (simp add: UpdateSubscriptionStatus_def guarded_quiet assms(2))
    with True assms(1) show thesis by (intro that [of s]) (simp_all add: spec_status_def status_view_def)
  next
    case False
    then have "snd (run_state (UpdateSubscriptionStatus u) W) = W\<lparr>w_db := replace_sub ?s (w_db W)\<rparr>"
      using s valid p
      by (simp add: UpdateSubscriptionStatus_def guarded_quiet assms(2) update_status_quiet
          check_row_None [THEN iffD2])
    moreover have "s_StripeSubscriptionID ?s = sid" using the_sub_Some [OF s(1)] by simp
    ultimately show thesis
      using False recorded_replace [OF assms(1) _ p]
      by (intro that [of ?s]) (simp_all add: spec_status_def status_view_def [of s])
  qed
qed


lemma deliver_refines:
  assumes "recorded sid W s" "\<forall>u \<in> set us. su_StripeSubscriptionID u = sid \<and> sound_update (s_TrialStart s) u"
  shows "\<exists>s'. recorded sid (deliver us W) s' \<and> status_view s' = fold spec_status us (status_view s) \<and>
              dunning_view s' = dunning_view s"
  using assms
proof (induction us arbitrary: W s)
  case (Cons u us)
  then obtain s1 where 1: "recorded sid (snd (run_state (UpdateSubscriptionStatus u) W)) s1"
    "status_view s1 = spec_status u (status_view s)" "dunning_view s1 = dunning_view s"
    "s_TrialStart s1 = s_TrialStart s"
    using status_step [of sid W s u] by auto
  from Cons.IH [OF 1(1)] Cons.prems(2) 1(2-4) show ?case by (simp add: deliver_def)
qed (auto simp: deliver_def)

text \<open>The update that wins among those delivered: the last of the newest.\<close>

fun winner :: "SubscriptionStatusUpdate list \<Rightarrow> SubscriptionStatusUpdate option" where
  "winner [] = None"
| "winner (u # us) =
     (case winner us of
        None \<Rightarrow> Some u
      | Some v \<Rightarrow> if su_EventCreatedAt v < su_EventCreatedAt u then Some u else Some v)"

lemma winner_None [simp]: "winner us = None \<longleftrightarrow> us = []"
  by (cases us) (auto split: option.splits)

lemma winner_max:
  "winner us = Some u \<Longrightarrow> u \<in> set us \<and> (\<forall>v \<in> set us. su_EventCreatedAt v \<le> su_EventCreatedAt u)"
  by (induction us arbitrary: u) (auto split: option.splits if_splits dest: order_trans less_imp_le)

lemma fold_spec_status:
  "fold spec_status us v =
     (case winner us of None \<Rightarrow> v
      | Some u \<Rightarrow> if stale (su_EventCreatedAt u) (fst v) then v
                 else (Some (su_EventCreatedAt u), su_Status u))"
  by (induction us arbitrary: v)
     (auto simp: spec_status_def stale_def split: option.splits)

text \<open>The newest of some updates, in order of delivery, and where the last of them leaves the row.\<close>

definition newest :: "SubscriptionStatusUpdate list \<Rightarrow> SubscriptionStatusUpdate list" where
  "newest us = filter (\<lambda>u. list_all (\<lambda>v. su_EventCreatedAt v \<le> su_EventCreatedAt u) us) us"

definition lands :: "Subscription \<Rightarrow> SubscriptionStatusUpdate \<Rightarrow> time option \<times> SubscriptionStatus" where
  "lands s u = (if stale (su_EventCreatedAt u) (s_LastStripeEventAt s) then status_view s
                else (Some (su_EventCreatedAt u), su_Status u))"

lemma newest_single_out:
  assumes "winner us = Some v"
  shows "newest us = filter (\<lambda>u. su_EventCreatedAt u = su_EventCreatedAt v) us"
  using winner_max [OF assms] unfolding newest_def
  by (intro filter_cong) (auto simp: list_all_iff intro: antisym)

lemma winner_last:
  "winner us = Some v \<Longrightarrow> v = last (filter (\<lambda>u. su_EventCreatedAt u = su_EventCreatedAt v) us)"
proof (induction us arbitrary: v)
  case (Cons u us)
  show ?case
  proof (cases "winner us")
    case (Some w)
    note w = winner_max [OF Some] Cons.IH [OF Some]
    show ?thesis
    proof (cases "su_EventCreatedAt w < su_EventCreatedAt u")
      case True
      then have "v = u" using Some Cons.prems by simp
      moreover have "filter (\<lambda>x. su_EventCreatedAt x = su_EventCreatedAt u) us = []"
        using w(1) True by (auto simp: filter_empty_conv)
      ultimately show ?thesis by simp
    next
      case False
      then have "v = w" using Some Cons.prems by simp
      moreover have "filter (\<lambda>x. su_EventCreatedAt x = su_EventCreatedAt w) us \<noteq> []"
        using w(1) by (auto simp: filter_empty_conv)
      ultimately show ?thesis using w(2) by simp
    qed
  qed (use Cons.prems in simp)
qed simp

lemma winner_newest:
  assumes "us \<noteq> []"
  shows "winner us = Some (last (newest us))"
proof -
  obtain v where v: "winner us = Some v" using assms winner_None by blast
  then show ?thesis using winner_last [OF v] by (simp add: newest_single_out [OF v])
qed

lemma newest_mem: "us \<noteq> [] \<Longrightarrow> last (newest us) \<in> set (newest us)"
proof -
  assume "us \<noteq> []"
  then obtain v where v: "winner us = Some v" using winner_None by blast
  then have "newest us \<noteq> []"
    using winner_max [OF v] by (auto simp: newest_single_out [OF v] filter_empty_conv)
  then show ?thesis by simp
qed

lemma newest_set: "set vs = set us \<Longrightarrow> set (newest vs) = set (newest us)"
  by (simp add: newest_def list_all_iff)

lemma newest_time: "u \<in> set (newest us) \<Longrightarrow> v \<in> set (newest us) \<Longrightarrow> su_EventCreatedAt u = su_EventCreatedAt v"
  by (auto simp: newest_def list_all_iff intro: antisym)

lemma deliver_lands:
  assumes "recorded sid W s" "us \<noteq> []"
    and "\<forall>u \<in> set us. su_StripeSubscriptionID u = sid \<and> sound_update (s_TrialStart s) u"
  shows "\<exists>s'. the_sub sid (w_db (deliver us W)) = Some s' \<and> status_view s' = lands s (last (newest us)) \<and>
              dunning_view s' = dunning_view s"
  using deliver_refines [OF assms(1,3)] assms(2)
  by (auto simp: recorded_def fold_spec_status winner_newest lands_def status_view_def [of s])

text \<open>
  C5 (the newest event wins; the order of delivery matters only within a second). Deliver status
  events of a recorded subscription one after the other, in any order and any number of times
  each, with nothing else writing meanwhile; every event's data satisfies the constraints of
  the table. Then the row ends at the last delivered of the newest events, or stays as it was
  when its cursor was already ahead of them. So two sequences of the same events leave the
  same cursor, and the same status too when the newest events agree on it, in particular when
  only one event has the newest time. Events that share the newest second and disagree are
  applied in order of arrival, and then the order does matter. The dunning state is untouched.
\<close>

theorem newest_event_wins:
  assumes "recorded sid W s" "us \<noteq> []" "set vs = set us"
    and "\<forall>u \<in> set us. su_StripeSubscriptionID u = sid \<and> sound_update (s_TrialStart s) u"
  shows "\<exists>s1 s2. the_sub sid (w_db (deliver us W)) = Some s1 \<and> the_sub sid (w_db (deliver vs W)) = Some s2 \<and>
           status_view s1 = lands s (last (newest us)) \<and> status_view s2 = lands s (last (newest vs)) \<and>
           s_LastStripeEventAt s1 = s_LastStripeEventAt s2 \<and>
           ((\<forall>u \<in> set (newest us). \<forall>v \<in> set (newest us). su_Status u = su_Status v) \<longrightarrow>
              s_Status s1 = s_Status s2) \<and>
           dunning_view s1 = dunning_view s \<and> dunning_view s2 = dunning_view s"
proof -
  have vs: "vs \<noteq> []" "\<forall>u \<in> set vs. su_StripeSubscriptionID u = sid \<and> sound_update (s_TrialStart s) u"
    using assms(2-4) by auto
  obtain s1 where s1: "the_sub sid (w_db (deliver us W)) = Some s1" "status_view s1 = lands s (last (newest us))"
      "dunning_view s1 = dunning_view s" using deliver_lands [OF assms(1,2,4)] by blast
  obtain s2 where s2: "the_sub sid (w_db (deliver vs W)) = Some s2" "status_view s2 = lands s (last (newest vs))"
      "dunning_view s2 = dunning_view s" using deliver_lands [OF assms(1) vs] by blast
  have mem: "last (newest us) \<in> set (newest us)" "last (newest vs) \<in> set (newest us)"
    using newest_mem [OF assms(2)] newest_mem [OF vs(1)] newest_set [OF assms(3)] by auto
  have "s_LastStripeEventAt s1 = s_LastStripeEventAt s2"
    using s1(2) s2(2) newest_time [OF mem] by (auto simp: lands_def status_view_def split: if_splits)
  moreover have "s_Status s1 = s_Status s2"
    if "\<forall>u \<in> set (newest us). \<forall>v \<in> set (newest us). su_Status u = su_Status v"
  proof -
    have "su_Status (last (newest us)) = su_Status (last (newest vs))" using that mem by blast
    then show ?thesis using s1(2) s2(2) newest_time [OF mem] by (auto simp: lands_def status_view_def split: if_splits)
  qed
  ultimately show ?thesis using s1 s2 by blast
qed

lemma sample_recorded: "recorded ''sub_1'' (quiet sub_db) sample_sub"
  by (simp add: recorded_def passes_def sub_checks_def sample_sub_def id_format_def has_prefix_def
      is_alnum_def is_lower_def byte_def trial_order_def)

lemma sample_sound:
  "st \<in> {SubscriptionActive, SubscriptionPastDue} \<Longrightarrow> sound_update start (sample_update e t st)"
  by (auto simp: sound_update_def sample_update_def SubscriptionStatus_Valid_def period_ok_def trial_order_def
      split: option.splits)

text \<open>
  Three events, the two newest in one second: both orders end at that second, each with the
  status that came last; and without the tie the order does not show.
\<close>

theorem newest_event_wins_witness:
  "\<exists>s1 s2 s3 s4.
     the_sub ''sub_1'' (w_db (deliver [sample_update ''evt_2'' 300 SubscriptionPastDue,
       sample_update ''evt_3'' 300 SubscriptionActive, sample_update ''evt_1'' 200 SubscriptionActive]
       (quiet sub_db))) = Some s1 \<and>
     the_sub ''sub_1'' (w_db (deliver [sample_update ''evt_3'' 300 SubscriptionActive,
       sample_update ''evt_1'' 200 SubscriptionActive, sample_update ''evt_2'' 300 SubscriptionPastDue]
       (quiet sub_db))) = Some s2 \<and>
     status_view s1 = (Some (unix 300), SubscriptionActive) \<and> status_view s2 = (Some (unix 300), SubscriptionPastDue) \<and>
     the_sub ''sub_1'' (w_db (deliver [sample_update ''evt_1'' 200 SubscriptionPastDue,
       sample_update ''evt_2'' 300 SubscriptionActive] (quiet sub_db))) = Some s3 \<and>
     the_sub ''sub_1'' (w_db (deliver [sample_update ''evt_2'' 300 SubscriptionActive,
       sample_update ''evt_1'' 200 SubscriptionPastDue] (quiet sub_db))) = Some s4 \<and>
     status_view s3 = (Some (unix 300), SubscriptionActive) \<and> s_Status s4 = s_Status s3"
proof -
  let ?u = "\<lambda>e t st. sample_update e t st"
  have lands: "lands sample_sub (?u e 300 st) = (Some (unix 300), st)" for e st
    by (simp add: lands_def stale_def sample_sub_def sample_update_def)
  note tie = newest_event_wins [OF sample_recorded,
      of "[?u ''evt_2'' 300 SubscriptionPastDue, ?u ''evt_3'' 300 SubscriptionActive, ?u ''evt_1'' 200 SubscriptionActive]"
         "[?u ''evt_3'' 300 SubscriptionActive, ?u ''evt_1'' 200 SubscriptionActive, ?u ''evt_2'' 300 SubscriptionPastDue]"]
  note alone = newest_event_wins [OF sample_recorded,
      of "[?u ''evt_1'' 200 SubscriptionPastDue, ?u ''evt_2'' 300 SubscriptionActive]"
         "[?u ''evt_2'' 300 SubscriptionActive, ?u ''evt_1'' 200 SubscriptionPastDue]"]
  show ?thesis using tie alone
    by (auto simp: sample_sound newest_def lands insert_commute)
qed




end
