(* ===== verification/User_Repo.thy ===== *)
theory User_Repo
  imports Subscription_Repo
begin

text \<open>
  internal/repository/postgres/user_repo.go. \<open>email\<close> is CITEXT: equality ignores case. The
  two unique indexes are partial: one email per user that is not soft-deleted, one Stripe
  customer per user of any kind. \<open>Validate\<close> trims the address in the caller's struct, so
  the user written and returned is the trimmed one.

  The locale \<open>user_relation\<close> is the contract of a client; \<open>users_wf\<close>, the table's
  constraints, is kept by both writes.
\<close>

section \<open>Operations\<close>

definition same_email :: "User \<Rightarrow> User \<Rightarrow> bool" where
  "same_email u v \<longleftrightarrow>
     u_DeletedAt u = None \<and> u_DeletedAt v = None \<and> to_lower (u_Email u) = to_lower (u_Email v)"

definition same_customer :: "User \<Rightarrow> User \<Rightarrow> bool" where
  "same_customer u v \<longleftrightarrow> u_StripeCustomerID u \<noteq> None \<and> u_StripeCustomerID u = u_StripeCustomerID v"

text \<open>The unique indexes against the other rows, in the order the migration creates them.\<close>

definition user_conflict :: "User list \<Rightarrow> User \<Rightarrow> pg_error option" where
  "user_conflict others u =
     (if list_ex (\<lambda>v. u_ID v = u_ID u) others then Some (unique_violation ''users_pkey'')
      else if list_ex (same_email u) others then Some (unique_violation ''uq_users_email_active'')
      else if list_ex (same_customer u) others then Some (unique_violation ''uq_users_stripe_customer_id'')
      else None)"

definition create_user_stmt :: "User \<Rightarrow> User stmt" where
  "create_user_stmt u s d =
     (let row = u\<lparr>u_ID := es_rand s, u_CreatedAt := clock d, u_UpdatedAt := clock d, u_DeletedAt := None\<rparr>
      in case check_row ''users'' user_checks row of
           Some e \<Rightarrow> Inl e
         | None \<Rightarrow>
             (case user_conflict (users d) row of
                Some e \<Rightarrow> Inl e
              | None \<Rightarrow> Inr (row, d\<lparr>users := users d @ [row]\<rparr>)))"

definition CreateUser :: "User \<Rightarrow> User result prog" where
  "CreateUser u0 =
     (case User_Validate u0 of
        (Some e, _) \<Rightarrow> State_Monad.return (Inl e)
      | (None, u) \<Rightarrow> do {
          r \<leftarrow> run_stmt (create_user_stmt u);
          State_Monad.return (case r of
            Inl e \<Rightarrow> Inl (map_error ''create user'' e)
          | Inr row \<Rightarrow> Inr (u\<lparr>u_ID := u_ID row, u_CreatedAt := u_CreatedAt row,
                                u_UpdatedAt := u_UpdatedAt row\<rparr>)) })"

definition GetUserByID :: "uuid \<Rightarrow> User result prog" where
  "GetUserByID i =
     query_row ''get user by id'' (first_row (\<lambda>u. u_ID u = i \<and> u_DeletedAt u = None) users)"

definition GetUserByStripeCustomerID :: "string \<Rightarrow> User result prog" where
  "GetUserByStripeCustomerID c =
     query_row ''get user by stripe customer id''
       (first_row (\<lambda>u. u_StripeCustomerID u = Some c \<and> u_DeletedAt u = None) users)"

definition GetUserByEmail :: "string \<Rightarrow> User result prog" where
  "GetUserByEmail email =
     query_row ''get user by email''
       (first_row (\<lambda>u. to_lower (u_Email u) = to_lower (trim_space email) \<and> u_DeletedAt u = None) users)"

definition set_user :: "User \<Rightarrow> User \<Rightarrow> User" where
  "set_user u x =
     x\<lparr>u_Email := u_Email u, u_EmailVerifiedAt := u_EmailVerifiedAt u, u_PasswordHash := u_PasswordHash u,
       u_FullName := u_FullName u, u_StripeCustomerID := u_StripeCustomerID u, u_Metadata := u_Metadata u\<rparr>"

definition user_write :: "User \<Rightarrow> db \<Rightarrow> User \<Rightarrow> pg_error + User" where
  "user_write u d x =
     (case write_row ''users'' user_checks (touch_user d) (set_user u) x of
        Inl e \<Rightarrow> Inl e
      | Inr x' \<Rightarrow> (case user_conflict (filter (\<lambda>v. u_ID v \<noteq> u_ID x) (users d)) x' of
                     Some e \<Rightarrow> Inl e | None \<Rightarrow> Inr x'))"

definition update_user_stmt :: "User \<Rightarrow> User stmt" where
  "update_user_stmt u s d =
     (case sql_update (\<lambda>x. u_ID x = u_ID u \<and> u_DeletedAt x = None) (user_write u d) (users d) of
        Inl e \<Rightarrow> Inl e
      | Inr ([], all) \<Rightarrow> Inl NoRows
      | Inr (r # _, all) \<Rightarrow> Inr (r, d\<lparr>users := all\<rparr>))"

definition UpdateUser :: "User \<Rightarrow> User result prog" where
  "UpdateUser u0 =
     (case User_Validate u0 of
        (Some e, _) \<Rightarrow> State_Monad.return (Inl e)
      | (None, u) \<Rightarrow>
          if u_ID u = nil_uuid
          then State_Monad.return (Inl (FieldErr \<lparr>fe_Field = ''id'', fe_Detail = ''is required for update''\<rparr>))
          else do {
            r \<leftarrow> run_stmt (update_user_stmt u);
            State_Monad.return (case r of
              Inl e \<Rightarrow> Inl (map_error ''update user'' e)
            | Inr row \<Rightarrow> Inr (u\<lparr>u_UpdatedAt := u_UpdatedAt row\<rparr>)) })"

text \<open>A lookup in a quiet world.\<close>

lemma user_row_quiet:
  assumes "w_plan w = []"
  shows "run_state (query_row op (first_row P users)) w =
    ((case find P (users (w_db w)) of
        None \<Rightarrow> Inl (Wrap (op @ '': '') (Sentinel ErrNotFound) []) | Some u \<Rightarrow> Inr u), w)"
  by (simp add: query_row_def first_row_def run_stmt_quiet [OF assms] split: option.split)

section \<open>The repository's contract\<close>

locale user_relation = db_relation +
  assumes create_user_ok: "stmt_ok R (create_user_stmt u)"
    and update_user_ok: "stmt_ok R (update_user_stmt u)"
begin

lemma keeps_user_row: "keeps R (query_row op (first_row P users))"
  unfolding query_row_def
  by (intro keeps_bind keeps_return keeps_run_stmt)
     (auto simp: stmt_ok_def first_row_def R_refl split: option.splits)

lemma keeps_user_reads [keeps_rules]:
  "keeps R (GetUserByID i)" "keeps R (GetUserByStripeCustomerID c)" "keeps R (GetUserByEmail e)"
  unfolding GetUserByID_def GetUserByStripeCustomerID_def GetUserByEmail_def
  by (rule keeps_user_row)+

lemma keeps_user_writes [keeps_rules]: "keeps R (CreateUser u)" "keeps R (UpdateUser u)"
  unfolding CreateUser_def UpdateUser_def
  by (cases "User_Validate u" rule: prod.exhaust,
      auto intro!: keeps_bind keeps_return keeps_run_stmt create_user_ok update_user_ok
           split: option.split)+

end

section \<open>The users table keeps its constraints\<close>

definition compatible :: "User \<Rightarrow> User \<Rightarrow> bool" where
  "compatible u v \<longleftrightarrow> u_ID u \<noteq> u_ID v \<and> \<not> same_email u v \<and> \<not> same_customer u v"

definition users_wf :: "User list \<Rightarrow> bool" where
  "users_wf us \<longleftrightarrow> list_all (passes user_checks) us \<and> sorted_wrt compatible us"

lemma compatible_sym: "compatible u v \<longleftrightarrow> compatible v u"
  by (auto simp: compatible_def same_email_def same_customer_def)

lemma user_conflict_None: "user_conflict vs u = None \<longleftrightarrow> (\<forall>v \<in> set vs. compatible u v)"
  by (auto simp: user_conflict_def list_ex_iff compatible_def) metis

lemma create_user_wf:
  assumes "create_user_stmt u s d = Inr (r, d')" "users_wf (users d)"
  shows "users_wf (users d')"
  using assms
  by (auto simp: create_user_stmt_def users_wf_def Let_def check_row_None user_conflict_None
      sorted_wrt_append compatible_sym split: option.splits)

lemma users_wf_ids: "users_wf us \<Longrightarrow> distinct (map u_ID us)"
proof (induction us)
  case (Cons a us)
  then show ?case by (auto simp: users_wf_def compatible_def)
qed simp

lemma users_wf_replace:
  assumes "users_wf us" "passes user_checks x'" "u_ID x' = i"
    and "\<forall>v \<in> set us. u_ID v \<noteq> i \<longrightarrow> compatible x' v"
  shows "users_wf (map (\<lambda>x. if u_ID x = i then x' else x) us)"
  using assms
proof (induction us)
  case (Cons a us)
  have wf: "users_wf us" "list_all (compatible a) us"
    using Cons.prems(1) by (auto simp: users_wf_def list_all_iff)
  then have IH: "users_wf (map (\<lambda>x. if u_ID x = i then x' else x) us)"
    using Cons by auto
  let ?f = "\<lambda>x. if u_ID x = i then x' else x"
  have comp: "compatible (?f a) (?f x)" if "x \<in> set us" for x
  proof -
    have ax: "compatible a x" using that wf(2) by (simp add: list_all_iff)
    then have "u_ID a \<noteq> u_ID x" by (simp add: compatible_def)
    with ax that Cons.prems(4) show ?thesis using compatible_sym [of a x'] by auto
  qed
  have "users_wf (?f a # map ?f us) \<longleftrightarrow>
      passes user_checks (?f a) \<and> list_all (compatible (?f a)) (map ?f us) \<and> users_wf (map ?f us)"
    by (auto simp: users_wf_def list_all_iff)
  moreover have "list_all (compatible (?f a)) (map ?f us)"
    unfolding list_all_iff set_map using comp by blast
  moreover have "passes user_checks (?f a)" using Cons.prems(1,2) by (simp add: users_wf_def)
  ultimately show ?case using IH by simp
qed (simp add: users_wf_def)

lemma update_user_wf:
  assumes "update_user_stmt u s d = Inr (r, d')" "users_wf (users d)"
  shows "users_wf (users d')"
proof -
  let ?P = "\<lambda>x. u_ID x = u_ID u \<and> u_DeletedAt x = None"
  obtain hit all where upd: "sql_update ?P (user_write u d) (users d) = Inr (r # hit, all)"
    and d': "d' = d\<lparr>users := all\<rparr>"
    using assms(1) by (auto simp: update_user_stmt_def split: sum.splits prod.splits list.splits)
  from sql_update_hit [OF upd] obtain x where x: "x \<in> set (filter ?P (users d))" "user_write u d x = Inr r"
    unfolding list_all2_Cons2 by (metis list.set_intros(1))
  have ids: "distinct (map u_ID (users d))" using users_wf_ids assms(2) by blast
  have all: "all = map (\<lambda>y. if u_ID y = u_ID x then r else y) (users d)"
    using sql_update_key [of u_ID "users d" x ?P "user_write u d" r] ids x upd by auto
  have "passes user_checks r" "u_ID r = u_ID x"
    "\<forall>v \<in> set (users d). u_ID v \<noteq> u_ID x \<longrightarrow> compatible r v"
    using x(2)
    by (auto simp: user_write_def write_row_ok user_conflict_None set_user_def touch_user_def
        split: sum.splits option.splits if_splits)
  then show ?thesis using users_wf_replace assms(2) by (simp add: d' all)
qed

lemma create_user_frame: "create_user_stmt u s d = Inr (r, d') \<Longrightarrow> \<exists>us. d' = d\<lparr>users := us\<rparr>"
  by (auto simp: create_user_stmt_def Let_def split: option.splits)

lemma update_user_frame: "update_user_stmt u s d = Inr (r, d') \<Longrightarrow> \<exists>us. d' = d\<lparr>users := us\<rparr>"
  by (auto simp: update_user_stmt_def split: sum.splits list.splits prod.splits)

lemmas user_frames = create_user_frame update_user_frame

end
