(* ===== verification/Refresh_Token_Repo.thy ===== *)
theory Refresh_Token_Repo
  imports User_Repo
begin

text \<open>
  internal/repository/postgres/refresh_token_repo.go: rotation families of refresh tokens.
  \<open>ConsumeRefreshToken\<close> is one transaction: it locks the presented token, revokes the whole
  family when the token was already exchanged, and otherwise marks it used and issues its
  successor. Its statements after the lock also touch other rows of the family; the
  transaction is modelled as taking place at its lock.

  The section on rotation shows what each branch does and that a family never has two live
  tokens.
\<close>

section \<open>Operations\<close>

record ConsumeRequest =
  cr_PresentedHash :: string
  cr_SuccessorHash :: string
  cr_SuccessorExpiresAt :: time

definition new_token_row :: "uuid \<Rightarrow> string \<Rightarrow> uuid \<Rightarrow> time \<Rightarrow> uuid \<Rightarrow> time \<Rightarrow> RefreshToken" where
  "new_token_row userID hash family expires i now =
     \<lparr>t_ID = i, t_UserID = userID, t_TokenHash = hash, t_FamilyID = family, t_IssuedAt = now,
      t_ExpiresAt = expires, t_UsedAt = None, t_RevokedAt = None, t_RevokedReason = None,
      t_CreatedAt = now, t_UpdatedAt = now\<rparr>"

definition insert_token_stmt :: "uuid \<Rightarrow> string \<Rightarrow> uuid \<Rightarrow> time \<Rightarrow> RefreshToken stmt" where
  "insert_token_stmt userID hash family expires s d =
     (let row = new_token_row userID hash family expires (es_rand s) (clock d)
      in case check_row ''refresh_tokens'' token_checks row of
           Some e \<Rightarrow> Inl e
         | None \<Rightarrow>
             if list_ex (\<lambda>t. t_ID t = t_ID row) (tokens d)
             then Inl (unique_violation ''refresh_tokens_pkey'')
             else if list_ex (\<lambda>t. t_TokenHash t = t_TokenHash row) (tokens d)
             then Inl (unique_violation ''uq_refresh_tokens_token_hash'')
             else if \<not> list_ex (\<lambda>u. u_ID u = userID) (users d)
             then Inl (fk_violation ''refresh_tokens'' ''refresh_tokens_user_id_fkey'')
             else Inr (row, d\<lparr>tokens := tokens d @ [row]\<rparr>))"

definition CreateRefreshToken :: "RefreshToken \<Rightarrow> RefreshToken result prog" where
  "CreateRefreshToken t = do {
     r \<leftarrow> run_stmt (insert_token_stmt (t_UserID t) (t_TokenHash t) (t_FamilyID t) (t_ExpiresAt t));
     State_Monad.return (case r of
       Inl e \<Rightarrow> Inl (map_error ''create refresh token'' e)
     | Inr row \<Rightarrow> Inr (t\<lparr>t_ID := t_ID row, t_IssuedAt := t_IssuedAt row,
                           t_CreatedAt := t_CreatedAt row, t_UpdatedAt := t_UpdatedAt row\<rparr>)) }"

definition token_update ::
  "(RefreshToken \<Rightarrow> bool) \<Rightarrow> (time \<Rightarrow> RefreshToken \<Rightarrow> RefreshToken) \<Rightarrow> int stmt" where
  "token_update P upd s d =
     (case sql_update P (write_row ''refresh_tokens'' token_checks (touch_token d) (upd (clock d))) (tokens d) of
        Inl e \<Rightarrow> Inl e
      | Inr (hit, all) \<Rightarrow> Inr (int (length hit), d\<lparr>tokens := all\<rparr>))"

definition to_revoked :: "string \<Rightarrow> time \<Rightarrow> RefreshToken \<Rightarrow> RefreshToken" where
  "to_revoked reason now t = t\<lparr>t_RevokedAt := Some now, t_RevokedReason := Some reason\<rparr>"

definition to_used :: "time \<Rightarrow> RefreshToken \<Rightarrow> RefreshToken" where
  "to_used now t = t\<lparr>t_UsedAt := Some now\<rparr>"

definition revoke_family_stmt :: "uuid \<Rightarrow> string \<Rightarrow> int stmt" where
  "revoke_family_stmt family reason =
     token_update (\<lambda>t. t_FamilyID t = family \<and> t_RevokedAt t = None) (to_revoked reason)"

definition mark_used_stmt :: "uuid \<Rightarrow> int stmt" where
  "mark_used_stmt i = token_update (\<lambda>t. t_ID t = i) to_used"

definition lock_token :: "string \<Rightarrow> RefreshToken stmt" where
  "lock_token hash = first_row (\<lambda>t. t_TokenHash t = hash) tokens"

text \<open>The second half of the rotation: mark the presented token used, issue the successor.\<close>

definition exchange :: "ConsumeRequest \<Rightarrow> RefreshToken \<Rightarrow> RefreshToken verdict prog" where
  "exchange c presented = do {
     u \<leftarrow> tx_stmt (mark_used_stmt (t_ID presented));
     (case u of
        Inl e \<Rightarrow> State_Monad.return (Abort (map_error ''consume refresh token: mark used'' e))
      | Inr _ \<Rightarrow> do {
          i \<leftarrow> tx_stmt (insert_token_stmt (t_UserID presented) (cr_SuccessorHash c)
                          (t_FamilyID presented) (cr_SuccessorExpiresAt c));
          State_Monad.return (case i of
            Inl e \<Rightarrow> Abort (map_error ''consume refresh token: issue successor'' e)
          | Inr t \<Rightarrow> Commit ''consume refresh token: commit'' (Inr t)) }) }"

definition consume_body :: "ConsumeRequest \<Rightarrow> RefreshToken \<Rightarrow> RefreshToken verdict prog" where
  "consume_body c presented =
     (if t_UsedAt presented \<noteq> None
      then do {
        r \<leftarrow> tx_stmt (revoke_family_stmt (t_FamilyID presented) ''refresh token reuse detected'');
        State_Monad.return (case r of
          Inl e \<Rightarrow> Abort (map_error ''consume refresh token: revoke family'' e)
        | Inr _ \<Rightarrow> Commit ''consume refresh token: commit revocation'' (Inl (Sentinel ErrTokenReused))) }
      else do {
        now \<leftarrow> get_now;
        (if t_RevokedAt presented \<noteq> None \<or> t_ExpiresAt presented < now
         then State_Monad.return (Abort (Sentinel ErrNotFound))
         else exchange c presented) })"

definition ConsumeRefreshToken :: "ConsumeRequest \<Rightarrow> RefreshToken result prog" where
  "ConsumeRefreshToken c =
     transaction ''consume refresh token: begin'' ''consume refresh token: lock''
       (lock_token (cr_PresentedHash c)) (consume_body c)"

definition exec_count :: "string \<Rightarrow> int stmt \<Rightarrow> int result prog" where
  "exec_count op body = do {
     r \<leftarrow> run_stmt body;
     State_Monad.return (case r of Inl e \<Rightarrow> Inl (map_error op e) | Inr n \<Rightarrow> Inr n) }"

definition RevokeFamily :: "uuid \<Rightarrow> string \<Rightarrow> int result prog" where
  "RevokeFamily family reason =
     exec_count ''revoke refresh token family'' (revoke_family_stmt family (truncate_str reason))"

text \<open>The subselect is NULL for an unknown hash, and nothing equals NULL.\<close>

definition revoke_by_token_stmt :: "string \<Rightarrow> string \<Rightarrow> int stmt" where
  "revoke_by_token_stmt hash reason s d =
     (case find (\<lambda>t. t_TokenHash t = hash) (tokens d) of
        None \<Rightarrow> Inr (0, d)
      | Some x \<Rightarrow> revoke_family_stmt (t_FamilyID x) reason s d)"

definition RevokeFamilyByToken :: "string \<Rightarrow> string \<Rightarrow> int result prog" where
  "RevokeFamilyByToken hash reason =
     exec_count ''revoke refresh token family by token'' (revoke_by_token_stmt hash (truncate_str reason))"

definition RevokeAllForUser :: "uuid \<Rightarrow> string \<Rightarrow> int result prog" where
  "RevokeAllForUser userID reason =
     exec_count ''revoke refresh tokens for user''
       (token_update (\<lambda>t. t_UserID t = userID \<and> t_RevokedAt t = None) (to_revoked (truncate_str reason)))"

definition delete_expired_stmt :: "duration \<Rightarrow> int \<Rightarrow> int stmt" where
  "delete_expired_stmt grace limit s d =
     (if limit < 0 then Inl invalid_limit
      else let ids = map t_ID (scan_limit t_ExpiresAt (\<lambda>t. t_ExpiresAt t < clock d - grace)
                                 (\<lambda>t. t_TokenHash t \<in> set (es_locked s)) limit (tokens d));
               gone = filter (\<lambda>t. t_ID t \<in> set ids) (tokens d)
           in Inr (int (length gone), d\<lparr>tokens := filter (\<lambda>t. t_ID t \<notin> set ids) (tokens d)\<rparr>))"

definition DeleteExpiredRefreshTokens :: "duration \<Rightarrow> int \<Rightarrow> int result prog" where
  "DeleteExpiredRefreshTokens grace limit =
     exec_count ''delete expired refresh tokens'' (delete_expired_stmt grace limit)"

section \<open>The repository's contract\<close>

text \<open>
  What a client relies on: each statement that writes satisfies \<open>R\<close>. A relation that does
  not look at tokens at all satisfies this contract.
\<close>

locale token_writes = db_relation +
  assumes insert_token_ok: "stmt_ok R (insert_token_stmt u h f e)"
    and revoke_ok: "stmt_ok R (token_update P (to_revoked r))"
    and use_ok: "stmt_ok R (token_update P to_used)"
    and delete_ok: "stmt_ok R (delete_expired_stmt g l)"
begin

lemma revoke_by_token_ok: "stmt_ok R (revoke_by_token_stmt h r)"
  using revoke_ok R_refl
  by (auto simp: stmt_ok_def revoke_by_token_stmt_def revoke_family_stmt_def split: option.splits)

lemma token_stmts_ok:
  "stmt_ok R (revoke_family_stmt f r)" "stmt_ok R (mark_used_stmt i)"
  unfolding revoke_family_stmt_def mark_used_stmt_def by (rule revoke_ok use_ok)+

lemmas token_writes_ok = insert_token_ok revoke_ok use_ok delete_ok revoke_by_token_ok token_stmts_ok

lemma keeps_exec_count: "stmt_ok R body \<Longrightarrow> keeps R (exec_count op body)"
  unfolding exec_count_def by (intro keeps_bind keeps_return keeps_run_stmt)

lemma keeps_token_ops [keeps_rules]:
  "keeps R (CreateRefreshToken t)" "keeps R (RevokeFamily f r)" "keeps R (RevokeFamilyByToken h r)"
  "keeps R (RevokeAllForUser u r)" "keeps R (DeleteExpiredRefreshTokens g l)"
  unfolding CreateRefreshToken_def RevokeFamily_def RevokeFamilyByToken_def RevokeAllForUser_def
    DeleteExpiredRefreshTokens_def
  by (intro keeps_exec_count keeps_bind keeps_return keeps_run_stmt token_writes_ok)+

lemma keeps_consume_body: "keeps R (consume_body c t)"
  unfolding consume_body_def exchange_def
  by (intro keeps_if keeps_bind keeps_return keeps_tx_stmt keeps_case_sum keeps_effects token_writes_ok)

lemma keeps_ConsumeRefreshToken [keeps_rules]: "keeps R (ConsumeRefreshToken c)"
  unfolding ConsumeRefreshToken_def
  by (rule keeps_transaction [where L = "\<lambda>a d. True"])
     (auto simp: lock_token_def first_row_def keeps_keeps_if keeps_consume_body split: option.splits)

end

locale token_relation = db_relation +
  assumes tokens_free: "users d' = users d \<Longrightarrow> subs d' = subs d \<Longrightarrow> hooks d' = hooks d \<Longrightarrow>
                        clock d' = clock d \<Longrightarrow> R d d'"

sublocale token_relation \<subseteq> token_writes
  by unfold_locales
     (auto simp: stmt_ok_def insert_token_stmt_def token_update_def delete_expired_stmt_def Let_def
        split: option.splits if_splits sum.splits intro!: tokens_free)

section \<open>Rotation families\<close>

definition live_token :: "RefreshToken \<Rightarrow> bool" where
  "live_token t \<longleftrightarrow> t_UsedAt t = None \<and> t_RevokedAt t = None"

definition rivals :: "RefreshToken \<Rightarrow> RefreshToken \<Rightarrow> bool" where
  "rivals a b \<longleftrightarrow> t_FamilyID a = t_FamilyID b \<and> live_token a \<and> live_token b"

text \<open>The table's constraints and, beyond them, at most one live token per family.\<close>

definition tokens_wf :: "RefreshToken list \<Rightarrow> bool" where
  "tokens_wf ts \<longleftrightarrow>
     list_all (passes token_checks) ts \<and> distinct (map t_ID ts) \<and> distinct (map t_TokenHash ts)"

definition one_live :: "RefreshToken list \<Rightarrow> bool" where
  "one_live ts \<longleftrightarrow> sorted_wrt (\<lambda>a b. \<not> rivals a b) ts"

definition tokens_ok :: "db \<Rightarrow> bool" where
  "tokens_ok d \<longleftrightarrow> tokens_wf (tokens d) \<and> one_live (tokens d)"

definition tokens_kept :: "db \<Rightarrow> db \<Rightarrow> bool" where
  "tokens_kept d d' \<longleftrightarrow> (tokens_ok d \<longrightarrow> tokens_ok d')"

lemma rivals_sym: "rivals a b \<longleftrightarrow> rivals b a"
  by (auto simp: rivals_def)

text \<open>A row may be used or revoked, never revived, and keeps its identity.\<close>

definition token_evolves :: "RefreshToken \<Rightarrow> RefreshToken \<Rightarrow> bool" where
  "token_evolves t t' \<longleftrightarrow>
     t_ID t' = t_ID t \<and> t_TokenHash t' = t_TokenHash t \<and> t_FamilyID t' = t_FamilyID t \<and>
     t_UserID t' = t_UserID t \<and> t_ExpiresAt t' = t_ExpiresAt t \<and> (live_token t' \<longrightarrow> live_token t) \<and>
     (passes token_checks t \<longrightarrow> passes token_checks t')"

lemma one_live_evolves: "list_all2 token_evolves ts ts' \<Longrightarrow> one_live ts \<Longrightarrow> one_live ts'"
proof (induction rule: list_all2_induct)
  case (Cons t ts t' ts')
  have "\<not> rivals t' y'" if y': "y' \<in> set ts'" for y'
  proof -
    obtain y where "y \<in> set ts" "token_evolves y y'"
      using list_all2_mem2 [OF Cons.hyps(2) y'] by blast
    moreover from this have "\<not> rivals t y" using Cons.prems by (auto simp: one_live_def)
    ultimately show ?thesis using Cons.hyps(1) by (auto simp: rivals_def token_evolves_def)
  qed
  with Cons show ?case by (auto simp: one_live_def)
qed simp

lemma tokens_wf_evolves:
  assumes "list_all2 token_evolves ts ts'" "tokens_wf ts"
  shows "tokens_wf ts'"
proof -
  have "map t_ID ts = map t_ID ts'" "map t_TokenHash ts = map t_TokenHash ts'"
    using list_all2_map_eq [OF assms(1), of t_ID t_ID] list_all2_map_eq [OF assms(1), of t_TokenHash t_TokenHash]
    by (auto simp: token_evolves_def)
  moreover have "list_all (passes token_checks) ts'"
    using assms by (induction rule: list_all2_induct) (auto simp: tokens_wf_def token_evolves_def)
  ultimately show ?thesis using assms(2) unfolding tokens_wf_def by metis
qed

lemma token_evolves_refl [simp]: "token_evolves t t"
  by (simp add: token_evolves_def)

lemma token_evolves_touch: "token_evolves t t' \<Longrightarrow> token_evolves t (touch_token d t')"
  by (auto simp: token_evolves_def touch_token_def live_token_def passes_def token_checks_def)

lemma token_updateD:
  assumes "token_update P upd s d = Inr (n, d')"
    and "\<And>t. token_evolves t (upd (clock d) t)"
  shows "list_all2 token_evolves (tokens d) (tokens d')" "users d' = users d" "clock d' = clock d"
proof -
  obtain hit all where u: "sql_update P (write_row ''refresh_tokens'' token_checks (touch_token d)
      (upd (clock d))) (tokens d) = Inr (hit, all)" and d': "d' = d\<lparr>tokens := all\<rparr>"
    using assms(1) by (auto simp: token_update_def split: sum.splits)
  have "token_evolves t t'" if "row_step P (write_row ''refresh_tokens'' token_checks (touch_token d)
      (upd (clock d))) t t'" for t t'
    using that assms(2) [of t] token_evolves_touch [of t "upd (clock d) t" d]
    by (cases "P t"; cases "upd (clock d) t = t") (auto simp: row_step_def write_row_ok)
  then show "list_all2 token_evolves (tokens d) (tokens d')"
    using list_all2_mono [OF sql_update_rel [OF u]] by (simp add: d')
  show "users d' = users d" "clock d' = clock d" by (simp_all add: d')
qed

lemma used_evolves [simp]: "token_evolves t (to_used now t)"
  and revoked_evolves [simp]: "token_evolves t (to_revoked r now t)"
  by (simp_all add: token_evolves_def to_used_def to_revoked_def live_token_def passes_def token_checks_def)

lemma token_update_kept:
  assumes "token_update P upd s d = Inr (n, d')" "\<And>t. token_evolves t (upd (clock d) t)"
  shows "tokens_kept d d'"
  using token_updateD [OF assms] one_live_evolves tokens_wf_evolves
  by (simp add: tokens_kept_def tokens_ok_def)

lemma insert_tokenD:
  assumes "insert_token_stmt u h f e s d = Inr (t, d')"
  shows "t = new_token_row u h f e (es_rand s) (clock d)" "d' = d\<lparr>tokens := tokens d @ [t]\<rparr>"
    "passes token_checks t" "\<forall>x \<in> set (tokens d). t_ID x \<noteq> t_ID t \<and> t_TokenHash x \<noteq> h"
    "\<exists>x \<in> set (users d). u_ID x = u"
  using assms
  by (auto simp: insert_token_stmt_def Let_def check_row_None list_ex_iff new_token_row_def
      split: if_splits option.splits)

lemma insert_token_kept:
  assumes "insert_token_stmt u h f e s d = Inr (t, d')"
    and "\<And>x. x \<in> set (tokens d) \<Longrightarrow> t_FamilyID x = f \<Longrightarrow> \<not> live_token x"
  shows "tokens_kept d d'"
proof -
  note i = insert_tokenD [OF assms(1)]
  have "t_FamilyID t = f" "t_TokenHash t = h" by (simp_all add: i(1) new_token_row_def)
  then show ?thesis
    using i(2-4) assms(2)
    by (auto simp: tokens_kept_def tokens_ok_def tokens_wf_def one_live_def sorted_wrt_append rivals_def)
qed

interpretation rotation: db_relation tokens_kept
  by unfold_locales (auto simp: tokens_kept_def)

text \<open>The table's own constraints are kept by every statement.\<close>

definition tokens_sound :: "db \<Rightarrow> db \<Rightarrow> bool" where
  "tokens_sound d d' \<longleftrightarrow> (tokens_wf (tokens d) \<longrightarrow> tokens_wf (tokens d'))"

lemma tokens_sound_same: "tokens d' = tokens d \<Longrightarrow> tokens_sound d d'"
  by (simp add: tokens_sound_def)

interpretation token_table: token_writes tokens_sound
proof unfold_locales
  show "stmt_ok tokens_sound (insert_token_stmt u h f e)" for u h f e
  proof (rule stmt_okI)
    fix s d t d'
    assume "insert_token_stmt u h f e s d = Inr (t, d')"
    note i = insert_tokenD [OF this]
    have "t_TokenHash t = h" by (simp add: i(1) new_token_row_def)
    then show "tokens_sound d d'" using i(2-4) by (auto simp: tokens_sound_def tokens_wf_def)
  qed
  show "stmt_ok tokens_sound (token_update P (to_revoked r))" for P r
    by (rule stmt_okI) (auto simp: tokens_sound_def dest!: token_updateD(1) intro: tokens_wf_evolves)
  show "stmt_ok tokens_sound (token_update P to_used)" for P
    by (rule stmt_okI) (auto simp: tokens_sound_def dest!: token_updateD(1) intro: tokens_wf_evolves)
  show "stmt_ok tokens_sound (delete_expired_stmt g l)" for g l
    by (rule stmt_okI)
       (auto simp: tokens_sound_def delete_expired_stmt_def Let_def tokens_wf_def list_all_iff distinct_map_filter
          split: if_splits)
qed (auto simp: tokens_sound_def)

text \<open>
  What no constraint of the table says: a row that was used or revoked stays so, and keeps its
  owner, hash and family. Every token of a later database is such a continuation of an earlier
  one, or was issued since.
\<close>

definition session_evolves :: "RefreshToken \<Rightarrow> RefreshToken \<Rightarrow> bool" where
  "session_evolves t t' \<longleftrightarrow>
     t_ID t' = t_ID t \<and> t_UserID t' = t_UserID t \<and> t_TokenHash t' = t_TokenHash t \<and>
     t_FamilyID t' = t_FamilyID t \<and> t_ExpiresAt t' = t_ExpiresAt t \<and> t_CreatedAt t' = t_CreatedAt t \<and>
     (t_UsedAt t \<noteq> None \<longrightarrow> t_UsedAt t' \<noteq> None) \<and> (t_RevokedAt t \<noteq> None \<longrightarrow> t_RevokedAt t' \<noteq> None)"

definition sessions_kept :: "db \<Rightarrow> db \<Rightarrow> bool" where
  "sessions_kept d d' \<longleftrightarrow>
     clock d \<le> clock d' \<and>
     (\<forall>t' \<in> set (tokens d'). (\<exists>t \<in> set (tokens d). session_evolves t t') \<or> clock d \<le> t_CreatedAt t')"

lemma session_evolves_refl [simp, intro]: "session_evolves t t"
  by (simp add: session_evolves_def)

lemma session_evolves_trans: "session_evolves a b \<Longrightarrow> session_evolves b c \<Longrightarrow> session_evolves a c"
  by (simp add: session_evolves_def)

lemma sessions_kept_subset: "set (tokens d') \<subseteq> set (tokens d) \<Longrightarrow> clock d' = clock d \<Longrightarrow> sessions_kept d d'"
  by (auto simp: sessions_kept_def)

lemma sessions_kept_same: "tokens d' = tokens d \<Longrightarrow> clock d' = clock d \<Longrightarrow> sessions_kept d d'"
  by (simp add: sessions_kept_subset)

lemma sessions_kept_trans:
  assumes "sessions_kept a b" "sessions_kept b c"
  shows "sessions_kept a c"
  unfolding sessions_kept_def
proof (intro conjI ballI)
  show "clock a \<le> clock c" using assms by (simp add: sessions_kept_def)
  fix t
  assume "t \<in> set (tokens c)"
  then consider y where "y \<in> set (tokens b)" "session_evolves y t" | "clock b \<le> t_CreatedAt t"
    using assms(2) by (auto simp: sessions_kept_def)
  then show "(\<exists>x \<in> set (tokens a). session_evolves x t) \<or> clock a \<le> t_CreatedAt t"
  proof cases
    case 1
    then show ?thesis using assms(1) session_evolves_trans by (fastforce simp: sessions_kept_def session_evolves_def)
  next
    case 2
    then show ?thesis using assms(1) by (simp add: sessions_kept_def)
  qed
qed

lemma token_update_sessions:
  assumes "\<And>now t. session_evolves t (upd now t)"
  shows "stmt_ok sessions_kept (token_update P upd)"
proof (rule stmt_okI)
  fix s d n d'
  assume "token_update P upd s d = Inr (n, d')"
  then obtain hit all where u: "sql_update P (write_row ''refresh_tokens'' token_checks (touch_token d)
      (upd (clock d))) (tokens d) = Inr (hit, all)" and d': "d' = d\<lparr>tokens := all\<rparr>"
    by (auto simp: token_update_def split: sum.splits)
  have touch: "session_evolves t (touch_token d (upd (clock d) t))" for t
    using assms [of t "clock d"] by (simp add: session_evolves_def touch_token_def)
  have "session_evolves t t'" if "row_step P (write_row ''refresh_tokens'' token_checks (touch_token d)
      (upd (clock d))) t t'" for t t'
    using that assms [of t "clock d"] touch [of t]
    by (cases "P t"; cases "upd (clock d) t = t") (auto simp: row_step_def write_row_ok)
  then show "sessions_kept d d'"
    using list_all2_mem2 [OF sql_update_rel [OF u]] by (fastforce simp: d' sessions_kept_def)
qed

interpretation session_table: token_writes sessions_kept
proof unfold_locales
  show "stmt_ok sessions_kept (insert_token_stmt u h f e)" for u h f e
  proof (rule stmt_okI)
    fix s d t d'
    assume "insert_token_stmt u h f e s d = Inr (t, d')"
    note i = insert_tokenD [OF this]
    have "t_CreatedAt t = clock d" by (simp add: i(1) new_token_row_def)
    then show "sessions_kept d d'" by (auto simp: i(2) sessions_kept_def)
  qed
  show "stmt_ok sessions_kept (token_update P (to_revoked r))" for P r
    by (rule token_update_sessions) (simp add: session_evolves_def to_revoked_def)
  show "stmt_ok sessions_kept (token_update P to_used)" for P
    by (rule token_update_sessions) (simp add: session_evolves_def to_used_def)
  show "stmt_ok sessions_kept (delete_expired_stmt g l)" for g l
    by (rule stmt_okI) (auto simp: delete_expired_stmt_def Let_def split: if_splits intro!: sessions_kept_subset)
  show "sessions_kept d d" for d by (simp add: sessions_kept_same)
  show "sessions_kept a b \<Longrightarrow> sessions_kept b c \<Longrightarrow> sessions_kept a c" for a b c by (rule sessions_kept_trans)
qed

lemma mark_used_clears:
  assumes "mark_used_stmt (t_ID t) s d = Inr (n, d')" "tokens_ok d" "t \<in> set (tokens d)" "live_token t"
    and "x \<in> set (tokens d')" "t_FamilyID x = t_FamilyID t"
  shows "\<not> live_token x"
proof -
  let ?f = "write_row ''refresh_tokens'' token_checks (touch_token d) (to_used (clock d))"
  obtain hit all where u: "sql_update (\<lambda>y. t_ID y = t_ID t) ?f (tokens d) = Inr (hit, all)"
    and d': "d' = d\<lparr>tokens := all\<rparr>"
    using assms(1) by (auto simp: mark_used_stmt_def token_update_def split: sum.splits)
  obtain y where y: "y \<in> set (tokens d)" "row_step (\<lambda>y. t_ID y = t_ID t) ?f y x"
    using list_all2_mem2 [OF sql_update_rel [OF u]] assms(5) d' by auto
  show ?thesis
  proof (cases "t_ID y = t_ID t")
    case True
    then have "x = to_used (clock d) y \<or> x = touch_token d (to_used (clock d) y)"
      using y(2) by (auto simp: row_step_def write_row_ok split: if_splits)
    then have "t_UsedAt x = Some (clock d)" by (auto simp: to_used_def touch_token_def)
    then show ?thesis by (simp add: live_token_def)
  next
    case False
    then have "x = y" "y \<noteq> t" using y(2) by (auto simp: row_step_def)
    moreover have "\<not> rivals t y"
      using assms(2,3) y(1) \<open>y \<noteq> t\<close> rivals_sym
      by (auto simp: tokens_ok_def one_live_def sorted_wrt_iff_nth_less in_set_conv_nth)
         (metis linorder_neqE_nat)
    ultimately show ?thesis using assms(4,6) by (auto simp: rivals_def)
  qed
qed

lemma exchange_keeps:
  assumes t: "t \<in> set (tokens (w_db w))" and live: "live_token t"
    and run: "run_state (exchange c t) w = (v, w')"
  shows "tokens_kept (w_db w) (w_db w') \<and> advances w w'"
proof -
  obtain r w1 where 1: "run_state (tx_stmt (mark_used_stmt (t_ID t))) w = (r, w1)" by fastforce
  note e1 = tx_stmt_effect [OF 1]
  have k1: "tokens_kept (w_db w) (w_db w1)"
    using e1(2) by (auto simp: mark_used_stmt_def tokens_kept_def [of _ "w_db w"] intro: token_update_kept)
  show ?thesis
  proof (cases r)
    case (Inl e)
    with run 1 k1 e1(1) show ?thesis by (simp add: exchange_def)
  next
    case (Inr n)
    let ?ins = "insert_token_stmt (t_UserID t) (cr_SuccessorHash c) (t_FamilyID t) (cr_SuccessorExpiresAt c)"
    obtain i where 2: "run_state (tx_stmt ?ins) w1 = (i, w')"
      using run 1 Inr by (auto simp: exchange_def split: prod.splits)
    note e2 = tx_stmt_effect [OF 2]
    have "tokens_kept (w_db w) (w_db w')"
      using e2(2)
    proof
      assume "\<exists>s a. ?ins s (w_db w1) = Inr (a, w_db w')"
      then obtain s a where ins: "?ins s (w_db w1) = Inr (a, w_db w')" by blast
      obtain s0 a0 where m: "mark_used_stmt (t_ID t) s0 (w_db w) = Inr (a0, w_db w1)"
        using e1(2) Inr by auto
      show ?thesis
        using insert_token_kept [OF ins] mark_used_clears [OF m _ t live] k1
        by (auto simp: tokens_kept_def)
    qed (use k1 in simp)
    then show ?thesis using advances_trans [OF e1(1) e2(1)] by simp
  qed
qed

lemma consume_body_keeps: "keeps_if (\<lambda>d. t \<in> set (tokens d)) tokens_kept (consume_body c t)"
proof (rule keeps_ifI)
  fix w v w'
  assume t: "t \<in> set (tokens (w_db w))" and w: "env_ok tokens_kept w"
    and run: "run_state (consume_body c t) w = (v, w')"
  have revoke: "keeps tokens_kept (do {
      r \<leftarrow> tx_stmt (revoke_family_stmt (t_FamilyID t) m);
      State_Monad.return (g r) })" for g :: "pg_error + int \<Rightarrow> RefreshToken verdict" and m
    by (intro rotation.keeps_bind rotation.keeps_tx_stmt rotation.keeps_return stmt_okI)
       (auto simp: revoke_family_stmt_def intro: token_update_kept)
  consider "t_UsedAt t \<noteq> None" | "t_UsedAt t = None" "w' = w"
    | "live_token t" "run_state (exchange c t) w = (v, w')"
    using run by (auto simp: consume_body_def live_token_def split: if_splits)
  then show "tokens_kept (w_db w) (w_db w') \<and> advances w w'"
  proof cases
    case 1
    then show ?thesis
      using run keepsD [OF revoke w] by (simp add: consume_body_def)
  next
    case 2
    then show ?thesis by (simp add: tokens_kept_def)
  next
    case 3
    then show ?thesis using exchange_keeps t by blast
  qed
qed

lemma rotation_kept: "keeps tokens_kept (ConsumeRefreshToken c)"
  unfolding ConsumeRefreshToken_def
  by (rule rotation.keeps_transaction [where L = "\<lambda>a d. a \<in> set (tokens d)"])
     (auto simp: lock_token_def first_row_def consume_body_keeps split: option.splits dest: find_mem)

section \<open>The branches of a rotation\<close>

definition revoke_in :: "uuid \<Rightarrow> string \<Rightarrow> time \<Rightarrow> RefreshToken \<Rightarrow> RefreshToken" where
  "revoke_in f reason now t =
     (if t_FamilyID t = f \<and> t_RevokedAt t = None
      then t\<lparr>t_RevokedAt := Some now, t_RevokedReason := Some reason, t_UpdatedAt := now\<rparr> else t)"

definition family_revoked :: "uuid \<Rightarrow> string \<Rightarrow> db \<Rightarrow> db" where
  "family_revoked f reason d = d\<lparr>tokens := map (revoke_in f reason (clock d)) (tokens d)\<rparr>"

definition mark :: "RefreshToken \<Rightarrow> time \<Rightarrow> RefreshToken \<Rightarrow> RefreshToken" where
  "mark p now t = (if t_ID t = t_ID p then t\<lparr>t_UsedAt := Some now, t_UpdatedAt := now\<rparr> else t)"

definition marked_used :: "RefreshToken \<Rightarrow> db \<Rightarrow> db" where
  "marked_used p d = d\<lparr>tokens := map (mark p (clock d)) (tokens d)\<rparr>"

lemma revoke_in_family [simp]: "t_FamilyID (revoke_in f r now t) = t_FamilyID t"
  by (simp add: revoke_in_def)

lemma revoke_in_dead: "t_FamilyID t = f \<Longrightarrow> t_RevokedAt (revoke_in f r now t) \<noteq> None"
  by (cases "t_RevokedAt t") (simp_all add: revoke_in_def)

lemma revoke_in_hash [simp]: "t_TokenHash (revoke_in f r now t) = t_TokenHash t"
  by (simp add: revoke_in_def)

lemma mark_fields [simp]:
  "t_TokenHash (mark p now t) = t_TokenHash t" "t_FamilyID (mark p now t) = t_FamilyID t"
  "t_UsedAt (mark p now p) = Some now"
  by (simp_all add: mark_def)

lemma mark_evolves: "token_evolves t (mark p now t)"
  by (simp add: mark_def token_evolves_def live_token_def passes_def token_checks_def)

lemma token_update_total:
  assumes "tokens_wf (tokens d)" "\<And>t. token_evolves t (upd (clock d) t)"
    and "\<And>t. t \<in> set (tokens d) \<Longrightarrow> P t \<Longrightarrow> upd (clock d) t \<noteq> t"
  shows "\<exists>n. token_update P upd s d =
    Inr (n, d\<lparr>tokens := map (\<lambda>t. if P t then touch_token d (upd (clock d) t) else t) (tokens d)\<rparr>)"
proof -
  have "write_row ''refresh_tokens'' token_checks (touch_token d) (upd (clock d)) t =
      Inr (touch_token d (upd (clock d) t))" if "t \<in> set (tokens d)" "P t" for t
  proof -
    have "passes token_checks t" using assms(1) that(1) by (simp add: tokens_wf_def list_all_iff)
    then have "passes token_checks (touch_token d (upd (clock d) t))"
      using token_evolves_touch [OF assms(2)] by (simp add: token_evolves_def)
    then show ?thesis using assms(3) [OF that] by (simp add: write_row_ok)
  qed
  from sql_update_total [OF this] show ?thesis by (simp add: token_update_def)
qed

lemma to_revoked_changes: "t_RevokedAt t = None \<Longrightarrow> to_revoked r now t \<noteq> t"
  by (metis RefreshToken.select_convs(8) RefreshToken.surjective RefreshToken.update_convs(8,9)
      option.distinct(1) to_revoked_def)

lemma to_used_changes:
  assumes "t_UsedAt t = None"
  shows "to_used now t \<noteq> t"
proof
  assume "to_used now t = t"
  moreover have "t_UsedAt (to_used now t) = Some now" by (simp add: to_used_def)
  ultimately show False using assms by simp
qed

lemma revoke_in_stamp:
  "(if t_FamilyID t = f \<and> t_RevokedAt t = None then touch_token d (to_revoked r (clock d) t) else t) =
     revoke_in f r (clock d) t"
  by (simp add: touch_token_def to_revoked_def revoke_in_def)

lemma mark_stamp:
  "(if t_ID t = t_ID p then touch_token d (to_used (clock d) t) else t) = mark p (clock d) t"
  by (simp add: touch_token_def to_used_def mark_def)

lemma revoke_family_quiet:
  assumes "tokens_wf (tokens d)"
  shows "\<exists>n. revoke_family_stmt f reason s d = Inr (n, family_revoked f reason d)"
proof -
  have "\<exists>n. token_update (\<lambda>t. t_FamilyID t = f \<and> t_RevokedAt t = None) (to_revoked reason) s d =
      Inr (n, d\<lparr>tokens := map (\<lambda>t. if t_FamilyID t = f \<and> t_RevokedAt t = None
          then touch_token d (to_revoked reason (clock d) t) else t) (tokens d)\<rparr>)"
    by (rule token_update_total [OF assms revoked_evolves]) (rule to_revoked_changes, simp)
  then show ?thesis
    unfolding revoke_family_stmt_def family_revoked_def revoke_in_stamp .
qed

lemma mark_used_quiet:
  assumes "tokens_wf (tokens d)" "p \<in> set (tokens d)" "t_UsedAt p = None"
  shows "\<exists>n. mark_used_stmt (t_ID p) s d = Inr (n, marked_used p d)"
proof -
  have "t = p" if "t \<in> set (tokens d)" "t_ID t = t_ID p" for t
    using assms(1,2) that by (auto simp: tokens_wf_def distinct_map inj_on_def)
  then have "\<exists>n. token_update (\<lambda>t. t_ID t = t_ID p) to_used s d =
      Inr (n, d\<lparr>tokens := map (\<lambda>t. if t_ID t = t_ID p then touch_token d (to_used (clock d) t) else t) (tokens d)\<rparr>)"
    using assms(3) to_used_changes by (intro token_update_total [OF assms(1) used_evolves]) blast
  then show ?thesis unfolding mark_used_stmt_def marked_used_def mark_stamp .
qed

lemma ConsumeRefreshToken_cases:
  assumes "w_plan W = []" "tokens_wf (tokens (w_db W))"
  shows "run_state (ConsumeRefreshToken c) W =
    (case find (\<lambda>t. t_TokenHash t = cr_PresentedHash c) (tokens (w_db W)) of
       None \<Rightarrow> (Inl (Wrap ''consume refresh token: lock: '' (Sentinel ErrNotFound) []), W)
     | Some p \<Rightarrow>
         if t_UsedAt p \<noteq> None
         then (Inl (Sentinel ErrTokenReused),
               W\<lparr>w_db := family_revoked (t_FamilyID p) ''refresh token reuse detected'' (w_db W)\<rparr>)
         else if t_RevokedAt p \<noteq> None \<or> t_ExpiresAt p < clock (w_db W)
         then (Inl (Sentinel ErrNotFound), W)
         else (case insert_token_stmt (t_UserID p) (cr_SuccessorHash c) (t_FamilyID p)
                      (cr_SuccessorExpiresAt c) (quiet_step (marked_used p (w_db W)))
                      (marked_used p (w_db W)) of
                 Inl e \<Rightarrow> (Inl (map_error ''consume refresh token: issue successor'' e), W)
               | Inr (t, d') \<Rightarrow> (Inr t, W\<lparr>w_db := d'\<rparr>)))"
proof (cases "find (\<lambda>t. t_TokenHash t = cr_PresentedHash c) (tokens (w_db W))")
  case None
  then show ?thesis
    unfolding ConsumeRefreshToken_def
    by (subst transaction_quiet [OF assms(1)])
       (auto simp: lock_token_def first_row_def split: option.splits)
next
  case (Some p)
  then have p: "p \<in> set (tokens (w_db W))" by (rule conjunct1 [OF find_mem])
  have run: "run_state (ConsumeRefreshToken c) W = run_state (after_lock (consume_body c) p) W"
    unfolding ConsumeRefreshToken_def
    by (subst transaction_quiet [OF assms(1)])
       (auto simp: lock_token_def first_row_def Some split: option.splits)
  obtain n where rev: "revoke_family_stmt (t_FamilyID p) ''refresh token reuse detected''
      (quiet_step (w_db W)) (w_db W) =
      Inr (n, family_revoked (t_FamilyID p) ''refresh token reuse detected'' (w_db W))"
    using revoke_family_quiet [OF assms(2)] by blast
  have used: "\<exists>n. mark_used_stmt (t_ID p) (quiet_step (w_db W)) (w_db W) = Inr (n, marked_used p (w_db W))"
    if "t_UsedAt p = None"
    by (rule mark_used_quiet [OF assms(2) p that])
  show ?thesis
  proof (cases "t_UsedAt p")
    case None
    with used obtain m where
      "mark_used_stmt (t_ID p) (quiet_step (w_db W)) (w_db W) = Inr (m, marked_used p (w_db W))" by blast
    with None show ?thesis
      by (simp add: Some run after_lock_def consume_body_def exchange_def tx_stmt_quiet commit_quiet
          assms(1) split: sum.split prod.split)
  next
    case (Some u)
    with \<open>find _ _ = Some p\<close> show ?thesis
      by (simp add: run after_lock_def consume_body_def tx_stmt_quiet commit_quiet assms(1) rev)
  qed
qed

text \<open>Only a live token is exchanged.\<close>

lemma exchanged_was_live:
  assumes "w_plan W = []" "tokens_wf (tokens (w_db W))" "run_state (ConsumeRefreshToken c) W = (Inr x, W1)"
  shows "\<exists>p \<in> set (tokens (w_db W)). t_TokenHash p = cr_PresentedHash c \<and> live_token p"
proof -
  obtain p where p: "find (\<lambda>t. t_TokenHash t = cr_PresentedHash c) (tokens (w_db W)) = Some p"
    using assms(3) ConsumeRefreshToken_cases [OF assms(1,2), of c] by (auto split: option.splits)
  then have "live_token p"
    using assms(3) ConsumeRefreshToken_cases [OF assms(1,2), of c] by (auto simp: live_token_def split: if_splits)
  with find_mem [OF p] show ?thesis by blast
qed

text \<open>In quiet worlds the outcome depends on the database alone.\<close>

lemma ConsumeRefreshToken_db:
  assumes "w_plan W = []" "w_plan W' = []" "w_db W' = w_db W" "tokens_wf (tokens (w_db W))"
  shows "fst (run_state (ConsumeRefreshToken c) W') = fst (run_state (ConsumeRefreshToken c) W)"
    "w_db (snd (run_state (ConsumeRefreshToken c) W')) = w_db (snd (run_state (ConsumeRefreshToken c) W))"
  using assms
  by (simp_all add: ConsumeRefreshToken_cases split: option.split sum.split prod.split)

section \<open>Properties\<close>

text \<open>
  Every branch of a rotation. In a quiet world with a well-formed token table,
  \<open>ConsumeRefreshToken\<close> reports not-found for an unknown hash; for a token that was already
  exchanged it revokes the whole family, commits, and reports the reuse; for a revoked or
  expired token it reports not-found and changes nothing; otherwise it marks the token used
  and inserts a successor of the same user and family, and if the successor cannot be
  inserted nothing changes.
\<close>

theorem ConsumeRefreshToken_outcomes:
  assumes "w_plan W = []" "tokens_wf (tokens (w_db W))"
  shows "run_state (ConsumeRefreshToken c) W =
    (case find (\<lambda>t. t_TokenHash t = cr_PresentedHash c) (tokens (w_db W)) of
       None \<Rightarrow> (Inl (Wrap ''consume refresh token: lock: '' (Sentinel ErrNotFound) []), W)
     | Some p \<Rightarrow>
         if t_UsedAt p \<noteq> None
         then (Inl (Sentinel ErrTokenReused),
               W\<lparr>w_db := family_revoked (t_FamilyID p) ''refresh token reuse detected'' (w_db W)\<rparr>)
         else if t_RevokedAt p \<noteq> None \<or> t_ExpiresAt p < clock (w_db W)
         then (Inl (Sentinel ErrNotFound), W)
         else (case insert_token_stmt (t_UserID p) (cr_SuccessorHash c) (t_FamilyID p)
                      (cr_SuccessorExpiresAt c) (quiet_step (marked_used p (w_db W)))
                      (marked_used p (w_db W)) of
                 Inl e \<Rightarrow> (Inl (map_error ''consume refresh token: issue successor'' e), W)
               | Inr (t, d') \<Rightarrow> (Inr t, W\<lparr>w_db := d'\<rparr>)))"
  using assms by (rule ConsumeRefreshToken_cases)

definition sample_token :: "time option \<Rightarrow> RefreshToken" where
  "sample_token used =
     \<lparr>t_ID = 1, t_UserID = 7, t_TokenHash = replicate 64 (CHR ''a''), t_FamilyID = 3,
      t_IssuedAt = unix 100, t_ExpiresAt = unix 900, t_UsedAt = used, t_RevokedAt = None,
      t_RevokedReason = None, t_CreatedAt = unix 100, t_UpdatedAt = unix 100\<rparr>"

definition token_db :: "time option \<Rightarrow> db" where
  "token_db used =
     \<lparr>clock = unix 500,
      users = [\<lparr>u_ID = 7, u_Email = ''a@b.co'', u_EmailVerifiedAt = None, u_PasswordHash = None,
               u_FullName = None, u_StripeCustomerID = None, u_Metadata = [], u_CreatedAt = unix 1,
               u_UpdatedAt = unix 1, u_DeletedAt = None\<rparr>],
      subs = [], hooks = [], tokens = [sample_token used]\<rparr>"

definition sample_consume :: ConsumeRequest where
  "sample_consume =
     \<lparr>cr_PresentedHash = replicate 64 (CHR ''a''), cr_SuccessorHash = replicate 64 (CHR ''b''),
      cr_SuccessorExpiresAt = unix 2000\<rparr>"

lemma token_db_wf: "tokens_wf (tokens (token_db used))"
  by (simp add: tokens_wf_def token_db_def sample_token_def passes_def token_checks_def is_hex_def
      byte_def list_all_iff)

theorem ConsumeRefreshToken_outcomes_witness:
  "run_state (ConsumeRefreshToken sample_consume) (quiet (token_db (Some (unix 400)))) =
     (Inl (Sentinel ErrTokenReused),
      (quiet (token_db (Some (unix 400))))
        \<lparr>w_db := family_revoked 3 ''refresh token reuse detected'' (token_db (Some (unix 400)))\<rparr>)"
  using ConsumeRefreshToken_outcomes [of "quiet (token_db (Some (unix 400)))" sample_consume] token_db_wf
  by (simp add: token_db_def sample_token_def sample_consume_def)

text \<open>
  C16 (a family never has two live tokens). Whatever the other workers do, as long as they too
  keep it, and whatever the driver reports, a rotation leaves a token table that satisfies
  its constraints and in which no two live tokens share a family.
\<close>

theorem rotation_one_live:
  assumes "env_ok tokens_kept W" "tokens_ok (w_db W)"
  shows "tokens_ok (w_db (snd (run_state (ConsumeRefreshToken c) W)))"
  using keepsD [OF rotation_kept assms(1) prod.collapse [symmetric]] assms(2)
  by (simp add: tokens_kept_def)

theorem rotation_one_live_witness:
  "tokens_ok (w_db (snd (run_state (ConsumeRefreshToken sample_consume) (quiet (token_db None)))))"
  by (rule rotation_one_live)
     (simp_all add: tokens_ok_def token_db_wf, simp add: one_live_def token_db_def)

lemma family_revoked_dead:
  assumes "t \<in> set (tokens (family_revoked f r d))" "t_FamilyID t = f"
  shows "t_RevokedAt t \<noteq> None"
proof -
  obtain y where "t = revoke_in f r (clock d) y" using assms(1) by (auto simp: family_revoked_def)
  with assms(2) revoke_in_dead show ?thesis by auto
qed

lemma tokens_wf_marked: "tokens_wf (tokens d) \<Longrightarrow> tokens_wf (tokens (marked_used p d))"
  by (rule tokens_wf_evolves [of "tokens d"])
     (simp_all add: marked_used_def list_all2_map2 list_all2_same mark_evolves)

lemma find_marked:
  assumes "find (\<lambda>t. t_TokenHash t = h) ts = Some p"
  shows "find (\<lambda>t. t_TokenHash t = h) (map (mark p now) ts @ xs) = Some (mark p now p)"
  using assms by (induction ts) (simp_all split: if_splits)

lemma revoke_in_evolves: "token_evolves t (revoke_in f r now t)"
  by (simp add: revoke_in_def token_evolves_def live_token_def passes_def token_checks_def)

lemma tokens_wf_revoked: "tokens_wf (tokens d) \<Longrightarrow> tokens_wf (tokens (family_revoked f r d))"
  by (rule tokens_wf_evolves [of "tokens d"])
     (simp_all add: family_revoked_def list_all2_map2 list_all2_same revoke_in_evolves)

text \<open>What a successful exchange leaves.\<close>

lemma exchanged:
  assumes "w_plan W = []" "tokens_wf (tokens (w_db W))"
    and "run_state (ConsumeRefreshToken c) W = (Inr t, W1)"
  obtains p d' where "find (\<lambda>x. t_TokenHash x = cr_PresentedHash c) (tokens (w_db W)) = Some p"
    "W1 = W\<lparr>w_db := d'\<rparr>" "tokens d' = map (mark p (clock (w_db W))) (tokens (w_db W)) @ [t]"
    "t_FamilyID t = t_FamilyID p" "t_TokenHash t = cr_SuccessorHash c" "tokens_wf (tokens d')"
proof -
  let ?find = "find (\<lambda>t. t_TokenHash t = cr_PresentedHash c)"
  obtain p where p: "?find (tokens (w_db W)) = Some p"
    using assms(3) ConsumeRefreshToken_cases [OF assms(1,2), of c] by (auto split: option.splits)
  note out = ConsumeRefreshToken_cases [OF assms(1,2), of c] p assms(3)
  obtain d' where ins: "insert_token_stmt (t_UserID p) (cr_SuccessorHash c) (t_FamilyID p)
      (cr_SuccessorExpiresAt c) (quiet_step (marked_used p (w_db W))) (marked_used p (w_db W)) = Inr (t, d')"
    and W1: "W1 = W\<lparr>w_db := d'\<rparr>"
    using out by (auto split: if_splits sum.splits)
  note i = insert_tokenD [OF ins]
  have toks: "tokens d' = tokens (marked_used p (w_db W)) @ [t]" by (simp add: i(2))
  have t: "t_FamilyID t = t_FamilyID p" "t_TokenHash t = cr_SuccessorHash c"
    by (simp_all add: i(1) new_token_row_def)
  have "tokens_wf (tokens d')"
    using tokens_wf_marked [OF assms(2), of p] i(3,4) t by (auto simp: toks tokens_wf_def)
  then show thesis using that [OF p W1 _ t] toks by (simp add: marked_used_def)
qed

lemma exchanged_wf:
  assumes "w_plan W = []" "tokens_wf (tokens (w_db W))" "run_state (ConsumeRefreshToken c) W = (Inr t, W1)"
  shows "tokens_wf (tokens (w_db W1))" "w_plan W1 = []"
  by (rule exchanged [OF assms], simp, rule exchanged [OF assms], simp add: assms(1))

lemma reuse_revokes:
  assumes "w_plan W = []" "tokens_wf (tokens (w_db W))"
    and "run_state (ConsumeRefreshToken c) W = (Inr t, W1)"
    and "run_state (ConsumeRefreshToken c2) W1 = (r, W2)" "cr_PresentedHash c2 = cr_PresentedHash c"
  shows "r = Inl (Sentinel ErrTokenReused) \<and>
         (\<forall>x \<in> set (tokens (w_db W2)). t_FamilyID x = t_FamilyID t \<longrightarrow> t_RevokedAt x \<noteq> None) \<and>
         (\<exists>x \<in> set (tokens (w_db W2)). t_TokenHash x = cr_SuccessorHash c \<and> t_FamilyID x = t_FamilyID t) \<and>
         tokens_wf (tokens (w_db W2)) \<and> w_plan W2 = []"
proof -
  obtain p d' where p: "find (\<lambda>x. t_TokenHash x = cr_PresentedHash c) (tokens (w_db W)) = Some p"
    and W1: "W1 = W\<lparr>w_db := d'\<rparr>" and toks: "tokens d' = map (mark p (clock (w_db W))) (tokens (w_db W)) @ [t]"
    and t: "t_FamilyID t = t_FamilyID p" "t_TokenHash t = cr_SuccessorHash c" and wf1: "tokens_wf (tokens d')"
    using exchanged [OF assms(1-3)] by metis
  have p1: "find (\<lambda>x. t_TokenHash x = cr_PresentedHash c) (tokens d') = Some (mark p (clock (w_db W)) p)"
    using find_marked [OF p] by (simp add: toks)
  have W2: "r = Inl (Sentinel ErrTokenReused)"
    "w_db W2 = family_revoked (t_FamilyID p) ''refresh token reuse detected'' d'" "w_plan W2 = []"
    using ConsumeRefreshToken_cases [of W1 c2] wf1 assms(1,4,5) p1 by (auto simp: W1)
  have "\<exists>x \<in> set (tokens (w_db W2)). t_TokenHash x = cr_SuccessorHash c \<and> t_FamilyID x = t_FamilyID t"
    using t(2) by (auto simp: W2(2) family_revoked_def toks)
  moreover have "tokens_wf (tokens (w_db W2))"
    unfolding W2(2) using wf1 by (rule tokens_wf_revoked)
  ultimately show ?thesis using W2 t(1) family_revoked_dead by metis
qed

text \<open>
  A stolen token is detected. After a successful exchange, presenting the exchanged token
  again reports the reuse, and afterwards every token of its family is revoked, the successor
  that was issued in between included.
\<close>

theorem reuse_is_detected:
  assumes "w_plan W = []" "tokens_wf (tokens (w_db W))"
    and "run_state (ConsumeRefreshToken c) W = (Inr t, W1)"
    and "run_state (ConsumeRefreshToken c2) W1 = (r, W2)" "cr_PresentedHash c2 = cr_PresentedHash c"
  shows "r = Inl (Sentinel ErrTokenReused) \<and>
         (\<forall>x \<in> set (tokens (w_db W2)). t_FamilyID x = t_FamilyID t \<longrightarrow> t_RevokedAt x \<noteq> None) \<and>
         (\<exists>x \<in> set (tokens (w_db W2)). t_TokenHash x = cr_SuccessorHash c)"
  using reuse_revokes [OF assms] by blast

theorem reuse_is_detected_witness:
  "\<exists>t W1. run_state (ConsumeRefreshToken sample_consume) (quiet (token_db None)) = (Inr t, W1) \<and>
     fst (run_state (ConsumeRefreshToken sample_consume) W1) = Inl (Sentinel ErrTokenReused)"
proof -
  have "\<exists>t W1. run_state (ConsumeRefreshToken sample_consume) (quiet (token_db None)) = (Inr t, W1)"
    using ConsumeRefreshToken_cases [of "quiet (token_db None)" sample_consume] token_db_wf
    by (simp add: token_db_def sample_token_def sample_consume_def marked_used_def insert_token_stmt_def
        new_token_row_def check_row_def token_checks_def is_hex_def byte_def list_all_iff
        fresh_uuid_def Let_def)
  then obtain t W1 where "run_state (ConsumeRefreshToken sample_consume) (quiet (token_db None)) = (Inr t, W1)"
    by blast
  moreover obtain r W2 where "run_state (ConsumeRefreshToken sample_consume) W1 = (r, W2)" by fastforce
  moreover from calculation have "r = Inl (Sentinel ErrTokenReused)"
    using reuse_is_detected [of "quiet (token_db None)" sample_consume t W1 sample_consume r W2] token_db_wf
    by simp
  ultimately show ?thesis by fastforce
qed

section \<open>Two transactions at once\<close>

text \<open>
  The transactions above take place at their row lock. At READ COMMITTED that is not the whole
  story for an UPDATE of several rows: it picks its rows from a snapshot taken when it starts,
  waits for the rows that another transaction has locked, and tests those again once that
  transaction has committed; rows which that transaction inserted are not among them.
\<close>

definition overlapping_update ::
  "(RefreshToken \<Rightarrow> bool) \<Rightarrow> (time \<Rightarrow> RefreshToken \<Rightarrow> RefreshToken) \<Rightarrow> db \<Rightarrow> int stmt" where
  "overlapping_update P upd snapshot =
     token_update (\<lambda>t. P t \<and> list_ex (\<lambda>t0. t_ID t0 = t_ID t \<and> P t0) (tokens snapshot)) upd"

text \<open>
  So the revocation of a family that starts while a rotation in the family is about to commit
  misses the successor: the reuse is reported, and the successor stays live.
\<close>

lemma successor_escapes_revocation:
  assumes "insert_token_stmt userID hash family expires s d = Inr (t, d1)"
    and "map t_ID (tokens d) = map t_ID (tokens snapshot)"
    and "overlapping_update (\<lambda>t. t_FamilyID t = family \<and> t_RevokedAt t = None) (to_revoked reason) snapshot s2 d1 =
           Inr (n, d2)"
  shows "t \<in> set (tokens d2) \<and> t_FamilyID t = family \<and> t_UsedAt t = None \<and> t_RevokedAt t = None"
proof -
  note i = insert_tokenD [OF assms(1)]
  have "t_ID t \<notin> set (map t_ID (tokens d))" using i(4) by auto
  then have "t_ID t \<notin> set (map t_ID (tokens snapshot))" unfolding assms(2) .
  then have not_seen: "\<not> list_ex (\<lambda>t0. t_ID t0 = t_ID t \<and> Q t0) (tokens snapshot)" for Q
    unfolding list_ex_iff by (metis image_eqI list.set_map)
  have "t \<in> set (tokens d1)" by (simp add: i(2))
  with assms(3) not_seen have "t \<in> set (tokens d2)"
    by (auto simp: overlapping_update_def token_update_def row_step_def split: sum.splits prod.splits
        dest!: sql_update_rel list_all2_mem)
  then show ?thesis by (simp add: i(1) new_token_row_def)
qed

end
