(* ===== verification/Stripe_Client.thy ===== *)
theory Stripe_Client
  imports Exec
begin

text \<open>
  internal/stripe/client.go: the wrapper around the Stripe SDK. The SDK itself, the Stripe API
  behind it and the UUID package are the parameter record \<open>stripe_lib\<close>: what
  \<open>ConstructEventWithOptions\<close>, the decoders and the API calls return. The SDK's objects
  carry the fields the service reads; a pointer to an object of which only the id is read is
  the id, and an event always carries its data object.
\<close>

section \<open>SDK objects\<close>

record Event =
  ev_ID :: string
  ev_Type :: string
  ev_Created :: int
  ev_Livemode :: bool
  ev_APIVersion :: string
  ev_Request :: "string option"
  ev_Raw :: bytes

record Price =
  p_ID :: string
  p_Currency :: string
  p_UnitAmount :: int
  p_Product :: "string option"

record SubscriptionItem =
  si_Price :: "Price option"
  si_Quantity :: int
  si_CurrentPeriodStart :: int
  si_CurrentPeriodEnd :: int

record StripeSub =
  ss_ID :: string
  ss_Customer :: "string option"
  ss_Status :: string
  ss_Items :: "SubscriptionItem list option"
  ss_CancelAtPeriodEnd :: bool
  ss_CancelAt :: int
  ss_CanceledAt :: int
  ss_EndedAt :: int
  ss_TrialStart :: int
  ss_TrialEnd :: int
  ss_Metadata :: "(string \<times> string) list"
  ss_LatestInvoice :: "string option"
  ss_DefaultPaymentMethod :: "string option"

record Session =
  cs_Mode :: string
  cs_Subscription :: "string option"
  cs_Customer :: "string option"
  cs_ClientReferenceID :: string
  cs_Metadata :: "(string \<times> string) list"

record FinalizationError =
  fz_DeclineCode :: string
  fz_Code :: string
  fz_Msg :: string

text \<open>
  \<open>Parent.SubscriptionDetails.Subscription.ID\<close> and \<open>Lines.Data[i].Subscription.ID\<close>, an
  option for each pointer on the way.
\<close>

record Invoice =
  iv_ID :: string
  iv_Parent :: "string option option option"
  iv_Lines :: "string option option list option"
  iv_LastFinalizationError :: "FinalizationError option"
  iv_NextPaymentAttempt :: int
  iv_PeriodStart :: int
  iv_PeriodEnd :: int

text \<open>The error types the client names, and any other.\<close>

datatype ErrorType =
    ErrorTypeAPI | ErrorTypeRateLimit | ErrorTypeInvalidRequest | ErrorTypeCard
  | OtherErrorType string

datatype sdk_error =
    NoAPIError string
  | APIError (se_Type: ErrorType) (se_Msg: string) (se_RequestID: string) (se_Status: int)

record CheckoutParams =
  cp_Price :: string
  cp_Quantity :: int
  cp_Metadata :: "(string \<times> string) list"
  cp_EmbeddedPage :: bool
  cp_ReturnURL :: "string option"
  cp_SuccessURL :: "string option"
  cp_CancelURL :: "string option"
  cp_ClientReferenceID :: "string option"
  cp_Customer :: "string option"
  cp_CustomerEmail :: "string option"
  cp_TrialPeriodDays :: "int option"
  cp_AllowPromotionCodes :: bool

record SdkSession =
  sn_ID :: string
  sn_URL :: string
  sn_ClientSecret :: string
  sn_ExpiresAt :: int

record stripe_lib =
  construct_event :: "bytes \<Rightarrow> string \<Rightarrow> string \<Rightarrow> duration \<Rightarrow> bool \<Rightarrow> time \<Rightarrow> string + Event"
  sdk_version :: string
  CheckoutSessionModeSubscription :: string
  unmarshal_event :: "bytes \<Rightarrow> string + Event"
  unmarshal_session :: "bytes \<Rightarrow> string + Session"
  unmarshal_subscription :: "bytes \<Rightarrow> string + StripeSub"
  unmarshal_invoice :: "bytes \<Rightarrow> string + Invoice"
  sdk_create_session :: "time \<Rightarrow> CheckoutParams \<Rightarrow> sdk_error + SdkSession"
  sdk_create_portal :: "time \<Rightarrow> string \<Rightarrow> string \<Rightarrow> sdk_error + string \<times> string"
  sdk_retrieve :: "time \<Rightarrow> string \<Rightarrow> sdk_error + StripeSub"
  uuid_parse :: "string \<Rightarrow> uuid option"
  uuid_string :: "uuid \<Rightarrow> string"

section \<open>The client\<close>

record Config =
  cf_SecretKey :: string
  cf_WebhookSecret :: string
  cf_APIVersion :: string
  cf_MaxNetworkRetries :: int
  cf_HTTPTimeout :: duration
  cf_WebhookTolerance :: duration
  cf_IgnoreAPIVersionMismatch :: bool

text \<open>The client's fields; the timeout and the retries go to the SDK's HTTP backend.\<close>

record Client =
  cl_webhookSecret :: string
  cl_webhookTolerance :: duration
  cl_ignoreAPIVersionMismatch :: bool
  cl_timeout :: duration
  cl_retries :: int

definition defaultHTTPTimeout :: duration where "defaultHTTPTimeout = 20 * second"
definition defaultWebhookTolerance :: duration where "defaultWebhookTolerance = 5 * minute"

text \<open>What follows the last dot of a version, if it has one.\<close>

definition train :: "string \<Rightarrow> string option" where
  "train v = (if CHR ''.'' \<in> set v then Some (rev (takeWhile (\<lambda>c. c \<noteq> CHR ''.'') (rev v))) else None)"

definition sameReleaseTrain :: "string \<Rightarrow> string \<Rightarrow> bool" where
  "sameReleaseTrain a b \<longleftrightarrow> train a \<noteq> None \<and> train b \<noteq> None \<and> train a = train b"

definition New :: "stripe_lib \<Rightarrow> Config \<Rightarrow> Client result prog" where
  "New L cfg =
     (if trim_space (cf_SecretKey cfg) = [] then State_Monad.return (Inl (Text ''stripe: secret key is required''))
      else if trim_space (cf_WebhookSecret cfg) = []
      then State_Monad.return (Inl (Text ''stripe: webhook secret is required''))
      else do {
        (if trim_space (cf_APIVersion cfg) \<noteq> [] \<and>
            \<not> sameReleaseTrain (trim_space (cf_APIVersion cfg)) (sdk_version L)
         then log_line Warn ''stripe api version mismatch'' else State_Monad.return ());
        State_Monad.return (Inr
          \<lparr>cl_webhookSecret = cf_WebhookSecret cfg,
           cl_webhookTolerance = (if cf_WebhookTolerance cfg \<le> 0 then defaultWebhookTolerance
                                  else cf_WebhookTolerance cfg),
           cl_ignoreAPIVersionMismatch = cf_IgnoreAPIVersionMismatch cfg,
           cl_timeout = (if cf_HTTPTimeout cfg \<le> 0 then defaultHTTPTimeout else cf_HTTPTimeout cfg),
           cl_retries = max 0 (cf_MaxNetworkRetries cfg)\<rparr>) })"

definition VerifyWebhook :: "stripe_lib \<Rightarrow> Client \<Rightarrow> bytes \<Rightarrow> string \<Rightarrow> Event result prog" where
  "VerifyWebhook L c payload signatureHeader = do {
     now \<leftarrow> get_now;
     State_Monad.return
       (case construct_event L payload signatureHeader (cl_webhookSecret c) (cl_webhookTolerance c)
               (cl_ignoreAPIVersionMismatch c) now of
          Inl e \<Rightarrow> Inl (Wrap [] (Sentinel ErrSignatureVerification) ('': '' @ e))
        | Inr ev \<Rightarrow> Inr ev) }"

section \<open>Checkout and portal\<close>

abbreviation UIModeHosted :: string where "UIModeHosted \<equiv> ''hosted''"
abbreviation UIModeEmbedded :: string where "UIModeEmbedded \<equiv> ''embedded''"

definition UIMode_valid :: "string \<Rightarrow> bool" where
  "UIMode_valid m \<longleftrightarrow> m = UIModeHosted \<or> m = UIModeEmbedded \<or> m = []"

record CheckoutSessionInput =
  ci_UIMode :: string
  ci_ReturnURL :: string
  ci_PriceID :: string
  ci_Quantity :: int
  ci_CustomerID :: string
  ci_CustomerEmail :: string
  ci_ClientReferenceID :: string
  ci_SuccessURL :: string
  ci_CancelURL :: string
  ci_TrialPeriodDays :: int
  ci_AllowPromotionCodes :: bool
  ci_Metadata :: "(string \<times> string) list"

definition problem :: "bool \<Rightarrow> string \<Rightarrow> string list" where
  "problem b m = (if b then [m] else [])"

definition input_problems :: "CheckoutSessionInput \<Rightarrow> string list" where
  "input_problems i =
     problem (\<not> has_prefix (ci_PriceID i) ''price_'') ''price_id must begin with price_'' @
     problem (ci_Quantity i \<le> 0) ''quantity must be greater than zero'' @
     problem (ci_CustomerID i \<noteq> [] \<and> \<not> has_prefix (ci_CustomerID i) ''cus_'')
       ''customer_id must begin with cus_'' @
     problem (ci_CustomerID i \<noteq> [] \<and> ci_CustomerEmail i \<noteq> [])
       ''customer_id and customer_email are mutually exclusive'' @
     problem (ci_UIMode i \<noteq> UIModeEmbedded \<and> ci_SuccessURL i = []) ''success_url is required'' @
     problem (ci_UIMode i \<noteq> UIModeEmbedded \<and> ci_CancelURL i = []) ''cancel_url is required'' @
     problem (ci_TrialPeriodDays i < 0) ''trial_period_days must not be negative'' @
     problem (\<not> UIMode_valid (ci_UIMode i)) ''ui_mode must be hosted or embedded'' @
     problem (ci_UIMode i = UIModeEmbedded \<and> ci_ReturnURL i = [])
       ''return_url is required for embedded checkout''"

definition CheckoutSessionInput_validate :: "CheckoutSessionInput \<Rightarrow> goerr option" where
  "CheckoutSessionInput_validate i =
     (if input_problems i = [] then None
      else Some (Wrap [] (Sentinel ErrInvalidRequest) ('': '' @ join ''; '' (input_problems i))))"

definition some_unless_empty :: "string \<Rightarrow> string option" where
  "some_unless_empty s = (if s = [] then None else Some s)"

definition checkout_params :: "CheckoutSessionInput \<Rightarrow> CheckoutParams" where
  "checkout_params i =
     \<lparr>cp_Price = ci_PriceID i, cp_Quantity = ci_Quantity i, cp_Metadata = ci_Metadata i,
      cp_EmbeddedPage = (ci_UIMode i = UIModeEmbedded),
      cp_ReturnURL = (if ci_UIMode i = UIModeEmbedded then Some (ci_ReturnURL i) else None),
      cp_SuccessURL = (if ci_UIMode i = UIModeEmbedded then None else Some (ci_SuccessURL i)),
      cp_CancelURL = (if ci_UIMode i = UIModeEmbedded then None else Some (ci_CancelURL i)),
      cp_ClientReferenceID = some_unless_empty (ci_ClientReferenceID i),
      cp_Customer = some_unless_empty (ci_CustomerID i),
      cp_CustomerEmail = (if ci_CustomerID i \<noteq> [] then None else some_unless_empty (ci_CustomerEmail i)),
      cp_TrialPeriodDays = (if 0 < ci_TrialPeriodDays i then Some (ci_TrialPeriodDays i) else None),
      cp_AllowPromotionCodes = ci_AllowPromotionCodes i\<rparr>"

record CheckoutSession =
  co_ID :: string
  co_URL :: string
  co_ClientSecret :: string
  co_ExpiresAt :: time

text \<open>\<open>classify\<close> on an error that is not nil.\<close>

definition classify :: "string \<Rightarrow> sdk_error \<Rightarrow> goerr" where
  "classify op e =
     (case e of
        NoAPIError m \<Rightarrow> Wrap (op @ '': '') (Sentinel ErrUpstream) ('': '' @ m)
      | APIError ty msg req status \<Rightarrow>
          (let detail = (if req = [] then msg else msg @ '' (request_id='' @ req @ '')'');
               upstream = Wrap (op @ '': '') (Sentinel ErrUpstream) ('': '' @ detail);
               invalid = Wrap (op @ '': '') (Sentinel ErrInvalidRequest) ('': '' @ detail)
           in if ty = ErrorTypeAPI \<or> ty = ErrorTypeRateLimit then upstream
              else if ty = ErrorTypeInvalidRequest \<or> ty = ErrorTypeCard then invalid
              else if status \<ge> 500 \<or> status = 429 then upstream
              else invalid))"

definition IsRetryable :: "goerr \<Rightarrow> bool" where
  "IsRetryable e \<longleftrightarrow> err_is e ErrUpstream"

definition CreateCheckoutSession ::
  "stripe_lib \<Rightarrow> CheckoutSessionInput \<Rightarrow> CheckoutSession result prog" where
  "CreateCheckoutSession L i =
     (case CheckoutSessionInput_validate i of
        Some e \<Rightarrow> State_Monad.return (Inl e)
      | None \<Rightarrow> do {
          now \<leftarrow> get_now;
          State_Monad.return
            (case sdk_create_session L now (checkout_params i) of
               Inl e \<Rightarrow> Inl (classify ''create checkout session'' e)
             | Inr s \<Rightarrow> Inr \<lparr>co_ID = sn_ID s, co_URL = sn_URL s, co_ClientSecret = sn_ClientSecret s,
                             co_ExpiresAt = (if 0 < sn_ExpiresAt s then unix (sn_ExpiresAt s)
                                             else zero_time)\<rparr>) })"

record PortalSession =
  po_ID :: string
  po_URL :: string

definition CreatePortalSession :: "stripe_lib \<Rightarrow> string \<Rightarrow> string \<Rightarrow> PortalSession result prog" where
  "CreatePortalSession L customerID returnURL =
     (if \<not> has_prefix customerID ''cus_''
      then State_Monad.return (Inl (Wrap [] (Sentinel ErrInvalidRequest)
             ('': customer id '' @ go_quote customerID @ '' must begin with cus_'')))
      else if returnURL = []
      then State_Monad.return (Inl (Wrap [] (Sentinel ErrInvalidRequest) '': return_url is required''))
      else do {
        now \<leftarrow> get_now;
        State_Monad.return
          (case sdk_create_portal L now customerID returnURL of
             Inl e \<Rightarrow> Inl (classify ''create billing portal session'' e)
           | Inr (i, url) \<Rightarrow> Inr \<lparr>po_ID = i, po_URL = url\<rparr>) })"

definition GetSubscription :: "stripe_lib \<Rightarrow> string \<Rightarrow> StripeSub result prog" where
  "GetSubscription L i =
     (if \<not> has_prefix i ''sub_''
      then State_Monad.return (Inl (Wrap [] (Sentinel ErrInvalidRequest)
             ('': subscription id '' @ go_quote i @ '' must begin with sub_'')))
      else do {
        now \<leftarrow> get_now;
        State_Monad.return
          (case sdk_retrieve L now i of
             Inl e \<Rightarrow> Inl (classify ''retrieve subscription'' e)
           | Inr s \<Rightarrow> Inr s) })"

section \<open>Facts\<close>

lemma classify_sentinel:
  "err_is (classify op e) s \<longleftrightarrow> s = (if err_is (classify op e) ErrUpstream then ErrUpstream else ErrInvalidRequest)"
  by (cases e) (auto simp: classify_def Let_def)

lemma problem_Nil [simp]: "problem b m = [] \<longleftrightarrow> \<not> b"
  by (simp add: problem_def)

text \<open>
  Parameters of a checkout. The parameters of an accepted input never mix the two
  presentations, which Stripe would reject: an embedded page carries exactly a return URL, a
  hosted one exactly the success and cancel URLs, none of them empty; never both a customer
  and an email; the price, the quantity and the trial are in range.
\<close>

theorem checkout_params_consistent:
  assumes "CheckoutSessionInput_validate i = None"
  shows "(if cp_EmbeddedPage (checkout_params i)
          then cp_ReturnURL (checkout_params i) \<notin> {None, Some []} \<and>
               cp_SuccessURL (checkout_params i) = None \<and> cp_CancelURL (checkout_params i) = None
          else cp_ReturnURL (checkout_params i) = None \<and>
               cp_SuccessURL (checkout_params i) \<notin> {None, Some []} \<and>
               cp_CancelURL (checkout_params i) \<notin> {None, Some []}) \<and>
         \<not> (cp_Customer (checkout_params i) \<noteq> None \<and> cp_CustomerEmail (checkout_params i) \<noteq> None) \<and>
         has_prefix (cp_Price (checkout_params i)) ''price_'' \<and> 0 < cp_Quantity (checkout_params i) \<and>
         (case cp_TrialPeriodDays (checkout_params i) of None \<Rightarrow> True | Some n \<Rightarrow> 0 < n)"
proof -
  have "input_problems i = []"
    using assms by (simp add: CheckoutSessionInput_validate_def split: if_splits)
  then show ?thesis
    unfolding input_problems_def append_is_Nil_conv problem_Nil
    by (auto simp: checkout_params_def some_unless_empty_def)
qed

definition sample_input :: CheckoutSessionInput where
  "sample_input =
     \<lparr>ci_UIMode = UIModeEmbedded, ci_ReturnURL = ''https://a.example/done'', ci_PriceID = ''price_1'',
      ci_Quantity = 1, ci_CustomerID = [], ci_CustomerEmail = ''a@b.co'', ci_ClientReferenceID = ''7'',
      ci_SuccessURL = [], ci_CancelURL = [], ci_TrialPeriodDays = 0, ci_AllowPromotionCodes = False,
      ci_Metadata = []\<rparr>"

theorem checkout_params_consistent_witness:
  "cp_ReturnURL (checkout_params sample_input) = Some ''https://a.example/done'' \<and>
   cp_SuccessURL (checkout_params sample_input) = None"
proof -
  have "CheckoutSessionInput_validate sample_input = None" by code_simp
  from checkout_params_consistent [OF this] show ?thesis
    by (simp add: checkout_params_def sample_input_def)
qed

text \<open>
  Classification of SDK errors. Every SDK error is classified as exactly one of upstream
  and invalid; it is upstream, and so retryable, exactly when the request never completed,
  when Stripe reports an API or rate-limit error, or when an error of another kind came with
  a 5xx or 429 status.
\<close>

theorem classify_retryable:
  "IsRetryable (classify op e) \<longleftrightarrow>
     (case e of
        NoAPIError m \<Rightarrow> True
      | APIError ty msg req status \<Rightarrow>
          ty \<in> {ErrorTypeAPI, ErrorTypeRateLimit} \<or>
          (ty \<notin> {ErrorTypeInvalidRequest, ErrorTypeCard} \<and> (status \<ge> 500 \<or> status = 429)))"
  by (cases e) (auto simp: classify_def IsRetryable_def Let_def)

end
