(* ===== verification/Webhook_Service.thy ===== *)
theory Webhook_Service
  imports Refresh_Token_Repo Stripe_Client
begin

text \<open>
  internal/service/webhook_service.go: \<open>ProcessEvent\<close> verifies, claims, dispatches and
  settles one delivery; \<open>ReplayEvent\<close> does the same for an event of the ledger, without
  verification. A Go pair of an outcome and an error is a pair with an option. Log lines keep
  their level and message; their attributes are left out.

  The locale \<open>billing_relation\<close> joins the contracts of the three repositories the service
  calls; in it every method of the service keeps \<open>R\<close>.
\<close>

section \<open>Outcomes\<close>

datatype Outcome = OutcomeProcessed | OutcomeDuplicate | OutcomeSkipped | OutcomeStale | OutcomeFailed

fun Outcome_text :: "Outcome \<Rightarrow> string" where
  "Outcome_text OutcomeProcessed = ''processed''"
| "Outcome_text OutcomeDuplicate = ''duplicate''"
| "Outcome_text OutcomeSkipped = ''skipped''"
| "Outcome_text OutcomeStale = ''stale''"
| "Outcome_text OutcomeFailed = ''failed''"

definition Outcome_Acknowledge :: "Outcome \<Rightarrow> bool" where
  "Outcome_Acknowledge o1 \<longleftrightarrow> o1 \<noteq> OutcomeFailed"

definition handledEventTypes :: "string list" where
  "handledEventTypes =
     [''checkout.session.completed'', ''customer.subscription.updated'',
      ''customer.subscription.deleted'', ''customer.subscription.created'',
      ''customer.subscription.paused'', ''customer.subscription.resumed'',
      ''invoice.payment_failed'', ''invoice.payment_succeeded'']"

text \<open>The service: its libraries, the claim window of its repository, its client, its metrics.\<close>

record Service =
  sv_lib :: stripe_lib
  sv_json :: jsonlib
  sv_stale :: duration
  sv_client :: Client
  sv_metrics :: bool

type_synonym handled = "Outcome \<times> goerr option"

definition service_observe :: "Service \<Rightarrow> string \<Rightarrow> string \<Rightarrow> time \<Rightarrow> unit prog" where
  "service_observe S eventType outcome started = do {
     now \<leftarrow> get_now;
     observe (sv_metrics S) (ObserveWebhook eventType outcome (now - started)) }"

section \<open>Mapping Stripe objects\<close>

definition unixPtr :: "int \<Rightarrow> time option" where
  "unixPtr sec = (if sec \<le> 0 then None else Some (unix sec))"

definition customerIDOf :: "string option \<Rightarrow> string" where
  "customerIDOf c = (case c of None \<Rightarrow> [] | Some i \<Rightarrow> i)"

text \<open>A pointer that is taken only when the id behind it is not empty.\<close>

definition nonempty :: "string option \<Rightarrow> string option" where
  "nonempty c = (case c of None \<Rightarrow> None | Some i \<Rightarrow> if i = [] then None else Some i)"

definition ensureCanceledAt :: "SubscriptionStatus \<Rightarrow> time option \<Rightarrow> time \<Rightarrow> time option" where
  "ensureCanceledAt status at fallback =
     (if status = SubscriptionCanceled \<and> at = None then Some fallback else at)"

definition primaryItem :: "StripeSub \<Rightarrow> SubscriptionItem result" where
  "primaryItem sub =
     (case ss_Items sub of
        Some (item # _) \<Rightarrow> Inr item
      | _ \<Rightarrow> Inl (Text (''subscription '' @ ss_ID sub @ '' carries no items'')))"

definition subscriptionFrom :: "uuid \<Rightarrow> StripeSub \<Rightarrow> Event \<Rightarrow> Subscription result" where
  "subscriptionFrom userID sub event =
     (case primaryItem sub of
        Inl e \<Rightarrow> Inl e
      | Inr item \<Rightarrow>
          (case si_Price item of
             None \<Rightarrow> Inl (Text (''subscription '' @ ss_ID sub @ '' item carries no price''))
           | Some price \<Rightarrow>
               (let eventAt = unix (ev_Created event); q = int32_of (si_Quantity item)
                in Inr
                  \<lparr>s_ID = nil_uuid, s_UserID = userID, s_StripeSubscriptionID = ss_ID sub,
                   s_StripeCustomerID = customerIDOf (ss_Customer sub), s_StripePriceID = p_ID price,
                   s_StripeProductID = nonempty (p_Product price), s_Status = ss_Status sub,
                   s_Quantity = (if q \<le> 0 then 1 else q),
                   s_Currency = (if p_Currency price = [] then None else Some (p_Currency price)),
                   s_UnitAmount = (if 0 < p_UnitAmount price then Some (p_UnitAmount price) else None),
                   s_CurrentPeriodStart = unix (si_CurrentPeriodStart item),
                   s_CurrentPeriodEnd = unix (si_CurrentPeriodEnd item),
                   s_CancelAtPeriodEnd = ss_CancelAtPeriodEnd sub, s_CancelAt = unixPtr (ss_CancelAt sub),
                   s_CanceledAt = ensureCanceledAt (ss_Status sub) (unixPtr (ss_CanceledAt sub)) eventAt,
                   s_EndedAt = unixPtr (ss_EndedAt sub), s_TrialStart = unixPtr (ss_TrialStart sub),
                   s_TrialEnd = unixPtr (ss_TrialEnd sub), s_LatestInvoiceID = None,
                   s_DefaultPaymentMethodID = None, s_PaymentFailedAt = None, s_PaymentFailureCount = 0,
                   s_LastPaymentError = None, s_NextPaymentAttemptAt = None, s_LastInvoiceEventID = None,
                   s_LastInvoiceEventAt = None, s_LastStripeEventID = Some (ev_ID event),
                   s_LastStripeEventAt = Some eventAt, s_Metadata = ss_Metadata sub,
                   s_CreatedAt = zero_time, s_UpdatedAt = zero_time\<rparr>)))"

definition statusUpdateFrom :: "StripeSub \<Rightarrow> Event \<Rightarrow> bool \<Rightarrow> SubscriptionStatusUpdate result" where
  "statusUpdateFrom sub event deleted =
     (case primaryItem sub of
        Inl e \<Rightarrow> Inl e
      | Inr item \<Rightarrow>
          (let status = (if deleted then SubscriptionCanceled else ss_Status sub);
               eventAt = unix (ev_Created event)
           in if \<not> SubscriptionStatus_Valid status
              then Inl (Text (''subscription '' @ ss_ID sub @ '' has unknown status '' @ go_quote (ss_Status sub)))
              else Inr
                \<lparr>su_StripeSubscriptionID = ss_ID sub, su_Status = status, su_EventID = ev_ID event,
                 su_EventCreatedAt = eventAt,
                 su_CurrentPeriodStart = unixPtr (si_CurrentPeriodStart item),
                 su_CurrentPeriodEnd = unixPtr (si_CurrentPeriodEnd item),
                 su_CancelAtPeriodEnd = Some (ss_CancelAtPeriodEnd sub),
                 su_CancelAt = unixPtr (ss_CancelAt sub),
                 su_CanceledAt = ensureCanceledAt status (unixPtr (ss_CanceledAt sub)) eventAt,
                 su_EndedAt = unixPtr (ss_EndedAt sub), su_TrialEnd = unixPtr (ss_TrialEnd sub),
                 su_StripePriceID = nonempty (map_option p_ID (si_Price item)),
                 su_Quantity = (if 0 < si_Quantity item then Some (int32_of (si_Quantity item)) else None),
                 su_LatestInvoiceID = nonempty (ss_LatestInvoice sub),
                 su_DefaultPaymentMethodID = nonempty (ss_DefaultPaymentMethod sub)\<rparr>))"

definition subscriptionIDOf :: "Invoice \<Rightarrow> string" where
  "subscriptionIDOf iv =
     (let lines = (case iv_Lines iv of
                     None \<Rightarrow> []
                   | Some ls \<Rightarrow> (case find (\<lambda>l. case l of Some (Some i) \<Rightarrow> i \<noteq> [] | _ \<Rightarrow> False) ls of
                                  Some (Some (Some i)) \<Rightarrow> i | _ \<Rightarrow> []))
      in case iv_Parent iv of
           Some (Some (Some i)) \<Rightarrow> (if i \<noteq> [] then i else lines)
         | _ \<Rightarrow> lines)"

definition declineReason :: "Invoice \<Rightarrow> string" where
  "declineReason iv =
     (case iv_LastFinalizationError iv of
        None \<Rightarrow> []
      | Some e \<Rightarrow>
          if fz_DeclineCode e \<noteq> [] then fz_DeclineCode e @ '': '' @ fz_Msg e
          else if fz_Code e \<noteq> [] then fz_Code e @ '': '' @ fz_Msg e
          else fz_Msg e)"

definition invoiceUpdateFrom :: "Invoice \<Rightarrow> Event \<Rightarrow> string \<Rightarrow> bool \<Rightarrow> InvoicePaymentUpdate" where
  "invoiceUpdateFrom iv event sid succeeded =
     \<lparr>ip_StripeSubscriptionID = sid, ip_Succeeded = succeeded, ip_EventID = ev_ID event,
      ip_EventCreatedAt = unix (ev_Created event),
      ip_InvoiceID = (if iv_ID iv = [] then None else Some (iv_ID iv)),
      ip_FailureReason = (if succeeded \<or> declineReason iv = [] then None else Some (declineReason iv)),
      ip_NextAttemptAt = unixPtr (iv_NextPaymentAttempt iv),
      ip_CurrentPeriodStart = (if succeeded then unixPtr (iv_PeriodStart iv) else None),
      ip_CurrentPeriodEnd = (if succeeded then unixPtr (iv_PeriodEnd iv) else None)\<rparr>"

section \<open>Finding and linking the user\<close>

definition metadata_get :: "string \<Rightarrow> (string \<times> string) list \<Rightarrow> string" where
  "metadata_get k m = (case map_of m k of None \<Rightarrow> [] | Some v \<Rightarrow> v)"

definition user_by_customer :: "string \<Rightarrow> User option result prog" where
  "user_by_customer customerID =
     (if customerID = [] then State_Monad.return (Inr None)
      else do {
        r \<leftarrow> GetUserByStripeCustomerID customerID;
        State_Monad.return (case r of
          Inr u \<Rightarrow> Inr (Some u)
        | Inl e \<Rightarrow> if err_is e ErrNotFound then Inr None
                   else Inl (Wrap ''look up user by customer: '' e [])) })"

definition resolveUser ::
  "Service \<Rightarrow> string \<Rightarrow> string \<Rightarrow> (string \<times> string) list \<Rightarrow> User option result prog" where
  "resolveUser S clientRef customerID metadata =
     (let candidate = (if clientRef = [] then metadata_get ''user_id'' metadata else clientRef)
      in if candidate = [] then user_by_customer customerID
         else (case uuid_parse (sv_lib S) candidate of
                 None \<Rightarrow> user_by_customer customerID
               | Some i \<Rightarrow> do {
                   r \<leftarrow> GetUserByID i;
                   (case r of
                      Inr u \<Rightarrow> State_Monad.return (Inr (Some u))
                    | Inl e \<Rightarrow>
                        if err_is e ErrNotFound then user_by_customer customerID
                        else State_Monad.return
                               (Inl (Wrap (''look up user '' @ uuid_string (sv_lib S) i @ '': '') e []))) }))"

definition linkCustomer :: "User \<Rightarrow> string \<Rightarrow> goerr option prog" where
  "linkCustomer user customerID =
     (if customerID = [] then State_Monad.return None
      else case u_StripeCustomerID user of
        Some c \<Rightarrow> do {
          (if c \<noteq> customerID then log_line Error ''user already linked to a different stripe customer''
           else State_Monad.return ());
          State_Monad.return None }
      | None \<Rightarrow> do {
          r \<leftarrow> UpdateUser (user\<lparr>u_StripeCustomerID := Some customerID\<rparr>);
          (case r of
             Inl e \<Rightarrow>
               if err_is e ErrConflict
               then do { log_line Warn ''stripe customer already linked to another user'';
                         State_Monad.return None }
               else State_Monad.return (Some (Wrap ''link stripe customer to user: '' e []))
           | Inr _ \<Rightarrow> do { log_line Info ''linked stripe customer to user'';
                           State_Monad.return None }) })"

section \<open>Handlers\<close>

definition upsertSubscription :: "uuid \<Rightarrow> StripeSub \<Rightarrow> Event \<Rightarrow> handled prog" where
  "upsertSubscription userID sub event =
     (case subscriptionFrom userID sub event of
        Inl e \<Rightarrow> State_Monad.return (OutcomeFailed, Some e)
      | Inr record \<Rightarrow> do {
          r \<leftarrow> CreateSubscription record;
          (case r of
             Inr _ \<Rightarrow> do { log_line Info ''subscription created'';
                           State_Monad.return (OutcomeProcessed, None) }
           | Inl e \<Rightarrow>
               if err_is e ErrConflict
               then (case statusUpdateFrom sub event False of
                       Inl ue \<Rightarrow> State_Monad.return (OutcomeFailed, Some ue)
                     | Inr update \<Rightarrow> do {
                         u \<leftarrow> UpdateSubscriptionStatus update;
                         State_Monad.return (case u of
                           Inr _ \<Rightarrow> (OutcomeProcessed, None)
                         | Inl ue \<Rightarrow>
                             if err_is ue ErrStaleEvent then (OutcomeStale, None)
                             else (OutcomeFailed,
                                   Some (Wrap (''update existing subscription '' @ ss_ID sub @ '': '') ue []))) })
               else State_Monad.return
                      (OutcomeFailed, Some (Wrap (''create subscription '' @ ss_ID sub @ '': '') e []))) })"

definition createFromEvent :: "Service \<Rightarrow> StripeSub \<Rightarrow> Event \<Rightarrow> handled prog" where
  "createFromEvent S sub event = do {
     r \<leftarrow> resolveUser S [] (customerIDOf (ss_Customer sub)) (ss_Metadata sub);
     (case r of
        Inl e \<Rightarrow> State_Monad.return (OutcomeFailed, Some e)
      | Inr None \<Rightarrow> do { log_line Warn ''subscription for unknown customer'';
                        State_Monad.return (OutcomeSkipped, None) }
      | Inr (Some user) \<Rightarrow> do {
          h \<leftarrow> upsertSubscription (u_ID user) sub event;
          State_Monad.return (case snd h of
            Some e \<Rightarrow> (OutcomeFailed, Some e)
          | None \<Rightarrow> (OutcomeProcessed, None)) }) }"

definition handleCheckoutCompleted :: "Service \<Rightarrow> Event \<Rightarrow> handled prog" where
  "handleCheckoutCompleted S event =
     (case unmarshal_session (sv_lib S) (ev_Raw event) of
        Inl e \<Rightarrow> State_Monad.return (OutcomeFailed, Some (Wrap ''decode checkout session: '' (Text e) []))
      | Inr session \<Rightarrow>
          if cs_Mode session \<noteq> CheckoutSessionModeSubscription (sv_lib S)
          then do { log_line Info ''checkout session is not a subscription'';
                    State_Monad.return (OutcomeSkipped, None) }
          else (case nonempty (cs_Subscription session) of
                  None \<Rightarrow> do { log_line Warn ''checkout session completed without a subscription'';
                              State_Monad.return (OutcomeSkipped, None) }
                | Some sid \<Rightarrow> do {
                    r \<leftarrow> resolveUser S (cs_ClientReferenceID session) (customerIDOf (cs_Customer session))
                           (cs_Metadata session);
                    (case r of
                       Inl e \<Rightarrow> State_Monad.return (OutcomeFailed, Some e)
                     | Inr None \<Rightarrow> do { log_line Warn ''no local user for checkout session'';
                                       State_Monad.return (OutcomeSkipped, None) }
                     | Inr (Some user) \<Rightarrow> do {
                         l \<leftarrow> linkCustomer user (customerIDOf (cs_Customer session));
                         (case l of
                            Some e \<Rightarrow> State_Monad.return (OutcomeFailed, Some e)
                          | None \<Rightarrow> do {
                              g \<leftarrow> GetSubscription (sv_lib S) sid;
                              (case g of
                                 Inl e \<Rightarrow> State_Monad.return (OutcomeFailed, Some e)
                               | Inr sub \<Rightarrow> do {
                                   h \<leftarrow> upsertSubscription (u_ID user) sub event;
                                   State_Monad.return (case snd h of
                                     Some e \<Rightarrow> (OutcomeFailed, Some e)
                                   | None \<Rightarrow> (OutcomeProcessed, None)) }) }) }) }))"

definition handleSubscriptionChanged :: "Service \<Rightarrow> Event \<Rightarrow> bool \<Rightarrow> handled prog" where
  "handleSubscriptionChanged S event deleted =
     (case unmarshal_subscription (sv_lib S) (ev_Raw event) of
        Inl e \<Rightarrow> State_Monad.return (OutcomeFailed, Some (Wrap ''decode subscription: '' (Text e) []))
      | Inr sub \<Rightarrow>
          if ss_ID sub = []
          then State_Monad.return (OutcomeFailed, Some (Text ''subscription event carried no subscription id''))
          else (case statusUpdateFrom sub event deleted of
                  Inl e \<Rightarrow> State_Monad.return (OutcomeFailed, Some e)
                | Inr update \<Rightarrow> do {
                    r \<leftarrow> UpdateSubscriptionStatus update;
                    (case r of
                       Inr _ \<Rightarrow> do { log_line Info ''subscription updated'';
                                     State_Monad.return (OutcomeProcessed, None) }
                     | Inl e \<Rightarrow>
                         if err_is e ErrStaleEvent
                         then do { log_line Info ''event superseded by a newer one'';
                                   State_Monad.return (OutcomeStale, None) }
                         else if err_is e ErrNotFound then createFromEvent S sub event
                         else State_Monad.return
                                (OutcomeFailed, Some (Wrap (''update subscription '' @ ss_ID sub @ '': '') e []))) }))"

definition handleInvoicePayment :: "Service \<Rightarrow> Event \<Rightarrow> bool \<Rightarrow> handled prog" where
  "handleInvoicePayment S event succeeded =
     (case unmarshal_invoice (sv_lib S) (ev_Raw event) of
        Inl e \<Rightarrow> State_Monad.return (OutcomeFailed, Some (Wrap ''decode invoice: '' (Text e) []))
      | Inr iv \<Rightarrow>
          (let sid = subscriptionIDOf iv
           in if sid = []
              then do { log_line Info ''invoice is not tied to a subscription'';
                        State_Monad.return (OutcomeSkipped, None) }
              else do {
                r \<leftarrow> RecordInvoicePayment (invoiceUpdateFrom iv event sid succeeded);
                (case r of
                   Inr _ \<Rightarrow> do {
                     (if succeeded then log_line Info ''invoice paid''
                      else log_line Warn ''invoice payment failed'');
                     State_Monad.return (OutcomeProcessed, None) }
                 | Inl e \<Rightarrow>
                     if err_is e ErrStaleEvent
                     then do { log_line Info ''invoice event superseded by a newer one'';
                               State_Monad.return (OutcomeStale, None) }
                     else if err_is e ErrNotFound
                     then do { log_line Warn ''invoice for a subscription not yet recorded'';
                               State_Monad.return (OutcomeSkipped, None) }
                     else State_Monad.return
                            (OutcomeFailed, Some (Wrap (''record invoice payment for '' @ sid @ '': '') e []))) }))"

definition dispatch :: "Service \<Rightarrow> Event \<Rightarrow> handled prog" where
  "dispatch S event =
     (if ev_Type event = ''checkout.session.completed'' then handleCheckoutCompleted S event
      else if ev_Type event = ''customer.subscription.deleted'' then handleSubscriptionChanged S event True
      else if ev_Type event = ''invoice.payment_succeeded'' then handleInvoicePayment S event True
      else if ev_Type event = ''invoice.payment_failed'' then handleInvoicePayment S event False
      else handleSubscriptionChanged S event False)"

section \<open>Processing and replaying\<close>

definition settleSkipped :: "string \<Rightarrow> string \<Rightarrow> handled prog" where
  "settleSkipped eventID reason = do {
     r \<leftarrow> MarkEventSkipped eventID reason;
     (case r of Some e \<Rightarrow> log_line Error ''could not mark event skipped'' | None \<Rightarrow> State_Monad.return ());
     log_line Info ''event skipped'';
     State_Monad.return (OutcomeSkipped, None) }"

definition claim_record :: "Event \<Rightarrow> bytes \<Rightarrow> ProcessedWebhook" where
  "claim_record event payload =
     \<lparr>w_EventID = ev_ID event, w_EventType = ev_Type event,
      w_APIVersion = (if ev_APIVersion event = [] then None else Some (ev_APIVersion event)),
      w_Livemode = ev_Livemode event, w_RequestID = nonempty (ev_Request event), w_Status = [],
      w_Attempts = 0, w_LastError = None, w_Payload = payload,
      w_StripeCreatedAt = unix (ev_Created event), w_ReceivedAt = zero_time, w_ProcessedAt = None,
      w_CreatedAt = zero_time, w_UpdatedAt = zero_time\<rparr>"

text \<open>After the claim: dispatch and settle.\<close>

definition process_claimed :: "Service \<Rightarrow> Event \<Rightarrow> time \<Rightarrow> handled prog" where
  "process_claimed S event started =
     (if ev_Type event \<notin> set handledEventTypes
      then settleSkipped (ev_ID event) ''event type not subscribed''
      else do {
        h \<leftarrow> dispatch S event;
        (case snd h of
           Some err \<Rightarrow> do {
             m \<leftarrow> MarkEventFailed (ev_ID event) (Some err);
             (case m of Some e \<Rightarrow> log_line Error ''could not record failure'' | None \<Rightarrow> State_Monad.return ());
             log_line Error ''event processing failed'';
             service_observe S (ev_Type event) (Outcome_text OutcomeFailed) started;
             State_Monad.return (OutcomeFailed, Some err) }
         | None \<Rightarrow>
             if fst h = OutcomeSkipped
             then settleSkipped (ev_ID event) ''no action required for this event''
             else do {
               m \<leftarrow> MarkEventProcessed (ev_ID event);
               (case m of Some e \<Rightarrow> log_line Error ''processing succeeded but ledger not settled''
                | None \<Rightarrow> State_Monad.return ());
               log_line Info ''event processed'';
               service_observe S (ev_Type event) (Outcome_text (fst h)) started;
               State_Monad.return (fst h, None) }) })"

definition ProcessEvent :: "Service \<Rightarrow> bytes \<Rightarrow> string \<Rightarrow> handled prog" where
  "ProcessEvent S payload signatureHeader = do {
     started \<leftarrow> get_now;
     v \<leftarrow> VerifyWebhook (sv_lib S) (sv_client S) payload signatureHeader;
     (case v of
        Inl err \<Rightarrow> do {
          service_observe S ''unverified'' ''signature_rejected'' started;
          State_Monad.return (OutcomeFailed, Some err) }
      | Inr event \<Rightarrow> do {
          c \<leftarrow> TryClaimEvent (sv_json S) (sv_stale S) (claim_record event payload);
          (case c of
             Inl err \<Rightarrow> do {
               log_line Error ''claim failed'';
               State_Monad.return (OutcomeFailed, Some (Wrap ''claim event: '' err [])) }
           | Inr (claimed, w) \<Rightarrow>
               if \<not> claimed
               then do {
                 log_line Info ''event already settled or in flight'';
                 service_observe S (ev_Type event) (Outcome_text OutcomeDuplicate) started;
                 State_Monad.return (OutcomeDuplicate, None) }
               else process_claimed S event started) }) }"

definition ReplayEvent :: "Service \<Rightarrow> ProcessedWebhook \<Rightarrow> handled prog" where
  "ReplayEvent S record =
     (if w_Payload record = []
      then do {
        m \<leftarrow> MarkEventSkipped (w_EventID record) ''payload no longer retained; cannot replay'';
        (case m of Some e \<Rightarrow> log_line Error ''could not settle an unreplayable event''
         | None \<Rightarrow> State_Monad.return ());
        log_line Warn ''event has no stored payload, skipping replay'';
        State_Monad.return (OutcomeSkipped, None) }
      else (case unmarshal_event (sv_lib S) (w_Payload record) of
        Inl err \<Rightarrow> do {
          m \<leftarrow> MarkEventSkipped (w_EventID record) ''stored payload is not valid Stripe event JSON'';
          (case m of Some e \<Rightarrow> log_line Error ''could not settle an unparseable event''
           | None \<Rightarrow> State_Monad.return ());
          log_line Error ''stored payload could not be parsed'';
          State_Monad.return (OutcomeSkipped, None) }
      | Inr event \<Rightarrow>
          if ev_Type event \<notin> set handledEventTypes
          then settleSkipped (w_EventID record) ''event type not subscribed''
          else do {
            h \<leftarrow> dispatch S event;
            (case snd h of
               Some err \<Rightarrow> do {
                 m \<leftarrow> MarkEventFailed (w_EventID record) (Some err);
                 (case m of Some e \<Rightarrow> log_line Error ''could not record replay failure''
                  | None \<Rightarrow> State_Monad.return ());
                 log_line Warn ''replay failed'';
                 State_Monad.return (OutcomeFailed, Some err) }
             | None \<Rightarrow>
                 if fst h = OutcomeSkipped
                 then settleSkipped (w_EventID record) ''no action required for this event''
                 else do {
                   m \<leftarrow> MarkEventProcessed (w_EventID record);
                   (case m of Some e \<Rightarrow> log_line Error ''replay succeeded but ledger not settled''
                    | None \<Rightarrow> State_Monad.return ());
                   log_line Info ''event replayed'';
                   State_Monad.return (fst h, None) }) }))"

section \<open>The service keeps what its repositories keep\<close>

text \<open>The handlers call the subscription and the user repository, and Stripe.\<close>

locale dispatch_relation = sub_relation R + user_relation R
  for R :: "db \<Rightarrow> db \<Rightarrow> bool"
begin

lemma keeps_GetSubscription: "keeps R (GetSubscription L i)"
  unfolding GetSubscription_def by (intro keeps_if keeps_return keeps_bind keeps_effects)

lemmas handler_rules =
  keeps_if keeps_return keeps_bind keeps_case_option keeps_case_sum keeps_case_prod keeps_effects
  keeps_user_reads keeps_user_writes keeps_CreateSubscription keeps_UpdateSubscriptionStatus
  keeps_RecordInvoicePayment keeps_GetSubscription

lemma keeps_user_by_customer: "keeps R (user_by_customer c)"
  unfolding user_by_customer_def by (intro handler_rules)

lemma keeps_resolveUser: "keeps R (resolveUser S cr c m)"
  unfolding resolveUser_def Let_def by (intro handler_rules keeps_user_by_customer)

lemma keeps_linkCustomer: "keeps R (linkCustomer u c)"
  unfolding linkCustomer_def by (intro handler_rules)

lemma keeps_upsertSubscription: "keeps R (upsertSubscription i sub ev)"
  unfolding upsertSubscription_def by (intro handler_rules)

lemma keeps_createFromEvent: "keeps R (createFromEvent S sub ev)"
  unfolding createFromEvent_def by (intro handler_rules keeps_resolveUser keeps_upsertSubscription)

lemma keeps_handlers:
  "keeps R (handleCheckoutCompleted S ev)" "keeps R (handleSubscriptionChanged S ev b)"
  "keeps R (handleInvoicePayment S ev b)"
  unfolding handleCheckoutCompleted_def handleSubscriptionChanged_def handleInvoicePayment_def Let_def
  by (intro handler_rules keeps_resolveUser keeps_linkCustomer keeps_upsertSubscription
      keeps_createFromEvent)+

lemma keeps_dispatch: "keeps R (dispatch S ev)"
  unfolding dispatch_def by (intro keeps_if keeps_handlers)

end

text \<open>A replay settles the event it is given, if \<open>ids\<close> names it.\<close>

locale replay_relation = settle_relation R ids + dispatch_relation R
  for R :: "db \<Rightarrow> db \<Rightarrow> bool" and ids :: "string \<Rightarrow> bool"
begin

lemmas replay_rules =
  keeps_if keeps_return keeps_bind keeps_case_option keeps_case_sum keeps_case_prod keeps_effects
  keeps_dispatch

lemma keeps_settleSkipped: "ids e \<Longrightarrow> keeps R (settleSkipped e r)"
  unfolding settleSkipped_def by (intro replay_rules keeps_Mark)

lemma keeps_service_observe: "keeps R (service_observe S t oc st)"
  unfolding service_observe_def by (intro keeps_bind keeps_effects)

lemma keeps_process_claimed: "ids (ev_ID ev) \<Longrightarrow> keeps R (process_claimed S ev st)"
  unfolding process_claimed_def
  by (intro replay_rules keeps_settleSkipped keeps_Mark keeps_service_observe)

lemma keeps_ReplayEvent: "ids (w_EventID r) \<Longrightarrow> keeps R (ReplayEvent S r)"
  unfolding ReplayEvent_def by (intro replay_rules keeps_settleSkipped keeps_Mark)

end

locale billing_relation = hook_relation R + replay_relation R "\<lambda>_. True"
  for R :: "db \<Rightarrow> db \<Rightarrow> bool"
begin

lemma keeps_VerifyWebhook: "keeps R (VerifyWebhook L c p h)"
  unfolding VerifyWebhook_def by (intro keeps_return keeps_bind keeps_effects)

lemma keeps_ProcessEvent: "keeps R (ProcessEvent S payload h)"
  unfolding ProcessEvent_def
  by (intro replay_rules keeps_VerifyWebhook keeps_service_observe keeps_TryClaimEvent
      keeps_process_claimed TrueI)

end

section \<open>The relations of the development satisfy the contracts\<close>

text \<open>A statement on one table satisfies every relation that only looks at another.\<close>

interpretation ledger_billing: billing_relation ledger_grows
  by unfold_locales (auto intro!: stmt_okI dest!: sub_frames user_frames)

interpretation cursor_billing: billing_relation subs_evolve
  by unfold_locales (auto intro!: stmt_okI dest!: hook_frames user_frames)

text \<open>Every statement keeps the ledger's constraints too.\<close>

definition ledger_sound :: "db \<Rightarrow> db \<Rightarrow> bool" where
  "ledger_sound d d' \<longleftrightarrow> ledger_grows d d' \<and> (hooks_wf d \<longrightarrow> hooks_wf d')"

lemma ledger_sound_same: "hooks d' = hooks d \<Longrightarrow> ledger_sound d d'"
  by (simp add: ledger_sound_def hooks_wf_def ids_unique_def)

lemma ledger_soundI:
  assumes "stmt_ok ledger_grows body"
    and "\<And>s d a d'. body s d = Inr (a, d') \<Longrightarrow> hooks_wf d \<Longrightarrow> ledger_grows d d' \<Longrightarrow> hooks_wf d'"
  shows "stmt_ok ledger_sound body"
  using assms unfolding ledger_sound_def stmt_ok_def by blast

lemma ledger_sound_stmts:
  "stmt_ok ledger_sound (claim_stmt J win w)"
  "upd \<in> {to_succeeded, to_skipped reason, to_failed reason} \<Longrightarrow> stmt_ok ledger_sound (mark_stmt e upd)"
  "stmt_ok ledger_sound (reclaim_stmt win limit reason)"
  "stmt_ok ledger_sound (retry_claim_stmt e m)"
  "stmt_ok ledger_sound (purge_stmt q)"
      apply (rule ledger_soundI [OF claim_grows], erule (1) claim_stmt_wf)
     apply (rule ledger_soundI [OF mark_grows], assumption, erule (2) mark_stmt_wf)
    apply (rule ledger_soundI [OF reclaim_grows], rule scan_update_wf, erule disjI1, assumption)
   apply (rule ledger_soundI [OF retry_claim_grows], erule (1) retry_claim_wf)
  apply (rule ledger_soundI [OF purge_grows], rule scan_update_wf, erule disjI2, assumption)
  done

interpretation sound_billing: billing_relation ledger_sound
proof unfold_locales
  show "ledger_sound d d" for d by (rule ledger_sound_same) simp
  show "ledger_sound a c" if "ledger_sound a b" "ledger_sound b c" for a b c
    using that by (auto simp: ledger_sound_def intro: ledger_grows_trans)
qed ((rule ledger_sound_stmts; assumption?)+,
     (auto intro!: stmt_okI ledger_sound_same dest!: sub_frames user_frames)+)

text \<open>The handlers touch neither the ledger nor the tokens.\<close>

definition ledger_untouched :: "db \<Rightarrow> db \<Rightarrow> bool" where
  "ledger_untouched d d' \<longleftrightarrow> hooks d' = hooks d \<and> tokens d' = tokens d \<and> clock d' = clock d"

interpretation untouched: dispatch_relation ledger_untouched
  by unfold_locales (auto simp: ledger_untouched_def intro!: stmt_okI dest!: sub_frames user_frames)

section \<open>Errors and outcomes agree\<close>

text \<open>Every result of the program, in every world, satisfies \<open>Q\<close>.\<close>

definition yields :: "('a \<Rightarrow> bool) \<Rightarrow> 'a prog \<Rightarrow> bool" where
  "yields Q m \<longleftrightarrow> (\<forall>w x w'. run_state m w = (x, w') \<longrightarrow> Q x)"

lemma yieldsD: "yields Q m \<Longrightarrow> run_state m w = (x, w') \<Longrightarrow> Q x"
  unfolding yields_def by blast

lemma yields_return [simp]: "yields Q (State_Monad.return x) \<longleftrightarrow> Q x"
  by (auto simp: yields_def)

lemma yields_mono: "yields P m \<Longrightarrow> (\<And>x. P x \<Longrightarrow> Q x) \<Longrightarrow> yields Q m"
  by (auto simp: yields_def)

lemma yields_bind: "(\<And>a. yields Q (f a)) \<Longrightarrow> yields Q (State_Monad.bind m f)"
  by (auto simp: yields_def split: prod.splits)

lemma yields_bind_if:
  assumes "yields P m" "\<And>a. P a \<Longrightarrow> yields Q (f a)"
  shows "yields Q (State_Monad.bind m f)"
  unfolding yields_def
proof (intro allI impI)
  fix w x w'
  assume run: "run_state (State_Monad.bind m f) w = (x, w')"
  obtain a w1 where m: "run_state m w = (a, w1)" by fastforce
  with run have "run_state (f a) w1 = (x, w')" by simp
  then show "Q x" by (rule yieldsD [OF assms(2) [OF yieldsD [OF assms(1) m]]])
qed

lemma yields_if: "yields Q m \<Longrightarrow> yields Q n \<Longrightarrow> yields Q (if b then m else n)"
  by simp

lemma yields_case:
  "(\<And>e. yields Q (f e)) \<Longrightarrow> (\<And>a. yields Q (g a)) \<Longrightarrow> yields Q (case r of Inl e \<Rightarrow> f e | Inr a \<Rightarrow> g a)"
  "yields Q m \<Longrightarrow> (\<And>a. yields Q (k a)) \<Longrightarrow> yields Q (case q of None \<Rightarrow> m | Some a \<Rightarrow> k a)"
  "(\<And>a b. yields Q (l a b)) \<Longrightarrow> yields Q (case p of (a, b) \<Rightarrow> l a b)"
  by (simp_all split: sum.split option.split prod.split)

lemmas yields_rules = yields_if yields_case yields_bind

text \<open>A handler reports an error exactly with the failed outcome, and never a duplicate.\<close>

definition handled_ok :: "handled \<Rightarrow> bool" where
  "handled_ok x \<longleftrightarrow> (fst x = OutcomeFailed \<longleftrightarrow> snd x \<noteq> None) \<and> fst x \<noteq> OutcomeDuplicate"

lemma handled_ok_simps [simp]:
  "handled_ok (OutcomeFailed, Some e)" "handled_ok (OutcomeProcessed, None)"
  "handled_ok (OutcomeSkipped, None)" "handled_ok (OutcomeStale, None)"
  by (simp_all add: handled_ok_def)

lemma upsert_ok: "yields handled_ok (upsertSubscription i sub ev)"
  unfolding upsertSubscription_def by (intro yields_rules) (auto split: sum.split)

lemma createFromEvent_ok: "yields handled_ok (createFromEvent S sub ev)"
  unfolding createFromEvent_def by (intro yields_rules) (auto split: option.split)

lemma handlers_ok:
  "yields handled_ok (handleCheckoutCompleted S ev)" "yields handled_ok (handleSubscriptionChanged S ev b)"
  "yields handled_ok (handleInvoicePayment S ev b)"
  unfolding handleCheckoutCompleted_def handleSubscriptionChanged_def handleInvoicePayment_def Let_def
  by (intro yields_rules createFromEvent_ok; auto split: option.split)+

lemma dispatch_ok: "yields handled_ok (dispatch S ev)"
  unfolding dispatch_def by (intro yields_if handlers_ok)

lemma settleSkipped_skips: "yields (\<lambda>x. x = (OutcomeSkipped, None)) (settleSkipped e r)"
  unfolding settleSkipped_def by (intro yields_rules) simp

lemma settleSkipped_ok: "yields handled_ok (settleSkipped e r)"
  by (rule yields_mono [OF settleSkipped_skips]) simp

text \<open>The success branches hand on the outcome of a dispatch that reported no error.\<close>

lemma process_claimed_ok: "yields handled_ok (process_claimed S ev st)"
  unfolding process_claimed_def
  by (rule yields_if [OF settleSkipped_ok yields_bind_if [OF dispatch_ok]])
     (auto simp: handled_ok_def intro!: yields_rules settleSkipped_ok split: option.split)

lemma ReplayEvent_ok: "yields handled_ok (ReplayEvent S r)"
  unfolding ReplayEvent_def
  by (rule yields_if [OF _ yields_case(1) [OF _ yields_if [OF settleSkipped_ok yields_bind_if [OF dispatch_ok]]]])
     (auto simp: handled_ok_def intro!: yields_rules settleSkipped_ok split: option.split)

lemma ProcessEvent_ok:
  "yields (\<lambda>x. fst x = OutcomeFailed \<longleftrightarrow> snd x \<noteq> None) (ProcessEvent S p h)"
  unfolding ProcessEvent_def
  by (intro yields_rules yields_mono [OF process_claimed_ok]) (simp_all add: handled_ok_def)

section \<open>Settling after the work\<close>

text \<open>The status the ledger must show for an outcome.\<close>

definition settles_as :: "Outcome \<Rightarrow> goerr option \<Rightarrow> hook_row \<Rightarrow> bool" where
  "settles_as oc e h \<longleftrightarrow>
     (case oc of
        OutcomeProcessed \<Rightarrow> h_status h = WebhookSucceeded \<and> h_last_error h = None
      | OutcomeStale \<Rightarrow> h_status h = WebhookSucceeded \<and> h_last_error h = None
      | OutcomeSkipped \<Rightarrow> h_status h = WebhookSkipped \<and> h_last_error h \<noteq> None
      | OutcomeFailed \<Rightarrow> h_status h = WebhookFailed \<and> h_last_error h = Some (failureReason e)
      | OutcomeDuplicate \<Rightarrow> False)"

definition holds_claim :: "string \<Rightarrow> int \<Rightarrow> world \<Rightarrow> bool" where
  "holds_claim e n W \<longleftrightarrow>
     w_plan W = [] \<and> hooks_wf (w_db W) \<and> (\<exists>h \<in> set (hooks (w_db W)). held e h \<and> h_attempts h = n)"

lemma mark_settles:
  assumes "holds_claim e n W" "upd \<in> {to_succeeded, to_skipped r, to_failed r}"
  obtains h W' where "run_state (run_stmt (mark_stmt e upd)) W = (Inr [touch_hook (w_db W) (upd (clock (w_db W)) h)], W')"
    "touch_hook (w_db W) (upd (clock (w_db W)) h) \<in> set (hooks (w_db W'))" "h_event_id h = e" "h_attempts h = n"
proof -
  obtain h where h: "h \<in> set (hooks (w_db W))" "held e h" "h_attempts h = n" and wf: "hooks_wf (w_db W)" and q: "w_plan W = []"
    using assms(1) by (auto simp: holds_claim_def)
  let ?h = "touch_hook (w_db W) (upd (clock (w_db W)) h)"
  have id: "h_event_id (upd (clock (w_db W)) h) = h_event_id h"
    using assms(2) by (auto simp: to_succeeded_def to_skipped_def to_failed_def)
  have "passes hook_checks ?h"
    using assms(2) wf h(1) passes_settled by (auto simp: hooks_wf_def)
  moreover have "upd (clock (w_db W)) h \<noteq> h" using assms(2) held_changes [OF h(2)] by auto
  ultimately have m: "mark_stmt e upd s (w_db W) = Inr ([?h], replace_hook ?h (w_db W))" for s
    using wf h(1,2) id by (intro mark_stmt_held) (simp_all add: hooks_wf_def)
  have "?h \<in> set (hooks (replace_hook ?h (w_db W)))"
    using h(1) id by (force simp: replace_hook_def touch_hook_def)
  then show thesis
    using h(2,3)
    by (intro that [of h "W\<lparr>w_db := replace_hook ?h (w_db W)\<rparr>"]) (simp_all add: run_stmt_quiet q m held_def)
qed

lemma settled_rows [simp]:
  "settles_as OutcomeSkipped er (touch_hook d (to_skipped r now h))"
  "settles_as OutcomeFailed (Some err) (touch_hook d (to_failed (failureReason (Some err)) now h))"
  "settles_as OutcomeProcessed er (touch_hook d (to_succeeded now h))"
  "settles_as OutcomeStale er (touch_hook d (to_succeeded now h))"
  "h_event_id (touch_hook d (to_skipped r now h)) = h_event_id h"
  "h_event_id (touch_hook d (to_failed r now h)) = h_event_id h"
  "h_event_id (touch_hook d (to_succeeded now h)) = h_event_id h"
  "h_attempts (touch_hook d (to_skipped r now h)) = h_attempts h"
  "h_attempts (touch_hook d (to_failed r now h)) = h_attempts h"
  "h_attempts (touch_hook d (to_succeeded now h)) = h_attempts h"
  by (simp_all add: settles_as_def touch_hook_def to_skipped_def to_failed_def to_succeeded_def)

lemma skipped_settles:
  assumes "holds_claim e n W" "run_state (MarkEventSkipped e r) W = (m, W')"
  shows "\<exists>h \<in> set (hooks (w_db W')). h_event_id h = e \<and> h_attempts h = n \<and> settles_as OutcomeSkipped None h"
proof (rule mark_settles [OF assms(1), of "to_skipped (truncate_str r)" "truncate_str r"])
  fix h W1
  assume "run_state (run_stmt (mark_stmt e (to_skipped (truncate_str r)))) W =
      (Inr [touch_hook (w_db W) (to_skipped (truncate_str r) (clock (w_db W)) h)], W1)"
    and row: "touch_hook (w_db W) (to_skipped (truncate_str r) (clock (w_db W)) h) \<in> set (hooks (w_db W1))"
    and "h_event_id h = e" "h_attempts h = n"
  moreover from this(1) have "W' = W1" using assms(2) by (simp add: MarkEventSkipped_def)
  ultimately show ?thesis by (intro bexI [OF _ row [folded \<open>W' = W1\<close>]]) simp
qed simp

lemma dispatch_holds:
  assumes "holds_claim e n W" "run_state (dispatch S ev) W = (h, W')"
  shows "holds_claim e n W'"
proof -
  have "env_ok ledger_untouched W" using assms(1) by (simp add: holds_claim_def env_ok_def)
  from keepsD [OF untouched.keeps_dispatch this assms(2)] have
    "hooks (w_db W') = hooks (w_db W)" "w_plan W' = []"
    using assms(1) advances_quiet by (auto simp: ledger_untouched_def holds_claim_def)
  with assms(1) show ?thesis by (simp add: holds_claim_def hooks_wf_def ids_unique_def)
qed

lemma failed_settles:
  assumes "holds_claim e n W" "run_state (MarkEventFailed e (Some err)) W = (m, W')"
  shows "\<exists>h \<in> set (hooks (w_db W')). h_event_id h = e \<and> h_attempts h = n \<and> settles_as OutcomeFailed (Some err) h"
proof (rule mark_settles [OF assms(1), of "to_failed (failureReason (Some err))" "failureReason (Some err)"])
  fix h W1
  assume "run_state (run_stmt (mark_stmt e (to_failed (failureReason (Some err))))) W =
      (Inr [touch_hook (w_db W) (to_failed (failureReason (Some err)) (clock (w_db W)) h)], W1)"
    and row: "touch_hook (w_db W) (to_failed (failureReason (Some err)) (clock (w_db W)) h) \<in> set (hooks (w_db W1))"
    and "h_event_id h = e" "h_attempts h = n"
  moreover from this(1) have "W' = W1" using assms(2) by (simp add: MarkEventFailed_def)
  ultimately show ?thesis by (intro bexI [OF _ row [folded \<open>W' = W1\<close>]]) simp
qed simp

lemma succeeded_settles:
  assumes "holds_claim e n W" "run_state (MarkEventProcessed e) W = (m, W')"
  shows "\<exists>h \<in> set (hooks (w_db W')). h_event_id h = e \<and> h_attempts h = n \<and>
           settles_as OutcomeProcessed None h \<and> settles_as OutcomeStale None h"
proof (rule mark_settles [OF assms(1), of to_succeeded "[]"])
  fix h W1
  assume "run_state (run_stmt (mark_stmt e to_succeeded)) W =
      (Inr [touch_hook (w_db W) (to_succeeded (clock (w_db W)) h)], W1)"
    and row: "touch_hook (w_db W) (to_succeeded (clock (w_db W)) h) \<in> set (hooks (w_db W1))"
    and "h_event_id h = e" "h_attempts h = n"
  moreover from this(1) have "W' = W1" using assms(2) by (simp add: MarkEventProcessed_def)
  ultimately show ?thesis by (intro bexI [OF _ row [folded \<open>W' = W1\<close>]]) simp
qed simp

lemma settleSkipped_settles:
  assumes "holds_claim e n W" "run_state (settleSkipped e r) W = (x, W')"
  shows "\<exists>h \<in> set (hooks (w_db W')). h_event_id h = e \<and> h_attempts h = n \<and> settles_as (fst x) (snd x) h"
proof -
  obtain m W1 where m: "run_state (MarkEventSkipped e r) W = (m, W1)" by fastforce
  then have "x = (OutcomeSkipped, None)" "hooks (w_db W') = hooks (w_db W1)"
    using assms(2) by (auto simp: settleSkipped_def split: option.splits)
  with skipped_settles [OF assms(1) m] show ?thesis by simp
qed

lemma process_claimed_settles:
  assumes "holds_claim (ev_ID ev) n W" "run_state (process_claimed S ev st) W = ((oc, e), W')"
  shows "\<exists>h \<in> set (hooks (w_db W')). h_event_id h = ev_ID ev \<and> h_attempts h = n \<and> settles_as oc e h"
proof -
  note skip = settleSkipped_settles [of "ev_ID ev" n]
  show ?thesis
  proof (cases "ev_Type ev \<in> set handledEventTypes")
    case False
    with assms skip [of W] show ?thesis by (force simp: process_claimed_def)
  next
    case True
    obtain o1 e1 W1 where d: "run_state (dispatch S ev) W = ((o1, e1), W1)" by (metis prod.collapse)
    note hold = dispatch_holds [OF assms(1) d]
    have ok: "handled_ok (o1, e1)" by (rule yieldsD [OF dispatch_ok d])
    show ?thesis
    proof (cases e1)
      case (Some err)
      obtain m W2 where m: "run_state (MarkEventFailed (ev_ID ev) (Some err)) W1 = (m, W2)" by fastforce
      have "(oc, e) = (OutcomeFailed, Some err)" "hooks (w_db W') = hooks (w_db W2)"
        using assms(2) d Some m True
        by (auto simp: process_claimed_def service_observe_def split: option.splits)
      with failed_settles [OF hold m] show ?thesis by simp
    next
      case None
      show ?thesis
      proof (cases "o1 = OutcomeSkipped")
        case True
        with assms(2) d None \<open>ev_Type ev \<in> _\<close> skip [OF hold] show ?thesis
          by (force simp: process_claimed_def)
      next
        case False
        obtain m W2 where m: "run_state (MarkEventProcessed (ev_ID ev)) W1 = (m, W2)" by fastforce
        have "(oc, e) = (o1, None)" "hooks (w_db W') = hooks (w_db W2)"
          using assms(2) d None m True False
          by (auto simp: process_claimed_def service_observe_def split: option.splits)
        moreover have "o1 = OutcomeProcessed \<or> o1 = OutcomeStale"
          using ok None False by (cases o1) (auto simp: handled_ok_def)
        ultimately show ?thesis using succeeded_settles [OF hold m] by auto
      qed
    qed
  qed
qed

lemma replayed_settles:
  assumes "holds_claim e n W" "run_state (dispatch S ev) W = ((o1, e1), W1)"
  shows "(\<exists>err m W2. e1 = Some err \<and> run_state (MarkEventFailed e e1) W1 = (m, W2) \<and>
            (\<exists>h \<in> set (hooks (w_db W2)). h_event_id h = e \<and> h_attempts h = n \<and> settles_as OutcomeFailed e1 h)) \<or>
         (e1 = None \<and> o1 = OutcomeSkipped \<and> holds_claim e n W1) \<or>
         (\<exists>m W2. e1 = None \<and> o1 \<noteq> OutcomeSkipped \<and>
            run_state (MarkEventProcessed e) W1 = (m, W2) \<and>
            (\<exists>h \<in> set (hooks (w_db W2)). h_event_id h = e \<and> h_attempts h = n \<and> settles_as o1 None h))"
proof -
  note hold = dispatch_holds [OF assms]
  have ok: "handled_ok (o1, e1)" by (rule yieldsD [OF dispatch_ok assms(2)])
  show ?thesis
  proof (cases e1)
    case (Some err)
    obtain m W2 where "run_state (MarkEventFailed e (Some err)) W1 = (m, W2)" by fastforce
    with failed_settles [OF hold this] Some show ?thesis by blast
  next
    case None
    obtain m W2 where m: "run_state (MarkEventProcessed e) W1 = (m, W2)" by fastforce
    have "o1 = OutcomeProcessed \<or> o1 = OutcomeStale \<or> o1 = OutcomeSkipped"
      using ok None by (cases o1) (auto simp: handled_ok_def)
    with succeeded_settles [OF hold m] hold m None show ?thesis by auto
  qed
qed

lemma ReplayEvent_settles:
  assumes "holds_claim (w_EventID r) n W" "run_state (ReplayEvent S r) W = (x, W')"
  shows "\<exists>h \<in> set (hooks (w_db W')). h_event_id h = w_EventID r \<and> h_attempts h = n \<and>
           settles_as (fst x) (snd x) h"
proof -
  note skip = settleSkipped_settles [of "w_EventID r" n]
  have mark: ?thesis if "run_state (MarkEventSkipped (w_EventID r) t) W = (m, W1)"
    "x = (OutcomeSkipped, None)" "hooks (w_db W') = hooks (w_db W1)" for t m W1
    using skipped_settles [OF assms(1) that(1)] that(2,3) by simp
  show ?thesis
  proof (cases "w_Payload r = []")
    case True
    obtain m W1 where "run_state (MarkEventSkipped (w_EventID r)
        ''payload no longer retained; cannot replay'') W = (m, W1)" by fastforce
    from mark [OF this] this assms(2) True show ?thesis
      by (auto simp: ReplayEvent_def split: option.splits)
  next
    case False
    show ?thesis
    proof (cases "unmarshal_event (sv_lib S) (w_Payload r)")
      case (Inl msg)
      obtain m W1 where "run_state (MarkEventSkipped (w_EventID r)
          ''stored payload is not valid Stripe event JSON'') W = (m, W1)" by fastforce
      from mark [OF this] this assms(2) False Inl show ?thesis
        by (auto simp: ReplayEvent_def split: option.splits)
    next
      case (Inr ev)
      show ?thesis
      proof (cases "ev_Type ev \<in> set handledEventTypes")
        case unknown: False
        with assms(2) False Inr skip [OF assms(1)] show ?thesis by (simp add: ReplayEvent_def)
      next
        case known: True
        obtain o1 e1 W1 where d: "run_state (dispatch S ev) W = ((o1, e1), W1)" by (metis prod.collapse)
        from replayed_settles [OF assms(1) d] show ?thesis
        proof (elim disjE exE conjE)
          fix err m W2
          assume "e1 = Some err" "run_state (MarkEventFailed (w_EventID r) e1) W1 = (m, W2)"
            and row: "\<exists>h \<in> set (hooks (w_db W2)). h_event_id h = w_EventID r \<and> h_attempts h = n \<and>
              settles_as OutcomeFailed e1 h"
          then have "x = (OutcomeFailed, e1)" "hooks (w_db W') = hooks (w_db W2)"
            using assms(2) False Inr known d by (auto simp: ReplayEvent_def split: option.splits)
          with row show ?thesis by simp
        next
          assume "e1 = None" "o1 = OutcomeSkipped" and hold: "holds_claim (w_EventID r) n W1"
          with assms(2) False Inr known d skip [OF hold] show ?thesis by (simp add: ReplayEvent_def)
        next
          fix m W2
          assume "e1 = None" "o1 \<noteq> OutcomeSkipped"
            "run_state (MarkEventProcessed (w_EventID r)) W1 = (m, W2)"
            and row: "\<exists>h \<in> set (hooks (w_db W2)). h_event_id h = w_EventID r \<and> h_attempts h = n \<and>
              settles_as o1 None h"
          then have "x = (o1, None)" "hooks (w_db W') = hooks (w_db W2)"
            using assms(2) False Inr known d by (auto simp: ReplayEvent_def split: option.splits)
          with row show ?thesis by simp
        qed
      qed
    qed
  qed
qed

section \<open>A concrete service\<close>

text \<open>
  A library that accepts one signature, decodes every body to the same objects and answers
  every retrieval, for the witnesses to run on.
\<close>

definition sample_stripe_sub :: "string \<Rightarrow> StripeSub" where
  "sample_stripe_sub st =
     \<lparr>ss_ID = ''sub_1'', ss_Customer = Some ''cus_1'', ss_Status = st,
      ss_Items = Some [\<lparr>si_Price = Some \<lparr>p_ID = ''price_1'', p_Currency = ''usd'', p_UnitAmount = 900,
                                        p_Product = None\<rparr>,
                       si_Quantity = 1, si_CurrentPeriodStart = 100, si_CurrentPeriodEnd = 200\<rparr>],
      ss_CancelAtPeriodEnd = False, ss_CancelAt = 0, ss_CanceledAt = 0, ss_EndedAt = 0,
      ss_TrialStart = 0, ss_TrialEnd = 0, ss_Metadata = [], ss_LatestInvoice = None,
      ss_DefaultPaymentMethod = None\<rparr>"

definition sample_event :: "string \<Rightarrow> Event" where
  "sample_event ty =
     \<lparr>ev_ID = ''evt_1'', ev_Type = ty, ev_Created = 1700000000, ev_Livemode = True,
      ev_APIVersion = [], ev_Request = None, ev_Raw = ''{}''\<rparr>"

definition sample_lib :: "string \<Rightarrow> stripe_lib" where
  "sample_lib ty =
     \<lparr>construct_event = (\<lambda>p sig sec tol ign now. if sig = ''good'' then Inr (sample_event ty) else Inl ''bad''),
      sdk_version = ''2026-01-01.dahlia'', CheckoutSessionModeSubscription = ''subscription'',
      unmarshal_event = (\<lambda>b. Inr (sample_event ty)),
      unmarshal_session = (\<lambda>b. Inr \<lparr>cs_Mode = ''subscription'', cs_Subscription = Some ''sub_1'',
          cs_Customer = Some ''cus_1'', cs_ClientReferenceID = ''7'', cs_Metadata = []\<rparr>),
      unmarshal_subscription = (\<lambda>b. Inr (sample_stripe_sub SubscriptionActive)),
      unmarshal_invoice = (\<lambda>b. Inl ''no invoice''),
      sdk_create_session = (\<lambda>t p. Inl (NoAPIError ''offline'')),
      sdk_create_portal = (\<lambda>t c u. Inl (NoAPIError ''offline'')),
      sdk_retrieve = (\<lambda>t i. Inr (sample_stripe_sub SubscriptionActive)),
      uuid_parse = (\<lambda>t. if t = ''7'' then Some 7 else None), uuid_string = (\<lambda>i. ''7'')\<rparr>"

definition sample_service :: "string \<Rightarrow> Service" where
  "sample_service ty =
     \<lparr>sv_lib = sample_lib ty, sv_json = sample_jsonlib, sv_stale = 5 * minute,
      sv_client = \<lparr>cl_webhookSecret = ''whsec'', cl_webhookTolerance = 5 * minute,
                   cl_ignoreAPIVersionMismatch = False, cl_timeout = 20 * second, cl_retries = 2\<rparr>,
      sv_metrics = True\<rparr>"

definition sample_user :: "string option \<Rightarrow> User" where
  "sample_user c =
     \<lparr>u_ID = 7, u_Email = ''a@b.co'', u_EmailVerifiedAt = None, u_PasswordHash = None, u_FullName = None,
      u_StripeCustomerID = c, u_Metadata = [], u_CreatedAt = unix 1, u_UpdatedAt = unix 1,
      u_DeletedAt = None\<rparr>"

definition sample_world_db :: "string option \<Rightarrow> db" where
  "sample_world_db c = (sample_db WebhookSucceeded)\<lparr>users := [sample_user c], hooks := []\<rparr>"

section \<open>Properties\<close>

text \<open>
  C19 (nothing is done for a delivery that is not authenticated). When the SDK rejects the
  signature, \<open>ProcessEvent\<close> fails with the verification error, in any world: no statement is
  sent, so the database and everything scheduled around it are as before, and nothing of the
  body reaches the log or the metric labels.
\<close>

theorem forged_delivery_is_inert:
  assumes "construct_event (sv_lib S) payload sig (cl_webhookSecret (sv_client S))
             (cl_webhookTolerance (sv_client S)) (cl_ignoreAPIVersionMismatch (sv_client S))
             (clock (w_db W)) = Inl msg"
  shows "\<exists>err W'. run_state (ProcessEvent S payload sig) W = ((OutcomeFailed, Some err), W') \<and>
           err_is err ErrSignatureVerification \<and> w_db W' = w_db W \<and> w_plan W' = w_plan W \<and>
           w_logs W' = w_logs W \<and>
           w_metrics W' = w_metrics W @
             (if sv_metrics S then [ObserveWebhook ''unverified'' ''signature_rejected'' 0] else [])"
  using assms by (simp add: ProcessEvent_def VerifyWebhook_def service_observe_def)

theorem forged_delivery_is_inert_witness:
  "w_db (snd (run_state (ProcessEvent (sample_service ''invoice.paid'') ''{}'' ''forged'')
     (quiet (sample_db WebhookFailed)))) = sample_db WebhookFailed"
  using forged_delivery_is_inert [of "sample_service ''invoice.paid''" "''{}''" "''forged''"
      "quiet (sample_db WebhookFailed)" "''bad''"]
  by (auto simp: sample_service_def sample_lib_def)

text \<open>
  C1 (settled events stay settled). Whatever delivery the service processes, and whatever the
  other workers do meanwhile, provided they too respect the ledger, a row that was settled
  keeps its status, its attempts, its time and its error text.
\<close>

theorem settled_stays_settled:
  assumes "env_ok ledger_grows W" "ids_unique (w_db W)"
    and "h \<in> set (hooks (w_db W))" "settled_status (h_status h)"
    and "run_state (ProcessEvent S payload sig) W = (r, W')"
  shows "\<exists>h' \<in> set (hooks (w_db W')). h_event_id h' = h_event_id h \<and> h_status h' = h_status h \<and>
           h_attempts h' = h_attempts h \<and> h_processed_at h' = h_processed_at h \<and>
           h_last_error h' = h_last_error h"
proof -
  have "ledger_grows (w_db W) (w_db W')"
    using keepsD [OF ledger_billing.keeps_ProcessEvent assms(1,5)] by blast
  from ledger_grows_row [OF this assms(2,3)] assms(4) show ?thesis
    unfolding hook_evolves_def by blast
qed

theorem settled_stays_settled_witness:
  "\<exists>h' \<in> set (hooks (w_db (snd (run_state (ProcessEvent (sample_service ''invoice.paid'') ''{}'' ''good'')
     (quiet (sample_db WebhookSkipped)))))). h_event_id h' = ''evt_1'' \<and> h_status h' = WebhookSkipped"
proof -
  obtain r W' where run: "run_state (ProcessEvent (sample_service ''invoice.paid'') ''{}'' ''good'')
      (quiet (sample_db WebhookSkipped)) = (r, W')" by fastforce
  from settled_stays_settled [OF _ _ _ _ this, of "sample_row WebhookSkipped"] run sample_db_wf
  show ?thesis by (auto simp: hooks_wf_def) (auto simp: sample_defs settled_status_def)
qed

text \<open>
  Errors and outcomes agree. In every world, \<open>ProcessEvent\<close> returns an error exactly
  when its outcome is the failed one, so exactly when the delivery must not be acknowledged.
\<close>

theorem ProcessEvent_reports:
  "snd (fst (run_state (ProcessEvent S payload sig) W)) \<noteq> None \<longleftrightarrow>
   \<not> Outcome_Acknowledge (fst (fst (run_state (ProcessEvent S payload sig) W)))"
  using yieldsD [OF ProcessEvent_ok, of S payload sig W] prod.collapse
  by (metis Outcome_Acknowledge_def)

text \<open>
  C3 (every granted claim is settled). In a quiet world, a delivery whose claim is granted
  leaves its row settled according to the outcome: succeeded when the event was applied or
  was stale, skipped with a reason when there was nothing to do, failed with the error's text
  otherwise. It never stays in flight and the answer is never that of a duplicate.
\<close>

theorem granted_claim_is_settled:
  assumes "w_plan W = []" "hooks_wf (w_db W)"
    and "construct_event (sv_lib S) payload sig (cl_webhookSecret (sv_client S))
           (cl_webhookTolerance (sv_client S)) (cl_ignoreAPIVersionMismatch (sv_client S))
           (clock (w_db W)) = Inr ev"
    and "run_state (TryClaimEvent (sv_json S) (sv_stale S) (claim_record ev payload)) W = (Inr (True, w), W1)"
    and "run_state (ProcessEvent S payload sig) W = ((oc, e), W')"
  shows "\<exists>h \<in> set (hooks (w_db W')). h_event_id h = ev_ID ev \<and>
    (case oc of
       OutcomeProcessed \<Rightarrow> h_status h = WebhookSucceeded \<and> h_last_error h = None
     | OutcomeStale \<Rightarrow> h_status h = WebhookSucceeded \<and> h_last_error h = None
     | OutcomeSkipped \<Rightarrow> h_status h = WebhookSkipped \<and> h_last_error h \<noteq> None
     | OutcomeFailed \<Rightarrow> h_status h = WebhookFailed \<and> h_last_error h = Some (failureReason e)
     | OutcomeDuplicate \<Rightarrow> False)"
proof -
  have run: "run_state (process_claimed S ev (clock (w_db W))) W1 = ((oc, e), W')"
    using assms(3-5) by (simp add: ProcessEvent_def VerifyWebhook_def)
  obtain h where c: "claim_stmt (sv_json S) (sv_stale S) (claim_record ev payload) (quiet_step (w_db W)) (w_db W) =
      Inr (h, w_db W1)" and W1: "W1 = W\<lparr>w_db := w_db W1\<rparr>"
    using assms(1,4)
    by (auto simp: TryClaimEvent_def run_stmt_quiet split: option.splits sum.splits if_splits prod.splits)
  have "h \<in> set (hooks (w_db W1)) \<and> held (ev_ID ev) h"
    using claim_stmt_holds [OF c] assms(2) by (auto simp: hooks_wf_def claim_record_def)
  moreover have "hooks_wf (w_db W1)" by (rule claim_stmt_wf [OF c assms(2)])
  moreover have "w_plan W1 = []" using W1 assms(1) by (metis world.select_convs(2) world.surjective world.update_convs(1))
  ultimately have "holds_claim (ev_ID ev) (h_attempts h) W1" by (auto simp: holds_claim_def)
  from process_claimed_settles [OF this run] show ?thesis by (auto simp: settles_as_def)
qed

lemma sample_claim_record: "claim_record (sample_event ''invoice.paid'') ''{}'' = sample_hook"
  by (simp add: claim_record_def sample_event_def sample_hook_def nonempty_def)

lemma sample_world_claim:
  "\<exists>w W1. run_state (TryClaimEvent sample_jsonlib win sample_hook) (quiet (sample_world_db c)) = (Inr (True, w), W1)"
proof -
  have "find (\<lambda>h. h_event_id h = w_EventID sample_hook) (hooks (sample_world_db c)) = None"
    by (simp add: sample_world_db_def)
  moreover have "jsonb_arg sample_jsonlib (payloadOrNil (w_Payload sample_hook)) = Inr (Some (JObj [(''id'', JStr ''{}'')]))"
    by (simp add: jsonb_arg_def payloadOrNil_def sample_jsonlib_def sample_hook_def)
  ultimately show ?thesis
    using claim_stmt_new [OF _ _ sample_hook_valid(2)] sample_hook_valid(1)
    by (simp add: TryClaimEvent_def run_stmt_quiet)
qed

theorem granted_claim_is_settled_witness:
  "\<exists>h \<in> set (hooks (w_db (snd (run_state (ProcessEvent (sample_service ''invoice.paid'') ''{}'' ''good'')
     (quiet (sample_world_db None)))))). h_event_id h = ''evt_1'' \<and> h_status h \<noteq> WebhookProcessing"
proof -
  let ?S = "sample_service ''invoice.paid''" let ?W = "quiet (sample_world_db None)"
  obtain oc e W' where run: "run_state (ProcessEvent ?S ''{}'' ''good'') ?W = ((oc, e), W')" by (metis prod.collapse)
  obtain w W1 where claim: "run_state (TryClaimEvent (sv_json ?S) (sv_stale ?S)
      (claim_record (sample_event ''invoice.paid'') ''{}'')) ?W = (Inr (True, w), W1)"
    using sample_world_claim [of "sv_stale ?S" None] unfolding sample_claim_record by (auto simp: sample_service_def)
  have "hooks_wf (w_db ?W)" by (simp add: hooks_wf_def ids_unique_def sample_world_db_def)
  moreover have "construct_event (sv_lib ?S) ''{}'' ''good'' s t i n = Inr (sample_event ''invoice.paid'')" for s t i n
    by (simp add: sample_service_def sample_lib_def)
  ultimately obtain h where "h \<in> set (hooks (w_db W'))" "h_event_id h = ''evt_1''" "h_status h \<noteq> WebhookProcessing"
    using granted_claim_is_settled [OF _ _ _ claim run] by (cases oc) (auto simp: sample_event_def)
  then show ?thesis unfolding run by auto
qed

end
