(* ===== verification/Bytes_Codec.thy ===== *)
theory Bytes_Codec
  imports Prelude "HOL-Library.Word"
begin

unbundle bit_operations_syntax

text \<open>
  The parts of Go's standard library the credential code uses on bytes: \<open>utf8.ValidString\<close>,
  \<open>hex.EncodeToString\<close>, \<open>base64.RawURLEncoding\<close> and \<open>sha256.Sum256\<close>, each
  executable. The lemmas give the shape of what they produce: the digest has 32 bytes, its
  hexadecimal form 64 lower-case digits, the encoded token only URL-safe characters, and the
  hexadecimal form determines the digest.
\<close>

section \<open>UTF-8\<close>

definition cont_byte :: "char \<Rightarrow> bool" where
  "cont_byte c \<longleftrightarrow> 128 \<le> byte c \<and> byte c \<le> 191"

text \<open>The table of first bytes: how many bytes follow, and the range of the second one.\<close>

definition utf8_lead :: "nat \<Rightarrow> (nat \<times> nat \<times> nat) option" where
  "utf8_lead b =
     (if b < 128 then Some (0, 0, 0)
      else if 194 \<le> b \<and> b \<le> 223 then Some (1, 128, 191)
      else if b = 224 then Some (2, 160, 191)
      else if b = 237 then Some (2, 128, 159)
      else if 225 \<le> b \<and> b \<le> 239 then Some (2, 128, 191)
      else if b = 240 then Some (3, 144, 191)
      else if 241 \<le> b \<and> b \<le> 243 then Some (3, 128, 191)
      else if b = 244 then Some (3, 128, 143)
      else None)"

function valid_utf8 :: "string \<Rightarrow> bool" where
  "valid_utf8 [] \<longleftrightarrow> True"
| "valid_utf8 (c # cs) \<longleftrightarrow>
     (case utf8_lead (byte c) of
        None \<Rightarrow> False
      | Some (n, lo, hi) \<Rightarrow>
          n \<le> length cs \<and> list_all cont_byte (take n cs) \<and>
          (n = 0 \<or> lo \<le> byte (hd cs) \<and> byte (hd cs) \<le> hi) \<and>
          valid_utf8 (drop n cs))"
  by pat_completeness auto
termination by (relation "measure length") auto

lemma valid_utf8_ascii: "list_all (\<lambda>c. byte c < 128) s \<Longrightarrow> valid_utf8 s"
  by (induction s) (auto simp: utf8_lead_def)

section \<open>Hexadecimal\<close>

definition hex_encode :: "bytes \<Rightarrow> string" where
  "hex_encode bs = concat (map (\<lambda>c. [hex_digit (byte c div 16), hex_digit (byte c mod 16)]) bs)"

lemma byte_less [simp]: "byte c < 256"
  unfolding byte_def by (cases c) simp

lemma hex_encode_length [simp]: "length (hex_encode bs) = 2 * length bs"
  unfolding hex_encode_def by (induction bs) auto

lemma hex_encode_Nil [simp]: "hex_encode bs = [] \<longleftrightarrow> bs = []"
  by (cases bs) (simp_all add: hex_encode_def)

lemma byte_char_of [simp]: "n < 256 \<Longrightarrow> byte (char_of n) = n"
  by (simp add: byte_def)

lemma byte_hex_digit: "n < 16 \<Longrightarrow> byte (hex_digit n) = (if n < 10 then 48 + n else 87 + n)"
  by (simp add: hex_digit_def)

lemma byte_inject: "byte a = byte b \<longleftrightarrow> a = b"
  by (simp add: byte_def)

lemma hex_digit_inject: "m < 16 \<Longrightarrow> n < 16 \<Longrightarrow> hex_digit m = hex_digit n \<longleftrightarrow> m = n"
  by (auto simp: byte_inject [symmetric] byte_hex_digit)

lemma hex_nibbles [simp]: "byte c div 16 < 16" "byte c mod 16 < 16"
  using byte_less [of c] by (auto intro!: less_mult_imp_div_less)

lemma hex_encode_inject: "hex_encode a = hex_encode b \<longleftrightarrow> a = b"
proof
  show "hex_encode a = hex_encode b \<Longrightarrow> a = b"
  proof (induction a arbitrary: b)
    case (Cons x a)
    then obtain y b' where b: "b = y # b'" by (cases b) (auto simp: hex_encode_def)
    have "byte x = byte y"
      using Cons.prems hex_digit_inject hex_nibbles
      by (simp add: b hex_encode_def) (metis mult_div_mod_eq)
    with Cons show ?case by (auto simp: b hex_encode_def byte_inject)
  qed (auto simp: hex_encode_def neq_Nil_conv)
qed simp

section \<open>URL-safe base64 without padding\<close>

definition b64_digit :: "nat \<Rightarrow> char" where
  "b64_digit n =
     (if n < 26 then char_of (65 + n) else if n < 52 then char_of (71 + n)
      else if n < 62 then char_of (n - 4) else if n = 62 then CHR ''-'' else CHR ''_'')"

fun base64_raw_url :: "bytes \<Rightarrow> string" where
  "base64_raw_url [] = []"
| "base64_raw_url [a] = [b64_digit (byte a div 4), b64_digit (byte a mod 4 * 16)]"
| "base64_raw_url [a, b] =
     [b64_digit (byte a div 4), b64_digit (byte a mod 4 * 16 + byte b div 16), b64_digit (byte b mod 16 * 4)]"
| "base64_raw_url (a # b # c # bs) =
     b64_digit (byte a div 4) # b64_digit (byte a mod 4 * 16 + byte b div 16) #
     b64_digit (byte b mod 16 * 4 + byte c div 64) # b64_digit (byte c mod 64) # base64_raw_url bs"

definition url_safe :: "char \<Rightarrow> bool" where
  "url_safe c \<longleftrightarrow>
     48 \<le> byte c \<and> byte c \<le> 57 \<or> 65 \<le> byte c \<and> byte c \<le> 90 \<or> 97 \<le> byte c \<and> byte c \<le> 122 \<or>
     c = CHR ''-'' \<or> c = CHR ''_''"

lemma byte_b64_digit:
  "n < 64 \<Longrightarrow> byte (b64_digit n) =
     (if n < 26 then 65 + n else if n < 52 then 71 + n else if n < 62 then n - 4 else if n = 62 then 45 else 95)"
  by (simp add: b64_digit_def) (simp add: byte_def)

lemma b64_digit_safe [simp]: "url_safe (b64_digit n)"
  by (auto simp: url_safe_def b64_digit_def)

lemma base64_url_safe: "list_all url_safe (base64_raw_url bs)"
  by (induction bs rule: base64_raw_url.induct) simp_all

lemma base64_length: "length (base64_raw_url bs) = (4 * length bs + 2) div 3"
  by (induction bs rule: base64_raw_url.induct) auto

lemma b64_digit_inject: "m < 64 \<Longrightarrow> n < 64 \<Longrightarrow> b64_digit m = b64_digit n \<longleftrightarrow> m = n"
  unfolding byte_inject [symmetric] by (auto simp: byte_b64_digit split: if_splits)

section \<open>SHA-256\<close>

type_synonym w32 = "32 word"

definition sha_k :: "w32 list" where
  "sha_k =
    [1116352408, 1899447441, 3049323471, 3921009573, 961987163, 1508970993, 2453635748, 2870763221,
     3624381080, 310598401, 607225278, 1426881987, 1925078388, 2162078206, 2614888103, 3248222580,
     3835390401, 4022224774, 264347078, 604807628, 770255983, 1249150122, 1555081692, 1996064986,
     2554220882, 2821834349, 2952996808, 3210313671, 3336571891, 3584528711, 113926993, 338241895,
     666307205, 773529912, 1294757372, 1396182291, 1695183700, 1986661051, 2177026350, 2456956037,
     2730485921, 2820302411, 3259730800, 3345764771, 3516065817, 3600352804, 4094571909, 275423344,
     430227734, 506948616, 659060556, 883997877, 958139571, 1322822218, 1537002063, 1747873779,
     1955562222, 2024104815, 2227730452, 2361852424, 2428436474, 2756734187, 3204031479, 3329325298]"

definition sha_init :: "w32 list" where
  "sha_init =
    [1779033703, 3144134277, 1013904242, 2773480762, 1359893119, 2600822924, 528734635, 1541459225]"

text \<open>Big-endian words, and their bytes.\<close>

definition word_bytes :: "w32 \<Rightarrow> bytes" where
  "word_bytes w = map (\<lambda>k. char_of (uint w div 256 ^ k mod 256)) [3, 2, 1, 0]"

fun be_words :: "bytes \<Rightarrow> w32 list" where
  "be_words (a # b # c # d # bs) =
     (((word_of_nat (byte a) * 256 + word_of_nat (byte b)) * 256 + word_of_nat (byte c)) * 256 +
      word_of_nat (byte d)) # be_words bs"
| "be_words _ = []"

definition sha_pad :: "bytes \<Rightarrow> bytes" where
  "sha_pad m =
     m @ [CHR 0x80] @ replicate ((119 - length m mod 64) mod 64) (CHR 0x00) @
     map (\<lambda>k. char_of (int (8 * length m) div 256 ^ k mod 256)) [7, 6, 5, 4, 3, 2, 1, 0]"

text \<open>The message schedule, kept newest first: the next word comes from the last sixteen.\<close>

definition sigma0 :: "w32 \<Rightarrow> w32" where
  "sigma0 x = word_rotr 7 x XOR word_rotr 18 x XOR drop_bit 3 x"

definition sigma1 :: "w32 \<Rightarrow> w32" where
  "sigma1 x = word_rotr 17 x XOR word_rotr 19 x XOR drop_bit 10 x"

fun sched_words :: "nat \<Rightarrow> w32 list \<Rightarrow> w32 list" where
  "sched_words 0 ws = ws"
| "sched_words (Suc n) ws = sched_words n ((ws ! 15 + sigma0 (ws ! 14) + ws ! 6 + sigma1 (ws ! 1)) # ws)"

definition schedule :: "w32 list \<Rightarrow> w32 list" where
  "schedule block = rev (sched_words 48 (rev block))"

definition big_sigma0 :: "w32 \<Rightarrow> w32" where
  "big_sigma0 a = word_rotr 2 a XOR word_rotr 13 a XOR word_rotr 22 a"

definition big_sigma1 :: "w32 \<Rightarrow> w32" where
  "big_sigma1 e = word_rotr 6 e XOR word_rotr 11 e XOR word_rotr 25 e"

definition choose_bits :: "w32 \<Rightarrow> w32 \<Rightarrow> w32 \<Rightarrow> w32" where
  "choose_bits e f g = (e AND f) XOR (NOT e AND g)"

definition majority :: "w32 \<Rightarrow> w32 \<Rightarrow> w32 \<Rightarrow> w32" where
  "majority a b c = (a AND b) XOR (a AND c) XOR (b AND c)"

text \<open>The new working variables, from the two sums of a round.\<close>

fun sha_shift :: "w32 \<Rightarrow> w32 \<Rightarrow> w32 list \<Rightarrow> w32 list" where
  "sha_shift t1 t2 [a, b, c, d, e, f, g, h] = [t1 + t2, a, b, c, d + t1, e, f, g]"
| "sha_shift t1 t2 st = st"

fun sha_round :: "w32 \<times> w32 \<Rightarrow> w32 list \<Rightarrow> w32 list" where
  "sha_round (k, w) [a, b, c, d, e, f, g, h] =
     sha_shift (h + big_sigma1 e + choose_bits e f g + k + w) (big_sigma0 a + majority a b c)
       [a, b, c, d, e, f, g, h]"
| "sha_round _ st = st"

definition sha_block :: "w32 list \<Rightarrow> w32 list \<Rightarrow> w32 list" where
  "sha_block block st = map2 (+) st (fold sha_round (zip sha_k (schedule block)) st)"

function blocks_of :: "'a list \<Rightarrow> 'a list list" where
  "blocks_of xs = (if length xs < 16 then [] else take 16 xs # blocks_of (drop 16 xs))"
  by pat_completeness auto
termination by (relation "measure length") auto

declare blocks_of.simps [simp del]

definition sha256 :: "bytes \<Rightarrow> bytes" where
  "sha256 m = concat (map word_bytes (fold sha_block (blocks_of (be_words (sha_pad m))) sha_init))"

lemma sha_round_length: "length (sha_round kw st) = length st"
  by (cases "(kw, st)" rule: sha_round.cases) (simp_all add: Let_def)

lemma sha_rounds_length: "length (fold sha_round kws st) = length st"
  by (induction kws arbitrary: st) (simp_all add: sha_round_length)

lemma sha_block_length: "length (sha_block b st) = length st"
  by (simp add: sha_block_def sha_rounds_length)

lemma sha_blocks_length: "length (fold sha_block bs st) = length st"
  by (induction bs arbitrary: st) (simp_all add: sha_block_length)

lemma sha256_length [simp]: "length (sha256 m) = 32"
proof -
  have "length (concat (map word_bytes ws)) = 4 * length ws" for ws
    by (induction ws) (simp_all add: word_bytes_def)
  then show ?thesis by (simp add: sha256_def sha_blocks_length sha_init_def)
qed

text \<open>The published test vector, and the digest of another token.\<close>

lemma sha256_abc:
  "hex_encode (sha256 ''abc'') = ''ba7816bf8f01cfea414140de5dae2223b00361a396177a9cb410ff61f20015ad''"
  by code_simp

lemma sha256_zero_token:
  "hex_encode (sha256 (base64_raw_url (replicate 32 (CHR 0x00)))) =
     ''0f007385b6f9d4b7eeb2748605afe1a984a0a3bfa3f014d09e2a784ce9e5cd1a''"
  by code_simp

end
