(* ===== verification/Auth_Primitives.thy ===== *)
theory Auth_Primitives
  imports Exec Bytes_Codec
begin

text \<open>
  internal/auth: the password hasher (password.go), refresh tokens (refresh.go) and access
  tokens (token.go). bcrypt, the JWT package, the UUID package and the operating system's
  random source are the parameter record \<open>auth_lib\<close>; a function that draws randomness
  takes the number of the draw. \<open>jwt_laws\<close> and \<open>bcrypt_laws\<close> state what their
  documentation promises and the properties rely on. \<open>DummyCompare\<close> has no result: its
  only effect is the comparison it spends, which the world records.
\<close>

section \<open>The libraries\<close>

text \<open>The claims of an access token; a numeric date counts whole seconds.\<close>

record Claims =
  jc_Subject :: string
  jc_Issuer :: string
  jc_Audience :: "string list"
  jc_IssuedAt :: "int option"
  jc_NotBefore :: "int option"
  jc_ExpiresAt :: "int option"
  jc_ID :: string
  jc_Email :: string

record ParserOptions =
  jo_ValidMethods :: "string list"
  jo_Issuer :: string
  jo_Audience :: string
  jo_ExpirationRequired :: bool
  jo_IssuedAt :: bool

text \<open>An error of the parser: whether it is the package's expiry error, and its text.\<close>

record jwt_error =
  je_expired :: bool
  je_text :: string

record auth_lib =
  bcrypt_MinCost :: int
  bcrypt_MaxCost :: int
  bcrypt_generate :: "nat \<Rightarrow> bytes \<Rightarrow> int \<Rightarrow> string + string"
  bcrypt_matches :: "string \<Rightarrow> bytes \<Rightarrow> bool"
  bcrypt_cost :: "string \<Rightarrow> int option"
  rand_read :: "nat \<Rightarrow> nat \<Rightarrow> string + bytes"
  uuid_new :: "nat \<Rightarrow> uuid"
  id_string :: "uuid \<Rightarrow> string"
  id_parse :: "string \<Rightarrow> uuid option"
  jwt_HS256 :: string
  jwt_NewNumericDate :: "time \<Rightarrow> int"
  jwt_sign :: "string \<Rightarrow> bytes \<Rightarrow> Claims \<Rightarrow> string + string"
  jwt_parse :: "ParserOptions \<Rightarrow> bytes \<Rightarrow> string \<Rightarrow> time \<Rightarrow> jwt_error + Claims \<times> bool"

section \<open>Passwords\<close>

definition MinPasswordBytes :: nat where "MinPasswordBytes = 12"
definition MaxPasswordBytes :: nat where "MaxPasswordBytes = 72"
definition DefaultBcryptCost :: int where "DefaultBcryptCost = 12"

record Hasher =
  hs_cost :: int
  hs_decoy :: string

definition NewHasher :: "auth_lib \<Rightarrow> int \<Rightarrow> Hasher result prog" where
  "NewHasher L cost0 =
     (let cost = (if cost0 = 0 then DefaultBcryptCost else cost0)
      in if cost < bcrypt_MinCost L \<or> bcrypt_MaxCost L < cost
         then State_Monad.return (Inl (Text (''bcrypt cost '' @ format_int cost @
                '' is outside the supported range '' @ format_int (bcrypt_MinCost L) @ ''-'' @
                format_int (bcrypt_MaxCost L))))
         else do {
           n \<leftarrow> draw;
           State_Monad.return
             (case bcrypt_generate L n ''decoy-for-constant-time-login'' cost of
                Inl e \<Rightarrow> Inl (Wrap ''build decoy digest: '' (Text e) [])
              | Inr decoy \<Rightarrow> Inr \<lparr>hs_cost = cost, hs_decoy = decoy\<rparr>) })"

definition ValidatePassword :: "string \<Rightarrow> goerr option" where
  "ValidatePassword password =
     (if \<not> valid_utf8 password then Some (Sentinel ErrPasswordInvalid)
      else if length password < MinPasswordBytes then Some (Sentinel ErrPasswordTooShort)
      else if MaxPasswordBytes < length password then Some (Sentinel ErrPasswordTooLong)
      else None)"

definition Hash :: "auth_lib \<Rightarrow> Hasher \<Rightarrow> string \<Rightarrow> string result prog" where
  "Hash L h password =
     (case ValidatePassword password of
        Some e \<Rightarrow> State_Monad.return (Inl e)
      | None \<Rightarrow> do {
          n \<leftarrow> draw;
          State_Monad.return
            (case bcrypt_generate L n password (hs_cost h) of
               Inl e \<Rightarrow> Inl (Wrap ''hash password: '' (Text e) [])
             | Inr digest \<Rightarrow> Inr digest) })"

definition DummyCompare :: "Hasher \<Rightarrow> unit prog" where
  "DummyCompare h = note_compare (hs_decoy h)"

definition Verify :: "auth_lib \<Rightarrow> Hasher \<Rightarrow> string \<Rightarrow> string \<Rightarrow> goerr option prog" where
  "Verify L h digest candidate =
     (if digest = []
      then do { DummyCompare h; State_Monad.return (Some (Sentinel ErrCredentialsMismatch)) }
      else do {
        note_compare digest;
        State_Monad.return (if bcrypt_matches L digest candidate then None
                            else Some (Sentinel ErrCredentialsMismatch)) })"

definition NeedsRehash :: "auth_lib \<Rightarrow> Hasher \<Rightarrow> string \<Rightarrow> bool" where
  "NeedsRehash L h digest =
     (case bcrypt_cost L digest of None \<Rightarrow> False | Some cost \<Rightarrow> cost < hs_cost h)"

section \<open>Refresh tokens\<close>

definition refreshTokenBytes :: nat where "refreshTokenBytes = 32"

definition HashRefreshToken :: "string \<Rightarrow> string" where
  "HashRefreshToken token = hex_encode (sha256 token)"

definition NewRefreshToken :: "auth_lib \<Rightarrow> (string \<times> string) result prog" where
  "NewRefreshToken L = do {
     n \<leftarrow> draw;
     State_Monad.return
       (case rand_read L refreshTokenBytes n of
          Inl e \<Rightarrow> Inl (Wrap ''generate refresh token: '' (Text e) [])
        | Inr buf \<Rightarrow> (let token = base64_raw_url buf in Inr (token, HashRefreshToken token))) }"

section \<open>Access tokens\<close>

definition MinSecretBytes :: nat where "MinSecretBytes = 32"

record TokenConfig =
  tc_Secret :: string
  tc_Issuer :: string
  tc_Audience :: string
  tc_TTL :: duration

record TokenService =
  ts_secret :: bytes
  ts_issuer :: string
  ts_audience :: string
  ts_ttl :: duration
  ts_parser :: ParserOptions

definition NewTokenService :: "auth_lib \<Rightarrow> TokenConfig \<Rightarrow> TokenService result" where
  "NewTokenService L cfg =
     (if length (tc_Secret cfg) < MinSecretBytes
      then Inl (Text (''jwt secret must be at least '' @ decimal MinSecretBytes @ '' bytes, got '' @
                      decimal (length (tc_Secret cfg))))
      else if tc_Issuer cfg = [] \<or> tc_Audience cfg = []
      then Inl (Text ''jwt issuer and audience are required'')
      else if tc_TTL cfg \<le> 0 then Inl (Text ''jwt ttl must be positive'')
      else Inr \<lparr>ts_secret = tc_Secret cfg, ts_issuer = tc_Issuer cfg, ts_audience = tc_Audience cfg,
                ts_ttl = tc_TTL cfg,
                ts_parser = \<lparr>jo_ValidMethods = [jwt_HS256 L], jo_Issuer = tc_Issuer cfg,
                             jo_Audience = tc_Audience cfg, jo_ExpirationRequired = True,
                             jo_IssuedAt = True\<rparr>\<rparr>)"

definition token_claims :: "auth_lib \<Rightarrow> TokenService \<Rightarrow> uuid \<Rightarrow> string \<Rightarrow> time \<Rightarrow> nat \<Rightarrow> Claims" where
  "token_claims L s userID email now n =
     \<lparr>jc_Subject = id_string L userID, jc_Issuer = ts_issuer s, jc_Audience = [ts_audience s],
      jc_IssuedAt = Some (jwt_NewNumericDate L now), jc_NotBefore = Some (jwt_NewNumericDate L now),
      jc_ExpiresAt = Some (jwt_NewNumericDate L (now + ts_ttl s)), jc_ID = id_string L (uuid_new L n),
      jc_Email = email\<rparr>"

definition Issue :: "auth_lib \<Rightarrow> TokenService \<Rightarrow> uuid \<Rightarrow> string \<Rightarrow> (string \<times> time) result prog" where
  "Issue L s userID email = do {
     now \<leftarrow> get_now;
     n \<leftarrow> draw;
     State_Monad.return
       (case jwt_sign L (jwt_HS256 L) (ts_secret s) (token_claims L s userID email now n) of
          Inl e \<Rightarrow> Inl (Wrap ''sign token: '' (Text e) [])
        | Inr token \<Rightarrow> Inr (token, now + ts_ttl s)) }"

definition Parse :: "auth_lib \<Rightarrow> TokenService \<Rightarrow> string \<Rightarrow> (uuid \<times> Claims) result prog" where
  "Parse L s token = do {
     now \<leftarrow> get_now;
     State_Monad.return
       (case jwt_parse L (ts_parser s) (ts_secret s) token now of
          Inl e \<Rightarrow> if je_expired e then Inl (Sentinel ErrTokenExpired)
                   else Inl (Wrap [] (Sentinel ErrTokenInvalid) ('': '' @ je_text e))
        | Inr (claims, valid) \<Rightarrow>
            if \<not> valid then Inl (Sentinel ErrTokenInvalid)
            else (case id_parse L (jc_Subject claims) of
                    None \<Rightarrow> Inl (Wrap [] (Sentinel ErrTokenInvalid) '': subject is not a uuid'')
                  | Some userID \<Rightarrow> Inr (userID, claims))) }"

definition SecretsEqual :: "string \<Rightarrow> string \<Rightarrow> bool" where
  "SecretsEqual a b \<longleftrightarrow> a = b"

section \<open>What the libraries promise\<close>

text \<open>
  The JWT package, for options that name an issuer and an audience. What the parser accepts
  has passed the checks of its claims: the issuer and the audience are the expected ones, the
  not-before date is reached, so is the issue date where the options ask for that, and the
  expiry, which they may require, is not. A token the package itself signed is read as the
  claims that were signed, if it is accepted at all, and it is accepted with the key and by
  one of the methods it was signed with while its claims pass. Both for claims that survive
  the encoding: valid text, and dates that a JSON number holds exactly. A numeric date is the
  instant cut to whole seconds. The UUID package prints ASCII and reads back what it prints.
\<close>

definition reached :: "int option \<Rightarrow> time \<Rightarrow> bool" where
  "reached t now \<longleftrightarrow> (case t of None \<Rightarrow> True | Some x \<Rightarrow> unix x \<le> now)"

definition claims_hold :: "ParserOptions \<Rightarrow> Claims \<Rightarrow> time \<Rightarrow> bool" where
  "claims_hold opts c now \<longleftrightarrow>
     jc_Issuer c = jo_Issuer opts \<and> jo_Audience opts \<in> set (jc_Audience c) \<and>
     (jo_IssuedAt opts \<longrightarrow> reached (jc_IssuedAt c) now) \<and> reached (jc_NotBefore c) now \<and>
     (case jc_ExpiresAt c of None \<Rightarrow> \<not> jo_ExpirationRequired opts | Some x \<Rightarrow> now < unix x)"

definition exact_date :: "int option \<Rightarrow> bool" where
  "exact_date d \<longleftrightarrow> (case d of None \<Rightarrow> True | Some x \<Rightarrow> \<bar>x\<bar> \<le> 2 ^ 53)"

definition encodable :: "Claims \<Rightarrow> bool" where
  "encodable c \<longleftrightarrow>
     list_all valid_utf8 ([jc_Subject c, jc_Issuer c, jc_ID c, jc_Email c] @ jc_Audience c) \<and>
     list_all exact_date [jc_IssuedAt c, jc_NotBefore c, jc_ExpiresAt c]"

definition named_parties :: "ParserOptions \<Rightarrow> bool" where
  "named_parties opts \<longleftrightarrow> jo_Issuer opts \<noteq> [] \<and> jo_Audience opts \<noteq> []"

definition jwt_laws :: "auth_lib \<Rightarrow> bool" where
  "jwt_laws L \<longleftrightarrow>
     (\<forall>opts k token now c. named_parties opts \<longrightarrow> jwt_parse L opts k token now = Inr (c, True) \<longrightarrow>
        claims_hold opts c now) \<and>
     (\<forall>opts m k k' token now c c'. encodable c \<longrightarrow> jwt_sign L m k c = Inr token \<longrightarrow>
        jwt_parse L opts k' token now = Inr (c', True) \<longrightarrow> c' = c) \<and>
     (\<forall>opts m k token now c. named_parties opts \<longrightarrow> encodable c \<longrightarrow> jwt_sign L m k c = Inr token \<longrightarrow>
        m \<in> set (jo_ValidMethods opts) \<longrightarrow> claims_hold opts c now \<longrightarrow>
        jwt_parse L opts k token now = Inr (c, True)) \<and>
     (\<forall>t. jwt_NewNumericDate L t = t div second) \<and>
     (\<forall>i. id_parse L (id_string L i) = Some i \<and> valid_utf8 (id_string L i))"

text \<open>
  bcrypt: a digest it generates verifies the password it was generated from, and is at the
  cost asked for; only a cost below the least is replaced, by a higher one.
\<close>

definition bcrypt_laws :: "auth_lib \<Rightarrow> bool" where
  "bcrypt_laws L \<longleftrightarrow>
     (\<forall>n pw cost digest. bcrypt_generate L n pw cost = Inr digest \<longrightarrow>
        digest \<noteq> [] \<and> bcrypt_matches L digest pw \<and>
        (\<exists>c \<ge> cost. bcrypt_cost L digest = Some c \<and> (bcrypt_MinCost L \<le> cost \<longrightarrow> c = cost)))"

lemma jwt_accepted:
  "jwt_laws L \<Longrightarrow> named_parties opts \<Longrightarrow> jwt_parse L opts k token now = Inr (c, True) \<Longrightarrow> claims_hold opts c now"
  unfolding jwt_laws_def by (drule conjunct1) blast

lemma jwt_carries:
  "jwt_laws L \<Longrightarrow> encodable c \<Longrightarrow> jwt_sign L m k c = Inr token \<Longrightarrow>
   jwt_parse L opts k' token now = Inr (c', True) \<Longrightarrow> c' = c"
  unfolding jwt_laws_def by (drule conjunct2, drule conjunct1) blast

lemma jwt_accepts:
  "jwt_laws L \<Longrightarrow> named_parties opts \<Longrightarrow> encodable c \<Longrightarrow> jwt_sign L m k c = Inr token \<Longrightarrow>
   m \<in> set (jo_ValidMethods opts) \<Longrightarrow> claims_hold opts c now \<Longrightarrow> jwt_parse L opts k token now = Inr (c, True)"
  unfolding jwt_laws_def by (drule conjunct2, drule conjunct2, drule conjunct1) blast

lemma jwt_dates:
  "jwt_laws L \<Longrightarrow> jwt_NewNumericDate L t = t div second"
  "jwt_laws L \<Longrightarrow> id_parse L (id_string L i) = Some i"
  "jwt_laws L \<Longrightarrow> valid_utf8 (id_string L i)"
  unfolding jwt_laws_def by (drule conjunct2, drule conjunct2, drule conjunct2, blast)+

section \<open>Facts\<close>

context db_relation begin

lemma keeps_auth_primitives [keeps_rules]:
  "keeps R (Hash L h p)" "keeps R (Verify L h dg p)" "keeps R (DummyCompare h)" "keeps R (NewRefreshToken L)"
  "keeps R (Issue L s u e)" "keeps R (Parse L s t)" "keeps R (NewHasher L c)"
  unfolding Hash_def Verify_def DummyCompare_def NewRefreshToken_def Issue_def Parse_def NewHasher_def Let_def
  by (intro keeps_rules)+

end

lemma ValidatePassword_None:
  "ValidatePassword p = None \<longleftrightarrow> valid_utf8 p \<and> 12 \<le> length p \<and> length p \<le> 72"
  by (auto simp: ValidatePassword_def MinPasswordBytes_def MaxPasswordBytes_def)

lemma HashRefreshToken_length [simp]: "length (HashRefreshToken t) = 64"
  by (simp add: HashRefreshToken_def)

lemma NewHasher_decoy:
  "bcrypt_laws L \<Longrightarrow> run_state (NewHasher L cost) W = (Inr h, W') \<Longrightarrow>
   bcrypt_cost L (hs_decoy h) = Some (hs_cost h)"
  by (fastforce simp: NewHasher_def Let_def bcrypt_laws_def split: if_splits sum.splits)

section \<open>Properties\<close>

text \<open>
  C29 (an access token names its user until it expires). A token that a well-configured token
  service issued, in an age whose dates a JSON number holds exactly, is accepted by the same
  service, and yields the user and the address it was issued for, at every instant from its
  issue up to the whole second of its expiry; from then on it is rejected.
\<close>

theorem access_token_roundtrip:
  assumes "jwt_laws L" "NewTokenService L cfg = Inr s"
    and "valid_utf8 (tc_Issuer cfg)" "valid_utf8 (tc_Audience cfg)" "valid_utf8 email"
    and "run_state (Issue L s userID email) W = (Inr (token, expires), W1)"
    and "0 \<le> clock (w_db W)" "expires \<le> unix (2 ^ 53)"
    and "run_state (Parse L s token) W2 = (r, W3)" "clock (w_db W) \<le> clock (w_db W2)"
  shows "expires = clock (w_db W) + tc_TTL cfg \<and>
         (if clock (w_db W2) < unix (expires div second)
          then \<exists>c. r = Inr (userID, c) \<and> jc_Email c = email
          else \<exists>e. r = Inl e \<and> (err_is e ErrTokenExpired \<or> err_is e ErrTokenInvalid))"
proof -
  let ?now = "clock (w_db W2)"
  let ?c = "token_claims L s userID email (clock (w_db W)) (w_draws W)"
  have exp: "expires = clock (w_db W) + ts_ttl s"
    and sign: "jwt_sign L (jwt_HS256 L) (ts_secret s) ?c = Inr token"
    using assms(6) by (auto simp: Issue_def split: sum.splits)
  have cfg: "ts_ttl s = tc_TTL cfg" "ts_issuer s = tc_Issuer cfg" "ts_audience s = tc_Audience cfg" "0 < tc_TTL cfg"
    "ts_parser s = \<lparr>jo_ValidMethods = [jwt_HS256 L], jo_Issuer = tc_Issuer cfg, jo_Audience = tc_Audience cfg,
       jo_ExpirationRequired = True, jo_IssuedAt = True\<rparr>" and named: "named_parties (ts_parser s)"
    using assms(2) by (auto simp: NewTokenService_def named_parties_def split: if_splits)
  note laws = jwt_dates [OF assms(1)]
  have "exact_date (Some (clock (w_db W) div second))" "exact_date (Some (expires div second))"
    using assms(7,8) cfg(1,4) by (simp_all add: exact_date_def exp unix_def second_def)
  then have enc: "encodable ?c"
    using laws assms(3-5) by (simp add: encodable_def token_claims_def cfg exp)
  have start: "unix (clock (w_db W) div second) \<le> ?now"
    using assms(10) by (simp add: unix_def second_def)
  have hold: "claims_hold (ts_parser s) ?c ?now \<longleftrightarrow> ?now < unix (expires div second)"
    using laws start by (simp add: claims_hold_def token_claims_def cfg reached_def exp)
  have parse: "jwt_parse L (ts_parser s) (ts_secret s) token ?now = Inr (c, True) \<longleftrightarrow>
      c = ?c \<and> ?now < unix (expires div second)" (is "?parse \<longleftrightarrow> ?rhs") for c
  proof
    assume p: ?parse
    have "c = ?c" by (rule jwt_carries [OF assms(1) enc sign p])
    with jwt_accepted [OF assms(1) named p] show ?rhs using hold by simp
  next
    assume ?rhs
    then show ?parse using jwt_accepts [OF assms(1) named enc sign] hold by (simp add: cfg)
  qed
  have r: "r = fst (run_state (Parse L s token) W2)" using assms(9) by simp
  show ?thesis
  proof (cases "?now < unix (expires div second)")
    case True
    then have "jwt_parse L (ts_parser s) (ts_secret s) token ?now = Inr (?c, True)" using parse by blast
    with True show ?thesis using laws by (simp add: r exp cfg Parse_def token_claims_def)
  next
    case False
    then have "jwt_parse L (ts_parser s) (ts_secret s) token ?now \<noteq> Inr (c, True)" for c
      using parse by blast
    with False show ?thesis
      by (auto simp: r exp cfg Parse_def split: sum.split prod.split)
  qed
qed

text \<open>A concrete library that keeps the laws: it signs one claim set.\<close>

definition sample_secret :: string where
  "sample_secret = replicate 32 (CHR ''k'')"

definition sample_claims :: Claims where
  "sample_claims =
     \<lparr>jc_Subject = ''1111111'', jc_Issuer = ''iss'', jc_Audience = [''aud''], jc_IssuedAt = Some 500,
      jc_NotBefore = Some 500, jc_ExpiresAt = Some 1400, jc_ID = [], jc_Email = ''a@b.co''\<rparr>"

definition sample_auth :: auth_lib where
  "sample_auth =
     \<lparr>bcrypt_MinCost = 4, bcrypt_MaxCost = 31,
      bcrypt_generate = (\<lambda>n pw c. if 4 \<le> c \<and> c \<le> 31 then Inr (char_of (nat c) # pw) else Inl ''cost''),
      bcrypt_matches = (\<lambda>dg pw. dg \<noteq> [] \<and> tl dg = pw),
      bcrypt_cost = (\<lambda>dg. if dg = [] then None else Some (int (byte (hd dg)))),
      rand_read = (\<lambda>k n. Inr (replicate k (char_of n))),
      uuid_new = (\<lambda>n. n), id_string = (\<lambda>i. replicate i (CHR ''1'')), id_parse = (\<lambda>s. Some (length s)),
      jwt_HS256 = ''HS256'', jwt_NewNumericDate = (\<lambda>t. t div second),
      jwt_sign = (\<lambda>m k c. if m = ''HS256'' \<and> k = sample_secret \<and> c = sample_claims
                          then Inr ''token'' else Inl ''unsupported''),
      jwt_parse = (\<lambda>opts k t now.
        if t = ''token'' \<and> k = sample_secret \<and> ''HS256'' \<in> set (jo_ValidMethods opts) \<and>
           claims_hold opts sample_claims now
        then Inr (sample_claims, True) else Inl \<lparr>je_expired = False, je_text = ''rejected''\<rparr>)\<rparr>"

lemma sample_auth_laws: "jwt_laws sample_auth" "bcrypt_laws sample_auth"
proof -
  have "valid_utf8 (replicate n (CHR ''1''))" for n
    by (rule valid_utf8_ascii) (simp add: list_all_iff byte_def)
  then show "jwt_laws sample_auth"
    unfolding jwt_laws_def by (intro conjI allI impI)
      (auto simp: sample_auth_def split: if_splits)
  show "bcrypt_laws sample_auth"
    by (auto simp: bcrypt_laws_def sample_auth_def)
qed

definition sample_token_config :: TokenConfig where
  "sample_token_config = \<lparr>tc_Secret = sample_secret, tc_Issuer = ''iss'', tc_Audience = ''aud'', tc_TTL = unix 900\<rparr>"

definition empty_db :: "time \<Rightarrow> db" where
  "empty_db t = \<lparr>clock = t, users = [], subs = [], hooks = [], tokens = []\<rparr>"

theorem access_token_roundtrip_witness:
  "\<exists>s token c. NewTokenService sample_auth sample_token_config = Inr s \<and>
     fst (run_state (Issue sample_auth s 7 ''a@b.co'') (quiet (empty_db (unix 500)))) = Inr (token, unix 1400) \<and>
     fst (run_state (Parse sample_auth s token) (quiet (empty_db (unix 600)))) = Inr (7, c)"
proof -
  obtain s where s: "NewTokenService sample_auth sample_token_config = Inr s"
    by (simp add: NewTokenService_def sample_token_config_def sample_secret_def MinSecretBytes_def unix_def second_def)
  have f: "ts_secret s = sample_secret" "ts_issuer s = ''iss''" "ts_audience s = ''aud''" "ts_ttl s = unix 900"
    using s by (auto simp: NewTokenService_def sample_token_config_def split: if_splits)
  have "replicate 7 (CHR ''1'') = ''1111111''" by (simp add: numeral_eq_Suc)
  then have c: "token_claims sample_auth s 7 ''a@b.co'' (clock (empty_db (unix 500))) (w_draws (quiet d)) = sample_claims" for d
    by (simp add: token_claims_def f sample_claims_def sample_auth_def empty_db_def quiet_def unix_def second_def)
  obtain W1 where i: "run_state (Issue sample_auth s 7 ''a@b.co'') (quiet (empty_db (unix 500))) =
      (Inr (''token'', unix 1400), W1)"
    by (simp add: Issue_def c f(1)) (simp add: sample_auth_def empty_db_def f(4) unix_def)
  obtain r W3 where p: "run_state (Parse sample_auth s ''token'') (quiet (empty_db (unix 600))) = (r, W3)"
    by fastforce
  have utf8: "valid_utf8 (tc_Issuer sample_token_config)" "valid_utf8 (tc_Audience sample_token_config)"
    "valid_utf8 ''a@b.co''"
    by (rule valid_utf8_ascii, simp add: byte_def sample_token_config_def)+
  have "clock (w_db (quiet (empty_db (unix 500)))) \<le> clock (w_db (quiet (empty_db (unix 600))))"
    by (simp add: empty_db_def)
  from access_token_roundtrip [OF sample_auth_laws(1) s utf8 i _ _ p this]
  obtain c where "r = Inr (7, c)"
    by (auto simp: empty_db_def unix_def second_def)
  with s i p show ?thesis by (intro exI [of _ s] exI [of _ "''token''"] exI [of _ c]) simp
qed

end
