(* ===== verification/Auth_Service.thy ===== *)
theory Auth_Service
  imports Refresh_Token_Repo Auth_Primitives
begin

text \<open>
  internal/service/auth_service.go: registration, login, renewal and the ends of a session,
  over the user and the refresh token repositories and the primitives of internal/auth. A
  session is a rotation family: \<open>issue\<close> starts one, \<open>Refresh\<close> moves its live token
  along, \<open>Logout\<close> ends it.

  The properties: a failed login looks the same for an unknown address and a wrong password,
  down to the comparison it spends; a registered user can log in; a session is only handed
  out for a verified password; a renewal spends the presented token; a session that was
  logged out stays ended; an access token names its user until it expires.
\<close>

section \<open>Operations\<close>

record UserView =
  uv_ID :: uuid
  uv_Email :: string
  uv_FullName :: "string option"

record AuthResult =
  ar_Token :: string
  ar_ExpiresAt :: time
  ar_User :: UserView
  ar_RefreshToken :: string
  ar_RefreshTokenExpiresAt :: time

definition viewOf :: "User \<Rightarrow> UserView" where
  "viewOf u = \<lparr>uv_ID = u_ID u, uv_Email = u_Email u, uv_FullName = u_FullName u\<rparr>"

record AuthService =
  as_lib :: auth_lib
  as_hasher :: Hasher
  as_tokens :: TokenService
  as_refreshTTL :: duration
  as_metrics :: bool

definition NewAuthService :: "auth_lib \<Rightarrow> Hasher \<Rightarrow> TokenService \<Rightarrow> duration \<Rightarrow> AuthService" where
  "NewAuthService L hasher tokenService refreshTTL =
     \<lparr>as_lib = L, as_hasher = hasher, as_tokens = tokenService,
      as_refreshTTL = (if refreshTTL \<le> 0 then 30 * 24 * hour else refreshTTL), as_metrics = False\<rparr>"

definition AuthService_WithMetrics :: "AuthService \<Rightarrow> bool \<Rightarrow> AuthService" where
  "AuthService_WithMetrics S m = S\<lparr>as_metrics := m\<rparr>"

definition countAuth :: "AuthService \<Rightarrow> string \<Rightarrow> string \<Rightarrow> unit prog" where
  "countAuth S operation outcome = observe (as_metrics S) (IncAuth operation outcome)"

definition countRefresh :: "AuthService \<Rightarrow> string \<Rightarrow> unit prog" where
  "countRefresh S outcome = observe (as_metrics S) (IncTokenRefresh outcome)"

text \<open>The structs the service fills in; every other field has Go's zero value.\<close>

definition new_user :: "string \<Rightarrow> string \<Rightarrow> string option \<Rightarrow> User" where
  "new_user email digest fullName =
     \<lparr>u_ID = nil_uuid, u_Email = email, u_EmailVerifiedAt = None, u_PasswordHash = Some digest,
      u_FullName = fullName, u_StripeCustomerID = None, u_Metadata = [], u_CreatedAt = zero_time,
      u_UpdatedAt = zero_time, u_DeletedAt = None\<rparr>"

definition new_session :: "uuid \<Rightarrow> string \<Rightarrow> uuid \<Rightarrow> time \<Rightarrow> RefreshToken" where
  "new_session userID hash family expires =
     \<lparr>t_ID = nil_uuid, t_UserID = userID, t_TokenHash = hash, t_FamilyID = family, t_IssuedAt = zero_time,
      t_ExpiresAt = expires, t_UsedAt = None, t_RevokedAt = None, t_RevokedReason = None,
      t_CreatedAt = zero_time, t_UpdatedAt = zero_time\<rparr>"

definition issue :: "AuthService \<Rightarrow> User \<Rightarrow> AuthResult result prog" where
  "issue S user = do {
     a \<leftarrow> Issue (as_lib S) (as_tokens S) (u_ID user) (u_Email user);
     (case a of
        Inl e \<Rightarrow> State_Monad.return (Inl (Wrap ''issue token: '' e []))
      | Inr (access, expiresAt) \<Rightarrow> do {
          t \<leftarrow> NewRefreshToken (as_lib S);
          (case t of
             Inl e \<Rightarrow> State_Monad.return (Inl (Wrap ''mint refresh token: '' e []))
           | Inr (refreshToken, refreshHash) \<Rightarrow> do {
               n \<leftarrow> draw;
               now \<leftarrow> get_now;
               let record = new_session (u_ID user) refreshHash (uuid_new (as_lib S) n) (now + as_refreshTTL S);
               r \<leftarrow> CreateRefreshToken record;
               State_Monad.return (case r of
                 Inl e \<Rightarrow> Inl (Wrap ''store refresh token: '' e [])
               | Inr stored \<Rightarrow>
                   Inr \<lparr>ar_Token = access, ar_ExpiresAt = expiresAt, ar_User = viewOf user,
                        ar_RefreshToken = refreshToken, ar_RefreshTokenExpiresAt = t_ExpiresAt stored\<rparr>) }) }) }"

definition Register :: "AuthService \<Rightarrow> string \<Rightarrow> string \<Rightarrow> string option \<Rightarrow> AuthResult result prog" where
  "Register S email0 password fullName =
     (let email = trim_space email0
      in case ValidatePassword password of
           Some e \<Rightarrow> State_Monad.return (Inl (Wrap [] (Sentinel ErrValidation) ('': '' @ err_text e)))
         | None \<Rightarrow> do {
             h \<leftarrow> Hash (as_lib S) (as_hasher S) password;
             (case h of
                Inl e \<Rightarrow> State_Monad.return (Inl (Wrap ''hash password: '' e []))
              | Inr digest \<Rightarrow> do {
                  r \<leftarrow> CreateUser (new_user email digest fullName);
                  (case r of
                     Inl e \<Rightarrow>
                       if err_is e ErrValidation \<or> err_is e ErrConflict
                       then do { countAuth S ''register'' ''rejected''; State_Monad.return (Inl e) }
                       else do { countAuth S ''register'' ''error'';
                                 State_Monad.return (Inl (Wrap ''create user: '' e [])) }
                   | Inr user \<Rightarrow> do {
                       countAuth S ''register'' ''success'';
                       log_line Info ''user registered'';
                       issue S user }) }) })"

text \<open>
  The upgrade of the digest that rides along on a login. \<open>UpdateUser\<close> trims the address in
  the struct it is given, also when it fails, and the login goes on with that struct.
\<close>

definition rehash :: "AuthService \<Rightarrow> User \<Rightarrow> string \<Rightarrow> string \<Rightarrow> User prog" where
  "rehash S user digest password =
     (if NeedsRehash (as_lib S) (as_hasher S) digest
      then do {
        h \<leftarrow> Hash (as_lib S) (as_hasher S) password;
        (case h of
           Inl _ \<Rightarrow> State_Monad.return user
         | Inr rehashed \<Rightarrow> do {
             let user1 = user\<lparr>u_PasswordHash := Some rehashed\<rparr>;
             r \<leftarrow> UpdateUser user1;
             (case r of
                Inl _ \<Rightarrow> do {
                  log_line Warn ''could not upgrade password hash'';
                  State_Monad.return (snd (User_Validate user1)) }
              | Inr user2 \<Rightarrow> State_Monad.return user2) }) }
      else State_Monad.return user)"

definition digest_of :: "User \<Rightarrow> string" where
  "digest_of user = (case u_PasswordHash user of None \<Rightarrow> [] | Some dg \<Rightarrow> dg)"

definition Login :: "AuthService \<Rightarrow> string \<Rightarrow> string \<Rightarrow> AuthResult result prog" where
  "Login S email password = do {
     r \<leftarrow> GetUserByEmail (trim_space email);
     (case r of
        Inl e \<Rightarrow>
          if err_is e ErrNotFound
          then do {
            DummyCompare (as_hasher S);
            countAuth S ''login'' ''failed'';
            State_Monad.return (Inl (Sentinel ErrCredentialsMismatch)) }
          else do {
            countAuth S ''login'' ''error'';
            State_Monad.return (Inl (Wrap ''look up user: '' e [])) }
      | Inr user \<Rightarrow> do {
          v \<leftarrow> Verify (as_lib S) (as_hasher S) (digest_of user) password;
          (case v of
             Some _ \<Rightarrow> do {
               log_line Warn ''failed login'';
               countAuth S ''login'' ''failed'';
               State_Monad.return (Inl (Sentinel ErrCredentialsMismatch)) }
           | None \<Rightarrow> do {
               countAuth S ''login'' ''success'';
               user2 \<leftarrow> rehash S user (digest_of user) password;
               issue S user2 }) }) }"

definition Me :: "uuid \<Rightarrow> UserView result prog" where
  "Me userID = do {
     r \<leftarrow> GetUserByID userID;
     State_Monad.return (case r of
       Inl e \<Rightarrow> if err_is e ErrNotFound then Inl e else Inl (Wrap ''load user: '' e [])
     | Inr user \<Rightarrow> Inr (viewOf user)) }"

text \<open>What follows a consumed token: the user's access token, and the successor.\<close>

definition renewed :: "AuthService \<Rightarrow> string \<Rightarrow> RefreshToken \<Rightarrow> AuthResult result prog" where
  "renewed S successorToken stored = do {
     u \<leftarrow> GetUserByID (t_UserID stored);
     (case u of
        Inl _ \<Rightarrow> State_Monad.return (Inl (Sentinel ErrNotFound))
      | Inr user \<Rightarrow> do {
          a \<leftarrow> Issue (as_lib S) (as_tokens S) (u_ID user) (u_Email user);
          (case a of
             Inl e \<Rightarrow> State_Monad.return (Inl (Wrap ''issue access token: '' e []))
           | Inr (access, expiresAt) \<Rightarrow> do {
               countRefresh S ''success'';
               State_Monad.return (Inr
                 \<lparr>ar_Token = access, ar_ExpiresAt = expiresAt, ar_User = viewOf user,
                  ar_RefreshToken = successorToken, ar_RefreshTokenExpiresAt = t_ExpiresAt stored\<rparr>) }) }) }"

definition Refresh :: "AuthService \<Rightarrow> string \<Rightarrow> AuthResult result prog" where
  "Refresh S presented =
     (if presented = [] then State_Monad.return (Inl (Sentinel ErrNotFound))
      else do {
        t \<leftarrow> NewRefreshToken (as_lib S);
        (case t of
           Inl e \<Rightarrow> State_Monad.return (Inl (Wrap ''mint refresh token: '' e []))
         | Inr (successorToken, successorHash) \<Rightarrow> do {
             now \<leftarrow> get_now;
             c \<leftarrow> ConsumeRefreshToken \<lparr>cr_PresentedHash = HashRefreshToken presented,
                    cr_SuccessorHash = successorHash, cr_SuccessorExpiresAt = now + as_refreshTTL S\<rparr>;
             (case c of
                Inl e \<Rightarrow>
                  if err_is e ErrTokenReused
                  then do {
                    countRefresh S ''reuse_detected'';
                    log_line Error ''refresh token reuse detected; revoked the session family'';
                    State_Monad.return (Inl e) }
                  else do { countRefresh S ''rejected''; State_Monad.return (Inl e) }
              | Inr stored \<Rightarrow> renewed S successorToken stored) }) })"

definition Logout :: "string \<Rightarrow> goerr option prog" where
  "Logout presented =
     (if presented = [] then State_Monad.return None
      else do {
        r \<leftarrow> RevokeFamilyByToken (HashRefreshToken presented) ''signed out'';
        (case r of
           Inl e \<Rightarrow> State_Monad.return (if err_is e ErrNotFound then None
                                         else Some (Wrap ''revoke session: '' e []))
         | Inr revoked \<Rightarrow> do {
             log_line Info ''session ended'';
             State_Monad.return None }) })"

definition RevokeAllSessions :: "uuid \<Rightarrow> string \<Rightarrow> goerr option prog" where
  "RevokeAllSessions userID reason = do {
     r \<leftarrow> RevokeAllForUser userID reason;
     (case r of
        Inl e \<Rightarrow> State_Monad.return (Some (Wrap ''revoke sessions: '' e []))
      | Inr revoked \<Rightarrow> do {
          log_line Info ''all sessions revoked'';
          State_Monad.return None }) }"

section \<open>Relations kept by the service\<close>

context token_writes begin

lemma keeps_counts [keeps_rules]: "keeps R (countAuth S o1 o2)" "keeps R (countRefresh S o2)"
  unfolding countAuth_def countRefresh_def by (rule keeps_effects)+

lemma keeps_issue [keeps_rules]: "keeps R (issue S u)"
  unfolding issue_def Let_def by (intro keeps_rules)

end

locale session_relation = user_relation R + token_writes R for R :: "db \<Rightarrow> db \<Rightarrow> bool"
begin

lemma keeps_rehash [keeps_rules]: "keeps R (rehash S u dg p)"
  unfolding rehash_def Let_def by (intro keeps_rules)

lemma keeps_Register: "keeps R (Register S e p f)"
  unfolding Register_def Let_def by (intro keeps_rules)

lemma keeps_Login: "keeps R (Login S e p)"
  unfolding Login_def by (intro keeps_rules)

lemma keeps_Me: "keeps R (Me i)"
  unfolding Me_def by (intro keeps_rules)

lemma keeps_Refresh: "keeps R (Refresh S t)"
  unfolding Refresh_def renewed_def by (intro keeps_rules)

lemma keeps_Logout: "keeps R (Logout t)"
  unfolding Logout_def by (intro keeps_rules)

lemma keeps_RevokeAllSessions: "keeps R (RevokeAllSessions i r)"
  unfolding RevokeAllSessions_def by (intro keeps_rules)

lemmas keeps_auth = keeps_Register keeps_Login keeps_Me keeps_Refresh keeps_Logout keeps_RevokeAllSessions

end

text \<open>The constraints of the users table.\<close>

definition users_kept :: "db \<Rightarrow> db \<Rightarrow> bool" where
  "users_kept d d' \<longleftrightarrow> (users_wf (users d) \<longrightarrow> users_wf (users d'))"

interpretation account_tokens: token_relation users_kept
  by unfold_locales (auto simp: users_kept_def)

interpretation accounts: session_relation users_kept
  by unfold_locales
     (auto simp: users_kept_def intro!: stmt_okI dest: create_user_wf update_user_wf)

lemma keeps_users:
  assumes "keeps users_kept m" "env_ok users_kept W" "users_wf (users (w_db W))"
  shows "users_wf (users (w_db (snd (run_state m W))))"
  using keepsD [OF assms(1,2)] assms(3) by (cases "run_state m W") (auto simp: users_kept_def)

text \<open>Starting a session leaves the accounts alone.\<close>

definition users_same :: "db \<Rightarrow> db \<Rightarrow> bool" where
  "users_same d d' \<longleftrightarrow> users d' = users d"

interpretation other_accounts: token_relation users_same
  by unfold_locales (simp_all add: users_same_def)

section \<open>Runs in a quiet world\<close>

text \<open>The account a login addresses, and whether a password verifies against its digest.\<close>

definition login_user :: "string \<Rightarrow> db \<Rightarrow> User option" where
  "login_user email d =
     find (\<lambda>u. to_lower (u_Email u) = to_lower (trim_space (trim_space email)) \<and> u_DeletedAt u = None) (users d)"

definition authentic :: "AuthService \<Rightarrow> User \<Rightarrow> string \<Rightarrow> bool" where
  "authentic S u password \<longleftrightarrow> digest_of u \<noteq> [] \<and> bcrypt_matches (as_lib S) (digest_of u) password"

definition refused :: "AuthService \<Rightarrow> string \<Rightarrow> (level \<times> string) list \<Rightarrow> world \<Rightarrow> AuthResult result \<times> world" where
  "refused S digest ls W =
     (Inl (Sentinel ErrCredentialsMismatch),
      W\<lparr>w_compares := w_compares W @ [digest],
        w_metrics := w_metrics W @ (if as_metrics S then [IncAuth ''login'' ''failed''] else []),
        w_logs := w_logs W @ ls\<rparr>)"

definition admitted :: "AuthService \<Rightarrow> User \<Rightarrow> world \<Rightarrow> world" where
  "admitted S u W =
     W\<lparr>w_compares := w_compares W @ [digest_of u],
       w_metrics := w_metrics W @ (if as_metrics S then [IncAuth ''login'' ''success''] else [])\<rparr>"

lemma Login_run:
  assumes "w_plan W = []"
  shows "run_state (Login S email pw) W =
    (case login_user email (w_db W) of
       None \<Rightarrow> refused S (hs_decoy (as_hasher S)) [] W
     | Some u \<Rightarrow>
         if authentic S u pw
         then run_state (State_Monad.bind (rehash S u (digest_of u) pw) (issue S)) (admitted S u W)
         else refused S (if digest_of u = [] then hs_decoy (as_hasher S) else digest_of u)
                [(Warn, ''failed login'')] W)"
  unfolding Login_def GetUserByEmail_def login_user_def
  by (cases "find (\<lambda>u. to_lower (u_Email u) = to_lower (trim_space (trim_space email)) \<and> u_DeletedAt u = None)
               (users (w_db W))")
     (simp_all add: user_row_quiet [OF assms] Verify_def DummyCompare_def countAuth_def refused_def
        admitted_def authentic_def)

text \<open>The digest a refused login is compared with.\<close>

definition compared :: "AuthService \<Rightarrow> string \<Rightarrow> db \<Rightarrow> string" where
  "compared S email d =
     (case login_user email d of
        None \<Rightarrow> hs_decoy (as_hasher S)
      | Some u \<Rightarrow> if digest_of u = [] then hs_decoy (as_hasher S) else digest_of u)"

lemma User_Validate_keeps:
  "u_ID (snd (User_Validate u)) = u_ID u" "u_DeletedAt (snd (User_Validate u)) = u_DeletedAt u"
  "u_FullName (snd (User_Validate u)) = u_FullName u" "u_PasswordHash (snd (User_Validate u)) = u_PasswordHash u"
  by (simp_all add: User_Validate_def Let_def)

lemma UpdateUser_id:
  assumes "run_state (UpdateUser u) W = (Inr u', W')"
  shows "u_ID u' = u_ID u"
proof -
  obtain e u1 where v: "User_Validate u = (e, u1)" by fastforce
  then have "u_ID u1 = u_ID u" using User_Validate_keeps(1) [of u] by simp
  then show ?thesis
    using assms by (auto simp: UpdateUser_def v split: option.splits if_splits sum.splits prod.splits)
qed

lemma rehash_id: "run_state (rehash S u dg pw) W = (u', W') \<Longrightarrow> u_ID u' = u_ID u"
  unfolding rehash_def Let_def
  by (auto simp: User_Validate_keeps split: if_splits sum.splits prod.splits dest: UpdateUser_id)

lemma issue_result:
  "run_state (issue S u) W = (Inr r, W') \<Longrightarrow> ar_User r = viewOf u"
  unfolding issue_def Let_def by (auto split: sum.splits prod.splits)

lemma issue_no_mismatch:
  "run_state (issue S u) W = (Inl e, W') \<Longrightarrow> \<not> err_is e ErrCredentialsMismatch"
  using map_error_only
  by (auto simp: issue_def Let_def CreateRefreshToken_def Issue_def NewRefreshToken_def
      split: sum.splits prod.splits) fastforce

lemma issue_users:
  assumes "w_plan W = []" "run_state (issue S u) W = (r, W')"
  shows "users (w_db W') = users (w_db W)" "w_plan W' = []"
  using keepsD [OF other_accounts.keeps_issue _ assms(2)] assms(1) advances_quiet
  by (auto simp: users_same_def env_ok_def)

text \<open>What a successful registration leaves: the account a login with its address finds.\<close>

lemma CreateUser_found:
  assumes "w_plan W = []" "run_state (CreateUser u0) W = (Inr u, W1)" "u_Email u0 = trim_space email"
  shows "\<exists>row. login_user email (w_db W1) = Some row \<and> u_PasswordHash row = u_PasswordHash u0 \<and>
               viewOf row = viewOf u \<and> w_plan W1 = []"
proof -
  obtain oe v where v: "User_Validate u0 = (oe, v)" by fastforce
  have oe: "oe = None" using assms(2) by (cases oe) (simp_all add: CreateUser_def v)
  have v_fields: "u_Email v = trim_space (u_Email u0)" "u_PasswordHash v = u_PasswordHash u0"
    using v by (auto simp: User_Validate_def Let_def)
  let ?s = "quiet_step (w_db W)"
  obtain row d' where c: "create_user_stmt v ?s (w_db W) = Inr (row, d')" and W1: "W1 = W\<lparr>w_db := d'\<rparr>"
    and u: "u = v\<lparr>u_ID := u_ID row, u_CreatedAt := u_CreatedAt row, u_UpdatedAt := u_UpdatedAt row\<rparr>"
    using assms(1,2) by (auto simp: CreateUser_def v oe run_stmt_quiet split: sum.splits)
  have row: "row = v\<lparr>u_ID := es_rand ?s, u_CreatedAt := clock (w_db W), u_UpdatedAt := clock (w_db W), u_DeletedAt := None\<rparr>"
    "users d' = users (w_db W) @ [row]" "\<forall>x \<in> set (users (w_db W)). compatible row x"
    using c by (auto simp: create_user_stmt_def Let_def user_conflict_None split: option.splits)
  have e: "u_Email row = trim_space (trim_space email)" "u_DeletedAt row = None"
    by (simp_all add: row(1) v_fields assms(3))
  have "find (\<lambda>x. to_lower (u_Email x) = to_lower (u_Email row) \<and> u_DeletedAt x = None) (users (w_db W)) = None"
    using row(3) e(2) by (auto simp: find_None_iff compatible_def same_email_def)
  then have "login_user email d' = Some row"
    using e by (simp add: login_user_def row(2) find_append_None)
  moreover have "viewOf row = viewOf u" by (simp add: u viewOf_def row(1))
  moreover have "u_PasswordHash row = u_PasswordHash u0" by (simp add: row(1) v_fields)
  ultimately show ?thesis using assms(1) by (simp add: W1)
qed

lemma Register_login:
  assumes "w_plan W = []" "bcrypt_laws (as_lib S)" "run_state (Register S email pw name) W = (Inr r, W1)"
  shows "\<exists>u. login_user email (w_db W1) = Some u \<and> authentic S u pw \<and>
             \<not> NeedsRehash (as_lib S) (as_hasher S) (digest_of u) \<and> ar_User r = viewOf u \<and> w_plan W1 = []"
proof -
  let ?u0 = "\<lambda>digest. new_user (trim_space email) digest name"
  let ?Wa = "W\<lparr>w_draws := Suc (w_draws W)\<rparr>"
  let ?Wc = "\<lambda>Wb. (snd (run_state (countAuth S ''register'' ''success'') Wb))
    \<lparr>w_logs := w_logs Wb @ [(Info, ''user registered'')]\<rparr>"
  obtain digest u Wb where h: "bcrypt_generate (as_lib S) (w_draws W) pw (hs_cost (as_hasher S)) = Inr digest"
    and c: "run_state (CreateUser (?u0 digest)) ?Wa = (Inr u, Wb)"
    and i: "run_state (issue S u) (?Wc Wb) = (Inr r, W1)"
    using assms(3)
    by (auto simp: Register_def Hash_def Let_def countAuth_def
        split: option.splits sum.splits prod.splits if_splits) 
  have Wc: "w_db (?Wc Wb) = w_db Wb" "w_plan (?Wc Wb) = w_plan Wb" by (simp_all add: countAuth_def)
  have Wa: "w_plan ?Wa = []" using assms(1) by simp
  obtain row where row: "login_user email (w_db Wb) = Some row" "u_PasswordHash row = Some digest"
    "viewOf row = viewOf u" "w_plan Wb = []"
    using CreateUser_found [OF Wa c, of email] by (auto simp: new_user_def)
  have dg: "digest_of row = digest" using row(2) by (simp add: digest_of_def)
  have laws: "digest \<noteq> []" "bcrypt_matches (as_lib S) digest pw"
    "\<exists>c \<ge> hs_cost (as_hasher S). bcrypt_cost (as_lib S) digest = Some c"
    using assms(2) h unfolding bcrypt_laws_def by blast+
  have "login_user email (w_db W1) = Some row" "w_plan W1 = []"
    using issue_users [OF _ i] row(1,4) Wc by (simp_all add: login_user_def)
  moreover have "authentic S row pw" "\<not> NeedsRehash (as_lib S) (as_hasher S) (digest_of row)"
    using laws by (auto simp: authentic_def NeedsRehash_def dg)
  ultimately show ?thesis using row(3) issue_result [OF i] by auto
qed

text \<open>A renewal is a rotation, preceded by a draw for the successor.\<close>

definition renewal :: "AuthService \<Rightarrow> string \<Rightarrow> bytes \<Rightarrow> time \<Rightarrow> ConsumeRequest" where
  "renewal S presented buf now =
     \<lparr>cr_PresentedHash = HashRefreshToken presented,
      cr_SuccessorHash = HashRefreshToken (base64_raw_url buf), cr_SuccessorExpiresAt = now + as_refreshTTL S\<rparr>"

definition drawn :: "world \<Rightarrow> world" where
  "drawn W = W\<lparr>w_draws := Suc (w_draws W)\<rparr>"

lemma drawn_simps [simp]: "w_db (drawn W) = w_db W" "w_plan (drawn W) = w_plan W"
  by (simp_all add: drawn_def)

lemma Refresh_run:
  assumes "rand_read (as_lib S) refreshTokenBytes (w_draws W) = Inr buf" "presented \<noteq> []"
    and "run_state (ConsumeRefreshToken (renewal S presented buf (clock (w_db W)))) (drawn W) = (c, W1)"
  shows "run_state (Refresh S presented) W =
    (case c of
       Inl e \<Rightarrow> (Inl e, snd (run_state (Refresh S presented) W))
     | Inr stored \<Rightarrow> run_state (renewed S (base64_raw_url buf) stored) W1)"
    and "\<And>e. c = Inl e \<Longrightarrow> w_db (snd (run_state (Refresh S presented) W)) = w_db W1 \<and>
           w_plan (snd (run_state (Refresh S presented) W)) = w_plan W1"
  using assms
  by (auto simp: Refresh_def NewRefreshToken_def renewal_def drawn_def countRefresh_def Let_def split: sum.splits)

lemma renewed_Inr:
  assumes "w_plan W = []" "run_state (renewed S tok stored) W = (r, W')"
  shows "w_db W' = w_db W" "w_plan W' = []" "\<And>a. r = Inr a \<Longrightarrow> ar_RefreshToken a = tok"
  using assms
  by (auto simp: renewed_def GetUserByID_def user_row_quiet Issue_def countRefresh_def
      split: option.splits sum.splits prod.splits)

lemma Refresh_exchanges:
  assumes "w_plan W = []" "run_state (Refresh S presented) W = (Inr a, W')"
  obtains buf stored W1 where "presented \<noteq> []"
    "run_state (ConsumeRefreshToken (renewal S presented buf (clock (w_db W)))) (drawn W) = (Inr stored, W1)"
    "ar_RefreshToken a = base64_raw_url buf" "w_db W' = w_db W1" "w_plan W' = []"
proof -
  have p: "presented \<noteq> []" using assms(2) by (auto simp: Refresh_def)
  obtain buf where b: "rand_read (as_lib S) refreshTokenBytes (w_draws W) = Inr buf"
    using assms(2) p by (auto simp: Refresh_def NewRefreshToken_def split: sum.splits)
  obtain c W1 where c: "run_state (ConsumeRefreshToken (renewal S presented buf (clock (w_db W)))) (drawn W) = (c, W1)"
    by fastforce
  note run = Refresh_run [OF b p c]
  obtain stored where stored: "c = Inr stored" using run(1) assms(2) by (cases c) auto
  have q: "w_plan W1 = []"
    using advances_quiet keepsD [OF rotation_kept _ c] assms(1) by (auto simp: env_ok_def)
  have "run_state (renewed S (base64_raw_url buf) stored) W1 = (Inr a, W')"
    using run(1) assms(2) stored by simp
  from renewed_Inr [OF q this] show thesis using that [OF p c [unfolded stored]] by simp
qed

text \<open>A token whose row is revoked is never renewed.\<close>

lemma Refresh_dead:
  assumes "w_plan W = []" "tokens_wf (tokens (w_db W))" "x \<in> set (tokens (w_db W))"
    and "t_TokenHash x = HashRefreshToken presented" "t_RevokedAt x \<noteq> None"
  shows "\<exists>e. fst (run_state (Refresh S presented) W) = Inl e"
proof (cases "run_state (Refresh S presented) W")
  case (Pair r W')
  show ?thesis
  proof (cases r)
    case (Inr a)
    with Pair obtain buf stored W1 where c:
      "run_state (ConsumeRefreshToken (renewal S presented buf (clock (w_db W)))) (drawn W) = (Inr stored, W1)"
      using Refresh_exchanges [OF assms(1)] by metis
    have "find (\<lambda>t. t_TokenHash t = HashRefreshToken presented) (tokens (w_db W)) = Some x"
      using find_key_unique [of t_TokenHash "tokens (w_db W)" x] assms(2-4) by (simp add: tokens_wf_def)
    then show ?thesis
      using c assms(5) ConsumeRefreshToken_cases [of "drawn W" "renewal S presented buf (clock (w_db W))"] assms(1,2)
      by (simp add: renewal_def split: if_splits)
  qed (simp add: Pair)
qed

lemma Logout_run:
  assumes "w_plan W = []" "tokens_wf (tokens (w_db W))" "presented \<noteq> []"
  shows "run_state (Logout presented) W =
    (None, W\<lparr>w_db := (case find (\<lambda>t. t_TokenHash t = HashRefreshToken presented) (tokens (w_db W)) of
                       None \<Rightarrow> w_db W
                     | Some x \<Rightarrow> family_revoked (t_FamilyID x) ''signed out'' (w_db W)),
             w_logs := w_logs W @ [(Info, ''session ended'')]\<rparr>)"
proof -
  have out: "truncate_str ''signed out'' = ''signed out''" by code_simp
  show ?thesis
  proof (cases "find (\<lambda>t. t_TokenHash t = HashRefreshToken presented) (tokens (w_db W))")
    case (Some x)
    obtain n where "revoke_family_stmt (t_FamilyID x) ''signed out'' (quiet_step (w_db W)) (w_db W) =
        Inr (n, family_revoked (t_FamilyID x) ''signed out'' (w_db W))"
      using revoke_family_quiet [OF assms(2)] by blast
    with Some show ?thesis
      using assms(1,3)
      by (simp add: Logout_def RevokeFamilyByToken_def exec_count_def out revoke_by_token_stmt_def run_stmt_quiet)
  qed (use assms(1,3) in \<open>simp add: Logout_def RevokeFamilyByToken_def exec_count_def out
      revoke_by_token_stmt_def run_stmt_quiet\<close>)
qed

lemma token_hash_hex: "list_all is_hex (HashRefreshToken t)"
proof -
  have "is_hex (hex_digit n)" if "n < 16" for n
    using that by (auto simp: is_hex_def byte_hex_digit)
  then show ?thesis by (auto simp: HashRefreshToken_def hex_encode_def list_all_iff)
qed

section \<open>A concrete service\<close>

definition open_auth :: auth_lib where
  "open_auth = sample_auth\<lparr>jwt_sign := (\<lambda>m k c. Inr ''token'')\<rparr>"

definition sample_service :: AuthService where
  "sample_service =
     \<lparr>as_lib = open_auth,
      as_hasher = \<lparr>hs_cost = 12, hs_decoy = char_of (12::nat) # ''decoy-for-constant-time-login''\<rparr>,
      as_tokens = \<lparr>ts_secret = sample_secret, ts_issuer = ''iss'', ts_audience = ''aud'', ts_ttl = unix 900,
                   ts_parser = \<lparr>jo_ValidMethods = [''HS256''], jo_Issuer = ''iss'', jo_Audience = ''aud'',
                                jo_ExpirationRequired = True, jo_IssuedAt = True\<rparr>\<rparr>,
      as_refreshTTL = unix 3600, as_metrics = True\<rparr>"

lemma open_auth_laws: "bcrypt_laws open_auth"
  using sample_auth_laws(2) by (simp add: bcrypt_laws_def open_auth_def)

lemma sample_service_lib: "as_lib sample_service = open_auth"
  by (simp add: sample_service_def)

lemma sample_hasher:
  "run_state (NewHasher open_auth 0) W =
     (Inr (as_hasher sample_service), W\<lparr>w_draws := Suc (w_draws W)\<rparr>)"
  by (simp add: NewHasher_def sample_service_def open_auth_def sample_auth_def DefaultBcryptCost_def)

lemma sample_Issue:
  "run_state (Issue (as_lib sample_service) s u e) W = (Inr (''token'', clock (w_db W) + ts_ttl s), drawn W)"
  by (simp add: Issue_def sample_service_lib open_auth_def drawn_def)

lemma sample_NewRefreshToken:
  "run_state (NewRefreshToken (as_lib sample_service)) W =
     (let token = base64_raw_url (replicate 32 (char_of (w_draws W))) in
       (Inr (token, HashRefreshToken token), drawn W))"
  by (simp add: NewRefreshToken_def sample_service_lib open_auth_def sample_auth_def refreshTokenBytes_def
      drawn_def Let_def)

text \<open>The account of the sample database has no password.\<close>

lemma sample_no_password:
  "\<forall>u \<in> set (users (token_db x)). digest_of u = []"
  "login_user e (token_db x) = Some u \<Longrightarrow> \<not> authentic S u pw"
proof -
  show 1: "\<forall>u \<in> set (users (token_db x)). digest_of u = []" by (simp add: token_db_def digest_of_def)
  show "login_user e (token_db x) = Some u \<Longrightarrow> \<not> authentic S u pw"
    using 1 by (auto simp: login_user_def authentic_def dest!: find_mem)
qed

text \<open>A session row for a given plaintext token.\<close>

definition session_db :: "string \<Rightarrow> db" where
  "session_db tok = (token_db None)\<lparr>tokens := [(sample_token None)\<lparr>t_TokenHash := HashRefreshToken tok\<rparr>]\<rparr>"

lemma session_db_wf: "tokens_wf (tokens (session_db tok))"
  using token_hash_hex
  by (simp add: tokens_wf_def session_db_def sample_token_def passes_def token_checks_def)

lemma sample_renewal:
  "\<exists>a W1. run_state (Refresh sample_service ''abc'') (quiet (session_db ''abc'')) = (Inr a, W1)"
proof -
  let ?W = "quiet (session_db ''abc'')"
  let ?buf = "replicate 32 (CHR 0x00)"
  let ?c = "renewal sample_service ''abc'' ?buf (clock (w_db ?W))"
  have rnd: "rand_read (as_lib sample_service) refreshTokenBytes (w_draws ?W) = Inr ?buf"
    by (simp add: sample_service_lib open_auth_def sample_auth_def refreshTokenBytes_def quiet_def) code_simp
  have ne: "HashRefreshToken (base64_raw_url ?buf) \<noteq> HashRefreshToken ''abc''"
    by (simp add: HashRefreshToken_def sha256_abc sha256_zero_token)
  have find: "find (\<lambda>t. t_TokenHash t = cr_PresentedHash ?c) (tokens (w_db (drawn ?W))) =
      Some ((sample_token None)\<lparr>t_TokenHash := HashRefreshToken ''abc''\<rparr>)"
    by (simp add: session_db_def renewal_def)
  have "\<exists>t W1. run_state (ConsumeRefreshToken ?c) (drawn ?W) = (Inr t, W1) \<and> t_UserID t = 7 \<and>
      users (w_db W1) = users (token_db None) \<and> w_plan W1 = []"
    using find ne session_db_wf token_hash_hex
    by (simp add: ConsumeRefreshToken_cases)
       (simp add: sample_token_def session_db_def marked_used_def insert_token_stmt_def renewal_def
          token_db_def new_token_row_def check_row_def token_checks_def fresh_uuid_def Let_def mark_def
          sample_service_def)
  then obtain t W1 where c: "run_state (ConsumeRefreshToken ?c) (drawn ?W) = (Inr t, W1)" "t_UserID t = 7"
    "users (w_db W1) = users (token_db None)" "w_plan W1 = []" by blast
  have "\<exists>a W2. run_state (renewed sample_service tok t) W1 = (Inr a, W2)" for tok
    using c(2-4)
    by (simp add: renewed_def GetUserByID_def user_row_quiet sample_Issue countRefresh_def token_db_def)
  then show ?thesis using Refresh_run(1) [OF rnd _ c(1)] by simp
qed

lemma sample_registration:
  "\<exists>r W1. run_state (Register sample_service ''c@d.co'' ''correct horse'' None) (quiet (empty_db (unix 500))) = (Inr r, W1)"
proof -
  let ?d = "empty_db (unix 500)"
  let ?u = "new_user ''c@d.co'' (char_of (12::nat) # ''correct horse'') None"
  let ?row = "?u\<lparr>u_ID := 1, u_CreatedAt := unix 500, u_UpdatedAt := unix 500, u_DeletedAt := None\<rparr>"
  have trim: "trim_space ''c@d.co'' = ''c@d.co''" by code_simp
  have pw: "ValidatePassword ''correct horse'' = None" by code_simp
  have "fst (User_Validate ?u) = None" by code_simp
  moreover have "snd (User_Validate ?u) = ?u" by (simp add: User_Validate_def Let_def new_user_def trim)
  ultimately have v: "User_Validate ?u = (None, ?u)" by (metis prod.collapse)
  have "email_format ''c@d.co''" "char_length ''c@d.co'' = 6" by code_simp+
  then have chk: "check_row ''users'' user_checks ?row = None"
    by (simp add: check_row_None passes_def user_checks_def new_user_def)
  have create: "run_state (CreateUser ?u) W = (Inr ?row, W\<lparr>w_db := ?d\<lparr>users := [?row]\<rparr>\<rparr>)"
    if "w_plan W = []" "w_db W = ?d" for W
    using that chk
    by (simp add: CreateUser_def v run_stmt_quiet create_user_stmt_def Let_def)
       (simp add: fresh_uuid_def empty_db_def user_conflict_def new_user_def)
  have issue: "\<exists>r W1. run_state (issue sample_service ?row) W = (Inr r, W1)"
    if "w_plan W = []" "w_db W = ?d\<lparr>users := [?row]\<rparr>" for W
    using that token_hash_hex
    by (simp add: issue_def sample_Issue sample_NewRefreshToken Let_def CreateRefreshToken_def run_stmt_quiet
        insert_token_stmt_def new_session_def new_token_row_def check_row_def token_checks_def empty_db_def)
       (simp add: new_user_def sample_service_def)
  have hash: "run_state (Hash (as_lib sample_service) (as_hasher sample_service) ''correct horse'') W =
      (Inr (char_of (12::nat) # ''correct horse''), drawn W)" for W
    by (simp add: Hash_def pw drawn_def) (simp add: sample_service_def open_auth_def sample_auth_def)
  show ?thesis
    by (simp add: Register_def trim pw hash create countAuth_def Let_def)
       (intro conjI impI issue [simplified]; simp)
qed

section \<open>Properties\<close>

text \<open>
  C24 (a failed login tells nothing apart but the cost of the digest it met). Let the hasher be
  one that \<open>NewHasher\<close> built. In a quiet world a login that finds no account with a matching
  digest, whether the address is unknown, the account has no password or the password is
  wrong, gives the same error, counts the same metric, changes neither the database nor the
  random source, and spends exactly one bcrypt comparison: with the account's digest where it
  has one, else with the decoy, which is at the hasher's cost. So all three cost the same
  exactly as long as the account's digest is at the hasher's cost. A digest that was made at
  another cost, before the setting was changed, is compared at its own.
\<close>

theorem login_is_no_oracle:
  assumes "w_plan W = []" "bcrypt_laws (as_lib S)"
    and "run_state (NewHasher (as_lib S) cost) W0 = (Inr (as_hasher S), W1)"
    and "\<forall>u. login_user email (w_db W) = Some u \<longrightarrow> \<not> authentic S u pw"
  shows "(\<exists>ls. run_state (Login S email pw) W = refused S (compared S email (w_db W)) ls W) \<and>
         bcrypt_cost (as_lib S) (compared S email (w_db W)) =
           (case login_user email (w_db W) of
              None \<Rightarrow> Some (hs_cost (as_hasher S))
            | Some u \<Rightarrow> if digest_of u = [] then Some (hs_cost (as_hasher S))
                       else bcrypt_cost (as_lib S) (digest_of u))"
proof
  show "\<exists>ls. run_state (Login S email pw) W = refused S (compared S email (w_db W)) ls W"
    using assms(4) by (cases "login_user email (w_db W)") (auto simp: Login_run [OF assms(1)] compared_def)
  show "bcrypt_cost (as_lib S) (compared S email (w_db W)) =
      (case login_user email (w_db W) of
         None \<Rightarrow> Some (hs_cost (as_hasher S))
       | Some u \<Rightarrow> if digest_of u = [] then Some (hs_cost (as_hasher S))
                  else bcrypt_cost (as_lib S) (digest_of u))"
    using NewHasher_decoy [OF assms(2,3)] by (simp add: compared_def split: option.split)
qed

text \<open>An account with a digest at cost 10, and an address nobody has, under a hasher of cost 12.\<close>

definition password_db :: db where
  "password_db = (token_db None)\<lparr>users := map (u_PasswordHash_update (\<lambda>_. Some (char_of (10::nat) # ''correct horse'')))
     (users (token_db None))\<rparr>"

lemma password_user:
  "\<exists>u. login_user ''A@B.co'' password_db = Some u \<and> digest_of u = char_of (10::nat) # ''correct horse''"
  "login_user ''x@y.co'' password_db = None"
proof -
  have "trim_space ''A@B.co'' = ''A@B.co''" "trim_space ''x@y.co'' = ''x@y.co''"
    "to_lower ''A@B.co'' = ''a@b.co''" "to_lower ''x@y.co'' = ''x@y.co''" "to_lower ''a@b.co'' = ''a@b.co''" by code_simp+
  then show "\<exists>u. login_user ''A@B.co'' password_db = Some u \<and> digest_of u = char_of (10::nat) # ''correct horse''"
    "login_user ''x@y.co'' password_db = None"
    by (simp_all add: login_user_def password_db_def token_db_def digest_of_def)
qed

theorem login_is_no_oracle_witness:
  "(\<exists>ls. run_state (Login sample_service ''A@B.co'' ''wrong horse'') (quiet password_db) =
           refused sample_service (char_of (10::nat) # ''correct horse'') ls (quiet password_db)) \<and>
   bcrypt_cost open_auth (compared sample_service ''A@B.co'' password_db) = Some 10 \<and>
   (\<exists>ls. run_state (Login sample_service ''x@y.co'' ''wrong horse'') (quiet password_db) =
           refused sample_service (hs_decoy (as_hasher sample_service)) ls (quiet password_db)) \<and>
   bcrypt_cost open_auth (compared sample_service ''x@y.co'' password_db) = Some 12"
proof -
  have h: "run_state (NewHasher (as_lib sample_service) 0) (quiet password_db) =
      (Inr (as_hasher sample_service), (quiet password_db)\<lparr>w_draws := Suc (w_draws (quiet password_db))\<rparr>)"
    unfolding sample_service_lib by (rule sample_hasher)
  obtain u where u: "login_user ''A@B.co'' password_db = Some u" "digest_of u = char_of (10::nat) # ''correct horse''"
    using password_user(1) by blast
  have wrong: "\<not> authentic sample_service u ''wrong horse''"
    by (simp add: authentic_def u sample_service_lib) (simp add: open_auth_def sample_auth_def)
  have cost: "bcrypt_cost open_auth (char_of (10::nat) # p) = Some 10" "hs_cost (as_hasher sample_service) = 12" for p
    by (simp_all add: open_auth_def sample_auth_def sample_service_def byte_def)
  note known = login_is_no_oracle [OF _ _ h, of "quiet password_db" "''A@B.co''" "''wrong horse''"]
  note unknown = login_is_no_oracle [OF _ _ h, of "quiet password_db" "''x@y.co''" "''wrong horse''"]
  show ?thesis
    using known unknown wrong open_auth_laws
    by (simp add: sample_service_lib u password_user(2) cost compared_def)
qed

text \<open>
  C25 (a session needs the password). In a quiet world a login that returns a session returns it
  for a live account with that address, compared without case, whose stored digest verifies
  the password; and a refusal for bad credentials is given exactly when there is none.
\<close>

theorem Login_authenticates:
  assumes "w_plan W = []" "run_state (Login S email pw) W = (r, W')"
  shows "(\<forall>a. r = Inr a \<longrightarrow>
            (\<exists>u. login_user email (w_db W) = Some u \<and> authentic S u pw \<and> uv_ID (ar_User a) = u_ID u)) \<and>
         ((\<exists>e. r = Inl e \<and> err_is e ErrCredentialsMismatch) \<longleftrightarrow>
          \<not> (\<exists>u. login_user email (w_db W) = Some u \<and> authentic S u pw))"
proof (cases "\<exists>u. login_user email (w_db W) = Some u \<and> authentic S u pw")
  case True
  then obtain u u' W1 where u: "login_user email (w_db W) = Some u" "authentic S u pw"
    and re: "run_state (rehash S u (digest_of u) pw) (admitted S u W) = (u', W1)"
    and iss: "run_state (issue S u') W1 = (r, W')"
    using assms(2) by (auto simp: Login_run [OF assms(1)] split: prod.splits)
  have "u_ID u' = u_ID u" using re by (rule rehash_id)
  then show ?thesis using u iss issue_result issue_no_mismatch by (fastforce simp: viewOf_def)
next
  case False
  then have "r = Inl (Sentinel ErrCredentialsMismatch)"
    using assms(2) by (auto simp: Login_run [OF assms(1)] refused_def split: option.splits)
  with False show ?thesis by auto
qed

theorem Login_authenticates_witness:
  "\<exists>e. fst (run_state (Login sample_service ''a@b.co'' ''guess'') (quiet (token_db None))) = Inl e \<and>
       err_is e ErrCredentialsMismatch"
proof -
  obtain r W' where run: "run_state (Login sample_service ''a@b.co'' ''guess'') (quiet (token_db None)) = (r, W')"
    by fastforce
  with Login_authenticates [OF _ run] sample_no_password(2) show ?thesis by simp
qed

text \<open>
  C27 (a registered user can log in). In a quiet world, after a registration that succeeded, a
  login with the same address and password is never refused for its credentials, and a
  session it returns is for the account that was registered.
\<close>

theorem registered_user_logs_in:
  assumes "w_plan W = []" "bcrypt_laws (as_lib S)"
    and "run_state (Register S email pw name) W = (Inr r, W1)"
    and "run_state (Login S email pw) W1 = (r2, W2)"
  shows "(\<forall>e. r2 = Inl e \<longrightarrow> \<not> err_is e ErrCredentialsMismatch) \<and> (\<forall>a. r2 = Inr a \<longrightarrow> ar_User a = ar_User r)"
proof -
  obtain u where u: "login_user email (w_db W1) = Some u" "authentic S u pw"
    "\<not> NeedsRehash (as_lib S) (as_hasher S) (digest_of u)" "ar_User r = viewOf u" "w_plan W1 = []"
    using Register_login [OF assms(1-3)] by blast
  then have "run_state (issue S u) (admitted S u W1) = (r2, W2)"
    using assms(4) by (simp add: Login_run rehash_def)
  then show ?thesis using u(4) issue_result issue_no_mismatch by fastforce
qed

theorem registered_user_logs_in_witness:
  "\<exists>r W1. run_state (Register sample_service ''c@d.co'' ''correct horse'' None) (quiet (empty_db (unix 500))) = (Inr r, W1) \<and>
     (\<forall>e. fst (run_state (Login sample_service ''c@d.co'' ''correct horse'') W1) = Inl e \<longrightarrow>
          \<not> err_is e ErrCredentialsMismatch)"
proof -
  obtain r W1 where 1: "run_state (Register sample_service ''c@d.co'' ''correct horse'' None) (quiet (empty_db (unix 500))) = (Inr r, W1)"
    using sample_registration by blast
  obtain r2 W2 where 2: "run_state (Login sample_service ''c@d.co'' ''correct horse'') W1 = (r2, W2)" by fastforce
  with registered_user_logs_in [OF _ _ 1 2] open_auth_laws 1 show ?thesis by (auto simp: sample_service_lib)
qed

text \<open>
  C26 (a stolen refresh token ends the session). In a quiet world where the random source works,
  after a renewal succeeded, presenting the spent token again is answered as reuse, and from
  then on the successor that the renewal handed out is worth nothing either: the thief and
  the owner both have to sign in again.
\<close>

theorem stolen_token_ends_session:
  assumes "w_plan W = []" "tokens_wf (tokens (w_db W))"
    and "\<forall>n. \<exists>buf. rand_read (as_lib S) refreshTokenBytes n = Inr buf"
    and "run_state (Refresh S presented) W = (Inr a, W1)"
    and "run_state (Refresh S presented) W1 = (r2, W2)"
    and "run_state (Refresh S (ar_RefreshToken a)) W2 = (r3, W3)"
  shows "r2 = Inl (Sentinel ErrTokenReused) \<and> (\<exists>e. r3 = Inl e)"
proof -
  obtain buf stored Wa where p: "presented \<noteq> []"
    and c: "run_state (ConsumeRefreshToken (renewal S presented buf (clock (w_db W)))) (drawn W) = (Inr stored, Wa)"
    and a: "ar_RefreshToken a = base64_raw_url buf" and W1: "w_db W1 = w_db Wa" "w_plan W1 = []"
    using Refresh_exchanges [OF assms(1,4)] by metis
  obtain buf2 where b2: "rand_read (as_lib S) refreshTokenBytes (w_draws W1) = Inr buf2" using assms(3) by blast
  let ?c2 = "renewal S presented buf2 (clock (w_db W1))"
  have wfa: "tokens_wf (tokens (w_db Wa))" and qa: "w_plan Wa = []"
    using exchanged_wf [OF _ _ c] assms(1,2) by simp_all
  obtain r Wb where c2: "run_state (ConsumeRefreshToken ?c2) Wa = (r, Wb)" by fastforce
  note reuse = reuse_revokes [OF _ _ c c2, unfolded renewal_def, simplified]
  have r: "r = Inl (Sentinel ErrTokenReused)" using reuse assms(1,2) by simp
  obtain x where x: "x \<in> set (tokens (w_db Wb))" "t_TokenHash x = HashRefreshToken (ar_RefreshToken a)"
    "t_RevokedAt x \<noteq> None" "tokens_wf (tokens (w_db Wb))"
    using reuse assms(1,2) by (auto simp: a)
  obtain Wc where c2': "run_state (ConsumeRefreshToken ?c2) (drawn W1) = (r, Wc)" "w_db Wc = w_db Wb"
    using ConsumeRefreshToken_db [OF qa _ _ wfa, of "drawn W1" ?c2] c2 W1
    by (cases "run_state (ConsumeRefreshToken ?c2) (drawn W1)") simp
  note run2 = Refresh_run [OF b2 p c2'(1)]
  have r2: "r2 = Inl (Sentinel ErrTokenReused)" "w_db W2 = w_db Wb"
    using run2 assms(5) r c2'(2) by auto
  have "w_plan Wc = []" using advances_quiet keepsD [OF rotation_kept _ c2'(1)] W1(2) by (auto simp: env_ok_def)
  then have "w_plan W2 = []" using run2(2) assms(5) r by auto
  from Refresh_dead [OF this, of x "ar_RefreshToken a" S] x r2(2) assms(6) show ?thesis using r2(1) by auto
qed

theorem stolen_token_ends_session_witness:
  "\<exists>a W1. run_state (Refresh sample_service ''abc'') (quiet (session_db ''abc'')) = (Inr a, W1) \<and>
     fst (run_state (Refresh sample_service ''abc'') W1) = Inl (Sentinel ErrTokenReused)"
proof -
  obtain a W1 where 1: "run_state (Refresh sample_service ''abc'') (quiet (session_db ''abc'')) = (Inr a, W1)"
    using sample_renewal by blast
  obtain r2 W2 where 2: "run_state (Refresh sample_service ''abc'') W1 = (r2, W2)" by fastforce
  obtain r3 W3 where 3: "run_state (Refresh sample_service (ar_RefreshToken a)) W2 = (r3, W3)" by fastforce
  have "\<forall>n. \<exists>buf. rand_read (as_lib sample_service) refreshTokenBytes n = Inr buf"
    by (simp add: sample_service_lib open_auth_def sample_auth_def)
  with stolen_token_ends_session [OF _ _ _ 1 2 3] session_db_wf 1 2 show ?thesis by auto
qed

text \<open>
  C28 (logging out ends the session, and only that one). In a quiet world, logging out with a
  token the table knows reports no error, revokes every live token of its family, leaves the
  tokens of other families as they are, and afterwards no token of that family can be
  renewed.
\<close>

theorem logout_ends_session:
  assumes "w_plan W = []" "tokens_wf (tokens (w_db W))" "presented \<noteq> []"
    and "find (\<lambda>t. t_TokenHash t = HashRefreshToken presented) (tokens (w_db W)) = Some x"
    and "run_state (Logout presented) W = (e, W1)"
  shows "e = None \<and>
         (\<forall>t \<in> set (tokens (w_db W)). t_FamilyID t \<noteq> t_FamilyID x \<longrightarrow> t \<in> set (tokens (w_db W1))) \<and>
         (\<forall>t \<in> set (tokens (w_db W1)). t_FamilyID t = t_FamilyID x \<longrightarrow> t_RevokedAt t \<noteq> None) \<and>
         (\<forall>t \<in> set (tokens (w_db W1)). \<forall>q. t_FamilyID t = t_FamilyID x \<and> t_TokenHash t = HashRefreshToken q \<longrightarrow>
            (\<exists>err. fst (run_state (Refresh S q) W1) = Inl err))"
proof -
  have e: "e = None" and W1: "w_db W1 = family_revoked (t_FamilyID x) ''signed out'' (w_db W)" "w_plan W1 = []"
    using Logout_run [OF assms(1-3)] assms(1,4,5) by auto
  have wf: "tokens_wf (tokens (w_db W1))" unfolding W1(1) using assms(2) by (rule tokens_wf_revoked)
  have dead: "t_RevokedAt t \<noteq> None" if "t \<in> set (tokens (w_db W1))" "t_FamilyID t = t_FamilyID x" for t
    using family_revoked_dead that unfolding W1(1) by blast
  have others: "t \<in> set (tokens (w_db W1))" if "t \<in> set (tokens (w_db W))" "t_FamilyID t \<noteq> t_FamilyID x" for t
    using that by (force simp: W1(1) family_revoked_def revoke_in_def image_iff)
  show ?thesis using e others dead Refresh_dead [OF W1(2) wf] by blast
qed

theorem logout_ends_session_witness:
  "fst (run_state (Logout ''tok'') (quiet (session_db ''tok''))) = None \<and>
   (\<exists>err. fst (run_state (Refresh sample_service ''tok'') (snd (run_state (Logout ''tok'') (quiet (session_db ''tok''))))) = Inl err)"
proof -
  let ?W = "quiet (session_db ''tok'')"
  let ?x = "(sample_token None)\<lparr>t_TokenHash := HashRefreshToken ''tok''\<rparr>"
  obtain e W1 where run: "run_state (Logout ''tok'') ?W = (e, W1)" by fastforce
  have x: "find (\<lambda>t. t_TokenHash t = HashRefreshToken ''tok'') (tokens (w_db ?W)) = Some ?x"
    by (simp add: session_db_def)
  note out = logout_ends_session [OF _ _ _ x run, of sample_service]
  have "revoke_in 3 ''signed out'' (unix 500) ?x \<in> set (tokens (w_db W1))"
    using Logout_run [of ?W "''tok''"] run session_db_wf x
    by (auto simp: session_db_def family_revoked_def sample_token_def token_db_def)
  then show ?thesis using out run session_db_wf by (force simp: sample_token_def)
qed

text \<open>
  The accounts keep their constraints. Whatever a request to the authentication service
  does, and whatever other workers do meanwhile as long as they keep them too, the users
  table keeps its constraints: every row passes the checks, identifiers are distinct, no two
  live accounts share an address up to case, and no two share a Stripe customer.
\<close>

theorem accounts_stay_consistent:
  assumes "env_ok users_kept W" "users_wf (users (w_db W))"
  shows "users_wf (users (w_db (snd (run_state (Register S email pw name) W)))) \<and>
         users_wf (users (w_db (snd (run_state (Login S email pw) W)))) \<and>
         users_wf (users (w_db (snd (run_state (Refresh S presented) W)))) \<and>
         users_wf (users (w_db (snd (run_state (Logout presented) W))))"
  by (intro conjI keeps_users [OF _ assms] accounts.keeps_auth)

theorem accounts_stay_consistent_witness:
  "users_wf (users (w_db (snd (run_state (Register sample_service ''c@d.co'' ''correct horse'' None)
     (quiet (token_db None))))))"
proof -
  have "users_wf (users (w_db (quiet (token_db None))))"
    by (simp add: users_wf_def token_db_def passes_def user_checks_def char_length_def rune_start_def byte_def)
       code_simp
  then show ?thesis using accounts_stay_consistent [of "quiet (token_db None)"] by simp
qed

text \<open>
  C31 (what a minted token looks like). A refresh token minted from thirty-two random bytes is 43
  characters that need no escaping in a cookie, and the hash stored for it has the form the
  table demands: 64 lower-case hexadecimal digits.
\<close>

theorem minted_token_shape:
  assumes "\<forall>n buf. rand_read L refreshTokenBytes n = Inr buf \<longrightarrow> length buf = refreshTokenBytes"
    and "run_state (NewRefreshToken L) W = (Inr (token, hash), W')"
  shows "length token = 43 \<and> list_all url_safe token \<and> hash = HashRefreshToken token \<and>
         length hash = 64 \<and> list_all is_hex hash"
proof -
  obtain buf where b: "rand_read L refreshTokenBytes (w_draws W) = Inr buf" "token = base64_raw_url buf"
    "hash = HashRefreshToken token"
    using assms(2) by (auto simp: NewRefreshToken_def Let_def split: sum.splits)
  have "length buf = 32" using assms(1) b(1) by (simp add: refreshTokenBytes_def)
  then show ?thesis using b base64_url_safe token_hash_hex by (simp add: base64_length)
qed

theorem minted_token_shape_witness:
  "\<exists>token. fst (run_state (NewRefreshToken sample_auth) (quiet (token_db None))) = Inr (token, HashRefreshToken token) \<and>
           length token = 43"
proof -
  obtain token hash W' where run: "run_state (NewRefreshToken sample_auth) (quiet (token_db None)) = (Inr (token, hash), W')"
    by (simp add: NewRefreshToken_def sample_auth_def Let_def)
  then show ?thesis using minted_token_shape [OF _ run] by (simp add: sample_auth_def)
qed

end
