(* ===== verification/Billing_Services.thy ===== *)
theory Billing_Services
  imports User_Repo Stripe_Client
begin

text \<open>
  internal/service/checkout_service.go and subscription_service.go: the two services behind the
  billing pages. \<open>CheckoutService\<close> opens Stripe sessions for the user of the request and
  reads nothing but that user's row; \<open>SubscriptionService\<close> answers with a view of the
  user's latest subscription.

  \<open>url.Parse\<close> followed by \<open>IsAbs\<close> is the parameter \<open>url_abs\<close> (true when the
  address parses and has a scheme). Go ranges over a map in no fixed order, so the order in
  which \<open>validate\<close> meets its four addresses is a parameter too.
\<close>

section \<open>Checkout\<close>

record CheckoutConfig =
  cc_SuccessURL :: string
  cc_CancelURL :: string
  cc_ReturnURL :: string
  cc_PortalReturnURL :: string
  cc_AllowedPriceIDs :: "string list"

definition checkout_urls :: "CheckoutConfig \<Rightarrow> (string \<times> string) list" where
  "checkout_urls c =
     [(''success_url'', cc_SuccessURL c), (''cancel_url'', cc_CancelURL c),
      (''return_url'', cc_ReturnURL c), (''portal_return_url'', cc_PortalReturnURL c)]"

definition url_problem :: "(string \<Rightarrow> bool) \<Rightarrow> string \<times> string \<Rightarrow> string list" where
  "url_problem url_abs = (\<lambda>(name, raw).
     if raw = []
     then (if name = ''return_url'' \<or> name = ''portal_return_url'' then [] else [name @ '' is required''])
     else if \<not> url_abs raw then [name @ '' must be an absolute URL'']
     else [])"

text \<open>\<open>range_order\<close> lists the entries of a map in the order an iteration meets them.\<close>

definition CheckoutConfig_validate ::
  "(string \<Rightarrow> bool) \<Rightarrow> ((string \<times> string) list \<Rightarrow> (string \<times> string) list) \<Rightarrow> CheckoutConfig \<Rightarrow> goerr option" where
  "CheckoutConfig_validate url_abs range_order c =
     (let problems = concat (map (url_problem url_abs) (range_order (checkout_urls c)))
      in if problems = [] then None else Some (Text (''checkout config: '' @ join ''; '' problems)))"

definition priceAllowed :: "CheckoutConfig \<Rightarrow> string \<Rightarrow> bool" where
  "priceAllowed c i \<longleftrightarrow> cc_AllowedPriceIDs c = [] \<or> list_ex (\<lambda>allowed. allowed = i) (cc_AllowedPriceIDs c)"

record CheckoutService =
  ck_lib :: stripe_lib
  ck_cfg :: CheckoutConfig

definition NewCheckoutService ::
  "(string \<Rightarrow> bool) \<Rightarrow> ((string \<times> string) list \<Rightarrow> (string \<times> string) list) \<Rightarrow> stripe_lib \<Rightarrow> CheckoutConfig \<Rightarrow>
   CheckoutService result prog" where
  "NewCheckoutService url_abs range_order L cfg =
     (case CheckoutConfig_validate url_abs range_order cfg of
        Some e \<Rightarrow> State_Monad.return (Inl e)
      | None \<Rightarrow> do {
          (if cc_AllowedPriceIDs cfg = []
           then log_line Warn ''checkout price allowlist is empty; any price id will be accepted''
           else State_Monad.return ());
          State_Monad.return (Inr \<lparr>ck_lib = L, ck_cfg = cfg\<rparr>) })"

record CheckoutRequest =
  cq_UserID :: uuid
  cq_PriceID :: string
  cq_Quantity :: int
  cq_TrialPeriodDays :: int
  cq_Embedded :: bool

record CheckoutResult =
  cz_SessionID :: string
  cz_URL :: string
  cz_ClientSecret :: string

text \<open>The input for Stripe, from the request and the user's row.\<close>

definition checkout_input :: "CheckoutService \<Rightarrow> CheckoutRequest \<Rightarrow> User \<Rightarrow> CheckoutSessionInput" where
  "checkout_input S req user =
     \<lparr>ci_UIMode = (if cq_Embedded req then UIModeEmbedded else UIModeHosted),
      ci_ReturnURL = (if cq_Embedded req then cc_ReturnURL (ck_cfg S) else []),
      ci_PriceID = cq_PriceID req, ci_Quantity = cq_Quantity req,
      ci_CustomerID = (case u_StripeCustomerID user of Some c \<Rightarrow> c | None \<Rightarrow> []),
      ci_CustomerEmail = (case u_StripeCustomerID user of Some _ \<Rightarrow> [] | None \<Rightarrow> u_Email user),
      ci_ClientReferenceID = uuid_string (ck_lib S) (u_ID user),
      ci_SuccessURL = cc_SuccessURL (ck_cfg S), ci_CancelURL = cc_CancelURL (ck_cfg S),
      ci_TrialPeriodDays = cq_TrialPeriodDays req, ci_AllowPromotionCodes = False,
      ci_Metadata = [(''user_id'', uuid_string (ck_lib S) (u_ID user))]\<rparr>"

definition load_user :: "uuid \<Rightarrow> User result prog" where
  "load_user i = do {
     r \<leftarrow> GetUserByID i;
     State_Monad.return (case r of
       Inl e \<Rightarrow> if err_is e ErrNotFound then Inl e else Inl (Wrap ''load user: '' e [])
     | Inr user \<Rightarrow> Inr user) }"

definition CheckoutService_CreateCheckoutSession ::
  "CheckoutService \<Rightarrow> CheckoutRequest \<Rightarrow> CheckoutResult result prog" where
  "CheckoutService_CreateCheckoutSession S req0 =
     (let req = (if cq_Quantity req0 \<le> 0 then req0\<lparr>cq_Quantity := 1\<rparr> else req0)
      in if \<not> priceAllowed (ck_cfg S) (cq_PriceID req)
         then State_Monad.return (Inl (Wrap [] (Sentinel ErrValidation)
                ('': price '' @ go_quote (cq_PriceID req) @ '' is not offered'')))
         else do {
           u \<leftarrow> load_user (cq_UserID req);
           (case u of
              Inl e \<Rightarrow> State_Monad.return (Inl e)
            | Inr user \<Rightarrow>
                if cq_Embedded req \<and> cc_ReturnURL (ck_cfg S) = []
                then State_Monad.return (Inl (Wrap [] (Sentinel ErrValidation)
                       '': embedded checkout is not configured on this deployment''))
                else do {
                  r \<leftarrow> CreateCheckoutSession (ck_lib S) (checkout_input S req user);
                  (case r of
                     Inl e \<Rightarrow> State_Monad.return (Inl e)
                   | Inr session \<Rightarrow> do {
                       log_line Info ''checkout session created'';
                       State_Monad.return (Inr \<lparr>cz_SessionID = co_ID session, cz_URL = co_URL session,
                                                cz_ClientSecret = co_ClientSecret session\<rparr>) }) }) })"

text \<open>The result is the address of the portal session.\<close>

definition CheckoutService_CreatePortalSession :: "CheckoutService \<Rightarrow> uuid \<Rightarrow> string result prog" where
  "CheckoutService_CreatePortalSession S userID =
     (if cc_PortalReturnURL (ck_cfg S) = []
      then State_Monad.return (Inl (Wrap [] (Sentinel ErrValidation)
             '': the billing portal is not configured on this deployment''))
      else do {
        u \<leftarrow> load_user userID;
        (case u of
           Inl e \<Rightarrow> State_Monad.return (Inl e)
         | Inr user \<Rightarrow>
             (case u_StripeCustomerID user of
                None \<Rightarrow> State_Monad.return (Inl (Wrap [] (Sentinel ErrNotFound) '': no billing account for this user''))
              | Some c \<Rightarrow> do {
                  r \<leftarrow> CreatePortalSession (ck_lib S) c (cc_PortalReturnURL (ck_cfg S));
                  (case r of
                     Inl e \<Rightarrow> State_Monad.return (Inl e)
                   | Inr session \<Rightarrow> do {
                       log_line Info ''billing portal session created'';
                       State_Monad.return (Inr (po_URL session)) }) })) })"

section \<open>Subscriptions\<close>

record SubscriptionView =
  sv_Status :: string
  sv_IsActive :: bool
  sv_PriceID :: string
  sv_Quantity :: int
  sv_Currency :: "string option"
  sv_UnitAmount :: "int option"
  sv_CurrentPeriodEnd :: time
  sv_CancelAtPeriodEnd :: bool
  sv_CanceledAt :: "time option"
  sv_TrialEnd :: "time option"

definition subscription_view :: "Subscription \<Rightarrow> SubscriptionView" where
  "subscription_view s =
     \<lparr>sv_Status = s_Status s, sv_IsActive = Subscription_IsLive s, sv_PriceID = s_StripePriceID s,
      sv_Quantity = s_Quantity s, sv_Currency = s_Currency s, sv_UnitAmount = s_UnitAmount s,
      sv_CurrentPeriodEnd = s_CurrentPeriodEnd s, sv_CancelAtPeriodEnd = s_CancelAtPeriodEnd s,
      sv_CanceledAt = s_CanceledAt s, sv_TrialEnd = s_TrialEnd s\<rparr>"

definition GetForUser :: "uuid \<Rightarrow> SubscriptionView result prog" where
  "GetForUser userID = do {
     r \<leftarrow> GetLatestSubscriptionByUserID userID;
     State_Monad.return (case r of
       Inl e \<Rightarrow> if err_is e ErrNotFound then Inl e else Inl (Wrap ''load subscription: '' e [])
     | Inr s \<Rightarrow> Inr (subscription_view s)) }"

section \<open>Relations kept by the services\<close>

context user_relation begin

lemma keeps_stripe_calls [keeps_rules]:
  "keeps R (CreateCheckoutSession L i)" "keeps R (CreatePortalSession L c u)"
  unfolding CreateCheckoutSession_def CreatePortalSession_def by (intro keeps_rules)+

lemma keeps_load_user [keeps_rules]: "keeps R (load_user i)"
  unfolding load_user_def by (intro keeps_rules)

lemma keeps_checkout [keeps_rules]:
  "keeps R (CheckoutService_CreateCheckoutSession S q)" "keeps R (CheckoutService_CreatePortalSession S i)"
  unfolding CheckoutService_CreateCheckoutSession_def CheckoutService_CreatePortalSession_def Let_def
  by (intro keeps_rules)+

end

lemma load_user_quiet:
  assumes "w_plan W = []"
  shows "run_state (load_user i) W =
    ((case find (\<lambda>u. u_ID u = i \<and> u_DeletedAt u = None) (users (w_db W)) of
        None \<Rightarrow> Inl (Wrap ''get user by id: '' (Sentinel ErrNotFound) []) | Some u \<Rightarrow> Inr u), W)"
  by (simp add: load_user_def GetUserByID_def user_row_quiet [OF assms] split: option.split)

section \<open>Properties\<close>

text \<open>
  C30 (a billing session belongs to the caller). Whatever the request says, in a quiet world a
  checkout session that was opened was opened with an offered price, for the live account
  the request was authenticated as: its identifier is the reference and the metadata that
  come back with the webhook, its Stripe customer is used if it has one and its address
  otherwise; and a portal session that was opened was opened for the customer of that
  account and no other.
\<close>

theorem billing_session_is_own:
  assumes "w_plan W = []"
  shows "(\<forall>z. fst (run_state (CheckoutService_CreateCheckoutSession S req) W) = Inr z \<longrightarrow>
            (\<exists>u i s. u \<in> set (users (w_db W)) \<and> u_ID u = cq_UserID req \<and> u_DeletedAt u = None \<and>
               sdk_create_session (ck_lib S) (clock (w_db W)) (checkout_params i) = Inr s \<and> cz_SessionID z = sn_ID s \<and>
               priceAllowed (ck_cfg S) (cp_Price (checkout_params i)) \<and> 0 < cp_Quantity (checkout_params i) \<and>
               ci_ClientReferenceID i = uuid_string (ck_lib S) (cq_UserID req) \<and>
               cp_Metadata (checkout_params i) = [(''user_id'', uuid_string (ck_lib S) (cq_UserID req))] \<and>
               (case u_StripeCustomerID u of
                  Some c \<Rightarrow> ci_CustomerID i = c \<and> ci_CustomerEmail i = []
                | None \<Rightarrow> ci_CustomerID i = [] \<and> ci_CustomerEmail i = u_Email u))) \<and>
         (\<forall>url. fst (run_state (CheckoutService_CreatePortalSession S userID) W) = Inr url \<longrightarrow>
            (\<exists>u c i. u \<in> set (users (w_db W)) \<and> u_ID u = userID \<and> u_DeletedAt u = None \<and>
               u_StripeCustomerID u = Some c \<and>
               sdk_create_portal (ck_lib S) (clock (w_db W)) c (cc_PortalReturnURL (ck_cfg S)) = Inr (i, url)))"
proof (intro conjI allI impI)
  fix z
  assume z: "fst (run_state (CheckoutService_CreateCheckoutSession S req) W) = Inr z"
  let ?req = "if cq_Quantity req \<le> 0 then req\<lparr>cq_Quantity := 1\<rparr> else req"
  have q: "0 < cq_Quantity ?req" "cq_UserID ?req = cq_UserID req" "cq_PriceID ?req = cq_PriceID req" by simp_all
  have price: "priceAllowed (ck_cfg S) (cq_PriceID req)"
    using z by (auto simp: CheckoutService_CreateCheckoutSession_def Let_def split: if_splits)
  obtain u where u: "find (\<lambda>u. u_ID u = cq_UserID req \<and> u_DeletedAt u = None) (users (w_db W)) = Some u"
    using z price by (auto simp: CheckoutService_CreateCheckoutSession_def Let_def load_user_quiet [OF assms]
        split: option.splits if_splits)
  then have u': "u \<in> set (users (w_db W))" "u_ID u = cq_UserID req" "u_DeletedAt u = None"
    by (auto dest: find_mem)
  let ?i = "checkout_input S ?req u"
  obtain s where s: "sdk_create_session (ck_lib S) (clock (w_db W)) (checkout_params ?i) = Inr s" "cz_SessionID z = sn_ID s"
    using z price u
    by (auto simp: CheckoutService_CreateCheckoutSession_def Let_def load_user_quiet [OF assms]
        CreateCheckoutSession_def split: option.splits if_splits sum.splits)
  show "\<exists>u i s. u \<in> set (users (w_db W)) \<and> u_ID u = cq_UserID req \<and> u_DeletedAt u = None \<and>
      sdk_create_session (ck_lib S) (clock (w_db W)) (checkout_params i) = Inr s \<and> cz_SessionID z = sn_ID s \<and>
      priceAllowed (ck_cfg S) (cp_Price (checkout_params i)) \<and> 0 < cp_Quantity (checkout_params i) \<and>
      ci_ClientReferenceID i = uuid_string (ck_lib S) (cq_UserID req) \<and>
      cp_Metadata (checkout_params i) = [(''user_id'', uuid_string (ck_lib S) (cq_UserID req))] \<and>
      (case u_StripeCustomerID u of
         Some c \<Rightarrow> ci_CustomerID i = c \<and> ci_CustomerEmail i = []
       | None \<Rightarrow> ci_CustomerID i = [] \<and> ci_CustomerEmail i = u_Email u)"
    by (intro exI [of _ u] exI [of _ ?i] exI [of _ s] conjI u' s)
       (use price u'(2) in \<open>simp_all add: checkout_params_def checkout_input_def split: option.split\<close>)
next
  fix url
  assume "fst (run_state (CheckoutService_CreatePortalSession S userID) W) = Inr url"
  then show "\<exists>u c i. u \<in> set (users (w_db W)) \<and> u_ID u = userID \<and> u_DeletedAt u = None \<and>
      u_StripeCustomerID u = Some c \<and>
      sdk_create_portal (ck_lib S) (clock (w_db W)) c (cc_PortalReturnURL (ck_cfg S)) = Inr (i, url)"
    by (auto simp: CheckoutService_CreatePortalSession_def load_user_quiet [OF assms] CreatePortalSession_def
        split: option.splits if_splits sum.splits dest: find_mem)
qed

definition till_lib :: stripe_lib where
  "till_lib =
     \<lparr>construct_event = (\<lambda>_ _ _ _ _ _. Inl ''no''), sdk_version = ''2026-08-26.dahlia'',
      CheckoutSessionModeSubscription = ''subscription'',
      unmarshal_event = (\<lambda>_. Inl ''no''), unmarshal_session = (\<lambda>_. Inl ''no''),
      unmarshal_subscription = (\<lambda>_. Inl ''no''), unmarshal_invoice = (\<lambda>_. Inl ''no''),
      sdk_create_session = (\<lambda>_ p. Inr \<lparr>sn_ID = ''cs_1'', sn_URL = ''https://pay'', sn_ClientSecret = [], sn_ExpiresAt = 0\<rparr>),
      sdk_create_portal = (\<lambda>_ c r. Inr (''bps_1'', c)), sdk_retrieve = (\<lambda>_ _. Inl (NoAPIError ''no'')),
      uuid_parse = (\<lambda>s. Some (length s)), uuid_string = (\<lambda>i. replicate i (CHR ''1''))\<rparr>"

definition till :: CheckoutService where
  "till = \<lparr>ck_lib = till_lib,
           ck_cfg = \<lparr>cc_SuccessURL = ''https://a/ok'', cc_CancelURL = ''https://a/no'', cc_ReturnURL = [],
                     cc_PortalReturnURL = ''https://a/'', cc_AllowedPriceIDs = [''price_1'']\<rparr>\<rparr>"

definition till_db :: db where
  "till_db =
     \<lparr>clock = unix 500,
      users = [\<lparr>u_ID = 2, u_Email = ''a@b.co'', u_EmailVerifiedAt = None, u_PasswordHash = None,
               u_FullName = None, u_StripeCustomerID = Some ''cus_1'', u_Metadata = [], u_CreatedAt = unix 1,
               u_UpdatedAt = unix 1, u_DeletedAt = None\<rparr>],
      subs = [], hooks = [], tokens = []\<rparr>"

theorem billing_session_is_own_witness:
  "fst (run_state (CheckoutService_CreatePortalSession till 2) (quiet till_db)) = Inr ''cus_1'' \<and>
   (\<exists>u c. u \<in> set (users till_db) \<and> u_ID u = 2 \<and> u_StripeCustomerID u = Some c \<and>
      sdk_create_portal till_lib (clock till_db) c ''https://a/'' = Inr (''bps_1'', ''cus_1''))"
proof -
  have run: "fst (run_state (CheckoutService_CreatePortalSession till 2) (quiet till_db)) = Inr ''cus_1''"
    by (simp add: CheckoutService_CreatePortalSession_def load_user_quiet)
       (simp add: till_db_def till_def till_lib_def CreatePortalSession_def has_prefix_def)
  have own: "\<exists>u c i. u \<in> set (users till_db) \<and> u_ID u = 2 \<and> u_DeletedAt u = None \<and> u_StripeCustomerID u = Some c \<and>
      sdk_create_portal (ck_lib till) (clock till_db) c (cc_PortalReturnURL (ck_cfg till)) = Inr (i, ''cus_1'')"
    using conjunct2 [OF billing_session_is_own [of "quiet till_db" till _ 2]] run by simp
  show ?thesis using run own by (auto simp: till_def till_lib_def)
qed

end
