(* ===== verification/Http.thy ===== *)
theory Http
  imports Exec Bytes_Codec
begin

text \<open>
  Requests, responses and handlers, and the middleware of internal/handler/middleware except
  the rate limiter and the authentication.

  A handler takes the request and the response writer as they are and returns how it ended
  and the writer it leaves. The writer sends its header once: what is set afterwards has no
  effect, and writing a body sends status 200 first. \<open>responseRecorder\<close> records just
  what the writer knows, so the recorder and the writer it wraps are one state; wrapping
  twice gives the same recorder. A panic unwinds through a middleware, which then only runs
  what it deferred. Header names are in Go's canonical form. The request's context carries
  the request id and the authenticated user; \<open>ctx_err\<close> tells whether the client went
  away.
\<close>

section \<open>Requests and responses\<close>

type_synonym headers = "(string \<times> string) list"

record Request =
  req_Method :: string
  req_Path :: string
  req_Header :: headers
  req_RemoteAddr :: string
  req_Body :: bytes
  req_BodyError :: "string option"
  req_Cookies :: "(string \<times> string) list"
  req_Pattern :: string
  req_RequestID :: string
  req_User :: "uuid option"
  req_TokenID :: string

record Writer =
  rw_Header :: headers
  rw_Sent :: "(int \<times> headers) option"
  rw_Body :: bytes

text \<open>Whether a panic carries \<open>http.ErrAbortHandler\<close>.\<close>

datatype ending = Returned | Panicked bool

type_synonym handler = "Request \<Rightarrow> Writer \<Rightarrow> (ending \<times> Writer) prog"
type_synonym middleware = "handler \<Rightarrow> handler"

definition new_writer :: Writer where
  "new_writer = \<lparr>rw_Header = [], rw_Sent = None, rw_Body = []\<rparr>"

definition header_get :: "headers \<Rightarrow> string \<Rightarrow> string" where
  "header_get hs k = (case map_of hs k of None \<Rightarrow> [] | Some v \<Rightarrow> v)"

definition header_values :: "headers \<Rightarrow> string \<Rightarrow> string list" where
  "header_values hs k = map snd (filter (\<lambda>(k', v). k' = k) hs)"

definition header_set :: "string \<Rightarrow> string \<Rightarrow> headers \<Rightarrow> headers" where
  "header_set k v hs = filter (\<lambda>(k', v). k' \<noteq> k) hs @ [(k, v)]"

definition set_header :: "string \<Rightarrow> string \<Rightarrow> Writer \<Rightarrow> Writer" where
  "set_header k v w = w\<lparr>rw_Header := header_set k v (rw_Header w)\<rparr>"

definition add_header :: "string \<Rightarrow> string \<Rightarrow> Writer \<Rightarrow> Writer" where
  "add_header k v w = w\<lparr>rw_Header := rw_Header w @ [(k, v)]\<rparr>"

section \<open>The recorder\<close>

definition recorder_status :: "Writer \<Rightarrow> int" where
  "recorder_status w = (case rw_Sent w of None \<Rightarrow> 200 | Some (code, hs) \<Rightarrow> code)"

definition recorder_written :: "Writer \<Rightarrow> int" where
  "recorder_written w = int (length (rw_Body w))"

definition wroteHeader :: "Writer \<Rightarrow> bool" where
  "wroteHeader w \<longleftrightarrow> rw_Sent w \<noteq> None"

definition recorder_WriteHeader :: "int \<Rightarrow> Writer \<Rightarrow> Writer" where
  "recorder_WriteHeader code w = (if wroteHeader w then w else w\<lparr>rw_Sent := Some (code, rw_Header w)\<rparr>)"

definition recorder_Write :: "bytes \<Rightarrow> Writer \<Rightarrow> Writer" where
  "recorder_Write b w =
     (let w1 = (if wroteHeader w then w else recorder_WriteHeader 200 w)
      in w1\<lparr>rw_Body := rw_Body w1 @ b\<rparr>)"

section \<open>Errors as JSON\<close>

definition quote_char :: "char \<Rightarrow> string" where
  "quote_char c =
     (if c = CHR 0x22 \<or> c = CHR 0x5C then [CHR 0x5C, c]
      else if c = CHR 0x0A then [CHR 0x5C, CHR ''n'']
      else if c = CHR 0x0D then [CHR 0x5C, CHR ''r'']
      else if c = CHR 0x09 then [CHR 0x5C, CHR ''t'']
      else if byte c < 32 then []
      else [c])"

definition quoteJSON :: "string \<Rightarrow> string" where
  "quoteJSON s = [CHR 0x22] @ concat (map quote_char s) @ [CHR 0x22]"

definition json_headers :: "Writer \<Rightarrow> Writer" where
  "json_headers w =
     set_header ''Cache-Control'' ''no-store'' (set_header ''Content-Type'' ''application/json; charset=utf-8'' w)"

definition writeJSONError :: "int \<Rightarrow> string \<Rightarrow> Writer \<Rightarrow> Writer" where
  "writeJSONError status message w =
     recorder_Write ([CHR ''{'', CHR 0x22] @ ''error'' @ [CHR 0x22, CHR '':''] @ quoteJSON message @ ''}'')
       (recorder_WriteHeader status (json_headers w))"

section \<open>Request ids\<close>

abbreviation RequestIDHeader :: string where "RequestIDHeader \<equiv> ''X-Request-Id''"

definition maxInboundRequestIDLen :: nat where "maxInboundRequestIDLen = 128"

definition isPrintableASCII :: "string \<Rightarrow> bool" where
  "isPrintableASCII s \<longleftrightarrow> list_all (\<lambda>c. 32 \<le> byte c \<and> byte c \<le> 126) s"

text \<open>The random source of the process; an error means that it cannot be read.\<close>

type_synonym random = "nat \<Rightarrow> nat \<Rightarrow> string + bytes"

definition newRequestID :: "random \<Rightarrow> string prog" where
  "newRequestID rnd = do {
     n \<leftarrow> draw;
     now \<leftarrow> get_now;
     State_Monad.return
       (case rnd 16 n of
          Inl e \<Rightarrow> ''ts-'' @ format_int now
        | Inr b \<Rightarrow> hex_encode b) }"

definition RequestID :: "random \<Rightarrow> middleware" where
  "RequestID rnd nxt r w =
     (let inbound = header_get (req_Header r) RequestIDHeader
      in do {
        i \<leftarrow> (if inbound = [] \<or> maxInboundRequestIDLen < length inbound \<or> \<not> isPrintableASCII inbound
              then newRequestID rnd else State_Monad.return inbound);
        nxt (r\<lparr>req_RequestID := i\<rparr>) (set_header RequestIDHeader i w) })"

section \<open>Access log, metrics, recovery, deadline\<close>

definition QuietPaths :: "string list" where
  "QuietPaths = [''/healthz'', ''/livez'']"

definition access_level :: "Request \<Rightarrow> Writer \<Rightarrow> level" where
  "access_level r w =
     (if 500 \<le> recorder_status w then Error
      else if 400 \<le> recorder_status w then Warn
      else if req_Path r \<in> set QuietPaths then Debug
      else Info)"

definition AccessLog :: middleware where
  "AccessLog nxt r w = do {
     (x, w1) \<leftarrow> nxt r w;
     (case x of
        Panicked a \<Rightarrow> State_Monad.return (Panicked a, w1)
      | Returned \<Rightarrow> do {
          log_line (access_level r w1) ''request'';
          State_Monad.return (Returned, w1) }) }"

definition routeLabel :: "Request \<Rightarrow> string" where
  "routeLabel r = (if req_Pattern r \<noteq> [] then req_Pattern r else ''unmatched'')"

definition Metrics :: middleware where
  "Metrics nxt r w = do {
     observe True IncInFlight;
     start \<leftarrow> get_now;
     (x, w1) \<leftarrow> nxt r w;
     (case x of
        Panicked a \<Rightarrow> do {
          observe True DecInFlight;
          State_Monad.return (Panicked a, w1) }
      | Returned \<Rightarrow> do {
          now \<leftarrow> get_now;
          observe True (ObserveRequest (req_Method r) (routeLabel r) (format_int (recorder_status w1))
                          (now - start) (recorder_written w1));
          observe True DecInFlight;
          State_Monad.return (Returned, w1) }) }"

definition Recoverer :: middleware where
  "Recoverer nxt r w = do {
     (x, w1) \<leftarrow> nxt r w;
     (case x of
        Returned \<Rightarrow> State_Monad.return (Returned, w1)
      | Panicked abort \<Rightarrow>
          if abort then State_Monad.return (Panicked True, w1)
          else do {
            canceled \<leftarrow> ctx_err;
            (if canceled then State_Monad.return (Returned, w1)
             else do {
               log_line Error ''panic recovered'';
               State_Monad.return (Returned, writeJSONError 500 ''internal server error'' w1) }) }) }"

definition Timeout :: "duration \<Rightarrow> middleware" where
  "Timeout d nxt r w = do {
     start \<leftarrow> get_now;
     (x, w1) \<leftarrow> nxt r w;
     (case x of
        Panicked a \<Rightarrow> State_Monad.return (Panicked a, w1)
      | Returned \<Rightarrow>
          if wroteHeader w1 then State_Monad.return (Returned, w1)
          else do {
            canceled \<leftarrow> ctx_err;
            now \<leftarrow> get_now;
            (if canceled \<or> now < start + d then State_Monad.return (Returned, w1)
             else do {
               log_line Warn ''request deadline exceeded'';
               State_Monad.return (Returned, writeJSONError 503 ''request timed out'' w1) }) }) }"

section \<open>Cross-origin requests\<close>

record CORSConfig =
  co_AllowedOrigins :: "string list"
  co_MaxAge :: duration

definition defaultCORSMaxAge :: duration where "defaultCORSMaxAge = 10 * minute"

definition corsAllowedMethods :: string where
  "corsAllowedMethods = join '', '' [''GET'', ''POST'', ''OPTIONS'']"

definition corsAllowedHeaders :: string where
  "corsAllowedHeaders = join '', '' [''Content-Type'', ''Authorization'', RequestIDHeader]"

text \<open>\<open>strings.TrimSuffix(o, "/")\<close>.\<close>

definition trim_slash :: "string \<Rightarrow> string" where
  "trim_slash s = (if s \<noteq> [] \<and> last s = CHR ''/'' then butlast s else s)"

definition cors_allowed :: "CORSConfig \<Rightarrow> string list" where
  "cors_allowed cfg = filter (\<lambda>x. x \<noteq> []) (map (\<lambda>x. trim_space (trim_slash x)) (co_AllowedOrigins cfg))"

definition cors_headers :: "string \<Rightarrow> Writer \<Rightarrow> Writer" where
  "cors_headers origin w =
     add_header ''Vary'' ''Origin''
       (set_header ''Access-Control-Expose-Headers'' RequestIDHeader
         (set_header ''Access-Control-Allow-Credentials'' ''true''
           (set_header ''Access-Control-Allow-Origin'' origin w)))"

definition preflight_headers :: "duration \<Rightarrow> Writer \<Rightarrow> Writer" where
  "preflight_headers maxAge w =
     add_header ''Vary'' ''Access-Control-Request-Headers''
       (add_header ''Vary'' ''Access-Control-Request-Method''
         (set_header ''Access-Control-Max-Age'' (format_int (maxAge div second))
           (set_header ''Access-Control-Allow-Headers'' corsAllowedHeaders
             (set_header ''Access-Control-Allow-Methods'' corsAllowedMethods w))))"

definition CORS :: "CORSConfig \<Rightarrow> middleware" where
  "CORS cfg nxt r w =
     (let origin = header_get (req_Header r) ''Origin'';
          maxAge = (if co_MaxAge cfg \<le> 0 then defaultCORSMaxAge else co_MaxAge cfg)
      in if origin \<noteq> [] \<and> origin \<in> set (cors_allowed cfg)
         then (if req_Method r = ''OPTIONS''
               then State_Monad.return
                      (Returned, recorder_WriteHeader 204 (preflight_headers maxAge (cors_headers origin w)))
               else nxt r (cors_headers origin w))
         else nxt r w)"

section \<open>Facts\<close>

context db_relation begin

lemma keeps_newRequestID [keeps_rules]: "keeps R (newRequestID rnd)"
  unfolding newRequestID_def by (intro keeps_rules)

lemma keeps_case_ending [keeps_rules]:
  "(\<And>a. keeps R (f a)) \<Longrightarrow> keeps R m \<Longrightarrow> keeps R (case x of Panicked a \<Rightarrow> f a | Returned \<Rightarrow> m)"
  by (cases x) simp_all

lemma keeps_middleware [keeps_rules]:
  assumes "\<And>r w. keeps R (nxt r w)"
  shows "keeps R (RequestID rnd nxt r w)" "keeps R (AccessLog nxt r w)" "keeps R (Metrics nxt r w)"
    "keeps R (Recoverer nxt r w)" "keeps R (Timeout d nxt r w)" "keeps R (CORS c nxt r w)"
  unfolding RequestID_def AccessLog_def Metrics_def Recoverer_def Timeout_def CORS_def Let_def
  by (intro keeps_rules assms)+

end

lemma writer_fields [simp]:
  "rw_Sent (set_header k v w) = rw_Sent w" "rw_Body (set_header k v w) = rw_Body w"
  "rw_Sent (add_header k v w) = rw_Sent w" "rw_Body (add_header k v w) = rw_Body w"
  "rw_Sent (json_headers w) = rw_Sent w"
  by (simp_all add: set_header_def add_header_def json_headers_def)

lemma wroteHeader_simps [simp]:
  "wroteHeader (set_header k v w) = wroteHeader w" "wroteHeader (json_headers w) = wroteHeader w"
  "wroteHeader (recorder_WriteHeader c w)" "wroteHeader (recorder_Write b w)"
  "wroteHeader (writeJSONError s m w)"
  by (auto simp: wroteHeader_def recorder_WriteHeader_def recorder_Write_def writeJSONError_def Let_def)

lemma writeJSONError_status:
  "\<not> wroteHeader w \<Longrightarrow> rw_Sent (writeJSONError s m w) = Some (s, rw_Header (json_headers w))"
  by (simp add: writeJSONError_def recorder_Write_def recorder_WriteHeader_def Let_def)
     (simp add: wroteHeader_def)

lemma newRequestID_run:
  "run_state (newRequestID rnd) W =
     ((case rnd 16 (w_draws W) of Inl e \<Rightarrow> ''ts-'' @ format_int (clock (w_db W)) | Inr b \<Rightarrow> hex_encode b),
      W\<lparr>w_draws := Suc (w_draws W)\<rparr>)"
  by (cases "rnd 16 (w_draws W)") (simp_all add: newRequestID_def)

lemma hex_encode_printable: "isPrintableASCII (hex_encode bs)"
proof -
  have "32 \<le> byte (hex_digit n) \<and> byte (hex_digit n) \<le> 126" if "n < 16" for n
    using that by (simp add: byte_hex_digit)
  then show ?thesis by (simp add: isPrintableASCII_def hex_encode_def list_all_iff)
qed

lemma decimal_printable: "isPrintableASCII (decimal n)"
proof (induction n rule: decimal.induct)
  case (1 n)
  then show ?case
    by (cases "n < 10") (simp_all add: decimal.simps [of n] isPrintableASCII_def)
qed

section \<open>Properties\<close>

text \<open>
  C34 (request ids are safe to log). Whatever the caller sends, the id that reaches the handler
  and the response header is one and the same, is not empty, is at most 128 printable ASCII
  characters, so it cannot forge a log record, and is the caller's own exactly when that
  already has this form. The clock is assumed to be within the range of 64-bit nanoseconds.
\<close>

theorem request_id_is_safe:
  assumes "\<forall>n b. rnd 16 n = Inr b \<longrightarrow> length b = 16" "\<bar>clock (w_db W)\<bar> < 2 ^ 63"
  shows "\<exists>i W1. run_state (RequestID rnd nxt r w) W =
                 run_state (nxt (r\<lparr>req_RequestID := i\<rparr>) (set_header ''X-Request-Id'' i w)) W1 \<and>
               i \<noteq> [] \<and> length i \<le> 128 \<and> isPrintableASCII i \<and> w_db W1 = w_db W \<and>
               (let x = header_get (req_Header r) ''X-Request-Id''
                in x \<noteq> [] \<and> length x \<le> 128 \<and> isPrintableASCII x \<longrightarrow> i = x)"
proof (cases "let x = header_get (req_Header r) ''X-Request-Id''
              in x \<noteq> [] \<and> length x \<le> 128 \<and> isPrintableASCII x")
  case True
  then show ?thesis
    by (intro exI [of _ "header_get (req_Header r) ''X-Request-Id''"] exI [of _ W])
       (simp add: RequestID_def maxInboundRequestIDLen_def Let_def)
next
  case False
  let ?now = "clock (w_db W)"
  let ?i = "case rnd 16 (w_draws W) of Inl e \<Rightarrow> ''ts-'' @ format_int ?now | Inr b \<Rightarrow> hex_encode b"
  have "nat \<bar>?now\<bar> < 10 ^ Suc 18" using assms(2) by simp
  then have "length (decimal (nat \<bar>?now\<bar>)) \<le> 19" using decimal_length [of _ 18] by simp
  then have d: "length (format_int ?now) \<le> 20" "isPrintableASCII (format_int ?now)"
    using decimal_printable by (auto simp: format_int_def isPrintableASCII_def byte_def)
  have ts: "isPrintableASCII (''ts-'' @ format_int ?now)" using d(2) by (simp add: isPrintableASCII_def byte_def)
  have len: "length b = 16" if "rnd 16 (w_draws W) = Inr b" for b using assms(1) that by blast
  have shape: "?i \<noteq> []" "length ?i \<le> 128" "isPrintableASCII ?i"
    using len d(1) ts hex_encode_printable by (auto split: sum.split)
  have run: "run_state (RequestID rnd nxt r w) W =
      run_state (nxt (r\<lparr>req_RequestID := ?i\<rparr>) (set_header ''X-Request-Id'' ?i w)) (W\<lparr>w_draws := Suc (w_draws W)\<rparr>)"
    using False by (auto simp: RequestID_def newRequestID_run maxInboundRequestIDLen_def Let_def)
  show ?thesis
    by (rule exI [of _ ?i], rule exI [of _ "W\<lparr>w_draws := Suc (w_draws W)\<rparr>"], intro conjI run shape)
       (use False in \<open>auto simp: Let_def\<close>)
qed

definition plain_request :: "string \<Rightarrow> string \<Rightarrow> Request" where
  "plain_request method path =
     \<lparr>req_Method = method, req_Path = path, req_Header = [(''X-Request-Id'', [CHR ''a'', CHR 0x0A, CHR ''b''])],
      req_RemoteAddr = ''10.0.0.1:443'', req_Body = [], req_BodyError = None, req_Cookies = [], req_Pattern = [],
      req_RequestID = [], req_User = None, req_TokenID = []\<rparr>"

definition calm :: world where
  "calm = quiet \<lparr>clock = unix 500, users = [], subs = [], hooks = [], tokens = []\<rparr>"

theorem request_id_is_safe_witness:
  "\<exists>i W1. run_state (RequestID (\<lambda>k n. Inr (replicate k (CHR ''x''))) (\<lambda>r w. State_Monad.return (Returned, w))
            (plain_request ''GET'' ''/livez'') new_writer) calm = ((Returned, set_header ''X-Request-Id'' i new_writer), W1) \<and>
          i \<noteq> [] \<and> isPrintableASCII i"
proof -
  have "\<bar>clock (w_db calm)\<bar> < 2 ^ 63" by (simp add: calm_def unix_def second_def)
  then show ?thesis
    using request_id_is_safe [of "\<lambda>k n. Inr (replicate k (CHR ''x''))" calm
        "\<lambda>r w. State_Monad.return (Returned, w)" "plain_request ''GET'' ''/livez''" new_writer]
    by auto
qed

text \<open>
  A crash is answered and logged. When a handler panics before it wrote anything and the
  client is still there, the chain of the router, the access log outside the recovery,
  answers 500 with an error body and writes one access line, at error level, after the panic
  report. In the reversed order the answer is the same but no access line is written.
\<close>

theorem panic_is_reported:
  assumes "run_state (h r w) W = ((Panicked False, w1), W1)" "\<not> wroteHeader w1" "w_polls W1 = []"
  shows "\<exists>w2. rw_Sent w2 = Some (500, rw_Header (json_headers w1)) \<and>
              run_state (AccessLog (Recoverer h) r w) W =
                ((Returned, w2), W1\<lparr>w_logs := w_logs W1 @ [(Error, ''panic recovered''), (Error, ''request'')]\<rparr>) \<and>
              run_state (Recoverer (AccessLog h) r w) W =
                ((Returned, w2), W1\<lparr>w_logs := w_logs W1 @ [(Error, ''panic recovered'')]\<rparr>)"
proof -
  let ?w2 = "writeJSONError 500 ''internal server error'' w1"
  have sent: "rw_Sent ?w2 = Some (500, rw_Header (json_headers w1))" by (rule writeJSONError_status [OF assms(2)])
  then have "access_level r ?w2 = Error" by (simp add: access_level_def recorder_status_def)
  then show ?thesis
    using assms sent by (intro exI [of _ ?w2]) (simp add: AccessLog_def Recoverer_def)
qed

theorem panic_is_reported_witness:
  "recorder_status (snd (fst (run_state (AccessLog (Recoverer (\<lambda>r w. State_Monad.return (Panicked False, w)))
     (plain_request ''GET'' ''/x'') new_writer) calm))) = 500"
proof -
  let ?h = "\<lambda>r w. State_Monad.return (Panicked False, w)"
  obtain w2 where "rw_Sent w2 = Some (500, rw_Header (json_headers new_writer))"
    "run_state (AccessLog (Recoverer (\<lambda>r w. State_Monad.return (Panicked False, w))) (plain_request ''GET'' ''/x'') new_writer) calm =
       ((Returned, w2), calm\<lparr>w_logs := w_logs calm @ [(Error, ''panic recovered''), (Error, ''request'')]\<rparr>)"
    using panic_is_reported [of ?h "plain_request ''GET'' ''/x''" new_writer calm new_writer calm]
    by (auto simp: wroteHeader_def new_writer_def calm_def)
  then show ?thesis by (simp add: recorder_status_def)
qed

end
