(* ===== verification/Rate_Limit.thy ===== *)
theory Rate_Limit
  imports Complex_Main Http
begin

text \<open>
  internal/handler/middleware/ratelimit.go and \<open>ClientIP\<close> of logger.go: the per-client
  token buckets and how a request is attributed to a client.

  The token bucket itself is golang.org/x/time/rate. A limiter is the history of the calls
  made on it, and the parameter \<open>reserve\<close> of \<open>rate_lib\<close> answers a reservation from
  that history: whether it can be met at all, and after which delay. Parsing and printing of
  IP addresses are the parameters \<open>parse_ip\<close> (sixteen bytes) and \<open>ip_string\<close>;
  \<open>To4\<close> and the /64 mask are modelled on the bytes. A rate is a rational number of
  requests per second.

  The properties: the map of buckets never holds more than \<open>MaxEntries\<close> clients; a request
  only touches the bucket of its own client, except that a full map is dropped as a whole;
  behind trusted proxies the caller cannot choose the address it is counted under; and the
  addresses of one IPv6 network share one bucket.
\<close>

section \<open>Attribution\<close>

record rate_lib =
  reserve :: "rat \<Rightarrow> int \<Rightarrow> limiter_call list \<Rightarrow> time \<Rightarrow> bool \<times> duration"
  parse_ip :: "string \<Rightarrow> nat list option"
  ip_string :: "nat list \<Rightarrow> string"

text \<open>
  \<open>net.SplitHostPort\<close>: the part before the last colon, or the inside of brackets.
\<close>

fun index_of :: "char \<Rightarrow> string \<Rightarrow> nat option" where
  "index_of c [] = None"
| "index_of c (x # xs) = (if x = c then Some 0 else map_option Suc (index_of c xs))"

definition last_index :: "char \<Rightarrow> string \<Rightarrow> nat option" where
  "last_index c s = map_option (\<lambda>i. length s - 1 - i) (index_of c (rev s))"

definition split_host :: "string \<Rightarrow> string option" where
  "split_host hp =
     (case last_index (CHR '':'') hp of
        None \<Rightarrow> None
      | Some i \<Rightarrow>
          if hd hp = CHR ''[''
          then (case index_of (CHR '']'') hp of
                  None \<Rightarrow> None
                | Some fin \<Rightarrow>
                    if Suc fin = i \<and> CHR ''['' \<notin> set (drop 1 hp) \<and> CHR '']'' \<notin> set (drop (Suc fin) hp)
                    then Some (take (fin - 1) (drop 1 hp)) else None)
          else if CHR '':'' \<in> set (take i hp) \<or> CHR ''['' \<in> set hp \<or> CHR '']'' \<in> set hp then None
          else Some (take i hp))"

definition ClientIP :: "Request \<Rightarrow> string" where
  "ClientIP r = (case split_host (req_RemoteAddr r) of None \<Rightarrow> req_RemoteAddr r | Some host \<Rightarrow> host)"

definition is_blank :: "char \<Rightarrow> bool" where
  "is_blank c \<longleftrightarrow> c = CHR '' '' \<or> c = CHR 0x09"

definition trimSpace :: "string \<Rightarrow> string" where
  "trimSpace s = rev (dropWhile is_blank (rev (dropWhile is_blank s)))"

text \<open>The fields between commas; the loop runs over the header with the current field.\<close>

fun split_comma :: "string \<Rightarrow> string \<Rightarrow> string list" where
  "split_comma cur [] = [rev cur]"
| "split_comma cur (c # s) = (if c = CHR '','' then rev cur # split_comma [] s else split_comma (c # cur) s)"

definition splitAndTrim :: "string \<Rightarrow> string list" where
  "splitAndTrim header = filter (\<lambda>p. p \<noteq> []) (map trimSpace (split_comma [] header))"

definition clientAddr :: "Request \<Rightarrow> int \<Rightarrow> string" where
  "clientAddr r trustedProxies =
     (let direct = ClientIP r
      in if trustedProxies \<le> 0 then direct
         else let hops = concat (map splitAndTrim (header_values (req_Header r) ''X-Forwarded-For'')) @ [direct];
                  idx = int (length hops) - 1 - trustedProxies
              in if idx < 0 then direct else hops ! nat idx)"

text \<open>\<open>net.IP.To4\<close>: an IPv4 address is carried in the last four of sixteen bytes.\<close>

definition to4 :: "nat list \<Rightarrow> nat list option" where
  "to4 ip = (if length ip = 4 then Some ip
             else if length ip = 16 \<and> take 12 ip = replicate 10 0 @ [255, 255] then Some (drop 12 ip) else None)"

definition normaliseIP :: "rate_lib \<Rightarrow> string \<Rightarrow> string" where
  "normaliseIP L addr =
     (case parse_ip L addr of
        None \<Rightarrow> addr
      | Some ip \<Rightarrow> (case to4 ip of
                      Some v4 \<Rightarrow> ip_string L v4
                    | None \<Rightarrow> ip_string L (take 8 ip @ replicate 8 0) @ ''/64''))"

definition ClientKeyFunc :: "rate_lib \<Rightarrow> int \<Rightarrow> Request \<Rightarrow> string" where
  "ClientKeyFunc L trustedProxies r = normaliseIP L (clientAddr r trustedProxies)"

section \<open>The limiter\<close>

record RateLimitConfig =
  rl_Rate :: rat
  rl_Burst :: int
  rl_TTL :: duration
  rl_MaxEntries :: int

definition defaultRateLimitTTL :: duration where "defaultRateLimitTTL = 15 * minute"
definition defaultRateLimitMaxEntries :: int where "defaultRateLimitMaxEntries = 50000"

definition RateLimitConfig_withDefaults :: "RateLimitConfig \<Rightarrow> RateLimitConfig" where
  "RateLimitConfig_withDefaults c =
     \<lparr>rl_Rate = (if rl_Rate c \<le> 0 then 1 / 5 else rl_Rate c),
      rl_Burst = (if rl_Burst c \<le> 0 then 5 else rl_Burst c),
      rl_TTL = (if rl_TTL c \<le> 0 then defaultRateLimitTTL else rl_TTL c),
      rl_MaxEntries = (if rl_MaxEntries c \<le> 0 then defaultRateLimitMaxEntries else rl_MaxEntries c)\<rparr>"

text \<open>The map of buckets as an association list; \<open>put\<close> is the assignment to a key.\<close>

definition put :: "string \<Rightarrow> bucket \<Rightarrow> (string \<times> bucket) list \<Rightarrow> (string \<times> bucket) list" where
  "put k b bs = (if map_of bs k = None then bs @ [(k, b)] else map (\<lambda>(k', b'). (k', if k' = k then b else b')) bs)"

definition prune :: "RateLimitConfig \<Rightarrow> time \<Rightarrow> unit prog" where
  "prune cfg now = do {
     bs \<leftarrow> get_buckets;
     set_buckets (filter (\<lambda>(k, b). \<not> rl_TTL cfg < now - bk_lastSeen b) bs) }"

definition retryAfter :: "RateLimitConfig \<Rightarrow> duration" where
  "retryAfter cfg = (if rl_Rate cfg \<le> 0 then minute else \<lfloor>of_int second / rl_Rate cfg\<rfloor>)"

text \<open>
  The bucket of a client, made under the lock if it is new: a full map is dropped first.
\<close>

definition find_bucket :: "RateLimitConfig \<Rightarrow> string \<Rightarrow> time \<Rightarrow> bucket prog" where
  "find_bucket cfg key now = do {
     bs \<leftarrow> get_buckets;
     (case map_of bs key of
        Some b \<Rightarrow> do {
          let b' = b\<lparr>bk_lastSeen := now\<rparr>;
          set_buckets (put key b' bs);
          State_Monad.return b' }
      | None \<Rightarrow> do {
          let b' = \<lparr>bk_limiter = [], bk_lastSeen = now\<rparr>;
          (if rl_MaxEntries cfg \<le> int (length bs)
           then do {
             log_line Warn ''rate limiter at capacity, resetting all buckets'';
             set_buckets [(key, b')] }
           else set_buckets (put key b' bs));
          State_Monad.return b' }) }"

definition allow :: "rate_lib \<Rightarrow> RateLimitConfig \<Rightarrow> string \<Rightarrow> time \<Rightarrow> (bool \<times> duration) prog" where
  "allow L cfg key now = do {
     b \<leftarrow> find_bucket cfg key now;
     bs \<leftarrow> get_buckets;
     let (ok, delay) = reserve L (rl_Rate cfg) (rl_Burst cfg) (bk_limiter b) now;
     let reserved = bk_limiter b @ [ReserveN now];
     (if \<not> ok
      then do {
        set_buckets (put key (b\<lparr>bk_limiter := reserved\<rparr>) bs);
        State_Monad.return (False, retryAfter cfg) }
      else if 0 < delay
      then do {
        set_buckets (put key (b\<lparr>bk_limiter := reserved @ [CancelAt now]\<rparr>) bs);
        State_Monad.return (False, delay) }
      else do {
        set_buckets (put key (b\<lparr>bk_limiter := reserved\<rparr>) bs);
        State_Monad.return (True, 0) }) }"

definition retry_seconds :: "duration \<Rightarrow> int" where
  "retry_seconds d = max 1 (- ((- d) div second))"

definition RateLimiter_Middleware ::
  "rate_lib \<Rightarrow> RateLimitConfig \<Rightarrow> (Request \<Rightarrow> string) \<Rightarrow> middleware" where
  "RateLimiter_Middleware L cfg clientKey nxt r w = do {
     now \<leftarrow> get_now;
     (allowed, after) \<leftarrow> allow L cfg (clientKey r) now;
     (if allowed then nxt r w
      else do {
        log_line Warn ''rate limit exceeded'';
        State_Monad.return
          (Returned, writeJSONError 429 ''too many requests, please slow down''
             (set_header ''Retry-After'' (format_int (retry_seconds after)) w)) }) }"

section \<open>The map of buckets\<close>

definition buckets_ok :: "RateLimitConfig \<Rightarrow> (string \<times> bucket) list \<Rightarrow> bool" where
  "buckets_ok cfg bs \<longleftrightarrow> distinct (map fst bs) \<and> int (length bs) \<le> rl_MaxEntries cfg"

lemma put_keys: "map fst (put k b bs) = (if map_of bs k = None then map fst bs @ [k] else map fst bs)"
  by (simp add: put_def case_prod_beta comp_def)

lemma put_length: "length (put k b bs) = (if map_of bs k = None then Suc (length bs) else length bs)"
  by (simp add: put_def)

lemma map_of_put: "map_of (put k b bs) x = (if x = k then Some b else map_of bs x)"
proof (cases "map_of bs k")
  case None
  then show ?thesis by (auto simp: put_def map_add_def split: option.split)
next
  case (Some y)
  have "map_of (map (\<lambda>(k', b'). (k', if k' = k then b else b')) bs) x =
      (if x = k then map_option (\<lambda>_. b) (map_of bs x) else map_of bs x)" for x
    by (induction bs) auto
  with Some show ?thesis by (simp add: put_def)
qed

lemma put_ok:
  assumes "buckets_ok cfg bs" "map_of bs k \<noteq> None \<or> int (length bs) < rl_MaxEntries cfg"
  shows "buckets_ok cfg (put k b bs)"
  using assms by (auto simp: buckets_ok_def put_keys put_length map_of_eq_None_iff)

lemma find_bucket_run:
  assumes "buckets_ok cfg (w_buckets W)" "0 < rl_MaxEntries cfg" "run_state (find_bucket cfg key now) W = (b, W')"
  shows "buckets_ok cfg (w_buckets W')" "map_of (w_buckets W') key = Some b" "w_db W' = w_db W"
    "map_of (w_buckets W) key \<noteq> None \<or> int (length (w_buckets W)) < rl_MaxEntries cfg \<Longrightarrow> x \<noteq> key \<Longrightarrow>
       map_of (w_buckets W') x = map_of (w_buckets W) x"
proof -
  show "buckets_ok cfg (w_buckets W')"
    using assms
    by (auto simp: find_bucket_def Let_def put_ok split: option.splits if_splits) (simp add: buckets_ok_def)
  show "map_of (w_buckets W') key = Some b" "w_db W' = w_db W"
    using assms(3) by (auto simp: find_bucket_def Let_def map_of_put split: option.splits if_splits)
  show "map_of (w_buckets W) key \<noteq> None \<or> int (length (w_buckets W)) < rl_MaxEntries cfg \<Longrightarrow> x \<noteq> key \<Longrightarrow>
       map_of (w_buckets W') x = map_of (w_buckets W) x"
    using assms(3) by (auto simp: find_bucket_def Let_def map_of_put split: option.splits if_splits)
qed

lemma allow_run:
  assumes "buckets_ok cfg (w_buckets W)" "0 < rl_MaxEntries cfg" "run_state (allow L cfg key now) W = (a, W')"
  shows "buckets_ok cfg (w_buckets W')" "w_db W' = w_db W"
    "map_of (w_buckets W) key \<noteq> None \<or> int (length (w_buckets W)) < rl_MaxEntries cfg \<Longrightarrow> x \<noteq> key \<Longrightarrow>
       map_of (w_buckets W') x = map_of (w_buckets W) x"
proof -
  obtain b W1 where f: "run_state (find_bucket cfg key now) W = (b, W1)" by fastforce
  note b = find_bucket_run [OF assms(1,2) f]
  obtain calls where W': "w_buckets W' = put key (b\<lparr>bk_limiter := calls\<rparr>) (w_buckets W1)" "w_db W' = w_db W1"
    using assms(3) f by (auto simp: allow_def Let_def case_prod_beta split: if_splits)
  show "buckets_ok cfg (w_buckets W')" using put_ok [OF b(1)] b(2) by (simp add: W')
  show "w_db W' = w_db W" using W'(2) b(3) by simp
  show "map_of (w_buckets W) key \<noteq> None \<or> int (length (w_buckets W)) < rl_MaxEntries cfg \<Longrightarrow> x \<noteq> key \<Longrightarrow>
       map_of (w_buckets W') x = map_of (w_buckets W) x"
    using b(4) by (simp add: W' map_of_put)
qed

text \<open>The steps of the limiter's life: requests of any client at any time, and cleaning up.\<close>

inductive limiter_step :: "rate_lib \<Rightarrow> RateLimitConfig \<Rightarrow> world \<Rightarrow> world \<Rightarrow> bool" for L cfg where
  request: "run_state (allow L cfg key now) W = (a, W') \<Longrightarrow> limiter_step L cfg W W'"
| cleanup: "run_state (prune cfg now) W = (u, W') \<Longrightarrow> limiter_step L cfg W W'"

inductive_cases limiter_stepE: "limiter_step L cfg W W'"

lemma limiter_step_ok:
  "limiter_step L cfg W W' \<Longrightarrow> 0 < rl_MaxEntries cfg \<Longrightarrow> buckets_ok cfg (w_buckets W) \<Longrightarrow> buckets_ok cfg (w_buckets W')"
proof (erule limiter_stepE)
  fix key now a
  assume "0 < rl_MaxEntries cfg" "buckets_ok cfg (w_buckets W)" "run_state (allow L cfg key now) W = (a, W')"
  then show ?thesis using allow_run(1) by blast
next
  fix now u
  assume ok: "buckets_ok cfg (w_buckets W)" and "run_state (prune cfg now) W = (u, W')"
  then have W': "w_buckets W' = filter (\<lambda>(k, b). \<not> rl_TTL cfg < now - bk_lastSeen b) (w_buckets W)"
    by (auto simp: prune_def)
  have "int (length (w_buckets W')) \<le> int (length (w_buckets W))" by (simp add: W')
  moreover have "distinct (map fst (w_buckets W'))"
    using ok by (simp add: W' buckets_ok_def distinct_map_filter)
  ultimately show ?thesis using ok by (simp add: buckets_ok_def)
qed

section \<open>Attribution behind proxies\<close>

lemma clientAddr_hops:
  assumes "concat (map splitAndTrim (header_values (req_Header r) ''X-Forwarded-For'')) = forged @ hops"
    and "int (length hops) = n" "0 < n"
  shows "clientAddr r n = hd hops"
proof -
  have "hops \<noteq> []" using assms(2,3) by auto
  then show ?thesis
    using assms by (auto simp: clientAddr_def Let_def nth_append hd_conv_nth)
qed

text \<open>An address as a proxy appends it.\<close>

definition plain_addr :: "string \<Rightarrow> bool" where
  "plain_addr a \<longleftrightarrow> a \<noteq> [] \<and> (\<forall>c \<in> set a. c \<noteq> CHR '','' \<and> \<not> is_blank c)"

lemma split_comma_append: "split_comma cur (s @ CHR '','' # t) = split_comma cur s @ split_comma [] t"
  by (induction cur s rule: split_comma.induct) auto

lemma split_comma_plain: "CHR '','' \<notin> set s \<Longrightarrow> split_comma cur s = [rev cur @ s]"
  by (induction s arbitrary: cur) auto

lemma trimSpace_plain:
  assumes "plain_addr a"
  shows "trimSpace (CHR '' '' # a) = a"
proof -
  have c: "\<not> is_blank c" if "c \<in> set a" for c using assms that by (auto simp: plain_addr_def)
  have "a \<noteq> []" using assms by (simp add: plain_addr_def)
  then have "\<not> is_blank (hd a)" "\<not> is_blank (hd (rev a))" using c by (simp_all add: hd_rev)
  then have "dropWhile is_blank a = a" "dropWhile is_blank (rev a) = rev a"
    unfolding dropWhile_eq_self_iff by simp_all
  moreover have "is_blank (CHR '' '')" by (simp add: is_blank_def)
  ultimately show ?thesis by (simp add: trimSpace_def)
qed

lemma splitAndTrim_appended:
  "\<forall>a \<in> set hops. plain_addr a \<Longrightarrow>
   splitAndTrim (v @ concat (map (\<lambda>a. '', '' @ a) hops)) = splitAndTrim v @ hops"
proof (induction hops arbitrary: v)
  case (Cons a hops)
  have a: "plain_addr a" using Cons.prems by simp
  then have "CHR '','' \<notin> set (CHR '' '' # a)" "a \<noteq> []" by (auto simp: plain_addr_def)
  then have "splitAndTrim (v @ '', '' @ a) = splitAndTrim v @ [a]"
    using trimSpace_plain [OF a] split_comma_plain [of "CHR '' '' # a" "[]"]
    by (simp add: splitAndTrim_def split_comma_append)
  then show ?case using Cons.IH [of "v @ '', '' @ a"] Cons.prems by simp
qed simp

section \<open>Properties\<close>

text \<open>
  C33 (the limiter's memory is bounded). From a fresh limiter with any configuration, whatever
  requests arrive and whenever the janitor runs, the map never holds more buckets than the
  configured maximum (the default when none was set), one per client.
\<close>

theorem limiter_memory_bounded:
  assumes "(limiter_step L (RateLimitConfig_withDefaults c))\<^sup>*\<^sup>* W W'" "w_buckets W = []"
  shows "distinct (map fst (w_buckets W')) \<and>
         int (length (w_buckets W')) \<le> (if rl_MaxEntries c \<le> 0 then 50000 else rl_MaxEntries c)"
proof -
  let ?c = "RateLimitConfig_withDefaults c"
  have pos: "0 < rl_MaxEntries ?c"
    and m: "rl_MaxEntries ?c = (if rl_MaxEntries c \<le> 0 then 50000 else rl_MaxEntries c)"
    by (simp_all add: RateLimitConfig_withDefaults_def defaultRateLimitMaxEntries_def)
  have "buckets_ok ?c (w_buckets W')"
    using assms
  proof (induction rule: rtranclp_induct)
    case base
    then show ?case using pos by (simp add: buckets_ok_def)
  next
    case (step W1 W2)
    then show ?case using limiter_step_ok pos by blast
  qed
  then show ?thesis unfolding buckets_ok_def m .
qed

definition idle_lib :: rate_lib where
  "idle_lib = \<lparr>reserve = (\<lambda>_ _ calls _. (True, if 2 \<le> length calls then 1 else 0)), parse_ip = (\<lambda>_. None), ip_string = (\<lambda>_. [])\<rparr>"

definition small_limit :: RateLimitConfig where
  "small_limit = \<lparr>rl_Rate = 1, rl_Burst = 2, rl_TTL = unix 60, rl_MaxEntries = 1\<rparr>"

theorem limiter_memory_bounded_witness:
  "length (w_buckets (snd (run_state
     (do { allow idle_lib (RateLimitConfig_withDefaults small_limit) ''a'' 0;
           allow idle_lib (RateLimitConfig_withDefaults small_limit) ''b'' 1 })
     (quiet \<lparr>clock = 0, users = [], subs = [], hooks = [], tokens = []\<rparr>)))) \<le> 1"
proof -
  let ?c = "RateLimitConfig_withDefaults small_limit"
  let ?W = "quiet \<lparr>clock = 0, users = [], subs = [], hooks = [], tokens = []\<rparr>"
  let ?W1 = "snd (run_state (allow idle_lib ?c ''a'' 0) ?W)"
  let ?W2 = "snd (run_state (allow idle_lib ?c ''b'' 1) ?W1)"
  have "limiter_step idle_lib ?c ?W ?W1" "limiter_step idle_lib ?c ?W1 ?W2"
    by (rule limiter_step.request, rule surjective_pairing)+
  then have "(limiter_step idle_lib ?c)\<^sup>*\<^sup>* ?W ?W2" by (rule converse_rtranclp_into_rtranclp [OF _ r_into_rtranclp])
  then have "int (length (w_buckets ?W2)) \<le> 1"
    using limiter_memory_bounded [of idle_lib small_limit ?W ?W2] by (simp add: quiet_def small_limit_def)
  then show ?thesis by (simp add: case_prod_beta)
qed

text \<open>
  C32 (a caller cannot choose its bucket). Behind \<open>n\<close> trusted proxies, each of which appends
  the address of its peer to X-Forwarded-For, a request is counted under the address the
  outermost proxy saw, whatever header lines and whatever text the caller sent along; with
  no trusted proxy it is counted under the peer's address and the header is not looked at.
  And any two addresses of one IPv6 /64 network are counted under the same key.
\<close>

theorem caller_cannot_choose_bucket:
  assumes "header_values (req_Header r) ''X-Forwarded-For'' = lines @ [forged @ concat (map (\<lambda>a. '', '' @ a) hops)]"
    and "\<forall>a \<in> set hops. plain_addr a" "int (length hops) = n"
  shows "ClientKeyFunc L n r = normaliseIP L (if hops = [] then ClientIP r else hd hops) \<and>
         (\<forall>a b ip ip'. parse_ip L a = Some ip \<and> parse_ip L b = Some ip' \<and> to4 ip = None \<and> to4 ip' = None \<and>
            take 8 ip = take 8 ip' \<longrightarrow> normaliseIP L a = normaliseIP L b)"
proof -
  have "clientAddr r n = (if hops = [] then ClientIP r else hd hops)"
  proof (cases "hops = []")
    case True
    then show ?thesis using assms(3) by (simp add: clientAddr_def)
  next
    case False
    have "concat (map splitAndTrim (header_values (req_Header r) ''X-Forwarded-For'')) =
        (concat (map splitAndTrim lines) @ splitAndTrim forged) @ hops"
      using splitAndTrim_appended [OF assms(2)] by (simp add: assms(1))
    from clientAddr_hops [OF this assms(3)] False assms(3) show ?thesis by auto
  qed
  then show ?thesis by (simp add: ClientKeyFunc_def normaliseIP_def)
qed

definition forged_request :: Request where
  "forged_request =
     \<lparr>req_Method = ''POST'', req_Path = ''/api/v1/auth/login'',
      req_Header = [(''X-Forwarded-For'', ''9.9.9.9, 8.8.8.8, 1.2.3.4'')], req_RemoteAddr = ''10.0.0.1:443'',
      req_Body = [], req_BodyError = None, req_Cookies = [], req_Pattern = [], req_RequestID = [],
      req_User = None, req_TokenID = []\<rparr>"

theorem caller_cannot_choose_bucket_witness:
  "ClientKeyFunc idle_lib 1 forged_request = ''1.2.3.4''"
proof -
  have h: "header_values (req_Header forged_request) ''X-Forwarded-For'' =
      [] @ [''9.9.9.9, 8.8.8.8'' @ concat (map (\<lambda>a. '', '' @ a) [''1.2.3.4''])]"
    by (simp add: forged_request_def header_values_def)
  have "\<forall>a \<in> set [''1.2.3.4'']. plain_addr a" by (simp add: plain_addr_def is_blank_def)
  from caller_cannot_choose_bucket [OF h this, of 1 idle_lib] show ?thesis
    by (simp add: normaliseIP_def idle_lib_def)
qed

end
