(* ===== verification/Json.thy ===== *)
theory Json
  imports Http
begin

text \<open>
  JSON bodies: what \<open>encoding/json\<close> writes for the payloads the handlers send, with its
  escaping of HTML and of malformed UTF-8, the text of instants and durations inside them,
  and response.go: the writers of a JSON answer and the reader of a JSON request.

  The decoder itself is a parameter of \<open>decodeJSON\<close>: given the bytes the size limit lets
  through and how the stream ends after them, it returns an error or a value and the bytes it
  has not consumed. Instants are printed in UTC.
\<close>

section \<open>Calendar\<close>

text \<open>Year, month and day of a day counted from the Unix epoch, in the Gregorian calendar.\<close>

definition civil :: "int \<Rightarrow> int \<times> int \<times> int" where
  "civil days =
     (let z = days + 719468;
          era = z div 146097;
          doe = z mod 146097;
          yoe = (doe - doe div 1460 + doe div 36524 - doe div 146096) div 365;
          doy = doe - (365 * yoe + yoe div 4 - yoe div 100);
          mp = (5 * doy + 2) div 153;
          d = doy - (153 * mp + 2) div 5 + 1;
          m = (if mp < 10 then mp + 3 else mp - 9);
          y = yoe + era * 400 + (if m \<le> 2 then 1 else 0)
      in (y, m, d))"

definition day_of :: "time \<Rightarrow> int" where
  "day_of t = t div (24 * hour)"

definition year_of :: "time \<Rightarrow> int" where
  "year_of t = fst (civil (day_of t))"

definition pad :: "nat \<Rightarrow> int \<Rightarrow> string" where
  "pad n i = (let s = decimal (nat i) in replicate (n - length s) (CHR ''0'') @ s)"

definition clock_text :: "time \<Rightarrow> string" where
  "clock_text t =
     (let s = t div second mod 86400
      in pad 2 (s div 3600) @ '':'' @ pad 2 (s div 60 mod 60) @ '':'' @ pad 2 (s mod 60))"

text \<open>A fraction of a second, with its trailing zeros dropped.\<close>

definition fraction :: "nat \<Rightarrow> int \<Rightarrow> string" where
  "fraction n f =
     (if f = 0 then [] else CHR ''.'' # rev (dropWhile (\<lambda>c. c = CHR ''0'') (rev (pad n f))))"

definition rfc3339 :: "time \<Rightarrow> string" where
  "rfc3339 t =
     (let (y, m, d) = civil (day_of t)
      in pad 4 y @ ''-'' @ pad 2 m @ ''-'' @ pad 2 d @ ''T'' @ clock_text t @ fraction 9 (t mod second) @ ''Z'')"

definition http_time :: "time \<Rightarrow> string" where
  "http_time t =
     (let (y, m, d) = civil (day_of t);
          weekday = [''Sun'', ''Mon'', ''Tue'', ''Wed'', ''Thu'', ''Fri'', ''Sat''] ! nat ((day_of t + 4) mod 7);
          month = [''Jan'', ''Feb'', ''Mar'', ''Apr'', ''May'', ''Jun'', ''Jul'', ''Aug'', ''Sep'', ''Oct'',
                   ''Nov'', ''Dec''] ! nat (m - 1)
      in weekday @ '', '' @ pad 2 d @ '' '' @ month @ '' '' @ pad 4 y @ '' '' @ clock_text t @ '' GMT'')"

text \<open>Go's division of integers, which drops the fraction.\<close>

definition trunc_div :: "int \<Rightarrow> int \<Rightarrow> int" where
  "trunc_div a b = (if a < 0 then - ((- a) div b) else a div b)"

text \<open>\<open>Duration.String\<close> of a whole number of seconds.\<close>

definition seconds_text :: "int \<Rightarrow> string" where
  "seconds_text s =
     (let a = \<bar>s\<bar>
      in (if s < 0 then ''-'' else []) @
         (if 3600 \<le> a then format_int (a div 3600) @ ''h'' else []) @
         (if 60 \<le> a then format_int (a div 60 mod 60) @ ''m'' else []) @
         format_int (a mod 60) @ ''s'')"

section \<open>Encoding\<close>

text \<open>
  A value that is written. \<open>VMillis\<close> is a number of microseconds written in milliseconds.
\<close>

datatype jvalue =
    VNull
  | VBool bool
  | VInt int
  | VMillis int
  | VStr string
  | VTime time
  | VObj "(string \<times> jvalue) list"

definition unicode_escape :: "nat \<Rightarrow> string" where
  "unicode_escape n =
     [CHR 0x5C, CHR ''u'', hex_digit (n div 4096), hex_digit (n div 256 mod 16), hex_digit (n div 16 mod 16),
      hex_digit (n mod 16)]"

definition json_ascii :: "char \<Rightarrow> string" where
  "json_ascii c =
     (if c = CHR 0x5C \<or> c = CHR 0x22 then [CHR 0x5C, c]
      else if c = CHR 0x08 then [CHR 0x5C, CHR ''b'']
      else if c = CHR 0x0C then [CHR 0x5C, CHR ''f'']
      else if c = CHR 0x0A then [CHR 0x5C, CHR ''n'']
      else if c = CHR 0x0D then [CHR 0x5C, CHR ''r'']
      else if c = CHR 0x09 then [CHR 0x5C, CHR ''t'']
      else if byte c < 32 \<or> c = CHR ''<'' \<or> c = CHR ''>'' \<or> c = CHR ''&'' then unicode_escape (byte c)
      else [c])"

text \<open>How many bytes follow the first in the code point a string starts with, if it is well-formed.\<close>

definition rune_tail :: "string \<Rightarrow> nat option" where
  "rune_tail s =
     (case s of
        [] \<Rightarrow> None
      | c # cs \<Rightarrow>
          (case utf8_lead (byte c) of
             None \<Rightarrow> None
           | Some (n, lo, hi) \<Rightarrow>
               if n \<le> length cs \<and> list_all cont_byte (take n cs) \<and>
                  (n = 0 \<or> lo \<le> byte (hd cs) \<and> byte (hd cs) \<le> hi)
               then Some n else None))"

function json_chars :: "string \<Rightarrow> string" where
  "json_chars [] = []"
| "json_chars (c # cs) =
     (case rune_tail (c # cs) of
        None \<Rightarrow> unicode_escape 65533 @ json_chars cs
      | Some n \<Rightarrow>
          (if n = 0 then json_ascii c
           else if c = CHR 0xE2 \<and> take n cs = [CHR 0x80, CHR 0xA8] then unicode_escape 8232
           else if c = CHR 0xE2 \<and> take n cs = [CHR 0x80, CHR 0xA9] then unicode_escape 8233
           else c # take n cs) @ json_chars (drop n cs))"
  by pat_completeness auto
termination by (relation "measure length") auto

definition json_string :: "string \<Rightarrow> string" where
  "json_string s = [CHR 0x22] @ json_chars s @ [CHR 0x22]"

definition json_millis :: "int \<Rightarrow> string" where
  "json_millis us = format_int (us div 1000) @ fraction 3 (us mod 1000)"

fun json_encode :: "jvalue \<Rightarrow> string" where
  "json_encode VNull = ''null''"
| "json_encode (VBool b) = (if b then ''true'' else ''false'')"
| "json_encode (VInt i) = format_int i"
| "json_encode (VMillis us) = json_millis us"
| "json_encode (VStr s) = json_string s"
| "json_encode (VTime t) = [CHR 0x22] @ rfc3339 t @ [CHR 0x22]"
| "json_encode (VObj fs) = ''{'' @ join '','' (map (\<lambda>(k, v). json_string k @ '':'' @ json_encode v) fs) @ ''}''"

text \<open>The encoder refuses an instant whose year has not four digits.\<close>

fun json_encodable :: "jvalue \<Rightarrow> bool" where
  "json_encodable (VTime t) \<longleftrightarrow> 0 \<le> year_of t \<and> year_of t \<le> 9999"
| "json_encodable (VObj fs) \<longleftrightarrow> list_all (\<lambda>(k, v). json_encodable v) fs"
| "json_encodable v \<longleftrightarrow> True"

section \<open>Answers\<close>

definition maxAPIBytes :: nat where "maxAPIBytes = 32768"

definition errorResponse :: "string \<Rightarrow> jvalue" where
  "errorResponse message = VObj [(''error'', VStr message)]"

definition writeJSON :: "int \<Rightarrow> jvalue \<Rightarrow> Writer \<Rightarrow> Writer" where
  "writeJSON status payload w =
     (let w1 = recorder_WriteHeader status (json_headers w)
      in if json_encodable payload then recorder_Write (json_encode payload @ [CHR 0x0A]) w1 else w1)"

definition writeError :: "int \<Rightarrow> string \<Rightarrow> Writer \<Rightarrow> Writer" where
  "writeError status message w = writeJSON status (errorResponse message) w"

definition writeUnwiredRoute :: "Writer \<Rightarrow> (ending \<times> Writer) prog" where
  "writeUnwiredRoute w = do {
     log_line Error ''route is missing the auth middleware; refusing to serve it'';
     State_Monad.return (Returned, writeError 500 ''internal server error'' w) }"

section \<open>Requests\<close>

text \<open>
  \<open>http.MaxBytesReader\<close>: the bytes a reader gets, and what ends the stream: the end of the
  body, an error of the connection, or the limit.
\<close>

datatype stream_end = EndOfBody | BrokenBody string | TooManyBytes

definition MaxBytesReader :: "nat \<Rightarrow> Request \<Rightarrow> bytes \<times> stream_end" where
  "MaxBytesReader n r =
     (if n < length (req_Body r) then (take n (req_Body r), TooManyBytes)
      else (req_Body r, case req_BodyError r of None \<Rightarrow> EndOfBody | Some m \<Rightarrow> BrokenBody m))"

text \<open>The errors of the decoder that \<open>decodeError\<close> tells apart; any other carries its text.\<close>

datatype json_error =
    MaxBytesError
  | SyntaxError
  | UnmarshalTypeError string
  | UnexpectedEnd
  | OtherJsonError string

type_synonym 'a decoder = "bytes \<times> stream_end \<Rightarrow> json_error + 'a \<times> bytes"

text \<open>\<open>Decoder.More\<close>: white space is skipped, a closing bracket counts as the end.\<close>

definition json_space :: "char \<Rightarrow> bool" where
  "json_space c \<longleftrightarrow> c \<in> {CHR 0x20, CHR 0x09, CHR 0x0D, CHR 0x0A}"

definition Decoder_More :: "bytes \<Rightarrow> bool" where
  "Decoder_More rest =
     (case dropWhile json_space rest of [] \<Rightarrow> False | c # cs \<Rightarrow> c \<noteq> CHR '']'' \<and> c \<noteq> CHR ''}'')"

definition decodeError :: "json_error \<Rightarrow> string" where
  "decodeError err =
     (case err of
        MaxBytesError \<Rightarrow> ''request body too large''
      | SyntaxError \<Rightarrow> ''request body is not valid JSON''
      | UnmarshalTypeError field \<Rightarrow>
          if field \<noteq> [] then ''field '' @ field @ '' has the wrong type''
          else ''request body has a field of the wrong type''
      | UnexpectedEnd \<Rightarrow> ''request body is empty''
      | OtherJsonError t \<Rightarrow>
          if has_prefix t ''json: unknown field '' then ''unknown '' @ drop (length ''json: unknown '') t
          else ''request body is not valid JSON'')"

definition decodeJSON :: "'a decoder \<Rightarrow> Request \<Rightarrow> string + 'a" where
  "decodeJSON decode r =
     (let ct = header_get (req_Header r) ''Content-Type''
      in if ct \<noteq> [] \<and> \<not> has_prefix ct ''application/json'' then Inl ''content-type must be application/json''
         else (case decode (MaxBytesReader maxAPIBytes r) of
                 Inl err \<Rightarrow> Inl (decodeError err)
               | Inr (v, rest) \<Rightarrow>
                   if Decoder_More rest then Inl ''request body must contain a single JSON object'' else Inr v))"

end
