(* ===== verification/Handlers.thy ===== *)
theory Handlers
  imports Webhook_Service Auth_Service Billing_Services Rate_Limit Json
begin

text \<open>
  The authentication middleware (internal/handler/middleware/auth.go) and the handlers of
  internal/handler: auth_handler.go, stripe_handler.go, subscription_handler.go and health.go,
  over the services they delegate to.

  A handler does nothing but decode, call one service operation and encode, so each property
  is about the answer: which status and headers it has, that the subject of a protected
  handler is the token's, that a failure answers uniformly.
\<close>

section \<open>Bearer tokens\<close>

definition UserIDFromContext :: "Request \<Rightarrow> uuid option" where
  "UserIDFromContext r = (case req_User r of None \<Rightarrow> None | Some i \<Rightarrow> if i = nil_uuid then None else Some i)"

text \<open>\<open>strings.Cut(s, " ")\<close>.\<close>

definition cut_space :: "string \<Rightarrow> (string \<times> string) option" where
  "cut_space s =
     (if CHR '' '' \<in> set s
      then Some (takeWhile (\<lambda>c. c \<noteq> CHR '' '') s, tl (dropWhile (\<lambda>c. c \<noteq> CHR '' '') s))
      else None)"

definition bearerToken :: "Request \<Rightarrow> string option" where
  "bearerToken r =
     (let header = header_get (req_Header r) ''Authorization''
      in if header = [] then None
         else (case cut_space header of
                 None \<Rightarrow> None
               | Some (scheme, token) \<Rightarrow>
                   if to_lower scheme \<noteq> ''bearer'' \<or> token = [] then None else Some token))"

definition challenge :: string where
  "challenge =
     ''Bearer realm='' @ [CHR 0x22] @ ''api'' @ [CHR 0x22] @ '', error='' @ [CHR 0x22] @ ''invalid_token'' @ [CHR 0x22]"

definition unauthorized :: "string \<Rightarrow> Writer \<Rightarrow> Writer" where
  "unauthorized message w = writeJSONError 401 message (set_header ''Www-Authenticate'' challenge w)"

definition RequireAuth :: "auth_lib \<Rightarrow> TokenService \<Rightarrow> middleware" where
  "RequireAuth L ts nxt r w =
     (case bearerToken r of
        None \<Rightarrow> State_Monad.return (Returned, unauthorized ''missing bearer token'' w)
      | Some token \<Rightarrow> do {
          p \<leftarrow> Parse L ts token;
          (case p of
             Inl err \<Rightarrow> do {
               log_line Debug ''token rejected'';
               State_Monad.return (Returned, unauthorized ''invalid or expired token'' w) }
           | Inr (userID, claims) \<Rightarrow>
               nxt (r\<lparr>req_User := Some userID,
                      req_TokenID := (if jc_ID claims \<noteq> [] then jc_ID claims else req_TokenID r)\<rparr>) w) })"

section \<open>Cookies\<close>

record CookieConfig =
  ck_Secure :: bool
  ck_Domain :: string

datatype same_site = SameSiteStrictMode | SameSiteNoneMode

record Cookie =
  c_Name :: string
  c_Value :: string
  c_Path :: string
  c_Domain :: string
  c_Expires :: time
  c_MaxAge :: int
  c_HttpOnly :: bool
  c_Secure :: bool
  c_SameSite :: same_site

definition refreshCookieName :: string where "refreshCookieName = ''sps_refresh''"
definition refreshCookiePath :: string where "refreshCookiePath = ''/api/v1/auth''"

text \<open>
  \<open>http.SetCookie\<close>: bytes a cookie value may not carry are dropped, a value with a blank or
  a comma is quoted, an expiry before 1601 is left out and an age below zero is written as
  zero. \<open>valid_domain\<close> is the package's test of the domain.
\<close>

definition cookie_byte :: "char \<Rightarrow> bool" where
  "cookie_byte c \<longleftrightarrow> 32 \<le> byte c \<and> byte c < 127 \<and> c \<noteq> CHR 0x22 \<and> c \<noteq> CHR '';'' \<and> c \<noteq> CHR 0x5C"

definition cookie_value :: "string \<Rightarrow> string" where
  "cookie_value v =
     (let v1 = filter cookie_byte v
      in if CHR '' '' \<in> set v1 \<or> CHR '','' \<in> set v1 then [CHR 0x22] @ v1 @ [CHR 0x22] else v1)"

definition cookie_text :: "(string \<Rightarrow> bool) \<Rightarrow> Cookie \<Rightarrow> string" where
  "cookie_text valid_domain c =
     c_Name c @ ''='' @ cookie_value (c_Value c) @
     (if c_Path c \<noteq> [] then ''; Path='' @ filter (\<lambda>b. 32 \<le> byte b \<and> byte b < 127 \<and> b \<noteq> CHR '';'') (c_Path c) else []) @
     (if c_Domain c \<noteq> [] \<and> valid_domain (c_Domain c)
      then ''; Domain='' @ (if hd (c_Domain c) = CHR ''.'' then tl (c_Domain c) else c_Domain c) else []) @
     (if 1601 \<le> year_of (c_Expires c) then ''; Expires='' @ http_time (c_Expires c) else []) @
     (if 0 < c_MaxAge c then ''; Max-Age='' @ format_int (c_MaxAge c)
      else if c_MaxAge c < 0 then ''; Max-Age=0'' else []) @
     (if c_HttpOnly c then ''; HttpOnly'' else []) @
     (if c_Secure c then ''; Secure'' else []) @
     (case c_SameSite c of SameSiteNoneMode \<Rightarrow> ''; SameSite=None'' | SameSiteStrictMode \<Rightarrow> ''; SameSite=Strict'')"

definition SetCookie :: "(string \<Rightarrow> bool) \<Rightarrow> Cookie \<Rightarrow> Writer \<Rightarrow> Writer" where
  "SetCookie valid_domain c w = add_header ''Set-Cookie'' (cookie_text valid_domain c) w"

section \<open>Accounts and sessions\<close>

record registerRequest =
  rr_Email :: string
  rr_Password :: string
  rr_FullName :: "string option"

record loginRequest =
  lr_Email :: string
  lr_Password :: string

record checkoutRequest =
  xr_PriceID :: string
  xr_Quantity :: int
  xr_TrialPeriodDays :: int
  xr_UIMode :: string

text \<open>What the handlers need of the standard library: the three decoders and the domain test.\<close>

record http_lib =
  decode_register :: "registerRequest decoder"
  decode_login :: "loginRequest decoder"
  decode_checkout :: "checkoutRequest decoder"
  valid_cookie_domain :: "string \<Rightarrow> bool"

record AuthHandler =
  ah_http :: http_lib
  ah_auth :: AuthService
  ah_cookie :: CookieConfig

definition NewAuthHandler :: "http_lib \<Rightarrow> AuthService \<Rightarrow> CookieConfig \<Rightarrow> AuthHandler" where
  "NewAuthHandler H authService cookie = \<lparr>ah_http = H, ah_auth = authService, ah_cookie = cookie\<rparr>"

definition refresh_cookie :: "AuthHandler \<Rightarrow> string \<Rightarrow> time \<Rightarrow> time \<Rightarrow> Cookie" where
  "refresh_cookie h token expiresAt now =
     \<lparr>c_Name = refreshCookieName, c_Value = token, c_Path = refreshCookiePath, c_Domain = ck_Domain (ah_cookie h),
      c_Expires = expiresAt, c_MaxAge = trunc_div (expiresAt - now) second, c_HttpOnly = True,
      c_Secure = ck_Secure (ah_cookie h), c_SameSite = SameSiteNoneMode\<rparr>"

definition setRefreshCookie :: "AuthHandler \<Rightarrow> string \<Rightarrow> time \<Rightarrow> Writer \<Rightarrow> Writer prog" where
  "setRefreshCookie h token expiresAt w = do {
     now \<leftarrow> get_now;
     State_Monad.return (SetCookie (valid_cookie_domain (ah_http h)) (refresh_cookie h token expiresAt now) w) }"

definition cleared_cookie :: "AuthHandler \<Rightarrow> Cookie" where
  "cleared_cookie h =
     \<lparr>c_Name = refreshCookieName, c_Value = [], c_Path = refreshCookiePath, c_Domain = ck_Domain (ah_cookie h),
      c_Expires = zero_time, c_MaxAge = - 1, c_HttpOnly = True, c_Secure = ck_Secure (ah_cookie h),
      c_SameSite = SameSiteStrictMode\<rparr>"

definition clearRefreshCookie :: "AuthHandler \<Rightarrow> Writer \<Rightarrow> Writer" where
  "clearRefreshCookie h w = SetCookie (valid_cookie_domain (ah_http h)) (cleared_cookie h) w"

definition refreshCookieValue :: "Request \<Rightarrow> string" where
  "refreshCookieValue r = header_get (req_Cookies r) refreshCookieName"

definition opt_field :: "string \<Rightarrow> ('a \<Rightarrow> jvalue) \<Rightarrow> 'a option \<Rightarrow> (string \<times> jvalue) list" where
  "opt_field k f v = (case v of None \<Rightarrow> [] | Some x \<Rightarrow> [(k, f x)])"

definition text_field :: "string \<Rightarrow> string \<Rightarrow> (string \<times> jvalue) list" where
  "text_field k v = (if v = [] then [] else [(k, VStr v)])"

definition UserView_json :: "auth_lib \<Rightarrow> UserView \<Rightarrow> jvalue" where
  "UserView_json L v =
     VObj ([(''id'', VStr (id_string L (uv_ID v))), (''email'', VStr (uv_Email v))] @
           opt_field ''full_name'' VStr (uv_FullName v))"

definition authResponse :: "AuthHandler \<Rightarrow> AuthResult \<Rightarrow> jvalue" where
  "authResponse h r =
     VObj [(''token'', VStr (ar_Token r)), (''expires_at'', VTime (ar_ExpiresAt r)),
           (''user'', UserView_json (as_lib (ah_auth h)) (ar_User r))]"

text \<open>The answer with a new session, shared by the three handlers that start or renew one.\<close>

definition answer_session :: "AuthHandler \<Rightarrow> int \<Rightarrow> AuthResult \<Rightarrow> Writer \<Rightarrow> (ending \<times> Writer) prog" where
  "answer_session h status result w = do {
     w1 \<leftarrow> setRefreshCookie h (ar_RefreshToken result) (ar_RefreshTokenExpiresAt result) w;
     State_Monad.return (Returned, writeJSON status (authResponse h result) w1) }"

definition HandleRegister :: "AuthHandler \<Rightarrow> handler" where
  "HandleRegister h r w =
     (case decodeJSON (decode_register (ah_http h)) r of
        Inl err \<Rightarrow> State_Monad.return (Returned, writeError 400 err w)
      | Inr req \<Rightarrow> do {
          res \<leftarrow> Register (ah_auth h) (rr_Email req) (rr_Password req) (rr_FullName req);
          (case res of
             Inr result \<Rightarrow> answer_session h 201 result w
           | Inl err \<Rightarrow>
               if err_is err ErrConflict
               then State_Monad.return (Returned, writeError 409 ''an account with that email already exists'' w)
               else if err_is err ErrValidation
               then State_Monad.return (Returned, writeError 422 (err_text err) w)
               else do {
                 log_line Error ''registration failed'';
                 State_Monad.return (Returned, writeError 500 ''could not create the account'' w) }) })"

definition HandleLogin :: "AuthHandler \<Rightarrow> handler" where
  "HandleLogin h r w =
     (case decodeJSON (decode_login (ah_http h)) r of
        Inl err \<Rightarrow> State_Monad.return (Returned, writeError 400 err w)
      | Inr req \<Rightarrow> do {
          res \<leftarrow> Login (ah_auth h) (lr_Email req) (lr_Password req);
          (case res of
             Inr result \<Rightarrow> answer_session h 200 result w
           | Inl err \<Rightarrow>
               if err_is err ErrCredentialsMismatch
               then State_Monad.return (Returned, writeError 401 ''invalid email or password'' w)
               else do {
                 log_line Error ''login failed'';
                 State_Monad.return (Returned, writeError 500 ''could not sign you in'' w) }) })"

definition HandleRefresh :: "AuthHandler \<Rightarrow> handler" where
  "HandleRefresh h r w = do {
     res \<leftarrow> Refresh (ah_auth h) (refreshCookieValue r);
     (case res of
        Inl err \<Rightarrow> do {
          let w1 = clearRefreshCookie h w;
          (if err_is err ErrTokenReused then log_line Warn ''refresh rejected: token reuse''
           else if \<not> err_is err ErrNotFound then log_line Error ''refresh failed''
           else State_Monad.return ());
          State_Monad.return (Returned, writeError 401 ''session expired, please sign in again'' w1) }
      | Inr result \<Rightarrow> answer_session h 200 result w) }"

definition HandleLogout :: "AuthHandler \<Rightarrow> handler" where
  "HandleLogout h r w = do {
     res \<leftarrow> Logout (refreshCookieValue r);
     (case res of
        Some err \<Rightarrow> log_line Error ''logout could not revoke the session''
      | None \<Rightarrow> State_Monad.return ());
     State_Monad.return (Returned, recorder_WriteHeader 204 (clearRefreshCookie h w)) }"

definition HandleMe :: "AuthHandler \<Rightarrow> handler" where
  "HandleMe h r w =
     (case UserIDFromContext r of
        None \<Rightarrow> writeUnwiredRoute w
      | Some userID \<Rightarrow> do {
          res \<leftarrow> Me userID;
          (case res of
             Inr view \<Rightarrow> State_Monad.return (Returned, writeJSON 200 (UserView_json (as_lib (ah_auth h)) view) w)
           | Inl err \<Rightarrow>
               if err_is err ErrNotFound
               then State_Monad.return (Returned, writeError 401 ''account no longer exists'' w)
               else do {
                 log_line Error ''identity lookup failed'';
                 State_Monad.return (Returned, writeError 500 ''internal server error'' w) }) })"

section \<open>Subscriptions\<close>

definition SubscriptionView_json :: "SubscriptionView \<Rightarrow> jvalue" where
  "SubscriptionView_json v =
     VObj ([(''status'', VStr (sv_Status v)), (''is_active'', VBool (sv_IsActive v)),
            (''price_id'', VStr (sv_PriceID v)), (''quantity'', VInt (sv_Quantity v))] @
           opt_field ''currency'' VStr (sv_Currency v) @ opt_field ''unit_amount'' VInt (sv_UnitAmount v) @
           [(''current_period_end'', VTime (sv_CurrentPeriodEnd v)),
            (''cancel_at_period_end'', VBool (sv_CancelAtPeriodEnd v))] @
           opt_field ''canceled_at'' VTime (sv_CanceledAt v) @ opt_field ''trial_end'' VTime (sv_TrialEnd v))"

definition HandleGetSubscription :: handler where
  "HandleGetSubscription r w =
     (case UserIDFromContext r of
        None \<Rightarrow> writeUnwiredRoute w
      | Some userID \<Rightarrow> do {
          res \<leftarrow> GetForUser userID;
          (case res of
             Inr view \<Rightarrow> State_Monad.return (Returned, writeJSON 200 (SubscriptionView_json view) w)
           | Inl err \<Rightarrow>
               if err_is err ErrNotFound
               then State_Monad.return (Returned, writeJSON 404 (errorResponse ''no subscription'') w)
               else do {
                 log_line Error ''subscription lookup failed'';
                 State_Monad.return (Returned, writeError 500 ''internal server error'' w) }) })"

section \<open>Webhooks and checkout\<close>

definition maxWebhookBytes :: int where "maxWebhookBytes = 262144"

abbreviation signatureHeader :: string where "signatureHeader \<equiv> ''Stripe-Signature''"

record StripeHandler =
  sh_http :: http_lib
  sh_webhooks :: Service
  sh_checkout :: CheckoutService
  sh_maxWebhookBytes :: int

definition NewStripeHandler :: "http_lib \<Rightarrow> Service \<Rightarrow> CheckoutService \<Rightarrow> StripeHandler" where
  "NewStripeHandler H webhooks checkout =
     \<lparr>sh_http = H, sh_webhooks = webhooks, sh_checkout = checkout, sh_maxWebhookBytes = maxWebhookBytes\<rparr>"

definition answer_webhook :: "handled \<Rightarrow> Writer \<Rightarrow> (ending \<times> Writer) prog" where
  "answer_webhook o1 w =
     (case snd o1 of
        Some err \<Rightarrow>
          if err_is err ErrSignatureVerification
          then do {
            log_line Warn ''webhook signature verification failed'';
            State_Monad.return (Returned, writeError 400 ''signature verification failed'' w) }
          else do {
            log_line Error ''webhook processing failed'';
            State_Monad.return (Returned, writeError 500 ''event processing failed'' w) }
      | None \<Rightarrow>
          State_Monad.return (Returned, writeJSON 200 (VObj [(''status'', VStr (Outcome_text (fst o1)))]) w))"

definition HandleWebhook :: "StripeHandler \<Rightarrow> handler" where
  "HandleWebhook h r w =
     (let signature = header_get (req_Header r) signatureHeader;
          limit = (if sh_maxWebhookBytes h \<le> 0 then maxWebhookBytes else sh_maxWebhookBytes h)
      in if signature = []
         then do {
           log_line Warn ''webhook rejected: missing signature header'';
           State_Monad.return (Returned, writeError 400 ''missing signature'' w) }
         else (case MaxBytesReader (nat limit) r of
                 (payload, TooManyBytes) \<Rightarrow> do {
                   log_line Warn ''webhook rejected: payload too large'';
                   State_Monad.return (Returned, writeError 413 ''payload too large'' w) }
               | (payload, BrokenBody m) \<Rightarrow> do {
                   log_line Warn ''webhook body read failed'';
                   State_Monad.return (Returned, writeError 400 ''could not read request body'' w) }
               | (payload, EndOfBody) \<Rightarrow> do {
                   res \<leftarrow> ProcessEvent (sh_webhooks h) payload signature;
                   answer_webhook res w }))"

definition writeServiceError :: "goerr \<Rightarrow> Writer \<Rightarrow> (ending \<times> Writer) prog" where
  "writeServiceError err w =
     (if err_is err ErrNotFound
      then State_Monad.return (Returned, writeError 404 ''no billing account for this user'' w)
      else if err_is err ErrValidation \<or> err_is err ErrInvalidRequest
      then do {
        log_line Warn ''checkout rejected'';
        State_Monad.return (Returned, writeError 422 ''request could not be fulfilled'' w) }
      else if err_is err ErrUpstream
      then do {
        log_line Error ''stripe upstream failure'';
        State_Monad.return (Returned, writeError 502 ''payment provider unavailable'' w) }
      else do {
        log_line Error ''checkout failed'';
        State_Monad.return (Returned, writeError 500 ''internal server error'' w) })"

definition ui_mode_message :: string where
  "ui_mode_message =
     ''ui_mode must be '' @ [CHR 0x22] @ ''hosted'' @ [CHR 0x22] @ '' or '' @ [CHR 0x22] @ ''embedded'' @ [CHR 0x22]"

definition checkoutResponse :: "CheckoutResult \<Rightarrow> jvalue" where
  "checkoutResponse z =
     VObj ([(''session_id'', VStr (cz_SessionID z))] @ text_field ''url'' (cz_URL z) @
           text_field ''client_secret'' (cz_ClientSecret z))"

definition HandleCheckout :: "StripeHandler \<Rightarrow> handler" where
  "HandleCheckout h r w =
     (case UserIDFromContext r of
        None \<Rightarrow> writeUnwiredRoute w
      | Some userID \<Rightarrow>
          (case decodeJSON (decode_checkout (sh_http h)) r of
             Inl err \<Rightarrow> do {
               log_line Warn ''checkout request rejected'';
               State_Monad.return (Returned, writeError 400 err w) }
           | Inr req \<Rightarrow>
               let mode = trim_space (xr_UIMode req)
               in if mode \<noteq> [] \<and> mode \<noteq> ''hosted'' \<and> mode \<noteq> ''embedded''
                  then State_Monad.return (Returned, writeError 400 ui_mode_message w)
                  else do {
                    res \<leftarrow> CheckoutService_CreateCheckoutSession (sh_checkout h)
                      \<lparr>cq_UserID = userID, cq_PriceID = trim_space (xr_PriceID req), cq_Quantity = xr_Quantity req,
                       cq_TrialPeriodDays = xr_TrialPeriodDays req, cq_Embedded = (mode = ''embedded'')\<rparr>;
                    (case res of
                       Inl err \<Rightarrow> writeServiceError err w
                     | Inr z \<Rightarrow> State_Monad.return (Returned, writeJSON 201 (checkoutResponse z) w)) }))"

definition HandlePortal :: "StripeHandler \<Rightarrow> handler" where
  "HandlePortal h r w =
     (case UserIDFromContext r of
        None \<Rightarrow> writeUnwiredRoute w
      | Some userID \<Rightarrow> do {
          res \<leftarrow> CheckoutService_CreatePortalSession (sh_checkout h) userID;
          (case res of
             Inl err \<Rightarrow> writeServiceError err w
           | Inr url \<Rightarrow> State_Monad.return (Returned, writeJSON 201 (VObj [(''url'', VStr url)]) w)) })"

section \<open>Health\<close>

record HealthHandler =
  hh_version :: string
  hh_startedAt :: time

definition NewHealthHandler :: "string \<Rightarrow> HealthHandler prog" where
  "NewHealthHandler version = do {
     now \<leftarrow> get_now;
     State_Monad.return \<lparr>hh_version = version, hh_startedAt = now\<rparr> }"

text \<open>
  \<open>SELECT 1\<close> has one row, with the number 1. The probe's own deadline of two seconds, like
  every deadline, shows as a fault of the statement.
\<close>

definition select_one_stmt :: "int stmt" where
  "select_one_stmt s d = Inr (1, d)"

definition DB_HealthCheck :: "goerr option prog" where
  "DB_HealthCheck = do {
     r \<leftarrow> run_stmt select_one_stmt;
     State_Monad.return (case r of
       Inl e \<Rightarrow> Some (Wrap ''health check: '' (Driver e) [])
     | Inr ok \<Rightarrow> if ok \<noteq> 1 then Some (Text (''health check: unexpected result '' @ format_int ok)) else None) }"

definition uptime :: "HealthHandler \<Rightarrow> time \<Rightarrow> string" where
  "uptime h now = seconds_text (trunc_div (now - hh_startedAt h) second)"

definition check_json :: "string \<Rightarrow> int \<Rightarrow> string \<Rightarrow> jvalue" where
  "check_json status latency err =
     VObj ([(''status'', VStr status), (''latency_ms'', VMillis latency)] @ text_field ''error'' err)"

definition healthResponse :: "string \<Rightarrow> string \<Rightarrow> string \<Rightarrow> (string \<times> jvalue) list \<Rightarrow> jvalue" where
  "healthResponse status version up checks =
     VObj ([(''status'', VStr status), (''version'', VStr version), (''uptime'', VStr up)] @
           (if checks = [] then [] else [(''checks'', VObj checks)]))"

definition Live :: "HealthHandler \<Rightarrow> handler" where
  "Live h r w = do {
     now \<leftarrow> get_now;
     State_Monad.return (Returned, writeJSON 200 (healthResponse ''ok'' (hh_version h) (uptime h now) []) w) }"

definition Ready :: "HealthHandler \<Rightarrow> handler" where
  "Ready h r w = do {
     start \<leftarrow> get_now;
     err \<leftarrow> DB_HealthCheck;
     now \<leftarrow> get_now;
     let latency = trunc_div (now - start) 1000;
     (case err of
        None \<Rightarrow>
          State_Monad.return (Returned, writeJSON 200
            (healthResponse ''ok'' (hh_version h) (uptime h now) [(''database'', check_json ''ok'' latency [])]) w)
      | Some e \<Rightarrow> do {
          log_line Error ''readiness check failed'';
          State_Monad.return (Returned, writeJSON 503
            (healthResponse ''unavailable'' (hh_version h) (uptime h now)
               [(''database'', check_json ''fail'' latency ''unreachable'')]) w) }) }"

end
