(* ===== verification/Router.thy ===== *)
theory Router
  imports Handlers
begin

text \<open>
  internal/handler/router.go: the chain of middleware and the table of routes, over the
  handlers. The multiplexer (chi) is the parameter record \<open>chi_lib\<close>: whether a mounted prefix
  applies to a path and what is left of it, which entry of a table of patterns a method and a
  path match, and the pattern it reports for a request. The properties rely on
  \<open>chi_laws\<close>: patterns without parameters match exactly themselves.

  The routing context is one object per request that routing fills in, so the label of a
  request is known at the end of the chain; a preflight that is answered before routing has
  none.

  The properties: no request breaks an invariant of the database, whatever other processes do;
  a protected route answers 401 and sends no statement without a valid token; an acknowledged
  delivery is in the ledger; a failed login answers the same bytes in every case.
\<close>

section \<open>The multiplexer\<close>

datatype route_match = Endpoint "string \<times> string" | NotAllowed | NotFoundRoute

record chi_lib =
  chi_mount :: "string \<Rightarrow> string \<Rightarrow> string option"
  chi_match :: "(string \<times> string) list \<Rightarrow> string \<Rightarrow> string \<Rightarrow> route_match"
  chi_pattern :: "string \<Rightarrow> string \<Rightarrow> string"

text \<open>A pattern without parameters and wildcards, which are all the program has.\<close>

definition static_path :: "string \<Rightarrow> bool" where
  "static_path p \<longleftrightarrow> list_all (\<lambda>c. c \<notin> set ''{}*'') p"

definition static_table :: "(string \<times> string) list \<Rightarrow> bool" where
  "static_table table \<longleftrightarrow> list_all (\<lambda>(m, p). static_path p) table"

definition chi_laws :: "chi_lib \<Rightarrow> bool" where
  "chi_laws C \<longleftrightarrow>
     (\<forall>table m p. static_table table \<longrightarrow> (m, p) \<in> set table \<longrightarrow> chi_match C table m p = Endpoint (m, p)) \<and>
     (\<forall>table m p e. static_table table \<longrightarrow> chi_match C table m p = Endpoint e \<longrightarrow> e = (m, p) \<and> e \<in> set table) \<and>
     (\<forall>prefix p. static_path prefix \<longrightarrow> chi_mount C prefix (prefix @ ''/'' @ p) = Some (''/'' @ p)) \<and>
     (\<forall>prefix p q. static_path prefix \<longrightarrow> chi_mount C prefix p = Some q \<longrightarrow> has_prefix p prefix)"

section \<open>Configuration\<close>

record RouterConfig =
  ro_APITimeout :: duration
  ro_CORS :: CORSConfig
  ro_Tokens :: "auth_lib \<times> TokenService"
  ro_AuthRateLimit :: "(rate_lib \<times> RateLimitConfig) option"
  ro_TrustedProxies :: int
  ro_Metrics :: bool
  ro_WebhookTimeout :: duration

definition defaultAPITimeout :: duration where "defaultAPITimeout = 10 * second"
definition defaultWebhookTimeout :: duration where "defaultWebhookTimeout = 25 * second"

definition RouterConfig_withDefaults :: "RouterConfig \<Rightarrow> RouterConfig" where
  "RouterConfig_withDefaults c =
     c\<lparr>ro_APITimeout := (if ro_APITimeout c \<le> 0 then defaultAPITimeout else ro_APITimeout c),
       ro_WebhookTimeout := (if ro_WebhookTimeout c \<le> 0 then defaultWebhookTimeout else ro_WebhookTimeout c)\<rparr>"

section \<open>Routes\<close>

type_synonym routes = "((string \<times> string) \<times> handler) list"

definition not_found :: handler where
  "not_found r w = State_Monad.return (Returned, writeError 404 ''not found'' w)"

definition method_not_allowed :: handler where
  "method_not_allowed r w = State_Monad.return (Returned, writeError 405 ''method not allowed'' w)"

text \<open>A multiplexer with its table, asked about a path.\<close>

definition serve :: "chi_lib \<Rightarrow> routes \<Rightarrow> string \<Rightarrow> handler" where
  "serve C table path r w =
     (case chi_match C (map fst table) (req_Method r) path of
        Endpoint e \<Rightarrow> (case map_of table e of None \<Rightarrow> not_found r w | Some h \<Rightarrow> h r w)
      | NotAllowed \<Rightarrow> method_not_allowed r w
      | NotFoundRoute \<Rightarrow> not_found r w)"

record app =
  ap_chi :: chi_lib
  ap_rand :: random
  ap_stripe :: StripeHandler
  ap_auth :: AuthHandler
  ap_health :: HealthHandler

definition limited :: "RouterConfig \<Rightarrow> middleware" where
  "limited cfg =
     (case ro_AuthRateLimit cfg of
        None \<Rightarrow> id
      | Some (L, limits) \<Rightarrow> RateLimiter_Middleware L limits (ClientKeyFunc L (ro_TrustedProxies cfg)))"

definition protected_routes :: "app \<Rightarrow> RouterConfig \<Rightarrow> routes" where
  "protected_routes A cfg =
     map (\<lambda>(e, h). (e, RequireAuth (fst (ro_Tokens cfg)) (snd (ro_Tokens cfg)) h))
       [((''GET'', ''/auth/me''), HandleMe (ap_auth A)),
        ((''POST'', ''/checkout''), HandleCheckout (ap_stripe A)),
        ((''POST'', ''/portal''), HandlePortal (ap_stripe A)),
        ((''GET'', ''/subscription''), HandleGetSubscription)]"

definition api_routes :: "app \<Rightarrow> RouterConfig \<Rightarrow> routes" where
  "api_routes A cfg =
     [((''POST'', ''/auth/register''), limited cfg (HandleRegister (ap_auth A))),
      ((''POST'', ''/auth/login''), limited cfg (HandleLogin (ap_auth A))),
      ((''POST'', ''/auth/refresh''), limited cfg (HandleRefresh (ap_auth A))),
      ((''POST'', ''/auth/logout''), HandleLogout (ap_auth A))] @
     protected_routes A cfg"

definition root_routes :: "app \<Rightarrow> RouterConfig \<Rightarrow> routes" where
  "root_routes A cfg =
     [((''GET'', ''/livez''), Live (ap_health A)),
      ((''GET'', ''/healthz''), Ready (ap_health A)),
      ((''POST'', ''/webhook''), Timeout (ro_WebhookTimeout cfg) (HandleWebhook (ap_stripe A)))]"

lemma static_routes:
  "static_table (map fst (api_routes A cfg))" "static_table (map fst (root_routes A cfg))" "static_path ''/api/v1''"
  by (simp_all add: static_table_def static_path_def api_routes_def protected_routes_def root_routes_def)

definition mux :: "app \<Rightarrow> RouterConfig \<Rightarrow> handler" where
  "mux A cfg r w =
     (case chi_mount (ap_chi A) ''/api/v1'' (req_Path r) of
        Some rest \<Rightarrow> Timeout (ro_APITimeout cfg) (serve (ap_chi A) (api_routes A cfg) rest) r w
      | None \<Rightarrow> serve (ap_chi A) (root_routes A cfg) (req_Path r) r w)"

definition uses_cors :: "RouterConfig \<Rightarrow> bool" where
  "uses_cors cfg \<longleftrightarrow> 0 < length (co_AllowedOrigins (ro_CORS cfg))"

definition answered_preflight :: "RouterConfig \<Rightarrow> Request \<Rightarrow> bool" where
  "answered_preflight cfg r \<longleftrightarrow>
     uses_cors cfg \<and> req_Method r = ''OPTIONS'' \<and> header_get (req_Header r) ''Origin'' \<noteq> [] \<and>
     header_get (req_Header r) ''Origin'' \<in> set (cors_allowed (ro_CORS cfg))"

definition with_pattern :: "app \<Rightarrow> RouterConfig \<Rightarrow> Request \<Rightarrow> Request" where
  "with_pattern A cfg r =
     r\<lparr>req_Pattern := (if answered_preflight cfg r then [] else chi_pattern (ap_chi A) (req_Method r) (req_Path r))\<rparr>"

definition NewRouter :: "app \<Rightarrow> RouterConfig \<Rightarrow> handler" where
  "NewRouter A cfg0 r w =
     (let cfg = RouterConfig_withDefaults cfg0;
          cors = (if uses_cors cfg then CORS (ro_CORS cfg) else id);
          instrument = (if ro_Metrics cfg then Metrics else id)
      in RequestID (ap_rand A) (AccessLog (instrument (Recoverer (cors (mux A cfg))))) (with_pattern A cfg r) w)"

section \<open>What every request keeps\<close>

text \<open>
  A relation on databases that every statement of the billing and of the session code satisfies
  is kept by every handler and by the whole router.
\<close>

locale app_relation = billing_relation R + session_relation R for R :: "db \<Rightarrow> db \<Rightarrow> bool"
begin

lemma keeps_case_stream [keeps_rules]:
  "keeps R a \<Longrightarrow> (\<And>m. keeps R (b m)) \<Longrightarrow> keeps R c \<Longrightarrow>
   keeps R (case e of EndOfBody \<Rightarrow> a | BrokenBody m \<Rightarrow> b m | TooManyBytes \<Rightarrow> c)"
  by (cases e) simp_all

lemma keeps_case_match [keeps_rules]:
  "(\<And>e. keeps R (a e)) \<Longrightarrow> keeps R b \<Longrightarrow> keeps R c \<Longrightarrow>
   keeps R (case x of Endpoint e \<Rightarrow> a e | NotAllowed \<Rightarrow> b | NotFoundRoute \<Rightarrow> c)"
  by (cases x) simp_all

lemma keeps_answers [keeps_rules]:
  "keeps R (writeUnwiredRoute w)" "keeps R (answer_session h status result w)"
  "keeps R (answer_webhook o1 w)" "keeps R (writeServiceError err w)" "keeps R (not_found r w)"
  "keeps R (method_not_allowed r w)"
  unfolding writeUnwiredRoute_def answer_session_def setRefreshCookie_def answer_webhook_def writeServiceError_def
    not_found_def method_not_allowed_def
  by (intro keeps_rules)+

lemma keeps_services [keeps_rules]: "keeps R DB_HealthCheck" "keeps R (GetForUser i)"
  unfolding DB_HealthCheck_def GetForUser_def
  by (intro keeps_rules keeps_run_stmt) (simp add: stmt_ok_def select_one_stmt_def R_refl, intro keeps_rules)

lemma keeps_account_handlers [keeps_rules]:
  "keeps R (HandleRegister h r w)" "keeps R (HandleLogin h r w)" "keeps R (HandleRefresh h r w)"
  "keeps R (HandleLogout h r w)" "keeps R (HandleMe h r w)"
  unfolding HandleRegister_def HandleLogin_def HandleRefresh_def HandleLogout_def HandleMe_def Let_def
  by (intro keeps_rules keeps_auth)+

lemma keeps_billing_handlers [keeps_rules]:
  "keeps R (HandleGetSubscription r w)" "keeps R (HandleWebhook h2 r w)" "keeps R (HandleCheckout h2 r w)"
  "keeps R (HandlePortal h2 r w)" "keeps R (Live h3 r w)" "keeps R (Ready h3 r w)"
  unfolding HandleGetSubscription_def HandleWebhook_def HandleCheckout_def HandlePortal_def Live_def Ready_def Let_def
  by (intro keeps_rules keeps_ProcessEvent)+

lemma keeps_limiter [keeps_rules]:
  assumes "\<And>r w. keeps R (nxt r w)"
  shows "keeps R (limited cfg nxt r w)" "keeps R (RequireAuth L ts nxt r w)"
  unfolding limited_def RateLimiter_Middleware_def allow_def find_bucket_def RequireAuth_def Let_def
  by (auto split: option.split intro!: keeps_rules assms)

lemma keeps_serve:
  assumes "\<And>e h r w. (e, h) \<in> set table \<Longrightarrow> keeps R (h r w)"
  shows "keeps R (serve C table p r w)"
  unfolding serve_def
  by (auto split: route_match.split option.split intro!: keeps_answers dest!: map_of_SomeD intro: assms)

lemma keeps_routes:
  "(e, h) \<in> set (api_routes A cfg) \<Longrightarrow> keeps R (h r w)"
  "(e, h) \<in> set (root_routes A cfg) \<Longrightarrow> keeps R (h r w)"
  by (auto simp: api_routes_def protected_routes_def root_routes_def intro!: keeps_rules)

lemma keeps_mux [keeps_rules]: "keeps R (mux A cfg r w)"
  unfolding mux_def by (intro keeps_rules keeps_serve keeps_routes; assumption)

lemma keeps_NewRouter: "keeps R (NewRouter A cfg r w)"
  by (simp add: NewRouter_def Let_def) (intro conjI impI keeps_middleware keeps_mux)

end

interpretation app_ledger: token_relation ledger_sound
  by unfold_locales (simp add: ledger_sound_same)

interpretation sound_app: app_relation ledger_sound
  by unfold_locales

interpretation app_cursors: token_relation subs_evolve
  by unfold_locales simp

interpretation cursor_app: app_relation subs_evolve
  by unfold_locales

interpretation accounts_app: app_relation users_kept
  by unfold_locales (auto simp: users_kept_def intro!: stmt_okI dest!: sub_frames hook_frames)

interpretation token_app: app_relation tokens_sound
  by unfold_locales (auto intro!: stmt_okI tokens_sound_same dest!: sub_frames hook_frames user_frames)

section \<open>Through the chain\<close>

lemma AccessLog_returned:
  "run_state (nxt r w) W = ((Returned, w1), W1) \<Longrightarrow>
   run_state (AccessLog nxt r w) W = ((Returned, w1), W1\<lparr>w_logs := w_logs W1 @ [(access_level r w1, ''request'')]\<rparr>)"
  by (simp add: AccessLog_def)

lemma Metrics_returned:
  "run_state (nxt r w) (W\<lparr>w_metrics := w_metrics W @ [IncInFlight]\<rparr>) = ((Returned, w1), W1) \<Longrightarrow>
   \<exists>ms. run_state (Metrics nxt r w) W = ((Returned, w1), W1\<lparr>w_metrics := ms\<rparr>)"
  by (simp add: Metrics_def) (rule exI, rule refl)

lemma RequestID_through:
  "\<exists>i hs W1. run_state (RequestID rnd nxt r w) W =
              run_state (nxt (r\<lparr>req_RequestID := i\<rparr>) (w\<lparr>rw_Header := hs\<rparr>)) W1 \<and>
            w_db W1 = w_db W \<and> w_plan W1 = w_plan W \<and> w_polls W1 = w_polls W"
proof -
  let ?x = "header_get (req_Header r) ''X-Request-Id''"
  show ?thesis
  proof (cases "?x = [] \<or> maxInboundRequestIDLen < length ?x \<or> \<not> isPrintableASCII ?x")
    case True
    let ?i = "fst (run_state (newRequestID rnd) W)"
    show ?thesis
      by (rule exI [of _ ?i], rule exI [of _ "header_set ''X-Request-Id'' ?i (rw_Header w)"],
          rule exI [of _ "W\<lparr>w_draws := Suc (w_draws W)\<rparr>"])
         (use True in \<open>simp add: RequestID_def newRequestID_run set_header_def Let_def\<close>)
  next
    case False
    show ?thesis
      by (rule exI [of _ ?x], rule exI [of _ "header_set ''X-Request-Id'' ?x (rw_Header w)"], rule exI [of _ W])
         (use False in \<open>simp add: RequestID_def set_header_def Let_def\<close>)
  qed
qed

lemma Recoverer_returned:
  "run_state (nxt r w) W = ((Returned, w1), W1) \<Longrightarrow> run_state (Recoverer nxt r w) W = ((Returned, w1), W1)"
  by (simp add: Recoverer_def)

lemma Timeout_returned:
  "run_state (nxt r w) W = ((Returned, w1), W1) \<Longrightarrow> wroteHeader w1 \<Longrightarrow>
   run_state (Timeout d nxt r w) W = ((Returned, w1), W1)"
  by (simp add: Timeout_def)

lemma CORS_through:
  "req_Method r \<noteq> ''OPTIONS'' \<Longrightarrow>
   \<exists>hs. run_state (CORS c nxt r w) W = run_state (nxt r (w\<lparr>rw_Header := hs\<rparr>)) W"
  by (simp add: CORS_def Let_def cors_headers_def set_header_def add_header_def)
     (metis (no_types, lifting) Writer.surjective Writer.update_convs(1))

text \<open>
  A request that is no preflight reaches the routes with its own method, path, headers and body,
  on the same database; whatever the routes answer is the answer of the service.
\<close>

lemma NewRouter_through:
  assumes "req_Method r \<noteq> ''OPTIONS''"
    and mux: "\<And>x i hs W1. w_db W1 = w_db W \<Longrightarrow> w_plan W1 = w_plan W \<Longrightarrow> w_polls W1 = w_polls W \<Longrightarrow>
           \<exists>w2 W2. run_state (mux A (RouterConfig_withDefaults cfg) (r\<lparr>req_Pattern := x, req_RequestID := i\<rparr>)
                      (new_writer\<lparr>rw_Header := hs\<rparr>)) W1 = ((Returned, w2), W2) \<and>
                   Q w2 (w_db W2) (w_plan W2) (w_polls W2)"
  shows "\<exists>w2 W2. run_state (NewRouter A cfg r new_writer) W = ((Returned, w2), W2) \<and>
                 Q w2 (w_db W2) (w_plan W2) (w_polls W2)"
proof -
  let ?cfg = "RouterConfig_withDefaults cfg"
  let ?ok = "\<lambda>x W0. \<exists>w2 W2. x = ((Returned, w2), W2) \<and> Q w2 (w_db W2) (w_plan W2) (w_polls W2)"
  let ?same = "\<lambda>W1. w_db W1 = w_db W \<and> w_plan W1 = w_plan W \<and> w_polls W1 = w_polls W"
  let ?cors = "if uses_cors ?cfg then CORS (ro_CORS ?cfg) else id"
  let ?r = "\<lambda>x i. r\<lparr>req_Pattern := x, req_RequestID := i\<rparr>"
  have 1: "\<exists>w2 W2. run_state (Recoverer (?cors (mux A ?cfg)) (?r x i) (new_writer\<lparr>rw_Header := hs\<rparr>)) W1 =
      ((Returned, w2), W2) \<and> Q w2 (w_db W2) (w_plan W2) (w_polls W2)" if same: "?same W1" for x i hs W1
  proof -
    obtain hs' where c: "run_state (?cors (mux A ?cfg) (?r x i) (new_writer\<lparr>rw_Header := hs\<rparr>)) W1 =
        run_state (mux A ?cfg (?r x i) (new_writer\<lparr>rw_Header := hs'\<rparr>)) W1"
      using CORS_through [of "?r x i" "ro_CORS ?cfg" "mux A ?cfg" "new_writer\<lparr>rw_Header := hs\<rparr>" W1] assms(1)
      by (cases "uses_cors ?cfg") (auto simp del: Writer.update_convs)
    obtain w2 W2 where m: "run_state (mux A ?cfg (?r x i) (new_writer\<lparr>rw_Header := hs'\<rparr>)) W1 = ((Returned, w2), W2)"
      and q: "Q w2 (w_db W2) (w_plan W2) (w_polls W2)" using mux [of W1 i x hs'] same by blast
    from Recoverer_returned [where nxt = "?cors (mux A ?cfg)" and r = "?r x i", OF trans [OF c m]] q show ?thesis by (intro exI conjI)
  qed
  let ?in = "if ro_Metrics ?cfg then Metrics else id"
  let ?h = "Recoverer (?cors (mux A ?cfg))"
  have 2: "\<exists>w2 W2. run_state (?in ?h (?r x i) (new_writer\<lparr>rw_Header := hs\<rparr>)) W1 =
      ((Returned, w2), W2) \<and> Q w2 (w_db W2) (w_plan W2) (w_polls W2)" if "?same W1" for x i hs W1
  proof (cases "ro_Metrics ?cfg")
    case True
    have "?same (W1\<lparr>w_metrics := w_metrics W1 @ [IncInFlight]\<rparr>)" using that by simp
    from 1 [OF this, of i x hs] obtain w2 W2 where
      run: "run_state (?h (?r x i) (new_writer\<lparr>rw_Header := hs\<rparr>)) (W1\<lparr>w_metrics := w_metrics W1 @ [IncInFlight]\<rparr>) =
        ((Returned, w2), W2)" and q: "Q w2 (w_db W2) (w_plan W2) (w_polls W2)" by blast
    from Metrics_returned [where nxt = ?h and r = "?r x i", OF run] True q show ?thesis by auto
  qed (use 1 [OF that] in simp)
  have 3: "\<exists>w2 W2. run_state (AccessLog (?in ?h) (?r x i) (new_writer\<lparr>rw_Header := hs\<rparr>)) W1 =
      ((Returned, w2), W2) \<and> Q w2 (w_db W2) (w_plan W2) (w_polls W2)" if "?same W1" for x i hs W1
  proof -
    from 2 [OF that, of i x hs] obtain w2 W2 where
      "run_state (?in ?h (?r x i) (new_writer\<lparr>rw_Header := hs\<rparr>)) W1 = ((Returned, w2), W2)"
      and q: "Q w2 (w_db W2) (w_plan W2) (w_polls W2)" by blast
    from AccessLog_returned [where nxt = "?in ?h" and r = "?r x i", OF this(1)] q show ?thesis by auto
  qed
  let ?x = "req_Pattern (with_pattern A ?cfg r)"
  have r: "(with_pattern A ?cfg r)\<lparr>req_RequestID := i\<rparr> = ?r ?x i" for i by (simp add: with_pattern_def)
  obtain i hs W1 where run: "run_state (NewRouter A cfg r new_writer) W =
      run_state (AccessLog (?in ?h) (?r ?x i) (new_writer\<lparr>rw_Header := hs\<rparr>)) W1" and "?same W1"
    using RequestID_through [of "ap_rand A" "AccessLog (?in ?h)" "with_pattern A ?cfg r" new_writer W]
    unfolding r NewRouter_def Let_def by blast
  from 3 [OF this(2), of i ?x hs] show ?thesis unfolding run .
qed

end
