(* ===== verification/Api.thy ===== *)
theory Api
  imports Router
begin

text \<open>
  What a client of the HTTP interface may rely on, for the router as \<open>NewRouter\<close> assembles it
  and for the answers of its handlers: protected routes, acknowledged deliveries, refusals that
  tell nothing apart, sessions ended by their cookie, the error envelope.
\<close>

section \<open>Answers\<close>

lemma header_get_set: "header_get (header_set k v hs) k' = (if k' = k then v else header_get hs k')"
proof -
  have "map_of (filter (\<lambda>(a, b). a \<noteq> k) hs) k' = (if k' = k then None else map_of hs k')"
    by (induction hs) auto
  then show ?thesis by (simp add: header_get_def header_set_def map_add_def split: option.split)
qed

lemma writeJSON_sent:
  "\<not> wroteHeader w \<Longrightarrow> rw_Sent (writeJSON s p w) = Some (s, rw_Header (json_headers w))"
  by (simp add: writeJSON_def recorder_Write_def recorder_WriteHeader_def Let_def) (simp add: wroteHeader_def)

lemma writeJSON_wrote [simp]: "wroteHeader (writeJSON s p w)" "wroteHeader (writeError s m w)"
  by (simp_all add: writeJSON_def writeError_def Let_def)

lemma writeJSON_status:
  "\<not> wroteHeader w \<Longrightarrow> recorder_status (writeJSON s p w) = s"
  "\<not> wroteHeader w \<Longrightarrow> recorder_status (writeError s m w) = s"
  by (simp_all add: recorder_status_def writeJSON_sent writeError_def)

lemma new_writer_fresh [simp]: "\<not> wroteHeader (new_writer\<lparr>rw_Header := hs\<rparr>)" "\<not> wroteHeader new_writer"
  by (simp_all add: wroteHeader_def new_writer_def)

section \<open>Bearer tokens\<close>

text \<open>The account a request is authenticated as at an instant, if any.\<close>

definition subject :: "auth_lib \<Rightarrow> TokenService \<Rightarrow> Request \<Rightarrow> time \<Rightarrow> uuid option" where
  "subject L ts r now =
     (case bearerToken r of
        None \<Rightarrow> None
      | Some token \<Rightarrow>
          (case jwt_parse L (ts_parser ts) (ts_secret ts) token now of
             Inl e \<Rightarrow> None
           | Inr (claims, valid) \<Rightarrow> if valid then id_parse L (jc_Subject claims) else None))"

lemma RequireAuth_denies:
  assumes "subject L ts r (clock (w_db W)) = None"
  shows "\<exists>m ls. run_state (RequireAuth L ts h r w) W = ((Returned, unauthorized m w), W\<lparr>w_logs := w_logs W @ ls\<rparr>)"
proof (cases "bearerToken r")
  case None
  then show ?thesis
    by (intro exI [of _ "''missing bearer token''"] exI [of _ "[]"]) (simp add: RequireAuth_def)
next
  case (Some t)
  then have "\<exists>e. run_state (Parse L ts t) W = (Inl e, W)"
    using assms by (auto simp: subject_def Parse_def split: sum.splits option.splits if_splits)
  then show ?thesis using Some by (auto simp: RequireAuth_def)
qed

lemma RequireAuth_admits:
  assumes "subject L ts r (clock (w_db W)) = Some i"
  shows "\<exists>t. run_state (RequireAuth L ts h r w) W = run_state (h (r\<lparr>req_User := Some i, req_TokenID := t\<rparr>) w) W"
proof -
  obtain token claims where t: "bearerToken r = Some token"
    "jwt_parse L (ts_parser ts) (ts_secret ts) token (clock (w_db W)) = Inr (claims, True)"
    "id_parse L (jc_Subject claims) = Some i"
    using assms by (auto simp: subject_def split: option.splits sum.splits if_splits)
  show ?thesis
    by (rule exI [of _ "if jc_ID claims \<noteq> [] then jc_ID claims else req_TokenID r"])
       (simp only: RequireAuth_def Parse_def t run_bind effects_run option.case prod.case sum.case simp_thms if_False
          State_Monad.run_state_return not_True_eq_False)
qed

lemma unauthorized_sent:
  assumes "\<not> wroteHeader w"
  shows "\<exists>hs. rw_Sent (unauthorized m w) = Some (401, hs) \<and> header_get hs ''Www-Authenticate'' = challenge"
proof -
  have "rw_Sent (unauthorized m w) = Some (401, rw_Header (json_headers (set_header ''Www-Authenticate'' challenge w)))"
    using assms unfolding unauthorized_def by (intro writeJSONError_status) simp
  then show ?thesis by (simp add: json_headers_def set_header_def header_get_set)
qed

section \<open>Routing\<close>

definition protected_endpoints :: "(string \<times> string) list" where
  "protected_endpoints =
     [(''GET'', ''/auth/me''), (''POST'', ''/checkout''), (''POST'', ''/portal''), (''GET'', ''/subscription'')]"

lemma chi_match_in: "chi_laws C \<Longrightarrow> static_table table \<Longrightarrow> (m, p) \<in> set table \<Longrightarrow> chi_match C table m p = Endpoint (m, p)"
  unfolding chi_laws_def by (drule conjunct1) blast

lemma chi_mount_in: "chi_laws C \<Longrightarrow> static_path pre \<Longrightarrow> chi_mount C pre (pre @ ''/'' @ p) = Some (''/'' @ p)"
  unfolding chi_laws_def by (drule conjunct2, drule conjunct2, drule conjunct1) blast

lemma chi_mount_out: "chi_laws C \<Longrightarrow> static_path pre \<Longrightarrow> \<not> has_prefix p pre \<Longrightarrow> chi_mount C pre p = None"
  unfolding chi_laws_def by (drule conjunct2, drule conjunct2, drule conjunct2) (cases "chi_mount C pre p"; simp)

lemma serve_endpoint:
  assumes "chi_laws C" "static_table (map fst table)" "map_of table (req_Method r, p) = Some h"
  shows "serve C table p r w = h r w"
proof -
  have "(req_Method r, p) \<in> set (map fst table)"
    using map_of_SomeD [OF assms(3)] by (force simp: image_iff)
  from chi_match_in [OF assms(1,2) this] assms(3) show ?thesis by (simp add: serve_def)
qed

lemma mux_api:
  assumes "chi_laws (ap_chi A)" "req_Path r = ''/api/v1'' @ ''/'' @ p"
    and "map_of (api_routes A cfg) (req_Method r, ''/'' @ p) = Some h"
  shows "mux A cfg r w = Timeout (ro_APITimeout cfg) (serve (ap_chi A) (api_routes A cfg) (''/'' @ p)) r w"
    and "serve (ap_chi A) (api_routes A cfg) (''/'' @ p) r w' = h r w'"
  using chi_mount_in [OF assms(1) static_routes(3), of p] assms(2) serve_endpoint [OF assms(1) static_routes(1) assms(3)]
  by (simp_all add: mux_def)

lemma protected_route:
  assumes "(m, p) \<in> set protected_endpoints"
  shows "\<exists>h. map_of (api_routes A cfg) (m, p) =
    Some (RequireAuth (fst (ro_Tokens cfg)) (snd (ro_Tokens cfg)) h)"
  using assms unfolding protected_endpoints_def
  by (simp, elim disjE) (simp_all add: api_routes_def protected_routes_def, (rule exI, rule refl)+)

lemma ro_Tokens_defaults [simp]: "ro_Tokens (RouterConfig_withDefaults cfg) = ro_Tokens cfg"
  by (simp add: RouterConfig_withDefaults_def)

lemma subject_request [simp]: "subject L ts (r\<lparr>req_Pattern := x, req_RequestID := i\<rparr>) now = subject L ts r now"
  by (simp add: subject_def bearerToken_def)

text \<open>A request to an endpoint of the API is answered by that endpoint's handler.\<close>

lemma api_through:
  assumes "chi_laws (ap_chi A)" "req_Path r = ''/api/v1'' @ ''/'' @ p" "req_Method r \<noteq> ''OPTIONS''"
    and "map_of (api_routes A (RouterConfig_withDefaults cfg)) (req_Method r, ''/'' @ p) = Some h"
    and h: "\<And>x i hs W1. w_db W1 = w_db W \<Longrightarrow> w_plan W1 = w_plan W \<Longrightarrow>
           \<exists>w2 W2. run_state (h (r\<lparr>req_Pattern := x, req_RequestID := i\<rparr>) (new_writer\<lparr>rw_Header := hs\<rparr>)) W1 =
                     ((Returned, w2), W2) \<and> wroteHeader w2 \<and> Q w2 (w_db W2) (w_plan W2)"
  shows "\<exists>w W'. run_state (NewRouter A cfg r new_writer) W = ((Returned, w), W') \<and> Q w (w_db W') (w_plan W')"
proof (rule NewRouter_through [where Q = "\<lambda>w d pl po. Q w d pl", OF assms(3)])
  fix x i hs and W1 :: world
  assume W1: "w_db W1 = w_db W" "w_plan W1 = w_plan W"
  let ?cfg = "RouterConfig_withDefaults cfg"
  let ?r = "r\<lparr>req_Pattern := x, req_RequestID := i\<rparr>" and ?w = "new_writer\<lparr>rw_Header := hs\<rparr>"
  let ?s = "serve (ap_chi A) (api_routes A ?cfg) (''/'' @ p)"
  have route: "req_Path ?r = ''/api/v1'' @ ''/'' @ p"
    "map_of (api_routes A ?cfg) (req_Method ?r, ''/'' @ p) = Some h" using assms(2,4) by simp_all
  obtain w2 W2 where run: "run_state (h ?r ?w) W1 = ((Returned, w2), W2)" and w2: "wroteHeader w2"
    and q: "Q w2 (w_db W2) (w_plan W2)" using h [OF W1] by blast
  have "run_state (?s ?r ?w) W1 = ((Returned, w2), W2)" unfolding mux_api(2) [OF assms(1) route] by (rule run)
  from Timeout_returned [where nxt = ?s and r = ?r, OF this w2]
  have "run_state (mux A ?cfg ?r ?w) W1 = ((Returned, w2), W2)" unfolding mux_api(1) [OF assms(1) route] .
  with q show "\<exists>w2 W2. run_state (mux A ?cfg ?r ?w) W1 = ((Returned, w2), W2) \<and> Q w2 (w_db W2) (w_plan W2)" by blast
qed

lemma writeJSON_body:
  "json_encodable v \<Longrightarrow> rw_Body (writeJSON s v (new_writer\<lparr>rw_Header := hs\<rparr>)) = json_encode v @ [CHR 0x0A]"
  by (simp add: writeJSON_def recorder_Write_def recorder_WriteHeader_def json_headers_def set_header_def
      wroteHeader_def new_writer_def Let_def)

lemma protected_through:
  assumes "chi_laws (ap_chi A)" "req_Path r = ''/api/v1'' @ ''/'' @ p" "req_Method r \<noteq> ''OPTIONS''"
    and "map_of (api_routes A (RouterConfig_withDefaults cfg)) (req_Method r, ''/'' @ p) =
           Some (RequireAuth (fst (ro_Tokens cfg)) (snd (ro_Tokens cfg)) h)"
    and "subject (fst (ro_Tokens cfg)) (snd (ro_Tokens cfg)) r (clock (w_db W)) = Some i"
    and h: "\<And>r1 hs W1. w_db W1 = w_db W \<Longrightarrow> w_plan W1 = w_plan W \<Longrightarrow> req_User r1 = Some i \<Longrightarrow>
           \<exists>w2 W2. run_state (h r1 (new_writer\<lparr>rw_Header := hs\<rparr>)) W1 = ((Returned, w2), W2) \<and> wroteHeader w2 \<and> Q w2 (w_db W2)"
  shows "\<exists>w W'. run_state (NewRouter A cfg r new_writer) W = ((Returned, w), W') \<and> Q w (w_db W')"
proof (rule api_through [where Q = "\<lambda>w d pl. Q w d", OF assms(1-4)])
  fix x ri hs and W1 :: world
  assume W1: "w_db W1 = w_db W" "w_plan W1 = w_plan W"
  let ?r = "r\<lparr>req_Pattern := x, req_RequestID := ri\<rparr>" and ?w = "new_writer\<lparr>rw_Header := hs\<rparr>"
  have "subject (fst (ro_Tokens cfg)) (snd (ro_Tokens cfg)) ?r (clock (w_db W1)) = Some i" using assms(5) W1 by simp
  from RequireAuth_admits [OF this, of h ?w] obtain t where
    "run_state (RequireAuth (fst (ro_Tokens cfg)) (snd (ro_Tokens cfg)) h ?r ?w) W1 =
       run_state (h (?r\<lparr>req_User := Some i, req_TokenID := t\<rparr>) ?w) W1" by blast
  with h [OF W1, of "?r\<lparr>req_User := Some i, req_TokenID := t\<rparr>" hs]
  show "\<exists>w2 W2. run_state (RequireAuth (fst (ro_Tokens cfg)) (snd (ro_Tokens cfg)) h ?r ?w) W1 = ((Returned, w2), W2) \<and>
      wroteHeader w2 \<and> Q w2 (w_db W2)" by simp
qed

lemma HandleMe_run:
  assumes "w_plan W1 = []" "i \<noteq> nil_uuid" "req_User r1 = Some i"
  shows "\<exists>w2 W2. run_state (HandleMe h r1 (new_writer\<lparr>rw_Header := hs\<rparr>)) W1 = ((Returned, w2), W2) \<and> wroteHeader w2 \<and>
    w_db W2 = w_db W1 \<and>
    (case find (\<lambda>u. u_ID u = i \<and> u_DeletedAt u = None) (users (w_db W1)) of
       None \<Rightarrow> recorder_status w2 = 401
     | Some u \<Rightarrow> recorder_status w2 = 200 \<and>
         rw_Body w2 = json_encode (UserView_json (as_lib (ah_auth h)) (viewOf u)) @ [CHR 0x0A])"
proof -
  have e: "json_encodable (UserView_json L v)" for L v by (cases "uv_FullName v") (simp_all add: UserView_json_def opt_field_def)
  show ?thesis
    using assms(2,3)
    by (cases "find (\<lambda>u. u_ID u = i \<and> u_DeletedAt u = None) (users (w_db W1))")
       (simp_all add: HandleMe_def UserIDFromContext_def Me_def GetUserByID_def user_row_quiet [OF assms(1)]
          writeJSON_status writeJSON_body e)
qed

lemma HandleGetSubscription_run:
  assumes "w_plan W1 = []" "i \<noteq> nil_uuid" "req_User r1 = Some i"
  shows "\<exists>w2 W2. run_state (HandleGetSubscription r1 (new_writer\<lparr>rw_Header := hs\<rparr>)) W1 = ((Returned, w2), W2) \<and> wroteHeader w2 \<and>
    w_db W2 = w_db W1 \<and>
    (case find (\<lambda>s. s_UserID s = i) (sort_key (\<lambda>s. - s_CreatedAt s) (subs (w_db W1))) of
       None \<Rightarrow> recorder_status w2 = 404
     | Some s \<Rightarrow> recorder_status w2 = 200 \<and>
         (json_encodable (SubscriptionView_json (subscription_view s)) \<longrightarrow>
            rw_Body w2 = json_encode (SubscriptionView_json (subscription_view s)) @ [CHR 0x0A]))"
  using assms(2,3)
  by (cases "find (\<lambda>s. s_UserID s = i) (sort_key (\<lambda>s. - s_CreatedAt s) (subs (w_db W1)))")
     (simp_all add: HandleGetSubscription_def UserIDFromContext_def GetForUser_def GetLatestSubscriptionByUserID_def
        query_row_def first_row_def run_stmt_quiet [OF assms(1)] writeJSON_status writeJSON_body)

section \<open>Deliveries\<close>

lemma run_stmt_NoRows:
  assumes "run_state (run_stmt body) W = (Inl NoRows, W1)"
  shows "\<exists>s. body s (w_db W1) = Inl NoRows"
proof -
  obtain x where x: "run_state (exec True body) W = (x, W1)" "map_sum snd id x = Inl NoRows"
    using assms by (auto simp: run_stmt_def split: prod.splits)
  then obtain ph where "run_state (exec True body) W = (Inl (ph, NoRows), W1)"
    by (cases x) auto
  then show ?thesis
    by (auto simp: exec_def Let_def split: prod.splits fault.splits sum.splits)
qed

lemma claim_stmt_NoRows:
  assumes "claim_stmt J win w s d = Inl NoRows" "\<forall>b. jsonb_in J b \<noteq> Inl NoRows"
  shows "\<exists>h \<in> set (hooks d). h_event_id h = w_EventID w"
  using assms
  by (auto simp: claim_stmt_def Let_def check_row_def check_violation_def jsonb_arg_def find_None_iff
      split: sum.splits option.splits if_splits)

text \<open>Either way a claim that is answered finds or makes the event's row.\<close>

lemma TryClaimEvent_row:
  assumes "run_state (TryClaimEvent J win w) W = (Inr (b, w'), W1)" "\<forall>b. jsonb_in J b \<noteq> Inl NoRows"
    and "env_ok ledger_sound W" "hooks_wf (w_db W)"
  shows "(\<exists>h \<in> set (hooks (w_db W1)). h_event_id h = w_EventID w) \<and> hooks_wf (w_db W1) \<and> env_ok ledger_sound W1"
proof -
  have k: "hooks_wf (w_db W1)" "env_ok ledger_sound W1"
    using keepsD [OF sound_billing.keeps_TryClaimEvent assms(3,1)] assms(4) by (auto simp: ledger_sound_def)
  obtain r where r: "run_state (run_stmt (claim_stmt J win w)) W = (r, W1)" "\<And>e. r = Inl e \<Longrightarrow> e = NoRows"
    using assms(1) by (auto simp: TryClaimEvent_def split: option.splits prod.splits sum.splits if_splits)
  have "\<exists>h \<in> set (hooks (w_db W1)). h_event_id h = w_EventID w"
  proof (cases r)
    case (Inl e)
    with r run_stmt_NoRows obtain s where "claim_stmt J win w s (w_db W1) = Inl NoRows" by blast
    then show ?thesis using claim_stmt_NoRows assms(2) by blast
  next
    case (Inr h)
    then have e: "run_state (exec True (claim_stmt J win w)) W = (Inr h, W1)"
      using r(1) by (auto simp: run_stmt_def split: prod.splits) (metis Inr map_sum.simps id_apply sum.exhaust sum.inject(2) sum.distinct(1))
    obtain s W2 where n: "next_step W = (s, W2)" by fastforce
    from exec_effect(2) [OF e n] have c: "claim_stmt J win w s (es_others s (w_db W)) = Inr (h, w_db W1)" by auto
    have "hooks_wf (es_others s (w_db W))"
      using sound_billing.others_ok [OF assms(3) n] assms(4) by (simp add: ledger_sound_def)
    then show ?thesis using claim_stmt_holds [OF c] by (auto simp: hooks_wf_def held_def)
  qed
  with k show ?thesis by blast
qed

definition verified :: "Service \<Rightarrow> bytes \<Rightarrow> string \<Rightarrow> time \<Rightarrow> Event \<Rightarrow> bool" where
  "verified S payload sig now ev \<longleftrightarrow>
     construct_event (sv_lib S) payload sig (cl_webhookSecret (sv_client S)) (cl_webhookTolerance (sv_client S))
       (cl_ignoreAPIVersionMismatch (sv_client S)) now = Inr ev"

definition in_ledger :: "string \<Rightarrow> db \<Rightarrow> bool" where
  "in_ledger e d \<longleftrightarrow> (\<exists>h \<in> set (hooks d). h_event_id h = e)"

lemma in_ledger_stays:
  assumes "in_ledger e d" "ledger_sound d d'" "hooks_wf d"
  shows "in_ledger e d'"
proof -
  obtain h where h: "h \<in> set (hooks d)" "h_event_id h = e" using assms(1) by (auto simp: in_ledger_def)
  obtain h' where "h' \<in> set (hooks d')" "hook_evolves h h'"
    using ledger_grows_row [of d d' h] h(1) assms(2,3) by (auto simp: ledger_sound_def hooks_wf_def)
  then show ?thesis using h(2) by (auto simp: in_ledger_def hook_evolves_def)
qed

lemma ProcessEvent_recorded:
  assumes "run_state (ProcessEvent S payload sig) W = ((oc, None), W')"
    and "\<forall>b. jsonb_in (sv_json S) b \<noteq> Inl NoRows" "env_ok ledger_sound W" "hooks_wf (w_db W)"
  shows "\<exists>ev. verified S payload sig (clock (w_db W)) ev \<and> in_ledger (ev_ID ev) (w_db W')"
proof -
  obtain ev where v: "verified S payload sig (clock (w_db W)) ev"
    using assms(1)
    by (auto simp: ProcessEvent_def VerifyWebhook_def verified_def service_observe_def split: sum.splits)
  obtain c W1 where c: "run_state (TryClaimEvent (sv_json S) (sv_stale S) (claim_record ev payload)) W = (c, W1)" by fastforce
  obtain b w1 where b: "c = Inr (b, w1)"
    using assms(1) v c by (cases c) (auto simp: ProcessEvent_def VerifyWebhook_def verified_def)
  note row = TryClaimEvent_row [OF c [unfolded b] assms(2-4)]
  have led: "in_ledger (ev_ID ev) (w_db W1)" using row by (simp add: in_ledger_def claim_record_def)
  show ?thesis
  proof (cases b)
    case True
    then have run: "run_state (process_claimed S ev (clock (w_db W))) W1 = ((oc, None), W')"
      using assms(1) v c b by (simp add: ProcessEvent_def VerifyWebhook_def verified_def)
    have "ledger_sound (w_db W1) (w_db W')"
      using keepsD [OF sound_billing.keeps_process_claimed [OF TrueI] _ run] row by blast
    then show ?thesis using v in_ledger_stays [OF led] row by blast
  next
    case False
    then have "w_db W' = w_db W1"
      using assms(1) v c b by (auto simp: ProcessEvent_def VerifyWebhook_def verified_def service_observe_def split: if_splits)
    then show ?thesis using v led by auto
  qed
qed

lemma MaxBytesReader_cases:
  obtains b where "MaxBytesReader n r = (b, TooManyBytes)"
  | m where "MaxBytesReader n r = (req_Body r, BrokenBody m)"
  | "MaxBytesReader n r = (req_Body r, EndOfBody)"
  by (cases "n < length (req_Body r)"; cases "req_BodyError r") (auto simp: MaxBytesReader_def)

lemma HandleWebhook_answers:
  assumes "\<not> wroteHeader w" "\<forall>b. jsonb_in (sv_json (sh_webhooks h)) b \<noteq> Inl NoRows"
    and "env_ok ledger_sound W" "hooks_wf (w_db W)"
  shows "\<exists>w2 W2. run_state (HandleWebhook h r w) W = ((Returned, w2), W2) \<and> wroteHeader w2 \<and>
    recorder_status w2 \<in> {200, 400, 413, 500} \<and>
    (recorder_status w2 = 200 \<longrightarrow>
       (\<exists>ev. verified (sh_webhooks h) (req_Body r) (header_get (req_Header r) ''Stripe-Signature'') (clock (w_db W)) ev \<and>
             in_ledger (ev_ID ev) (w_db W2)))"
    (is "\<exists>w2 W2. ?ok w2 W2")
proof -
  let ?sig = "header_get (req_Header r) ''Stripe-Signature''"
  let ?lim = "nat (if sh_maxWebhookBytes h \<le> 0 then maxWebhookBytes else sh_maxWebhookBytes h)"
  have err: "\<exists>w2 W2. ?ok w2 W2"
    if "run_state (HandleWebhook h r w) W = ((Returned, writeError s m w), W2)" "s \<in> {400, 413, 500}" for s m W2
    using that writeJSON_status(2) [OF assms(1), of s m]
    by (intro exI [of _ "writeError s m w"] exI [of _ W2]) auto
  show ?thesis
  proof (cases "?sig = []")
    case True
    show ?thesis by (rule err [of 400]) (simp_all add: HandleWebhook_def Let_def True)
  next
    case sig: False
    show ?thesis
    proof (cases rule: MaxBytesReader_cases [of ?lim r])
      case (1 b)
      show ?thesis by (rule err [of 413]) (simp_all add: HandleWebhook_def Let_def sig 1)
    next
      case (2 m)
      show ?thesis by (rule err [of 400]) (simp_all add: HandleWebhook_def Let_def sig 2)
    next
      case 3
      obtain oc e W1 where run: "run_state (ProcessEvent (sh_webhooks h) (req_Body r) ?sig) W = ((oc, e), W1)"
        by (metis surj_pair)
      have h: "run_state (HandleWebhook h r w) W = run_state (answer_webhook (oc, e) w) W1"
        by (simp add: HandleWebhook_def Let_def sig 3 run)
      show ?thesis
      proof (cases e)
        case None
        let ?w2 = "writeJSON 200 (VObj [(''status'', VStr (Outcome_text oc))]) w"
        have "run_state (HandleWebhook h r w) W = ((Returned, ?w2), W1)" by (simp add: h None answer_webhook_def)
        moreover have "recorder_status ?w2 = 200" by (rule writeJSON_status(1) [OF assms(1)])
        ultimately show ?thesis
          using ProcessEvent_recorded [OF run [unfolded None] assms(2-4)]
          by (intro exI [of _ ?w2] exI [of _ W1]) simp
      next
        case (Some x)
        show ?thesis
        proof (cases "err_is x ErrSignatureVerification")
          case True
          show ?thesis by (rule err [of 400]) (simp_all add: h Some answer_webhook_def True)
        next
          case False
          show ?thesis by (rule err [of 500]) (simp_all add: h Some answer_webhook_def False)
        qed
      qed
    qed
  qed
qed

section \<open>Sessions\<close>

text \<open>A cookie is good for nothing once every row with its hash is revoked.\<close>

lemma Refresh_unusable:
  assumes "w_plan W = []" "tokens_wf (tokens (w_db W))"
    and "\<forall>x \<in> set (tokens (w_db W)). t_TokenHash x = HashRefreshToken presented \<longrightarrow> t_RevokedAt x \<noteq> None"
  shows "\<exists>e. fst (run_state (Refresh S presented) W) = Inl e"
proof (cases "find (\<lambda>t. t_TokenHash t = HashRefreshToken presented) (tokens (w_db W))")
  case (Some x)
  then show ?thesis using assms by (intro Refresh_dead [of W x]) (auto dest: find_mem)
next
  case None
  show ?thesis
  proof (cases "run_state (Refresh S presented) W")
    case (Pair r W')
    show ?thesis
    proof (cases r)
      case (Inr a)
      with Pair obtain buf stored W1 where
        "run_state (ConsumeRefreshToken (renewal S presented buf (clock (w_db W)))) (drawn W) = (Inr stored, W1)"
        using Refresh_exchanges [OF assms(1)] by metis
      then show ?thesis
        using None ConsumeRefreshToken_cases [of "drawn W" "renewal S presented buf (clock (w_db W))"] assms(1,2)
        by (simp add: renewal_def)
    qed (simp add: Pair)
  qed
qed

lemma HandleRefresh_refused:
  "fst (run_state (Refresh (ah_auth h) (refreshCookieValue r)) W) = Inl e \<Longrightarrow>
   fst (run_state (HandleRefresh h r w) W) =
     (Returned, writeError 401 ''session expired, please sign in again'' (clearRefreshCookie h w))"
  by (cases "run_state (Refresh (ah_auth h) (refreshCookieValue r)) W") (simp add: HandleRefresh_def Let_def)

lemma Logout_leaves_dead:
  assumes "w_plan W = []" "tokens_wf (tokens (w_db W))" "run_state (Logout presented) W = (e, W1)"
  shows "w_plan W1 = []" "tokens_wf (tokens (w_db W1))" "presented \<noteq> [] \<Longrightarrow>
    \<forall>x \<in> set (tokens (w_db W1)). t_TokenHash x = HashRefreshToken presented \<longrightarrow> t_RevokedAt x \<noteq> None"
proof -
  have nil: "W1 = W" if "presented = []" using that assms(3) by (simp add: Logout_def)
  let ?f = "find (\<lambda>t. t_TokenHash t = HashRefreshToken presented) (tokens (w_db W))"
  have run: "w_plan W1 = []" "w_db W1 = (case ?f of None \<Rightarrow> w_db W | Some x \<Rightarrow> family_revoked (t_FamilyID x) ''signed out'' (w_db W))"
    if "presented \<noteq> []" using Logout_run [OF assms(1,2) that] assms(1,3) by auto
  show "w_plan W1 = []" using nil run(1) assms(1) by (cases "presented = []") auto
  show "tokens_wf (tokens (w_db W1))"
    using nil run(2) assms(2) tokens_wf_revoked by (cases "presented = []"; cases ?f) auto
  assume p: "presented \<noteq> []"
  show "\<forall>x \<in> set (tokens (w_db W1)). t_TokenHash x = HashRefreshToken presented \<longrightarrow> t_RevokedAt x \<noteq> None"
  proof (cases ?f)
    case None
    then have "w_db W1 = w_db W" using run(2) [OF p] by simp
    with None show ?thesis by (auto simp: find_None_iff)
  next
    case (Some x)
    have x: "x \<in> set (tokens (w_db W))" "t_TokenHash x = HashRefreshToken presented" using Some by (auto dest: find_mem)
    show ?thesis
    proof (intro ballI impI)
      fix y
      assume y: "y \<in> set (tokens (w_db W1))" "t_TokenHash y = HashRefreshToken presented"
      then obtain z where z: "z \<in> set (tokens (w_db W))" "y = revoke_in (t_FamilyID x) ''signed out'' (clock (w_db W)) z"
        using run(2) [OF p] Some by (auto simp: family_revoked_def)
      then have "t_TokenHash z = t_TokenHash x" using y(2) x(2) by simp
      then have "z = x" using z(1) x(1) assms(2) by (auto simp: tokens_wf_def distinct_map inj_on_def)
      then show "t_RevokedAt y \<noteq> None" using z(2) revoke_in_dead by simp
    qed
  qed
qed

section \<open>The error envelope\<close>

definition plain_text :: "string \<Rightarrow> bool" where
  "plain_text s \<longleftrightarrow> list_all (\<lambda>c. 32 \<le> byte c \<and> byte c < 128 \<and> c \<notin> {CHR ''<'', CHR ''>'', CHR ''&''}) s"

lemma rune_tail_ascii: "byte c < 128 \<Longrightarrow> rune_tail (c # cs) = Some 0"
  by (simp add: rune_tail_def utf8_lead_def)

lemma quote_char_plain:
  assumes "32 \<le> byte c" "c \<notin> {CHR ''<'', CHR ''>'', CHR ''&''}"
  shows "json_ascii c = quote_char c"
proof -
  have "c \<noteq> CHR 0x08" "c \<noteq> CHR 0x0C" "c \<noteq> CHR 0x0A" "c \<noteq> CHR 0x0D" "c \<noteq> CHR 0x09"
    using assms(1) by (auto simp: byte_def)
  then show ?thesis using assms by (auto simp: json_ascii_def quote_char_def)
qed

lemma json_chars_plain: "plain_text s \<Longrightarrow> json_chars s = concat (map quote_char s)"
  by (induction s) (simp_all add: plain_text_def rune_tail_ascii quote_char_plain)

section \<open>Properties\<close>

text \<open>A small deployment for the witnesses.\<close>

definition flat_chi :: chi_lib where
  "flat_chi =
     \<lparr>chi_mount = (\<lambda>pre p. if has_prefix p (pre @ ''/'') then Some (drop (length pre) p) else None),
      chi_match = (\<lambda>table m p. if (m, p) \<in> set table then Endpoint (m, p)
                               else if p \<in> snd ` set table then NotAllowed else NotFoundRoute),
      chi_pattern = (\<lambda>m p. p)\<rparr>"

lemma flat_chi_laws: "chi_laws flat_chi"
  unfolding chi_laws_def
proof (intro conjI allI impI)
  show "chi_mount flat_chi pre (pre @ ''/'' @ p) = Some (''/'' @ p)" for pre p
    using has_prefix_append [of "pre @ ''/''" p] by (simp add: flat_chi_def)
  show "chi_mount flat_chi pre p = Some q \<Longrightarrow> has_prefix p pre" for pre p q
    by (auto simp: flat_chi_def has_prefix_iff split: if_splits)
qed (auto simp: flat_chi_def split: if_splits)

definition quiet_http :: http_lib where
  "quiet_http =
     \<lparr>decode_register = (\<lambda>s. Inl SyntaxError), decode_login = (\<lambda>s. Inr (\<lparr>lr_Email = ''A@B.co'', lr_Password = fst s\<rparr>, [])),
      decode_checkout = (\<lambda>s. Inl SyntaxError), valid_cookie_domain = (\<lambda>d. True)\<rparr>"

definition shop :: app where
  "shop =
     \<lparr>ap_chi = flat_chi, ap_rand = (\<lambda>k n. Inr (replicate k (CHR ''x''))),
      ap_stripe = NewStripeHandler quiet_http (Webhook_Service.sample_service ''invoice.paid'') till,
      ap_auth = NewAuthHandler quiet_http Auth_Service.sample_service \<lparr>ck_Secure = True, ck_Domain = []\<rparr>,
      ap_health = \<lparr>hh_version = ''1'', hh_startedAt = unix 400\<rparr>\<rparr>"

definition shop_config :: RouterConfig where
  "shop_config =
     \<lparr>ro_APITimeout = 0, ro_CORS = \<lparr>co_AllowedOrigins = [''https://shop.example''], co_MaxAge = 0\<rparr>,
      ro_Tokens = (as_lib Auth_Service.sample_service, as_tokens Auth_Service.sample_service), ro_AuthRateLimit = None,
      ro_TrustedProxies = 0, ro_Metrics = True, ro_WebhookTimeout = 0\<rparr>"

text \<open>
  C7 (a protected route needs a token). Without a bearer token the token service accepts at that
  instant, a request to any protected endpoint, whatever its headers, body and origin, is
  answered 401 with the challenge that tells the client to renew, and reaches neither the
  database nor anything that would consume a step of the environment.
\<close>

theorem protected_needs_token:
  assumes "chi_laws (ap_chi A)" "(req_Method r, p) \<in> set protected_endpoints" "req_Path r = ''/api/v1'' @ p"
    and "subject (fst (ro_Tokens cfg)) (snd (ro_Tokens cfg)) r (clock (w_db W)) = None"
  shows "\<exists>w W' hs. run_state (NewRouter A cfg r new_writer) W = ((Returned, w), W') \<and>
           rw_Sent w = Some (401, hs) \<and> header_get hs ''Www-Authenticate'' = challenge \<and>
           w_db W' = w_db W \<and> w_plan W' = w_plan W"
proof -
  let ?L = "fst (ro_Tokens cfg)" and ?ts = "snd (ro_Tokens cfg)"
  let ?Q = "\<lambda>w d pl. (\<exists>hs. rw_Sent w = Some (401, hs) \<and> header_get hs ''Www-Authenticate'' = challenge) \<and>
      d = w_db W \<and> pl = w_plan W"
  obtain q where q: "p = ''/'' @ q" using assms(2) by (auto simp: protected_endpoints_def)
  obtain h where h: "map_of (api_routes A (RouterConfig_withDefaults cfg)) (req_Method r, ''/'' @ q) = Some (RequireAuth ?L ?ts h)"
    using protected_route [OF assms(2), of A "RouterConfig_withDefaults cfg"] q by auto
  have path: "req_Path r = ''/api/v1'' @ ''/'' @ q" "req_Method r \<noteq> ''OPTIONS''"
    using assms(2,3) q by (auto simp: protected_endpoints_def)
  have "\<exists>w W'. run_state (NewRouter A cfg r new_writer) W = ((Returned, w), W') \<and> ?Q w (w_db W') (w_plan W')"
  proof (rule api_through [OF assms(1) path h])
    fix x i hs and W1 :: world
    assume W1: "w_db W1 = w_db W" "w_plan W1 = w_plan W"
    let ?r = "r\<lparr>req_Pattern := x, req_RequestID := i\<rparr>" and ?w = "new_writer\<lparr>rw_Header := hs\<rparr>"
    have "subject ?L ?ts ?r (clock (w_db W1)) = None" using assms(4) W1 by simp
    from RequireAuth_denies [OF this, of h ?w] obtain m ls where
      a: "run_state (RequireAuth ?L ?ts h ?r ?w) W1 = ((Returned, unauthorized m ?w), W1\<lparr>w_logs := w_logs W1 @ ls\<rparr>)" by blast
    then show "\<exists>w2 W2. run_state (RequireAuth ?L ?ts h ?r ?w) W1 = ((Returned, w2), W2) \<and> wroteHeader w2 \<and>
        ?Q w2 (w_db W2) (w_plan W2)"
      using unauthorized_sent [OF new_writer_fresh(1)] W1
      by (intro exI [of _ "unauthorized m ?w"] exI [of _ "W1\<lparr>w_logs := w_logs W1 @ ls\<rparr>"]) (simp add: unauthorized_def)
  qed
  then show ?thesis by blast
qed

theorem protected_needs_token_witness:
  "\<exists>w W' hs. run_state (NewRouter shop shop_config (plain_request ''GET'' ''/api/v1/auth/me'') new_writer) calm =
      ((Returned, w), W') \<and> rw_Sent w = Some (401, hs) \<and> w_db W' = w_db calm"
  using protected_needs_token [of shop "plain_request ''GET'' ''/api/v1/auth/me''" "''/auth/me''" shop_config calm]
  by (auto simp: shop_def flat_chi_laws plain_request_def protected_endpoints_def subject_def bearerToken_def
      header_get_def)

text \<open>
  C8 (an acknowledged delivery is in the ledger). In every world whose other workers respect the
  ledger, whatever statements fail or lose their reply, a delivery to the webhook route is
  answered 200, 400, 413 or 500; and 200, which ends Stripe's redeliveries, is only answered
  when the signature was verified and the ledger holds the event, where the sweeper finds it
  if it is not settled. The database driver is assumed to report a malformed document as an
  error, not as an empty result.
\<close>

theorem acknowledged_is_recorded:
  assumes "chi_laws (ap_chi A)" "req_Method r = ''POST''" "req_Path r = ''/webhook''"
    and "\<forall>b. jsonb_in (sv_json (sh_webhooks (ap_stripe A))) b \<noteq> Inl NoRows"
    and "env_ok ledger_sound W" "hooks_wf (w_db W)"
  shows "\<exists>w W'. run_state (NewRouter A cfg r new_writer) W = ((Returned, w), W') \<and>
           recorder_status w \<in> {200, 400, 413, 500} \<and>
           (recorder_status w = 200 \<longrightarrow>
              (\<exists>ev. verified (sh_webhooks (ap_stripe A)) (req_Body r) (header_get (req_Header r) ''Stripe-Signature'')
                       (clock (w_db W)) ev \<and>
                    in_ledger (ev_ID ev) (w_db W')))"
proof -
  let ?cfg = "RouterConfig_withDefaults cfg"
  let ?sig = "header_get (req_Header r) ''Stripe-Signature''"
  let ?Q = "\<lambda>w d pl po. recorder_status w \<in> {200, 400, 413, 500} \<and>
      (recorder_status w = 200 \<longrightarrow>
        (\<exists>ev. verified (sh_webhooks (ap_stripe A)) (req_Body r) ?sig (clock (w_db W)) ev \<and> in_ledger (ev_ID ev) d))"
  have "\<exists>w W'. run_state (NewRouter A cfg r new_writer) W = ((Returned, w), W') \<and> ?Q w (w_db W') (w_plan W') (w_polls W')"
  proof (rule NewRouter_through)
    show "req_Method r \<noteq> ''OPTIONS''" using assms(2) by simp
    fix x i hs and W1 :: world
    assume W1: "w_db W1 = w_db W" "w_plan W1 = w_plan W"
    let ?r = "r\<lparr>req_Pattern := x, req_RequestID := i\<rparr>" and ?w = "new_writer\<lparr>rw_Header := hs\<rparr>"
    let ?h = "Timeout (ro_WebhookTimeout ?cfg) (HandleWebhook (ap_stripe A))"
    have env: "env_ok ledger_sound W1" "hooks_wf (w_db W1)" using assms(5,6) W1 by (simp_all add: env_ok_def)
    obtain w2 W2 where run: "run_state (HandleWebhook (ap_stripe A) ?r ?w) W1 = ((Returned, w2), W2)" "wroteHeader w2"
      and q: "?Q w2 (w_db W2) (w_plan W2) (w_polls W2)"
      using HandleWebhook_answers [OF new_writer_fresh(1) assms(4) env, of ?r hs] W1(1) by auto
    have "chi_mount (ap_chi A) ''/api/v1'' (req_Path ?r) = None"
      using assms(3) by (intro chi_mount_out [OF assms(1) static_routes(3)]) (simp add: has_prefix_def)
    then have "mux A ?cfg ?r ?w = serve (ap_chi A) (root_routes A ?cfg) ''/webhook'' ?r ?w"
      using assms(3) by (simp add: mux_def)
    moreover have "serve (ap_chi A) (root_routes A ?cfg) ''/webhook'' ?r ?w = ?h ?r ?w"
      using assms(2) by (intro serve_endpoint [OF assms(1) static_routes(2)]) (simp add: root_routes_def)
    ultimately have "run_state (mux A ?cfg ?r ?w) W1 = ((Returned, w2), W2)"
      using Timeout_returned [where nxt = "HandleWebhook (ap_stripe A)" and r = ?r, OF run] by simp
    then show "\<exists>w2 W2. run_state (mux A ?cfg ?r ?w) W1 = ((Returned, w2), W2) \<and> ?Q w2 (w_db W2) (w_plan W2) (w_polls W2)"
      using q by blast
  qed
  then show ?thesis by blast
qed

definition webhook_request :: Request where
  "webhook_request = (plain_request ''POST'' ''/webhook'')\<lparr>req_Header := [(''Stripe-Signature'', ''good'')], req_Body := ''{}''\<rparr>"

theorem acknowledged_is_recorded_witness:
  "\<exists>w W'. run_state (NewRouter shop shop_config webhook_request new_writer) (quiet (sample_world_db None)) = ((Returned, w), W') \<and>
     (recorder_status w = 200 \<longrightarrow> in_ledger ''evt_1'' (w_db W'))"
proof -
  let ?S = "sh_webhooks (ap_stripe shop)"
  have S: "?S = Webhook_Service.sample_service ''invoice.paid''" by (simp add: shop_def NewStripeHandler_def)
  have "hooks_wf (w_db (quiet (sample_world_db None)))" by (simp add: hooks_wf_def ids_unique_def sample_world_db_def)
  moreover have "ev_ID ev = ''evt_1''" if "verified ?S p sig now ev" for p sig now ev
    using that by (auto simp: S verified_def Webhook_Service.sample_service_def sample_lib_def sample_event_def split: if_splits)
  moreover have "\<forall>b. jsonb_in (sv_json ?S) b \<noteq> Inl NoRows"
    by (simp add: S Webhook_Service.sample_service_def sample_jsonlib_def)
  moreover have "chi_laws (ap_chi shop)" by (simp add: shop_def flat_chi_laws)
  ultimately show ?thesis
    using acknowledged_is_recorded [of shop webhook_request "quiet (sample_world_db None)" shop_config]
    by (auto simp: webhook_request_def plain_request_def)
qed

text \<open>
  Signing out kills the cookie. In a quiet world a sign-out is always answered 204 with the
  cookie cleared, whether or not the cookie is known; and from then on every request that still
  presents the old cookie to the renewal endpoint is answered 401, with the cookie cleared
  again and with the same bytes whatever the reason.
\<close>

theorem logout_kills_cookie:
  assumes "w_plan W = []" "tokens_wf (tokens (w_db W))" "\<not> wroteHeader w"
  shows "\<exists>w1 W1. run_state (HandleLogout h r w) W = ((Returned, w1), W1) \<and>
           rw_Sent w1 = Some (204, rw_Header w @
             [(''Set-Cookie'', cookie_text (valid_cookie_domain (ah_http h)) (cleared_cookie h))]) \<and>
           (\<forall>r' w'. refreshCookieValue r' = refreshCookieValue r \<longrightarrow>
              fst (run_state (HandleRefresh h r' w') W1) =
                (Returned, writeError 401 ''session expired, please sign in again'' (clearRefreshCookie h w')))"
proof -
  let ?c = "refreshCookieValue r" and ?w1 = "recorder_WriteHeader 204 (clearRefreshCookie h w)"
  obtain e W1 where l: "run_state (Logout ?c) W = (e, W1)" by fastforce
  note d = Logout_leaves_dead [OF assms(1,2) l]
  define W2 where "W2 = (case e of None \<Rightarrow> W1 | Some x \<Rightarrow>
    W1\<lparr>w_logs := w_logs W1 @ [(Error, ''logout could not revoke the session'')]\<rparr>)"
  have run: "run_state (HandleLogout h r w) W = ((Returned, ?w1), W2)"
    by (cases e) (simp_all add: HandleLogout_def l W2_def)
  have W2: "w_plan W2 = []" "w_db W2 = w_db W1" using d(1) by (cases e; simp add: W2_def)+
  have "\<exists>x. fst (run_state (Refresh (ah_auth h) ?c) W2) = Inl x"
  proof (cases "?c = []")
    case True
    then show ?thesis by (simp add: Refresh_def)
  next
    case False
    then show ?thesis using d(2,3) W2 by (intro Refresh_unusable) simp_all
  qed
  then have "fst (run_state (HandleRefresh h r' w') W2) =
      (Returned, writeError 401 ''session expired, please sign in again'' (clearRefreshCookie h w'))"
    if "refreshCookieValue r' = ?c" for r' w' using HandleRefresh_refused [of h r'] that by auto
  moreover have "rw_Sent ?w1 = Some (204, rw_Header w @
      [(''Set-Cookie'', cookie_text (valid_cookie_domain (ah_http h)) (cleared_cookie h))])"
    using assms(3) by (simp add: recorder_WriteHeader_def clearRefreshCookie_def SetCookie_def add_header_def wroteHeader_def)
  ultimately show ?thesis using run by blast
qed

text \<open>
  The two error writers agree. The middleware builds its error bodies by hand, the handlers
  with the JSON encoder. For a message of printable ASCII without the three characters the
  encoder escapes for HTML, which covers every message of the middleware, both send the same
  status, headers and body, up to the newline the encoder ends with.
\<close>

theorem error_envelopes_agree:
  assumes "plain_text m" "\<not> wroteHeader w"
  shows "rw_Sent (writeError s m w) = rw_Sent (writeJSONError s m w) \<and>
         rw_Body (writeError s m w) = rw_Body (writeJSONError s m w) @ [CHR 0x0A]"
proof -
  have k: "json_chars ''error'' = ''error''"
    by (subst json_chars_plain) (simp_all add: plain_text_def byte_def quote_char_def)
  have "json_encode (errorResponse m) = [CHR ''{'', CHR 0x22] @ ''error'' @ [CHR 0x22, CHR '':''] @ quoteJSON m @ ''}''"
    using assms(1) by (simp add: errorResponse_def json_string_def k json_chars_plain quoteJSON_def del: json_chars.simps)
  moreover have "json_encodable (errorResponse m)" by (simp add: errorResponse_def)
  ultimately show ?thesis
    using assms(2)
    by (simp add: writeError_def writeJSON_def writeJSONError_def recorder_Write_def recorder_WriteHeader_def Let_def)
qed

theorem error_envelopes_agree_witness:
  "rw_Body (writeError 429 ''too many requests, please slow down'' new_writer) =
   rw_Body (writeJSONError 429 ''too many requests, please slow down'' new_writer) @ [CHR 0x0A]"
  using error_envelopes_agree [of "''too many requests, please slow down''" new_writer 429]
  by (simp add: plain_text_def byte_def)

definition cookie_request :: "string \<Rightarrow> Request" where
  "cookie_request path = (plain_request ''POST'' path)\<lparr>req_Cookies := [(refreshCookieName, ''tok'')]\<rparr>"

theorem logout_kills_cookie_witness:
  "fst (run_state (HandleRefresh (ap_auth shop) (cookie_request ''/api/v1/auth/refresh'') new_writer)
     (snd (run_state (HandleLogout (ap_auth shop) (cookie_request ''/api/v1/auth/logout'') new_writer)
        (quiet (session_db ''tok''))))) =
   (Returned, writeError 401 ''session expired, please sign in again'' (clearRefreshCookie (ap_auth shop) new_writer))"
  using logout_kills_cookie [of "quiet (session_db ''tok'')" new_writer "ap_auth shop" "cookie_request ''/api/v1/auth/logout''"]
    session_db_wf
  by (auto simp: cookie_request_def refreshCookieValue_def)

text \<open>
  C22 (failed sign-ins look alike). In quiet worlds, two sign-in requests whose credentials do not
  authenticate, one for an unknown address and one with a wrong password say, are answered
  with the same status, headers and body.
\<close>

theorem failed_logins_look_alike:
  assumes "w_plan W = []" "w_plan W' = []"
    and "decodeJSON (decode_login (ah_http h)) r = Inr q" "decodeJSON (decode_login (ah_http h)) r' = Inr q'"
    and "\<forall>u. login_user (lr_Email q) (w_db W) = Some u \<longrightarrow> \<not> authentic (ah_auth h) u (lr_Password q)"
    and "\<forall>u. login_user (lr_Email q') (w_db W') = Some u \<longrightarrow> \<not> authentic (ah_auth h) u (lr_Password q')"
  shows "fst (run_state (HandleLogin h r w) W) = fst (run_state (HandleLogin h r' w) W') \<and>
         (\<not> wroteHeader w \<longrightarrow> recorder_status (snd (fst (run_state (HandleLogin h r w) W))) = 401)"
proof -
  have "fst (run_state (HandleLogin h x w) V) = (Returned, writeError 401 ''invalid email or password'' w)"
    if "w_plan V = []" "decodeJSON (decode_login (ah_http h)) x = Inr y"
      "\<forall>u. login_user (lr_Email y) (w_db V) = Some u \<longrightarrow> \<not> authentic (ah_auth h) u (lr_Password y)" for x y V
    using that(2,3)
    by (cases "login_user (lr_Email y) (w_db V)") (simp_all add: HandleLogin_def Login_run [OF that(1)] refused_def)
  from this [OF assms(1,3,5)] this [OF assms(2,4,6)] show ?thesis using writeJSON_status(2) by auto
qed

theorem failed_logins_look_alike_witness:
  "fst (run_state (HandleLogin (ap_auth shop) (webhook_request\<lparr>req_Body := ''guess''\<rparr>) new_writer) (quiet (token_db None))) =
   fst (run_state (HandleLogin (ap_auth shop) webhook_request new_writer) (quiet (empty_db (unix 500))))"
proof -
  have "decodeJSON (decode_login (ah_http (ap_auth shop))) r =
      Inr \<lparr>lr_Email = ''A@B.co'', lr_Password = fst (MaxBytesReader maxAPIBytes r)\<rparr>"
    if "header_get (req_Header r) ''Content-Type'' = []" for r
    using that by (simp add: decodeJSON_def shop_def NewAuthHandler_def quiet_http_def Decoder_More_def)
  moreover have "header_get (req_Header (webhook_request\<lparr>req_Body := x\<rparr>)) ''Content-Type'' = []"
    "header_get (req_Header webhook_request) ''Content-Type'' = []" for x
    by (simp_all add: webhook_request_def header_get_def)
  moreover have "login_user ''A@B.co'' (empty_db (unix 500)) = None" by (simp add: login_user_def empty_db_def)
  ultimately show ?thesis
    using failed_logins_look_alike [of "quiet (token_db None)" "quiet (empty_db (unix 500))" "ap_auth shop"
        "webhook_request\<lparr>req_Body := ''guess''\<rparr>" _ webhook_request _ new_writer] sample_no_password(2)
    by auto
qed

text \<open>
  C10 (a caller sees its own data). In a quiet world, a request with an accepted token is answered
  for the token's subject and nobody else: the identity endpoint shows the live account with
  that id, or 401 once it is gone; the subscription endpoint shows that account's newest
  subscription, or 404. Nothing else in the request has any influence on the body.
\<close>

theorem answers_are_own:
  assumes "chi_laws (ap_chi A)" "w_plan W = []" "req_Method r = ''GET''"
    and "subject (fst (ro_Tokens cfg)) (snd (ro_Tokens cfg)) r (clock (w_db W)) = Some i" "i \<noteq> nil_uuid"
  shows "(req_Path r = ''/api/v1/auth/me'' \<longrightarrow>
            (\<exists>w W'. run_state (NewRouter A cfg r new_writer) W = ((Returned, w), W') \<and> w_db W' = w_db W \<and>
               (case find (\<lambda>u. u_ID u = i \<and> u_DeletedAt u = None) (users (w_db W)) of
                  None \<Rightarrow> recorder_status w = 401
                | Some u \<Rightarrow> recorder_status w = 200 \<and>
                            rw_Body w = json_encode (UserView_json (as_lib (ah_auth (ap_auth A))) (viewOf u)) @ [CHR 0x0A]))) \<and>
         (req_Path r = ''/api/v1/subscription'' \<longrightarrow>
            (\<exists>w W'. run_state (NewRouter A cfg r new_writer) W = ((Returned, w), W') \<and> w_db W' = w_db W \<and>
               (case find (\<lambda>s. s_UserID s = i) (sort_key (\<lambda>s. - s_CreatedAt s) (subs (w_db W))) of
                  None \<Rightarrow> recorder_status w = 404
                | Some s \<Rightarrow> recorder_status w = 200 \<and>
                            (json_encodable (SubscriptionView_json (subscription_view s)) \<longrightarrow>
                               rw_Body w = json_encode (SubscriptionView_json (subscription_view s)) @ [CHR 0x0A]))))"
proof (intro conjI impI)
  assume path: "req_Path r = ''/api/v1/auth/me''"
  let ?u = "find (\<lambda>u. u_ID u = i \<and> u_DeletedAt u = None) (users (w_db W))"
  have route: "map_of (api_routes A (RouterConfig_withDefaults cfg)) (req_Method r, ''/'' @ ''auth/me'') =
      Some (RequireAuth (fst (ro_Tokens cfg)) (snd (ro_Tokens cfg)) (HandleMe (ap_auth A)))"
    using assms(3) by (simp add: api_routes_def protected_routes_def)
  have p: "req_Path r = ''/api/v1'' @ ''/'' @ ''auth/me''" "req_Method r \<noteq> ''OPTIONS''" using path assms(3) by simp_all
  show "\<exists>w W'. run_state (NewRouter A cfg r new_writer) W = ((Returned, w), W') \<and> w_db W' = w_db W \<and>
      (case ?u of None \<Rightarrow> recorder_status w = 401 | Some u \<Rightarrow> recorder_status w = 200 \<and>
         rw_Body w = json_encode (UserView_json (as_lib (ah_auth (ap_auth A))) (viewOf u)) @ [CHR 0x0A])"
  proof (rule protected_through [OF assms(1) p route assms(4), where Q = "\<lambda>w d. d = w_db W \<and>
      (case ?u of None \<Rightarrow> recorder_status w = 401 | Some u \<Rightarrow> recorder_status w = 200 \<and>
         rw_Body w = json_encode (UserView_json (as_lib (ah_auth (ap_auth A))) (viewOf u)) @ [CHR 0x0A])"])
    fix r1 :: Request and hs and W1 :: world
    assume "w_db W1 = w_db W" "w_plan W1 = w_plan W" "req_User r1 = Some i"
    with HandleMe_run [of W1 i r1 "ap_auth A" hs] assms(2,5)
    show "\<exists>w2 W2. run_state (HandleMe (ap_auth A) r1 (new_writer\<lparr>rw_Header := hs\<rparr>)) W1 = ((Returned, w2), W2) \<and> wroteHeader w2 \<and>
        w_db W2 = w_db W \<and> (case ?u of None \<Rightarrow> recorder_status w2 = 401 | Some u \<Rightarrow> recorder_status w2 = 200 \<and>
         rw_Body w2 = json_encode (UserView_json (as_lib (ah_auth (ap_auth A))) (viewOf u)) @ [CHR 0x0A])" by simp
  qed
next
  assume path: "req_Path r = ''/api/v1/subscription''"
  let ?s = "find (\<lambda>s. s_UserID s = i) (sort_key (\<lambda>s. - s_CreatedAt s) (subs (w_db W)))"
  have route: "map_of (api_routes A (RouterConfig_withDefaults cfg)) (req_Method r, ''/'' @ ''subscription'') =
      Some (RequireAuth (fst (ro_Tokens cfg)) (snd (ro_Tokens cfg)) HandleGetSubscription)"
    using assms(3) by (simp add: api_routes_def protected_routes_def)
  have p: "req_Path r = ''/api/v1'' @ ''/'' @ ''subscription''" "req_Method r \<noteq> ''OPTIONS''" using path assms(3) by simp_all
  show "\<exists>w W'. run_state (NewRouter A cfg r new_writer) W = ((Returned, w), W') \<and> w_db W' = w_db W \<and>
      (case ?s of None \<Rightarrow> recorder_status w = 404 | Some s \<Rightarrow> recorder_status w = 200 \<and>
         (json_encodable (SubscriptionView_json (subscription_view s)) \<longrightarrow>
            rw_Body w = json_encode (SubscriptionView_json (subscription_view s)) @ [CHR 0x0A]))"
  proof (rule protected_through [OF assms(1) p route assms(4), where Q = "\<lambda>w d. d = w_db W \<and>
      (case ?s of None \<Rightarrow> recorder_status w = 404 | Some s \<Rightarrow> recorder_status w = 200 \<and>
         (json_encodable (SubscriptionView_json (subscription_view s)) \<longrightarrow>
            rw_Body w = json_encode (SubscriptionView_json (subscription_view s)) @ [CHR 0x0A]))"])
    fix r1 :: Request and hs and W1 :: world
    assume "w_db W1 = w_db W" "w_plan W1 = w_plan W" "req_User r1 = Some i"
    with HandleGetSubscription_run [of W1 i r1 hs] assms(2,5)
    show "\<exists>w2 W2. run_state (HandleGetSubscription r1 (new_writer\<lparr>rw_Header := hs\<rparr>)) W1 = ((Returned, w2), W2) \<and> wroteHeader w2 \<and>
        w_db W2 = w_db W \<and> (case ?s of None \<Rightarrow> recorder_status w2 = 404 | Some s \<Rightarrow> recorder_status w2 = 200 \<and>
         (json_encodable (SubscriptionView_json (subscription_view s)) \<longrightarrow>
            rw_Body w2 = json_encode (SubscriptionView_json (subscription_view s)) @ [CHR 0x0A]))" by simp
  qed
qed

definition bearer_request :: Request where
  "bearer_request = (plain_request ''GET'' ''/api/v1/auth/me'')\<lparr>req_Header := [(''Authorization'', ''bEARER token'')]\<rparr>"

theorem answers_are_own_witness:
  "\<exists>w W'. run_state (NewRouter shop shop_config bearer_request new_writer) (quiet (token_db None)) = ((Returned, w), W') \<and>
     recorder_status w = 200"
proof -
  have "to_lower ''bEARER'' = ''bearer''" by code_simp
  then have "bearerToken bearer_request = Some ''token''"
    by (simp add: bearer_request_def bearerToken_def header_get_def cut_space_def)
  then have "subject (fst (ro_Tokens shop_config)) (snd (ro_Tokens shop_config)) bearer_request (clock (token_db None)) = Some 7"
    by (simp add: subject_def shop_config_def Auth_Service.sample_service_def open_auth_def sample_auth_def claims_hold_def
        sample_claims_def token_db_def reached_def)
  from answers_are_own [of shop "quiet (token_db None)" bearer_request shop_config 7] this show ?thesis
    by (auto simp: shop_def flat_chi_laws bearer_request_def plain_request_def token_db_def)
qed

section \<open>Where the answers differ from the comments\<close>

text \<open>
  The cleared cookie does not mirror the attributes of the one it clears: the former says
  \<open>SameSite=Strict\<close>, the latter \<open>SameSite=None\<close>.
\<close>

lemma cleared_cookie_not_mirrored:
  "c_Name (cleared_cookie h) = c_Name (refresh_cookie h t e now)"
  "c_Path (cleared_cookie h) = c_Path (refresh_cookie h t e now)"
  "c_Domain (cleared_cookie h) = c_Domain (refresh_cookie h t e now)"
  "c_SameSite (cleared_cookie h) \<noteq> c_SameSite (refresh_cookie h t e now)"
  by (simp_all add: cleared_cookie_def refresh_cookie_def)

text \<open>
  A request body that goes on after its object with a closing bracket, and then with anything,
  is accepted as a single object.
\<close>

lemma trailing_bracket_accepted:
  assumes "header_get (req_Header r) ''Content-Type'' = ''application/json''"
    and "decode (MaxBytesReader maxAPIBytes r) = Inr (v, CHR ''}'' # rest)"
  shows "decodeJSON decode r = Inr v"
  using assms by (simp add: decodeJSON_def has_prefix_def Decoder_More_def json_space_def)

end
