(* ===== verification/Sweeper.thy ===== *)
theory Sweeper
  imports Webhook_Service
begin

text \<open>
  internal/worker/webhook_sweeper.go. One sweep moves abandoned claims back to failed, replays
  the failed events whose backoff has elapsed, and reports. \<open>Run\<close> repeats it until the
  context is cancelled; the channel it selects on is a list of the choices the runtime makes.
\<close>

section \<open>Configuration\<close>

record SweeperConfig =
  sc_Interval :: duration
  sc_StaleClaimAfter :: duration
  sc_MaxAttempts :: int
  sc_BaseBackoff :: duration
  sc_MaxBackoff :: duration
  sc_BatchSize :: int
  sc_AlertAfter :: duration

definition defaultInterval :: duration where "defaultInterval = minute"
definition defaultMaxAttempts :: int where "defaultMaxAttempts = 6"
definition defaultBaseBackoff :: duration where "defaultBaseBackoff = 30 * second"
definition defaultMaxBackoff :: duration where "defaultMaxBackoff = 30 * minute"
definition defaultBatchSize :: int where "defaultBatchSize = 100"
definition defaultAlertAfter :: duration where "defaultAlertAfter = hour"

definition or_default :: "int \<Rightarrow> int \<Rightarrow> int" where
  "or_default x d = (if x \<le> 0 then d else x)"

definition SweeperConfig_withDefaults :: "SweeperConfig \<Rightarrow> SweeperConfig" where
  "SweeperConfig_withDefaults c =
     \<lparr>sc_Interval = or_default (sc_Interval c) defaultInterval,
      sc_StaleClaimAfter = or_default (sc_StaleClaimAfter c) (5 * minute),
      sc_MaxAttempts = or_default (sc_MaxAttempts c) defaultMaxAttempts,
      sc_BaseBackoff = or_default (sc_BaseBackoff c) defaultBaseBackoff,
      sc_MaxBackoff = or_default (sc_MaxBackoff c) defaultMaxBackoff,
      sc_BatchSize = or_default (sc_BatchSize c) defaultBatchSize,
      sc_AlertAfter = or_default (sc_AlertAfter c) defaultAlertAfter\<rparr>"

text \<open>The sweeper: its service, its configuration, and whether the two pointers are set.\<close>

record WebhookSweeper =
  sw_service :: Service
  sw_cfg :: SweeperConfig
  sw_metrics :: bool
  sw_subs :: bool

definition NewWebhookSweeper :: "Service \<Rightarrow> SweeperConfig \<Rightarrow> WebhookSweeper" where
  "NewWebhookSweeper S c =
     \<lparr>sw_service = S, sw_cfg = SweeperConfig_withDefaults c, sw_metrics = False, sw_subs = False\<rparr>"

definition WebhookSweeper_WithMetrics :: "bool \<Rightarrow> bool \<Rightarrow> WebhookSweeper \<Rightarrow> WebhookSweeper" where
  "WebhookSweeper_WithMetrics m withSubs s = s\<lparr>sw_metrics := m, sw_subs := withSubs\<rparr>"

record SweepResult =
  sr_Reclaimed :: int
  sr_Retried :: int
  sr_Recovered :: int
  sr_Stats :: LedgerStats

definition no_stats :: LedgerStats where
  "no_stats = \<lparr>ls_Processing = 0, ls_Retryable = 0, ls_DeadLettered = 0, ls_OldestUnsettled = None\<rparr>"

section \<open>One sweep\<close>

definition reclaimAbandoned :: "WebhookSweeper \<Rightarrow> int prog" where
  "reclaimAbandoned s = do {
     r \<leftarrow> ReclaimAbandonedEvents (sc_StaleClaimAfter (sw_cfg s)) (sc_BatchSize (sw_cfg s));
     (case r of
        Inl e \<Rightarrow> do { log_line Error ''could not reclaim abandoned claims''; State_Monad.return 0 }
      | Inr ids \<Rightarrow> do {
          (if ids \<noteq> [] then log_line Warn ''reclaimed abandoned webhook claims'' else State_Monad.return ());
          State_Monad.return (int (length ids)) }) }"

text \<open>The loop over the listed events; the pair counts the attempted and the recovered ones.\<close>

fun retry_loop :: "WebhookSweeper \<Rightarrow> ProcessedWebhook list \<Rightarrow> int \<times> int \<Rightarrow> (int \<times> int) prog" where
  "retry_loop s [] (attempted, recovered) = State_Monad.return (attempted, recovered)"
| "retry_loop s (event # events) (attempted, recovered) = do {
     stop \<leftarrow> ctx_err;
     (if stop then State_Monad.return (attempted, recovered)
      else do {
        c \<leftarrow> ClaimEventForRetry (w_EventID event) (sc_MaxAttempts (sw_cfg s));
        (case c of
           Inl e \<Rightarrow> do {
             log_line Error ''could not claim event for retry'';
             retry_loop s events (attempted, recovered) }
         | Inr claimed \<Rightarrow>
             if \<not> claimed then retry_loop s events (attempted, recovered)
             else do {
               h \<leftarrow> ReplayEvent (sw_service s) (event\<lparr>w_Attempts := int32_of (w_Attempts event + 1)\<rparr>);
               retry_loop s events
                 (attempted + 1,
                  if snd h \<noteq> None \<or> fst h = OutcomeFailed then recovered else recovered + 1) }) }) }"

definition retry_query :: "SweeperConfig \<Rightarrow> RetryQuery" where
  "retry_query c =
     \<lparr>rq_MaxAttempts = sc_MaxAttempts c, rq_BaseBackoff = sc_BaseBackoff c,
      rq_MaxBackoff = sc_MaxBackoff c, rq_Limit = sc_BatchSize c\<rparr>"

definition retryFailed :: "WebhookSweeper \<Rightarrow> (int \<times> int) prog" where
  "retryFailed s = do {
     r \<leftarrow> ListRetryableEvents (sv_json (sw_service s)) (retry_query (sw_cfg s));
     (case r of
        Inl e \<Rightarrow> do { log_line Error ''could not list retryable events''; State_Monad.return (0, 0) }
      | Inr events \<Rightarrow> retry_loop s events (0, 0)) }"

definition sweep_report :: "WebhookSweeper \<Rightarrow> LedgerStats prog" where
  "sweep_report s = do {
     r \<leftarrow> WebhookRepo_LedgerStats (sc_MaxAttempts (sw_cfg s));
     (case r of
        Inl e \<Rightarrow> do { log_line Error ''could not read ledger stats''; State_Monad.return no_stats }
      | Inr st \<Rightarrow> do {
          (if sw_metrics s
           then do {
             observe True (SetLedger (ls_Processing st) (ls_Retryable st) (ls_DeadLettered st));
             (if sw_subs s
              then do {
                n \<leftarrow> CountInDunning;
                (case n of
                   Inr k \<Rightarrow> observe True (SetDunning k)
                 | Inl e \<Rightarrow> log_line Warn ''could not read the dunning count'') }
              else State_Monad.return ()) }
           else State_Monad.return ());
          (if LedgerStats_Unsettled st = 0
           then do { log_line Debug ''webhook ledger is clean''; State_Monad.return st }
           else do {
             now \<leftarrow> get_now;
             (if 0 < ls_DeadLettered st then log_line Error ''webhook events are dead-lettered''
              else if (case ls_OldestUnsettled st of
                         None \<Rightarrow> False | Some t \<Rightarrow> sc_AlertAfter (sw_cfg s) < now - t)
              then log_line Error ''webhook backlog is going stale''
              else log_line Info ''webhook backlog draining'');
             State_Monad.return st }) }) }"

definition Sweep :: "WebhookSweeper \<Rightarrow> SweepResult prog" where
  "Sweep s = do {
     n \<leftarrow> reclaimAbandoned s;
     c \<leftarrow> retryFailed s;
     st \<leftarrow> sweep_report s;
     State_Monad.return
       \<lparr>sr_Reclaimed = n, sr_Retried = fst c, sr_Recovered = snd c, sr_Stats = st\<rparr> }"

definition HealthCheck :: "WebhookSweeper \<Rightarrow> (LedgerStats \<times> goerr option) prog" where
  "HealthCheck s = do {
     r \<leftarrow> WebhookRepo_LedgerStats (sc_MaxAttempts (sw_cfg s));
     State_Monad.return (case r of
       Inl e \<Rightarrow> (no_stats, Some e)
     | Inr st \<Rightarrow>
         if 0 < ls_DeadLettered st
         then (st, Some (Wrap [] (Sentinel ErrDeadLettered)
                           ('': '' @ format_int (ls_DeadLettered st) @ '' event(s)'')))
         else (st, None)) }"

section \<open>The loop of the worker\<close>

text \<open>
  \<open>select\<close> takes the cancelled context or the timer; \<open>rand.Int64N\<close> panics on an argument
  that is not positive. A run whose choices are used up is still going.
\<close>

datatype choice = Done | Tick

datatype run_end = Panicked | Stopped | StillRunning

fun run_loop :: "'a prog \<Rightarrow> string \<Rightarrow> choice list \<Rightarrow> run_end prog" where
  "run_loop pass stopped [] = State_Monad.return StillRunning"
| "run_loop pass stopped (Done # cs) = do { log_line Info stopped; State_Monad.return Stopped }"
| "run_loop pass stopped (Tick # cs) = do { _ \<leftarrow> pass; run_loop pass stopped cs }"

definition WebhookSweeper_Run :: "WebhookSweeper \<Rightarrow> choice list \<Rightarrow> run_end prog" where
  "WebhookSweeper_Run s cs = do {
     log_line Info ''webhook sweeper started'';
     (if sc_Interval (sw_cfg s) div 4 \<le> 0 then State_Monad.return Panicked
      else run_loop (Sweep s) ''webhook sweeper stopped'' cs) }"

section \<open>What a sweep keeps\<close>

text \<open>
  A sweep settles, reclaims, and claims for retry within its budget \<open>m\<close>; it neither claims
  new deliveries nor purges.
\<close>

locale sweep_relation = replay_relation R "\<lambda>_. True" for R :: "db \<Rightarrow> db \<Rightarrow> bool" +
  fixes m :: int
  assumes reclaims_ok: "stmt_ok R (reclaim_stmt win limit reason)"
    and retry_claims_ok: "stmt_ok R (retry_claim_stmt e m)"
begin

lemma keeps_retry_loop:
  assumes "sc_MaxAttempts (sw_cfg s) = m"
  shows "keeps R (retry_loop s evs c)"
proof (induction evs arbitrary: c)
  case Nil
  then show ?case by (cases c) (simp add: keeps_return)
next
  case (Cons ev evs)
  have "keeps R (ClaimEventForRetry (w_EventID ev) m)"
    unfolding ClaimEventForRetry_def by (intro keeps_bind keeps_return keeps_run_stmt retry_claims_ok)
  then show ?case
    by (cases c) (simp only: retry_loop.simps assms, intro keeps_if keeps_return keeps_bind keeps_case_sum keeps_effects keeps_ctx_err
        keeps_ReplayEvent Cons TrueI)
qed

lemma keeps_retryFailed:
  assumes "sc_MaxAttempts (sw_cfg s) = m"
  shows "keeps R (retryFailed s)"
  unfolding retryFailed_def ListRetryableEvents_def
  by (intro keeps_return keeps_bind keeps_case_sum keeps_effects keeps_query_rows
      keeps_retry_loop [OF assms]) (auto simp: stmt_ok_def list_retryable_stmt_def R_refl)

lemma keeps_sweep_report: "keeps R (sweep_report s)"
  unfolding sweep_report_def WebhookRepo_LedgerStats_def
  by (intro keeps_if keeps_return keeps_bind keeps_case_sum keeps_effects keeps_run_stmt
      keeps_sub_reads) (simp add: stmt_ok_def R_refl)

lemma keeps_Sweep:
  assumes "sc_MaxAttempts (sw_cfg s) = m"
  shows "keeps R (Sweep s)"
  unfolding Sweep_def reclaimAbandoned_def ReclaimAbandonedEvents_def
  by (intro keeps_if keeps_return keeps_bind keeps_case_sum keeps_effects keeps_query_rows
      keeps_retryFailed [OF assms] keeps_sweep_report reclaims_ok)

lemma keeps_Run:
  assumes "sc_MaxAttempts (sw_cfg s) = m"
  shows "keeps R (WebhookSweeper_Run s cs)"
proof -
  have "keeps R (run_loop (Sweep s) t cs)" for t
    by (induction cs rule: run_loop.induct [where P = "\<lambda>p t cs. p = Sweep s \<longrightarrow> keeps R (run_loop p t cs)", rule_format])
       (auto intro!: keeps_return keeps_bind keeps_effects keeps_Sweep [OF assms])
  then show ?thesis
    unfolding WebhookSweeper_Run_def by (intro keeps_if keeps_return keeps_bind keeps_effects)
qed

end

sublocale billing_relation \<subseteq> sweeping: sweep_relation R m for m
  by unfold_locales (rule reclaim_ok retry_claim_ok)+

section \<open>Dead letters\<close>

definition dead :: "int \<Rightarrow> hook_row \<Rightarrow> bool" where
  "dead m h \<longleftrightarrow> h_status h = WebhookFailed \<and> m \<le> h_attempts h"

definition dead_kept :: "int \<Rightarrow> db \<Rightarrow> db \<Rightarrow> bool" where
  "dead_kept m d d' \<longleftrightarrow>
     (ids_unique d \<longrightarrow> ids_unique d' \<and> (\<forall>h \<in> set (hooks d). dead m h \<longrightarrow> h \<in> set (hooks d')))"

lemma hook_update_skips:
  assumes "hook_update P f d = Inr (hit, d')" "h \<in> set (hooks d)" "\<not> P h"
  shows "h \<in> set (hooks d')"
proof -
  obtain all where u: "sql_update P f (hooks d) = Inr (hit, all)" and d': "d' = d\<lparr>hooks := all\<rparr>"
    using assms(1) by (auto simp: hook_update_def split: sum.splits)
  from list_all2_mem [OF sql_update_rel [OF u] assms(2)] assms(3) show ?thesis
    by (auto simp: row_step_def d')
qed

lemma dead_keptI:
  assumes "stmt_ok ledger_grows body"
    and "\<And>s d a d' h. ids_unique d \<Longrightarrow> body s d = Inr (a, d') \<Longrightarrow> h \<in> set (hooks d) \<Longrightarrow> dead m h \<Longrightarrow>
           h \<in> set (hooks d')"
  shows "stmt_ok (dead_kept m) body"
  using assms ledger_grows_unique unfolding dead_kept_def stmt_ok_def by blast

lemma dead_kept_same: "hooks d' = hooks d \<Longrightarrow> dead_kept m d d'"
  by (simp add: dead_kept_def ids_unique_def)

lemma dead_mark:
  "upd \<in> {to_succeeded, to_skipped reason, to_failed reason} \<Longrightarrow> stmt_ok (dead_kept m) (mark_stmt e upd)"
  by (rule dead_keptI [OF mark_grows], assumption, unfold mark_stmt_def, erule hook_update_skips)
     (auto simp: dead_def held_def)

lemma dead_retry: "stmt_ok (dead_kept m) (retry_claim_stmt e m)"
  by (rule dead_keptI [OF retry_claim_grows], unfold retry_claim_stmt_def, erule hook_update_skips)
     (auto simp: dead_def)

lemma reclaim_skips:
  assumes "ids_unique d" "reclaim_stmt win limit reason s d = Inr (a, d')" "h \<in> set (hooks d)"
    and "h_status h \<noteq> WebhookProcessing"
  shows "h \<in> set (hooks d')"
proof -
  have "h_event_id h \<notin> set (map h_event_id (scan_limit h_updated_at (abandoned (clock d) win)
      (locked_by_others s) limit (hooks d)))"
  proof
    assume "h_event_id h \<in> set (map h_event_id (scan_limit h_updated_at (abandoned (clock d) win)
      (locked_by_others s) limit (hooks d)))"
    from scanned_row [OF assms(1) [unfolded ids_unique_def] assms(3) this] assms(4) show False
      by (simp add: abandoned_def)
  qed
  then show ?thesis
    using assms(2,3)
    by (auto simp: reclaim_stmt_def Let_def split: if_splits sum.splits prod.splits
        dest!: hook_update_skips [where h = h])
qed

lemma dead_reclaim: "stmt_ok (dead_kept m) (reclaim_stmt win limit reason)"
  by (rule dead_keptI [OF reclaim_grows], erule (2) reclaim_skips) (simp add: dead_def)

interpretation dead_letters: sweep_relation "dead_kept m" m for m
proof unfold_locales
  show "dead_kept m d d" for d by (simp add: dead_kept_same)
  show "dead_kept m a c" if "dead_kept m a b" "dead_kept m b c" for a b c
    using that by (auto simp: dead_kept_def)
qed (rule dead_mark, assumption | rule dead_retry | rule dead_reclaim
    | (rule stmt_okI)?, rule dead_kept_same, fastforce dest: sub_frames user_frames)+

section \<open>Counting\<close>

lemma yields_query_rows:
  assumes "\<And>s d a d'. body s d = Inr (a, d') \<Longrightarrow> Q a"
  shows "yields (\<lambda>r. \<forall>a. r = Inr a \<longrightarrow> Q a) (query_rows op body)"
  unfolding yields_def
proof (intro allI impI)
  fix w r w' a
  assume run: "run_state (query_rows op body) w = (r, w')" and r: "r = Inr a"
  then obtain x where e: "run_state (exec True body) w = (Inr x, w')" and "x = a"
    by (auto simp: query_rows_def split: prod.splits sum.splits phase.splits)
  obtain s w1 where n: "next_step w = (s, w1)" by fastforce
  from exec_effect(2) [OF e n] assms \<open>x = a\<close> show "Q a" by auto
qed

lemma list_length:
  "yields (\<lambda>r. \<forall>evs. r = Inr evs \<longrightarrow> length evs \<le> nat (rq_Limit q)) (ListRetryableEvents J q)"
  unfolding ListRetryableEvents_def
  by (rule yields_query_rows) (auto simp: list_retryable_stmt_def scan_limit_length split: if_splits)

definition counted :: "int \<times> int \<Rightarrow> int \<Rightarrow> int \<times> int \<Rightarrow> bool" where
  "counted c n c' \<longleftrightarrow>
     fst c \<le> fst c' \<and> fst c' \<le> fst c + n \<and> snd c \<le> snd c' \<and> snd c' - snd c \<le> fst c' - fst c"

lemma retry_loop_counts: "yields (counted c (int (length evs))) (retry_loop s evs c)"
proof (induction evs arbitrary: c)
  case Nil
  then show ?case by (cases c) (simp add: counted_def)
next
  case (Cons ev evs)
  obtain a r where c: "c = (a, r)" by fastforce
  have same: "yields (counted (a, r) (int (length (ev # evs)))) (retry_loop s evs (a, r))"
    by (rule yields_mono [OF Cons]) (simp add: counted_def)
  have more: "yields (counted (a, r) (int (length (ev # evs)))) (retry_loop s evs (a + 1, r'))"
    if "r' = r \<or> r' = r + 1" for r'
    by (rule yields_mono [OF Cons]) (use that in \<open>auto simp: counted_def\<close>)
  show ?case
    unfolding c retry_loop.simps
    by (intro yields_if yields_case yields_bind same more) (simp_all add: counted_def)
qed

section \<open>A due event is retried\<close>

text \<open>The row of one event, which the work on any other event leaves alone.\<close>

definition row_kept :: "string \<Rightarrow> db \<Rightarrow> db \<Rightarrow> bool" where
  "row_kept e d d' \<longleftrightarrow>
     filter (\<lambda>h. h_event_id h = e) (hooks d') = filter (\<lambda>h. h_event_id h = e) (hooks d) \<and> clock d' = clock d"

lemma row_keptE: "row_kept e d d' \<Longrightarrow> {h \<in> set (hooks d'). h_event_id h = e} = {h \<in> set (hooks d). h_event_id h = e}"
  unfolding row_kept_def by (metis set_filter)

lemma row_keptD: "row_kept e d d' \<Longrightarrow> h \<in> set (hooks d) \<Longrightarrow> h_event_id h = e \<Longrightarrow> h \<in> set (hooks d')"
  by (drule row_keptE) (auto simp: set_eq_iff)

lemma sql_update_other:
  assumes "sql_update P f rs = Inr (hit, all)" "\<And>r r'. P r \<Longrightarrow> f r = Inr r' \<Longrightarrow> \<not> Q r \<and> \<not> Q r'"
  shows "filter Q all = filter Q rs"
  using assms(1)
proof (induction rs arbitrary: hit all)
  case (Cons r rs)
  then show ?case using assms(2) by (force split: if_splits sum.splits prod.splits)
qed simp

lemma hook_update_other:
  assumes "hook_update P f d = Inr (hit, d')"
    and "\<And>h h'. P h \<Longrightarrow> f h = Inr h' \<Longrightarrow> h_event_id h \<noteq> e \<and> h_event_id h' = h_event_id h"
  shows "row_kept e d d'"
proof -
  obtain all where u: "sql_update P f (hooks d) = Inr (hit, all)" and d': "d' = d\<lparr>hooks := all\<rparr>"
    using assms(1) by (auto simp: hook_update_def split: sum.splits)
  have "filter (\<lambda>h. h_event_id h = e) all = filter (\<lambda>h. h_event_id h = e) (hooks d)"
    by (rule sql_update_other [OF u]) (use assms(2) in metis)
  then show ?thesis by (simp add: row_kept_def d')
qed

lemma hook_write_id:
  "hook_write d upd h = Inr h' \<Longrightarrow> h_event_id (upd h) = h_event_id h \<Longrightarrow> h_event_id h' = h_event_id h"
  by (auto simp: hook_write_def write_row_ok touch_hook_def split: if_splits)

lemma mark_other:
  assumes "x \<noteq> e" "upd \<in> {to_succeeded, to_skipped reason, to_failed reason}"
  shows "stmt_ok (row_kept e) (mark_stmt x upd)"
proof (rule stmt_okI, unfold mark_stmt_def, erule hook_update_other)
  fix s and d d' :: db and h h'
  assume h: "held x h" and w: "hook_write d (upd (clock d)) h = Inr h'"
  have "h_event_id (upd (clock d) h) = h_event_id h"
    using assms(2) by (auto simp: to_succeeded_def to_skipped_def to_failed_def)
  with h assms(1) hook_write_id [OF w] show "h_event_id h \<noteq> e \<and> h_event_id h' = h_event_id h"
    by (simp add: held_def)
qed

lemma retry_claim_other:
  assumes "x \<noteq> e" shows "stmt_ok (row_kept e) (retry_claim_stmt x m)"
  by (rule stmt_okI, unfold retry_claim_stmt_def, erule hook_update_other)
     (use assms in \<open>auto simp: hook_bump_def to_processing_def dest!: hook_write_id split: if_splits\<close>)

interpretation other_events: replay_relation "row_kept e" "\<lambda>x. x \<noteq> e" for e
proof unfold_locales
  show "row_kept e d d" for d by (simp add: row_kept_def)
  show "row_kept e a c" if "row_kept e a b" "row_kept e b c" for a b c
    using that by (simp add: row_kept_def)
qed (rule mark_other, assumption, assumption
     | (rule stmt_okI)?, fastforce simp: row_kept_def dest: sub_frames user_frames)+

lemma retry_claim_takes:
  assumes "w_plan W = []" "hooks_wf (w_db W)" "h \<in> set (hooks (w_db W))" "h_status h = WebhookFailed"
    and "h_attempts h < m" "m \<le> int4_max"
  shows "\<exists>W1. run_state (ClaimEventForRetry (h_event_id h) m) W = (Inr True, W1) \<and> w_polls W1 = w_polls W \<and>
           holds_claim (h_event_id h) (h_attempts h + 1) W1"
proof -
  let ?h = "claimed_again (w_db W) h" let ?d = "replace_hook ?h (w_db W)"
  have b: "hook_bump (w_db W) to_processing h = Inr ?h"
    using assms by (intro hook_bump_ok) (auto simp: hooks_wf_def settled_status_def)
  have u: "retry_claim_stmt (h_event_id h) m (quiet_step (w_db W)) (w_db W) = Inr ([?h], ?d)"
    unfolding retry_claim_stmt_def
    by (rule hook_update_one [where h = h]) (use assms b in \<open>auto simp: hooks_wf_def claimed_again_def\<close>)
  have "?h \<in> set (hooks ?d)" using assms(3) by (force simp: replace_hook_def claimed_again_def)
  then have "holds_claim (h_event_id h) (h_attempts h + 1) (W\<lparr>w_db := ?d\<rparr>)"
    using retry_claim_wf [OF u assms(2)] assms(1)
    by (auto simp: holds_claim_def intro!: bexI [of _ ?h]) (simp_all add: held_def claimed_again_def)
  then show ?thesis using u assms(1) by (simp add: ClaimEventForRetry_def run_stmt_quiet)
qed

text \<open>The outcome of the loop for one due event.\<close>

definition retried :: "hook_row \<Rightarrow> db \<Rightarrow> bool" where
  "retried h d \<longleftrightarrow> (\<exists>h' \<in> set (hooks d). h_event_id h' = h_event_id h \<and>
     h_attempts h' = h_attempts h + 1 \<and> h_status h' \<noteq> WebhookProcessing)"

lemma quiet_steps:
  assumes "w_plan W = []" "hooks_wf (w_db W)" "run_state p W = (x, W')" "keeps ledger_sound p"
  shows "w_plan W' = []" "hooks_wf (w_db W')" "w_polls W = [] \<Longrightarrow> w_polls W' = []"
proof -
  have "env_ok ledger_sound W" using assms(1) by (simp add: env_ok_def)
  from keepsD [OF assms(4) this assms(3)] assms(1,2)
  show "w_plan W' = []" "hooks_wf (w_db W')" "w_polls W = [] \<Longrightarrow> w_polls W' = []"
    by (auto simp: ledger_sound_def advances_quiet advances_polls)
qed

lemma quiet_other:
  assumes "w_plan W = []" "run_state p W = (x, W')" "keeps (row_kept (h_event_id h)) p"
    and "h \<in> set (hooks (w_db W))"
  shows "h \<in> set (hooks (w_db W'))"
proof -
  have "env_ok (row_kept (h_event_id h)) W" using assms(1) by (simp add: env_ok_def)
  from keepsD [OF assms(3) this assms(2)] show ?thesis using row_keptD assms(4) by blast
qed

lemma retry_loop_others:
  assumes "e \<notin> w_EventID ` set evs"
  shows "keeps (row_kept e) (retry_loop s evs c)"
  using assms
proof (induction evs arbitrary: c)
  case Nil
  then show ?case by (cases c) (simp add: other_events.keeps_return)
next
  case (Cons ev evs)
  then have "keeps (row_kept e) (ClaimEventForRetry (w_EventID ev) (sc_MaxAttempts (sw_cfg s)))"
    unfolding ClaimEventForRetry_def
    by (intro other_events.keeps_bind other_events.keeps_return other_events.keeps_run_stmt
        retry_claim_other) auto
  then show ?case
    by (cases c) (simp only: retry_loop.simps, use Cons in
        \<open>auto intro!: other_events.keeps_return other_events.keeps_bind other_events.keeps_case_sum
          other_events.keeps_effects other_events.keeps_ctx_err other_events.keeps_ReplayEvent\<close>)
qed

lemma settles_not_processing: "settles_as oc e h \<Longrightarrow> h_status h \<noteq> WebhookProcessing"
  by (auto simp: settles_as_def split: Outcome.splits)

lemma retry_loop_head:
  assumes "w_plan W = []" "w_polls W = []" "hooks_wf (w_db W)" "h \<in> set (hooks (w_db W))"
    and "h_status h = WebhookFailed" "h_attempts h < sc_MaxAttempts (sw_cfg s)" "sc_MaxAttempts (sw_cfg s) \<le> int4_max"
    and "h_event_id h = w_EventID ev" "w_EventID ev \<notin> w_EventID ` set evs"
    and "run_state (retry_loop s (ev # evs) c) W = (c', W')"
  shows "retried h (w_db W')"
proof -
  obtain a r where c: "c = (a, r)" by fastforce
  obtain W1 where cl: "run_state (ClaimEventForRetry (w_EventID ev) (sc_MaxAttempts (sw_cfg s))) W = (Inr True, W1)"
    and hold: "holds_claim (w_EventID ev) (h_attempts h + 1) W1"
    using retry_claim_takes [OF assms(1,3-7)] assms(8) by auto
  let ?ev = "ev\<lparr>w_Attempts := int32_of (w_Attempts ev + 1)\<rparr>"
  obtain x W2 where rp: "run_state (ReplayEvent (sw_service s) ?ev) W1 = (x, W2)" by fastforce
  obtain h' where h': "h' \<in> set (hooks (w_db W2))" "h_event_id h' = w_EventID ev"
    "h_attempts h' = h_attempts h + 1" "h_status h' \<noteq> WebhookProcessing"
    using ReplayEvent_settles [OF _ rp] hold settles_not_processing by fastforce
  obtain c2 where rest: "run_state (retry_loop s evs c2) W2 = (c', W')"
    using assms(2,10) cl rp c by auto
  have q1: "w_plan W1 = []" "hooks_wf (w_db W1)" using hold by (simp_all add: holds_claim_def)
  have "w_plan W2 = []"
    using quiet_steps(1) [OF q1 rp sound_billing.keeps_ReplayEvent] by simp
  from quiet_other [OF this rest retry_loop_others h'(1)] assms(9) h' have "h' \<in> set (hooks (w_db W'))" by simp
  with h' assms(8) show ?thesis by (auto simp: retried_def)
qed

text \<open>The work on another event leaves the loop where it was for this one.\<close>

definition awaits :: "hook_row \<Rightarrow> world \<Rightarrow> bool" where
  "awaits h W \<longleftrightarrow>
     w_plan W = [] \<and> w_polls W = [] \<and> hooks_wf (w_db W) \<and> h \<in> set (hooks (w_db W))"

lemma awaits_step:
  assumes "awaits h W" "run_state p W = (x, W')" "keeps ledger_sound p" "keeps (row_kept (h_event_id h)) p"
  shows "awaits h W'"
  using assms quiet_steps [of W p x W'] quiet_other [of W p x W' h] by (simp add: awaits_def)

lemma retry_loop_tail:
  assumes "awaits h W" "h_event_id h \<noteq> w_EventID ev"
    and "run_state (retry_loop s (ev # evs) (a, r)) W = (c', W')"
  shows "\<exists>c2 W2. awaits h W2 \<and> run_state (retry_loop s evs c2) W2 = (c', W')"
proof -
  obtain cl W1 where cl: "run_state (ClaimEventForRetry (w_EventID ev) (sc_MaxAttempts (sw_cfg s))) W = (cl, W1)"
    by fastforce
  have k: "keeps (row_kept (h_event_id h)) (ClaimEventForRetry (w_EventID ev) (sc_MaxAttempts (sw_cfg s)))"
    unfolding ClaimEventForRetry_def using assms(2)
    by (intro other_events.keeps_bind other_events.keeps_return other_events.keeps_run_stmt retry_claim_other) simp
  have 1: "awaits h W1" by (rule awaits_step [OF assms(1) cl sound_billing.keeps_ClaimForRetry k])
  then have log: "awaits h (W1\<lparr>w_logs := l\<rparr>)" for l by (simp add: awaits_def)
  let ?ev = "ev\<lparr>w_Attempts := int32_of (w_Attempts ev + 1)\<rparr>"
  obtain x W2 where rp: "run_state (ReplayEvent (sw_service s) ?ev) W1 = (x, W2)" by fastforce
  have 2: "awaits h W2"
    by (rule awaits_step [OF 1 rp sound_billing.keeps_ReplayEvent other_events.keeps_ReplayEvent])
       (use assms(2) in simp_all)
  have p: "w_polls W = []" using assms(1) by (simp add: awaits_def)
  show ?thesis
  proof (cases cl)
    case (Inl err)
    with assms(3) cl p have "run_state (retry_loop s evs (a, r))
        (W1\<lparr>w_logs := w_logs W1 @ [(Error, ''could not claim event for retry'')]\<rparr>) = (c', W')" by simp
    with log show ?thesis by blast
  next
    case (Inr b)
    with assms(3) cl p rp 1 2 show ?thesis by (cases b) auto
  qed
qed

lemma retry_loop_reaches:
  assumes "awaits h W" "h_status h = WebhookFailed" "h_attempts h < sc_MaxAttempts (sw_cfg s)"
    and "sc_MaxAttempts (sw_cfg s) \<le> int4_max"
    and "h_event_id h \<in> w_EventID ` set evs" "distinct (map w_EventID evs)"
    and "run_state (retry_loop s evs c) W = (c', W')"
  shows "retried h (w_db W')"
  using assms
proof (induction evs arbitrary: c W)
  case (Cons ev evs)
  show ?case
  proof (cases "h_event_id h = w_EventID ev")
    case True
    with Cons.prems show ?thesis
      by (intro retry_loop_head [of W h s ev evs c c' W']) (simp_all add: awaits_def)
  next
    case False
    obtain a r where "c = (a, r)" by fastforce
    with retry_loop_tail [OF Cons.prems(1) False, of s evs a r c' W'] Cons.prems(7) obtain c2 W2 where
      "awaits h W2" "run_state (retry_loop s evs c2) W2 = (c', W')" by blast
    with Cons.IH [of W2 c2] Cons.prems False show ?thesis by simp
  qed
qed simp

text \<open>A reclaimed claim is not due at once, so reclaiming adds nothing to the due events.\<close>

lemma filter_shrinks:
  assumes "list_all2 R rs rs'" "\<And>r r'. R r r' \<Longrightarrow> Q r' \<Longrightarrow> Q r"
  shows "length (filter Q rs') \<le> length (filter Q rs)"
  using assms(1) by induction (use assms(2) in \<open>auto intro: le_SucI\<close>)

lemma hook_update_shrinks:
  assumes "hook_update P f d = Inr (hit, d')" "\<And>h h'. f h = Inr h' \<Longrightarrow> Q h' \<Longrightarrow> Q h"
  shows "length (filter Q (hooks d')) \<le> length (filter Q (hooks d))"
proof -
  obtain all where u: "sql_update P f (hooks d) = Inr (hit, all)" and d': "d' = d\<lparr>hooks := all\<rparr>"
    using assms(1) by (auto simp: hook_update_def split: sum.splits)
  have "length (filter Q all) \<le> length (filter Q (hooks d))"
    by (rule filter_shrinks [OF sql_update_rel [OF u]])
       (use assms(2) in \<open>auto simp: row_step_def split: if_splits\<close>)
  then show ?thesis by (simp add: d')
qed

lemma reclaim_retryable:
  assumes "reclaim_stmt win limit reason s d = Inr (a, d')" "0 \<le> rq_BaseBackoff q" "0 \<le> rq_MaxBackoff q"
  shows "length (filter (retryable q (clock d)) (hooks d')) \<le> length (filter (retryable q (clock d)) (hooks d))"
proof -
  obtain P hit where "hook_update P (hook_write d (to_failed reason (clock d))) d = Inr (hit, d')"
    using assms(1) by (auto simp: reclaim_stmt_def Let_def split: if_splits sum.splits prod.splits)
  then show ?thesis
  proof (rule hook_update_shrinks)
    fix h h'
    assume w: "hook_write d (to_failed reason (clock d)) h = Inr h'" and r: "retryable q (clock d) h'"
    have "0 \<le> backoff (rq_BaseBackoff q) (rq_MaxBackoff q) n" for n
      using assms(2,3) by (simp add: backoff_def)
    from this [of "h_attempts h'"] have "h_updated_at h' \<noteq> clock d" using r by (auto simp: retryable_def)
    with w have "h' = h" by (auto simp: hook_write_def write_row_ok touch_hook_def split: if_splits)
    with r show "retryable q (clock d) h" by simp
  qed
qed

text \<open>What the listing returns.\<close>

lemma scan_limit_all:
  assumes "length (filter P rows) \<le> nat lim"
  shows "set (scan_limit key P (\<lambda>_. False) lim rows) = {r \<in> set rows. P r}"
  using assms by (simp add: scan_limit_def filter_sort)

lemma scan_limit_distinct:
  assumes "distinct (map f rows)"
  shows "distinct (map f (scan_limit key P l lim rows))"
proof -
  have "distinct (map f (sort_key key rows))" using assms by (simp add: distinct_map)
  then show ?thesis by (simp add: scan_limit_def take_map [symmetric] distinct_map_filter)
qed

lemma retryFailed_reaches:
  assumes "awaits h W" "retryable (retry_query (sw_cfg s)) (clock (w_db W)) h"
    and "sc_MaxAttempts (sw_cfg s) \<le> int4_max"
    and "int (length (filter (retryable (retry_query (sw_cfg s)) (clock (w_db W))) (hooks (w_db W)))) \<le> sc_BatchSize (sw_cfg s)"
    and "run_state (retryFailed s) W = (c, W')"
  shows "retried h (w_db W')"
proof -
  let ?q = "retry_query (sw_cfg s)" let ?J = "sv_json (sw_service s)"
  define rows where "rows = scan_limit h_updated_at (retryable ?q (clock (w_db W))) (\<lambda>_. False)
      (sc_BatchSize (sw_cfg s)) (hooks (w_db W))"
  have W: "w_plan W = []" "hooks_wf (w_db W)" "h \<in> set (hooks (w_db W))" using assms(1) by (auto simp: awaits_def)
  have "0 \<le> sc_BatchSize (sw_cfg s)" using assms(4) by linarith
  then have "run_state (ListRetryableEvents ?J ?q) W = (Inr (map (scanWebhook ?J) rows), W)"
    using W(1) by (simp add: ListRetryableEvents_def query_rows_quiet list_retryable_stmt_def retry_query_def rows_def)
  with assms(5) have run: "run_state (retry_loop s (map (scanWebhook ?J) rows) (0, 0)) W = (c, W')"
    by (simp add: retryFailed_def)
  have ids: "map w_EventID (map (scanWebhook ?J) rows) = map h_event_id rows" by (simp add: scanWebhook_def)
  have "h \<in> set rows"
    using W(3) assms(2,4) unfolding rows_def by (subst scan_limit_all) (auto simp: le_nat_iff)
  then have "h_event_id h \<in> set (map w_EventID (map (scanWebhook ?J) rows))" unfolding ids by simp
  moreover have "distinct (map w_EventID (map (scanWebhook ?J) rows))"
    unfolding ids unfolding rows_def
    using W(2) by (intro scan_limit_distinct) (simp add: hooks_wf_def ids_unique_def)
  ultimately show ?thesis
    using assms(1-3) run
    by (intro retry_loop_reaches [of h W s "map (scanWebhook ?J) rows" "(0, 0)" c W'])
       (auto simp: retryable_def retry_query_def)
qed

lemma reclaimAbandoned_effect:
  assumes "w_plan W = []" "run_state (reclaimAbandoned s) W = (n, W1)"
  shows "w_plan W1 = [] \<and> w_polls W1 = w_polls W \<and> (w_db W1 = w_db W \<or>
    (\<exists>ids. reclaim_stmt (sc_StaleClaimAfter (sw_cfg s)) (sc_BatchSize (sw_cfg s))
       ''claim abandoned by a worker that did not settle it'' (quiet_step (w_db W)) (w_db W) = Inr (ids, w_db W1)))"
  using assms
  by (auto simp: reclaimAbandoned_def ReclaimAbandonedEvents_def query_rows_quiet
      split: sum.splits prod.splits if_splits)

lemma reclaimAbandoned_awaits:
  assumes "awaits h W" "retryable (retry_query (sw_cfg s)) (clock (w_db W)) h"
    and "0 < sc_BaseBackoff (sw_cfg s)" "0 < sc_MaxBackoff (sw_cfg s)"
    and "run_state (reclaimAbandoned s) W = (n, W1)"
  shows "awaits h W1 \<and> clock (w_db W1) = clock (w_db W) \<and>
    length (filter (retryable (retry_query (sw_cfg s)) (clock (w_db W))) (hooks (w_db W1)))
      \<le> length (filter (retryable (retry_query (sw_cfg s)) (clock (w_db W))) (hooks (w_db W)))"
proof -
  have W: "w_plan W = []" "hooks_wf (w_db W)" "h \<in> set (hooks (w_db W))" using assms(1) by (auto simp: awaits_def)
  from reclaimAbandoned_effect [OF W(1) assms(5)] assms(1) show ?thesis
  proof (elim conjE disjE exE)
    fix ids
    assume r: "reclaim_stmt (sc_StaleClaimAfter (sw_cfg s)) (sc_BatchSize (sw_cfg s))
       ''claim abandoned by a worker that did not settle it'' (quiet_step (w_db W)) (w_db W) = Inr (ids, w_db W1)"
      and "w_plan W1 = []" "w_polls W1 = w_polls W"
    moreover have "h \<in> set (hooks (w_db W1))"
      using W assms(2) by (intro reclaim_skips [OF _ r]) (simp_all add: hooks_wf_def retryable_def)
    moreover have "hooks_wf (w_db W1)" using scan_update_wf [OF disjI1 [OF r] W(2)] .
    moreover have "clock (w_db W1) = clock (w_db W)" using reclaim_frame [OF r] by auto
    ultimately show ?thesis
      using assms(1,3,4) reclaim_retryable [OF r] by (simp add: awaits_def retry_query_def)
  qed (simp_all add: awaits_def)
qed

lemma sweep_report_db: "w_plan W = [] \<Longrightarrow> run_state (sweep_report s) W = (st, W') \<Longrightarrow> w_db W' = w_db W"
  by (auto simp: sweep_report_def WebhookRepo_LedgerStats_def CountInDunning_def query_row_def run_stmt_quiet
      split: if_splits sum.splits prod.splits)

section \<open>What the report says\<close>

definition unsettled :: "hook_row \<Rightarrow> bool" where
  "unsettled h \<longleftrightarrow> h_status h = WebhookProcessing \<or> h_status h = WebhookFailed"

lemma count_pos: "0 < count P rows \<longleftrightarrow> (\<exists>r \<in> set rows. P r)"
  by (auto simp: count_def filter_empty_conv)

lemma count_nonneg [simp]: "0 \<le> count P rows"
  by (simp add: count_def)

lemma unsettled_zero:
  "LedgerStats_Unsettled (ledger_stats m d) = 0 \<longleftrightarrow> (\<forall>h \<in> set (hooks d). \<not> unsettled h)"
proof -
  have "LedgerStats_Unsettled (ledger_stats m d) = 0 \<longleftrightarrow>
      \<not> 0 < count (\<lambda>h. h_status h = WebhookProcessing) (hooks d) \<and>
      \<not> 0 < count (\<lambda>h. h_status h = WebhookFailed \<and> h_attempts h < m) (hooks d) \<and>
      \<not> 0 < count (\<lambda>h. h_status h = WebhookFailed \<and> m \<le> h_attempts h) (hooks d)"
    unfolding LedgerStats_Unsettled_def ledger_stats_def LedgerStats.simps
    by (smt (verit) count_nonneg)
  also have "\<dots> \<longleftrightarrow> (\<forall>h \<in> set (hooks d). \<not> unsettled h)"
    unfolding count_pos unsettled_def by (meson linorder_not_less)
  finally show ?thesis .
qed

lemma foldr_min: "foldr min r t \<in> set (t # r) \<and> (\<forall>x \<in> set (t # r). foldr min r t \<le> x)" for t :: time
  by (induction r) (auto simp: min_def)

lemma oldest_age:
  "(case ls_OldestUnsettled (ledger_stats m d) of None \<Rightarrow> False | Some t \<Rightarrow> a < now - t) \<longleftrightarrow>
   (\<exists>h \<in> set (hooks d). unsettled h \<and> a < now - h_updated_at h)"
proof -
  let ?ts = "map h_updated_at (filter unsettled (hooks d))"
  have st: "ls_OldestUnsettled (ledger_stats m d) = min_time ?ts"
    by (simp add: ledger_stats_def unsettled_def [abs_def])
  have "(case min_time ?ts of None \<Rightarrow> False | Some t \<Rightarrow> a < now - t) \<longleftrightarrow> (\<exists>t \<in> set ?ts. a < now - t)"
  proof (cases ?ts)
    case (Cons t r)
    then show ?thesis using foldr_min [of r t] unfolding Cons min_time_def by force
  qed (simp add: min_time_def)
  then show ?thesis unfolding st by auto
qed

section \<open>Properties\<close>

definition sample_sweeper :: WebhookSweeper where
  "sample_sweeper =
     NewWebhookSweeper (sample_service ''invoice.paid'')
       \<lparr>sc_Interval = 0, sc_StaleClaimAfter = 0, sc_MaxAttempts = 0, sc_BaseBackoff = 0,
        sc_MaxBackoff = 0, sc_BatchSize = 0, sc_AlertAfter = 0\<rparr>"

lemmas sample_sweeper_defs =
  sample_sweeper_def NewWebhookSweeper_def SweeperConfig_withDefaults_def or_default_def
  defaultInterval_def defaultMaxAttempts_def defaultBaseBackoff_def defaultMaxBackoff_def
  defaultBatchSize_def defaultAlertAfter_def second_def minute_def hour_def

text \<open>
  C13 (due events are retried). In a quiet world a sweep reaches every failed event that has
  attempts left and whose backoff has elapsed, as long as they fit in one batch: each is
  claimed once, its attempt is counted, and it is left settled or failed again, not in flight.
\<close>

theorem Sweep_retries_due:
  assumes "w_plan W = []" "w_polls W = []" "hooks_wf (w_db W)" "h \<in> set (hooks (w_db W))"
    and "retryable (retry_query (sw_cfg (NewWebhookSweeper S c))) (clock (w_db W)) h"
    and "sc_MaxAttempts c \<le> int4_max"
    and "int (length (filter (retryable (retry_query (sw_cfg (NewWebhookSweeper S c))) (clock (w_db W)))
           (hooks (w_db W)))) \<le> sc_BatchSize (sw_cfg (NewWebhookSweeper S c))"
    and "run_state (Sweep (NewWebhookSweeper S c)) W = (r, W')"
  shows "\<exists>h' \<in> set (hooks (w_db W')). h_event_id h' = h_event_id h \<and>
           h_attempts h' = h_attempts h + 1 \<and> h_status h' \<noteq> WebhookProcessing"
proof -
  let ?s = "NewWebhookSweeper S c"
  have cfg: "0 < sc_BaseBackoff (sw_cfg ?s)" "0 < sc_MaxBackoff (sw_cfg ?s)" "sc_MaxAttempts (sw_cfg ?s) \<le> int4_max"
    using assms(6) by (simp_all add: sample_sweeper_defs int4_max_def)
  obtain n W1 where 1: "run_state (reclaimAbandoned ?s) W = (n, W1)" by fastforce
  obtain k W2 where 2: "run_state (retryFailed ?s) W1 = (k, W2)" by fastforce
  obtain st where 3: "run_state (sweep_report ?s) W2 = (st, W')"
    using assms(8) 1 2 by (auto simp: Sweep_def split: prod.splits)
  have "awaits h W" using assms(1-4) by (simp add: awaits_def)
  from reclaimAbandoned_awaits [OF this assms(5) cfg(1,2) 1] assms(5,7)
  have a: "awaits h W1" and "retried h (w_db W2)"
    using retryFailed_reaches [OF _ _ cfg(3) _ 2, of h] by auto
  moreover have "w_plan W2 = []"
    using a quiet_steps(1) [OF _ _ 2 sound_billing.sweeping.keeps_retryFailed [OF refl]]
    by (simp add: awaits_def)
  ultimately show ?thesis using sweep_report_db [OF _ 3] by (simp add: retried_def)
qed

theorem Sweep_retries_due_witness:
  "\<exists>h' \<in> set (hooks (w_db (snd (run_state (Sweep sample_sweeper) (quiet (sample_db WebhookFailed)))))).
     h_event_id h' = ''evt_1'' \<and> h_attempts h' = 2 \<and> h_status h' \<noteq> WebhookProcessing"
proof -
  let ?W = "quiet (sample_db WebhookFailed)"
  obtain r W' where run: "run_state (Sweep sample_sweeper) ?W = (r, W')" by fastforce
  from Sweep_retries_due [OF _ _ _ _ _ _ _ this [unfolded sample_sweeper_def], of "sample_row WebhookFailed"]
    run sample_db_wf [of WebhookFailed]
  show ?thesis
    by (simp add: sample_sweeper_defs)
       (simp add: sample_sweeper_defs retryable_def retry_query_def backoff_def sample_defs unix_def int4_max_def)
qed

text \<open>
  C20 (dead letters wait for a human). Whatever the other workers do, provided they leave
  exhausted events alone too, a sweep does not touch an event that failed with its retry
  budget used up.
\<close>

theorem Sweep_keeps_dead_letters:
  assumes "env_ok (dead_kept (sc_MaxAttempts (sw_cfg s))) W" "ids_unique (w_db W)"
    and "h \<in> set (hooks (w_db W))" "h_status h = WebhookFailed"
    and "sc_MaxAttempts (sw_cfg s) \<le> h_attempts h"
    and "run_state (Sweep s) W = (r, W')"
  shows "h \<in> set (hooks (w_db W'))"
  using keepsD [OF dead_letters.keeps_Sweep [OF refl] assms(1,6)] assms(2-5)
  by (auto simp: dead_kept_def dead_def)

theorem Sweep_keeps_dead_letters_witness:
  "(sample_row WebhookFailed)\<lparr>h_attempts := 6\<rparr> \<in> set (hooks (w_db (snd (run_state (Sweep sample_sweeper)
     (quiet ((sample_db WebhookFailed)\<lparr>hooks := [(sample_row WebhookFailed)\<lparr>h_attempts := 6\<rparr>]\<rparr>))))))"
proof -
  let ?h = "(sample_row WebhookFailed)\<lparr>h_attempts := 6\<rparr>"
  let ?W = "quiet ((sample_db WebhookFailed)\<lparr>hooks := [?h]\<rparr>)"
  obtain r W' where run: "run_state (Sweep sample_sweeper) ?W = (r, W')" by fastforce
  have "h_status ?h = WebhookFailed" by (simp add: sample_row_def)
  moreover have "sc_MaxAttempts (sw_cfg sample_sweeper) = 6" by (simp add: sample_sweeper_defs)
  ultimately have "?h \<in> set (hooks (w_db W'))"
    by (intro Sweep_keeps_dead_letters [OF _ _ _ _ _ run]) (simp_all add: ids_unique_def)
  then show ?thesis by (simp add: run)
qed

text \<open>
  A sweep is bounded. In every world a sweep attempts at most one batch of events and
  counts as recovered at most those it attempted.
\<close>

theorem Sweep_bounded:
  "0 \<le> sr_Recovered (fst (run_state (Sweep (NewWebhookSweeper S c)) W)) \<and>
   sr_Recovered (fst (run_state (Sweep (NewWebhookSweeper S c)) W))
     \<le> sr_Retried (fst (run_state (Sweep (NewWebhookSweeper S c)) W)) \<and>
   sr_Retried (fst (run_state (Sweep (NewWebhookSweeper S c)) W))
     \<le> sc_BatchSize (sw_cfg (NewWebhookSweeper S c))"
proof -
  let ?s = "NewWebhookSweeper S c"
  have b: "0 < sc_BatchSize (sw_cfg ?s)" by (simp add: sample_sweeper_defs)
  have "yields (counted (0, 0) (sc_BatchSize (sw_cfg ?s))) (retryFailed ?s)"
    unfolding retryFailed_def
  proof (rule yields_bind_if [OF list_length])
    fix r :: "ProcessedWebhook list result"
    assume r: "\<forall>evs. r = Inr evs \<longrightarrow> length evs \<le> nat (rq_Limit (retry_query (sw_cfg ?s)))"
    show "yields (counted (0, 0) (sc_BatchSize (sw_cfg ?s)))
      (case r of
        Inl e \<Rightarrow> do { log_line Error ''could not list retryable events''; State_Monad.return (0, 0) }
      | Inr events \<Rightarrow> retry_loop ?s events (0, 0))"
    proof (cases r)
      case (Inr evs)
      then have "int (length evs) \<le> sc_BatchSize (sw_cfg ?s)"
        using r b by (simp add: retry_query_def le_nat_iff)
      then show ?thesis unfolding Inr sum.case
        by (intro yields_mono [OF retry_loop_counts]) (auto simp: counted_def)
    qed (use b in \<open>auto intro: yields_bind simp: counted_def\<close>)
  qed
  then have "yields (\<lambda>r. counted (0, 0) (sc_BatchSize (sw_cfg ?s)) (sr_Retried r, sr_Recovered r)) (Sweep ?s)"
    unfolding Sweep_def by (intro yields_bind yields_bind_if [of _ "retryFailed ?s"]) simp_all
  from yieldsD [OF this, of W] show ?thesis by (metis counted_def diff_zero fst_conv add_0 snd_conv prod.collapse)
qed

text \<open>
  The level is the alert. In a quiet world the report's last line is at debug level when
  no event is in flight or failed, at error level when an event is dead-lettered or the oldest
  open one is older than the configured age, and at info level otherwise; and the health check
  fails, with ErrDeadLettered, exactly when an event is dead-lettered.
\<close>

theorem report_is_the_alert:
  assumes "w_plan W = []" "run_state (sweep_report s) W = (st, W')"
    and "run_state (HealthCheck s) W = ((st2, err), W2)"
  shows "fst (last (w_logs W')) =
    (if \<forall>h \<in> set (hooks (w_db W)). h_status h \<noteq> WebhookProcessing \<and> h_status h \<noteq> WebhookFailed then Debug
     else if (\<exists>h \<in> set (hooks (w_db W)). h_status h = WebhookFailed \<and> sc_MaxAttempts (sw_cfg s) \<le> h_attempts h) \<or>
             (\<exists>h \<in> set (hooks (w_db W)). (h_status h = WebhookProcessing \<or> h_status h = WebhookFailed) \<and>
                sc_AlertAfter (sw_cfg s) < clock (w_db W) - h_updated_at h) then Error
     else Info) \<and>
    (err \<noteq> None \<longleftrightarrow> (\<exists>h \<in> set (hooks (w_db W)). h_status h = WebhookFailed \<and>
                      sc_MaxAttempts (sw_cfg s) \<le> h_attempts h)) \<and>
    (\<forall>e. err = Some e \<longrightarrow> err_is e ErrDeadLettered)"
proof -
  let ?st = "ledger_stats (sc_MaxAttempts (sw_cfg s)) (w_db W)"
  have dead: "0 < ls_DeadLettered ?st \<longleftrightarrow>
      (\<exists>h \<in> set (hooks (w_db W)). h_status h = WebhookFailed \<and> sc_MaxAttempts (sw_cfg s) \<le> h_attempts h)"
    unfolding ledger_stats_def LedgerStats.simps count_pos ..
  have "fst (last (w_logs W')) =
    (if LedgerStats_Unsettled ?st = 0 then Debug
     else if 0 < ls_DeadLettered ?st \<or> (case ls_OldestUnsettled ?st of None \<Rightarrow> False
               | Some t \<Rightarrow> sc_AlertAfter (sw_cfg s) < clock (w_db W) - t) then Error
     else Info)"
    using assms(1,2)
    by (auto simp: sweep_report_def WebhookRepo_LedgerStats_def CountInDunning_def query_row_def run_stmt_quiet
        split: if_splits)
  moreover have "err = (if 0 < ls_DeadLettered ?st then Some (Wrap [] (Sentinel ErrDeadLettered)
      ('': '' @ format_int (ls_DeadLettered ?st) @ '' event(s)'')) else None)"
    using assms(1,3) by (auto simp: HealthCheck_def WebhookRepo_LedgerStats_def run_stmt_quiet split: if_splits)
  ultimately show ?thesis unfolding unsettled_zero oldest_age dead by (auto simp: unsettled_def)
qed

theorem report_is_the_alert_witness:
  "fst (last (w_logs (snd (run_state (sweep_report sample_sweeper) (quiet (sample_db WebhookFailed)))))) = Info"
proof -
  obtain st W' where 1: "run_state (sweep_report sample_sweeper) (quiet (sample_db WebhookFailed)) = (st, W')"
    by fastforce
  obtain st2 err W2 where "run_state (HealthCheck sample_sweeper) (quiet (sample_db WebhookFailed)) = ((st2, err), W2)"
    by (metis prod.collapse)
  from report_is_the_alert [OF _ 1 this] 1 show ?thesis
    by (simp add: sample_sweeper_defs sample_defs unix_def)
qed

end
