(* ===== verification/Retention.thy ===== *)
theory Retention
  imports Sweeper
begin

text \<open>
  internal/worker/retention.go. One pass purges the payloads past their window, batch by batch,
  deletes the refresh tokens past their grace, and reports. The two loops run for as long as
  the batches come back full, so they take fuel and return \<open>None\<close> when it runs out; enough
  fuel exists in every world, and in a quiet one the number of rows is enough.
\<close>

section \<open>Configuration\<close>

record RetentionConfig =
  rc_Interval :: duration
  rc_SettledAfter :: duration
  rc_UnsettledAfter :: duration
  rc_BatchSize :: int
  rc_RefreshTokenGrace :: duration

definition defaultRetentionInterval :: duration where "defaultRetentionInterval = 6 * hour"
definition defaultSettledAfter :: duration where "defaultSettledAfter = 30 * 24 * hour"
definition defaultUnsettledAfter :: duration where "defaultUnsettledAfter = 90 * 24 * hour"
definition defaultRetentionBatch :: int where "defaultRetentionBatch = 500"
definition defaultRefreshTokenGrace :: duration where "defaultRefreshTokenGrace = 7 * 24 * hour"

definition RetentionConfig_withDefaults :: "RetentionConfig \<Rightarrow> RetentionConfig" where
  "RetentionConfig_withDefaults c =
     \<lparr>rc_Interval = or_default (rc_Interval c) defaultRetentionInterval,
      rc_SettledAfter = or_default (rc_SettledAfter c) defaultSettledAfter,
      rc_UnsettledAfter = or_default (rc_UnsettledAfter c) defaultUnsettledAfter,
      rc_BatchSize = or_default (rc_BatchSize c) defaultRetentionBatch,
      rc_RefreshTokenGrace = or_default (rc_RefreshTokenGrace c) defaultRefreshTokenGrace\<rparr>"

definition RetentionConfig_query :: "RetentionConfig \<Rightarrow> int \<Rightarrow> PurgeQuery" where
  "RetentionConfig_query c limit =
     \<lparr>pq_SettledAfter = rc_SettledAfter c, pq_UnsettledAfter = rc_UnsettledAfter c, pq_Limit = limit\<rparr>"

text \<open>The worker: its configuration, and whether the token repository and the metrics are set.\<close>

record RetentionWorker =
  rw_cfg :: RetentionConfig
  rw_tokens :: bool
  rw_metrics :: bool

definition NewRetentionWorker :: "bool \<Rightarrow> RetentionConfig \<Rightarrow> RetentionWorker" where
  "NewRetentionWorker withTokens c =
     \<lparr>rw_cfg = RetentionConfig_withDefaults c, rw_tokens = withTokens, rw_metrics = False\<rparr>"

definition RetentionWorker_WithMetrics :: "bool \<Rightarrow> RetentionWorker \<Rightarrow> RetentionWorker" where
  "RetentionWorker_WithMetrics m w = w\<lparr>rw_metrics := m\<rparr>"

section \<open>One pass\<close>

fun purge_loop :: "RetentionWorker \<Rightarrow> nat \<Rightarrow> PurgeResult \<Rightarrow> PurgeResult option prog" where
  "purge_loop w 0 tot = State_Monad.return None"
| "purge_loop w (Suc n) tot = do {
     stop \<leftarrow> ctx_err;
     (if stop then State_Monad.return (Some tot)
      else do {
        r \<leftarrow> PurgePayloads (RetentionConfig_query (rw_cfg w) (rc_BatchSize (rw_cfg w)));
        (case r of
           Inl e \<Rightarrow> do { log_line Error ''payload purge failed''; State_Monad.return (Some tot) }
         | Inr batch \<Rightarrow>
             (let tot' = \<lparr>pr_Settled = pr_Settled tot + pr_Settled batch,
                            pr_Unsettled = pr_Unsettled tot + pr_Unsettled batch\<rparr>
              in if PurgeResult_Total batch < rc_BatchSize (rw_cfg w)
                 then State_Monad.return (Some tot') else purge_loop w n tot')) }) }"

text \<open>The loop of the pruning; \<open>Some None\<close> is the early return, which logs nothing more.\<close>

fun prune_loop :: "RetentionWorker \<Rightarrow> nat \<Rightarrow> int \<Rightarrow> int option option prog" where
  "prune_loop w 0 tot = State_Monad.return None"
| "prune_loop w (Suc n) tot = do {
     stop \<leftarrow> ctx_err;
     (if stop then State_Monad.return (Some None)
      else do {
        r \<leftarrow> DeleteExpiredRefreshTokens (rc_RefreshTokenGrace (rw_cfg w)) (rc_BatchSize (rw_cfg w));
        (case r of
           Inl e \<Rightarrow> do { log_line Error ''could not prune expired refresh tokens'';
                        State_Monad.return (Some None) }
         | Inr deleted \<Rightarrow>
             if deleted < rc_BatchSize (rw_cfg w) then State_Monad.return (Some (Some (tot + deleted)))
             else prune_loop w n (tot + deleted)) }) }"

definition pruneRefreshTokens :: "RetentionWorker \<Rightarrow> nat \<Rightarrow> unit option prog" where
  "pruneRefreshTokens w fuel =
     (if \<not> rw_tokens w then State_Monad.return (Some ())
      else do {
        r \<leftarrow> prune_loop w fuel 0;
        (case r of
           None \<Rightarrow> State_Monad.return None
         | Some None \<Rightarrow> State_Monad.return (Some ())
         | Some (Some tot) \<Rightarrow> do {
             (if 0 < tot then log_line Info ''expired refresh tokens pruned'' else State_Monad.return ());
             State_Monad.return (Some ()) }) })"

definition retention_report :: "RetentionWorker \<Rightarrow> unit prog" where
  "retention_report w = do {
     r \<leftarrow> WebhookRepo_RetentionStats (RetentionConfig_query (rw_cfg w) 0);
     (case r of
        Inl e \<Rightarrow> log_line Error ''could not read retention stats''
      | Inr st \<Rightarrow> do {
          observe (rw_metrics w) (SetPayloadsPastWindow (rs_DueNow st));
          (if 0 < rs_DueNow st then log_line Warn ''webhook payloads remain past their retention window''
           else log_line Debug ''webhook payload retention is current'') }) }"

definition RunOnce :: "RetentionWorker \<Rightarrow> nat \<Rightarrow> PurgeResult option prog" where
  "RunOnce w fuel = do {
     r \<leftarrow> purge_loop w fuel \<lparr>pr_Settled = 0, pr_Unsettled = 0\<rparr>;
     (case r of
        None \<Rightarrow> State_Monad.return None
      | Some tot \<Rightarrow> do {
          (if 0 < PurgeResult_Total tot then log_line Info ''webhook payloads minimised''
           else State_Monad.return ());
          (if 0 < pr_Unsettled tot
           then log_line Warn (''purged payloads of unresolved events past the retention bound; '' @
                               ''these can no longer be replayed'')
           else State_Monad.return ());
          p \<leftarrow> pruneRefreshTokens w fuel;
          (case p of
             None \<Rightarrow> State_Monad.return None
           | Some _ \<Rightarrow> do { retention_report w; State_Monad.return (Some tot) }) }) }"

definition RetentionWorker_Stats :: "RetentionWorker \<Rightarrow> RetentionStats result prog" where
  "RetentionWorker_Stats w = WebhookRepo_RetentionStats (RetentionConfig_query (rw_cfg w) 0)"

text \<open>The jitter is drawn below a minute, so \<open>Run\<close> cannot panic.\<close>

definition RetentionWorker_Run :: "RetentionWorker \<Rightarrow> nat \<Rightarrow> choice list \<Rightarrow> run_end prog" where
  "RetentionWorker_Run w fuel cs = do {
     log_line Info ''payload retention started'';
     run_loop (RunOnce w fuel) ''payload retention stopped'' cs }"

section \<open>One batch\<close>

lemma scan_keyed:
  assumes "distinct (map k rows)" "r \<in> set rows"
  shows "k r \<in> k ` set (scan_limit key P l lim rows) \<longleftrightarrow> r \<in> set (scan_limit key P l lim rows)"
  using assms scan_limit_set [of _ key P l lim rows] by (auto simp: distinct_map inj_on_def)

lemma scan_keyed_length:
  assumes "distinct (map k rows)"
  shows "length (filter (\<lambda>r. k r \<in> k ` set (scan_limit key P l lim rows)) rows) = length (scan_limit key P l lim rows)"
proof -
  let ?s = "scan_limit key P l lim rows"
  have f: "filter (\<lambda>r. k r \<in> k ` set ?s) rows = filter (\<lambda>r. r \<in> set ?s) rows"
    using scan_keyed [OF assms] by (intro filter_cong) auto
  have "distinct (map k ?s)" using assms by (rule scan_limit_distinct)
  then have "distinct ?s" by (simp add: distinct_map)
  moreover have "distinct (filter (\<lambda>r. r \<in> set ?s) rows)"
    using assms by (simp add: distinct_map)
  moreover have "set (filter (\<lambda>r. r \<in> set ?s) rows) = set ?s" by (auto dest: scan_limit_set)
  ultimately show ?thesis unfolding f by (metis distinct_card)
qed

text \<open>A short scan has found everything.\<close>

lemma scan_short:
  assumes "int (length (scan_limit key P (\<lambda>_. False) lim rows)) < lim" "r \<in> set rows" "P r"
  shows "r \<in> set (scan_limit key P (\<lambda>_. False) lim rows)"
proof -
  have "length (take (nat lim) (filter P (sort_key key rows))) < nat lim"
    using assms(1) by (simp add: scan_limit_def zless_nat_eq_int_zless)
  then have "take (nat lim) (filter P (sort_key key rows)) = filter P (sort_key key rows)"
    by (simp add: min_def split: if_splits)
  then show ?thesis using assms(2,3) by (simp add: scan_limit_def)
qed

definition purged_row :: "db \<Rightarrow> hook_row \<Rightarrow> hook_row" where
  "purged_row d h = touch_hook d (to_purged (clock d) h)"

definition due_rows :: "PurgeQuery \<Rightarrow> db \<Rightarrow> hook_row list" where
  "due_rows q d = scan_limit h_received_at (purge_due q (clock d)) (\<lambda>_. False) (pq_Limit q) (hooks d)"

definition purge_rows :: "hook_row set \<Rightarrow> db \<Rightarrow> db" where
  "purge_rows H d = d\<lparr>hooks := map (\<lambda>h. if h \<in> H then purged_row d h else h) (hooks d)\<rparr>"

text \<open>What a pass should do, in one go.\<close>

definition purge_all :: "PurgeQuery \<Rightarrow> db \<Rightarrow> db" where
  "purge_all q d = purge_rows {h. purge_due q (clock d) h} d"

lemma purged_row_simps [simp]:
  "\<not> purge_due q now (purged_row d h)" "h_status (purged_row d h) = h_status h"
  by (simp_all add: purged_row_def to_purged_def touch_hook_def purge_due_def)

lemma purge_rows_clock [simp]: "clock (purge_rows H d) = clock d"
  by (simp add: purge_rows_def)

lemma hook_write_purged:
  assumes "passes hook_checks h" "purge_due q now h"
  shows "hook_write d (to_purged (clock d)) h = Inr (purged_row d h)"
proof -
  have "h_payload_purged_at (to_purged (clock d) h) \<noteq> h_payload_purged_at h"
    using assms(2) by (simp add: to_purged_def purge_due_def)
  then have "to_purged (clock d) h \<noteq> h" by metis
  then show ?thesis
    using passes_purged [OF assms(1)] by (simp add: hook_write_def write_row_ok purged_row_def)
qed

lemma due_rows_due: "h \<in> set (due_rows q d) \<Longrightarrow> h \<in> set (hooks d) \<and> purge_due q (clock d) h"
  unfolding due_rows_def by (drule scan_limit_set) simp

lemma purge_batch:
  assumes "hooks_wf d" "0 \<le> pq_Limit q"
  shows "purge_stmt q (quiet_step d) d =
    Inr (map h_status (filter (\<lambda>h. h \<in> set (due_rows q d)) (hooks d)), purge_rows (set (due_rows q d)) d)"
proof -
  let ?s = "due_rows q d"
  let ?P = "\<lambda>h. h_event_id h \<in> set (map h_event_id ?s)"
  have uniq: "distinct (map h_event_id (hooks d))" using assms(1) by (simp add: hooks_wf_def ids_unique_def)
  have P: "?P h \<longleftrightarrow> h \<in> set ?s" if "h \<in> set (hooks d)" for h
    using scan_keyed [OF uniq that] by (simp add: due_rows_def)
  have "sql_update ?P (hook_write d (to_purged (clock d))) (hooks d) =
      Inr (map (purged_row d) (filter ?P (hooks d)), map (\<lambda>h. if ?P h then purged_row d h else h) (hooks d))"
  proof (rule sql_update_total)
    fix h
    assume h: "h \<in> set (hooks d)" "?P h"
    then have "purge_due q (clock d) h" using P [OF h(1)] due_rows_due by blast
    with h(1) assms(1) show "hook_write d (to_purged (clock d)) h = Inr (purged_row d h)"
      by (intro hook_write_purged) (auto simp: hooks_wf_def)
  qed
  moreover have "filter ?P (hooks d) = filter (\<lambda>h. h \<in> set ?s) (hooks d)" using P by (rule filter_cong [OF refl])
  moreover have "map (\<lambda>h. if ?P h then purged_row d h else h) (hooks d) =
      map (\<lambda>h. if h \<in> set ?s then purged_row d h else h) (hooks d)" using P by simp
  moreover have "locked_by_others (quiet_step d) = (\<lambda>_. False)" by (simp add: locked_by_others_def [abs_def])
  ultimately show ?thesis
    using assms(2)
    by (simp add: purge_stmt_def hook_update_def purge_rows_def due_rows_def [symmetric] comp_def)
qed

lemma purge_rows_again:
  assumes "H \<subseteq> {h. purge_due q (clock d) h}"
  shows "purge_all q (purge_rows H d) = purge_all q d"
proof -
  have "purged_row (d\<lparr>hooks := hs\<rparr>) = purged_row d" for hs
    by (simp add: fun_eq_iff purged_row_def touch_hook_def)
  moreover have "(if purge_due q (clock d) (if h \<in> H then purged_row d h else h)
      then purged_row d (if h \<in> H then purged_row d h else h) else (if h \<in> H then purged_row d h else h)) =
    (if purge_due q (clock d) h then purged_row d h else h)" for h
    using assms by auto
  ultimately show ?thesis by (simp add: purge_all_def purge_rows_def comp_def cong: if_cong)
qed

lemma purge_tally_counts:
  "purge_tally sts = \<lparr>pr_Settled = count (\<lambda>st. st \<noteq> WebhookFailed) sts,
                      pr_Unsettled = count (\<lambda>st. st = WebhookFailed) sts\<rparr>"
proof -
  have [simp]: "WebhookStatus_text st = ''failed'' \<longleftrightarrow> st = WebhookFailed" for st
    by (cases st) simp_all
  have "foldl (\<lambda>r st. if st = WebhookFailed then r\<lparr>pr_Unsettled := pr_Unsettled r + 1\<rparr>
        else r\<lparr>pr_Settled := pr_Settled r + 1\<rparr>) \<lparr>pr_Settled = a, pr_Unsettled = b\<rparr> sts =
      \<lparr>pr_Settled = a + count (\<lambda>st. st \<noteq> WebhookFailed) sts,
       pr_Unsettled = b + count (\<lambda>st. st = WebhookFailed) sts\<rparr>" for a b
    by (induction sts arbitrary: a b) (auto simp: count_def)
  from this [of 0 0] show ?thesis by (simp add: purge_tally_def)
qed

text \<open>The due rows of a batch and those that remain are the due rows before.\<close>

lemma count_purge_rows:
  assumes "\<And>h. Q h \<Longrightarrow> purge_due q (clock d) h" "H \<subseteq> {h. purge_due q (clock d) h}"
  shows "count Q (hooks d) = count Q (filter (\<lambda>h. h \<in> H) (hooks d)) + count Q (hooks (purge_rows H d))"
proof -
  have "\<not> Q (purged_row d h)" for h using assms(1) [of "purged_row d h"] by auto
  then have "count Q hs = count Q (filter (\<lambda>h. h \<in> H) hs) +
      count Q (map (\<lambda>h. if h \<in> H then purged_row d h else h) hs)" for hs
    by (induction hs) (simp_all add: count_def)
  from this [of "hooks d"] show ?thesis by (simp add: purge_rows_def)
qed

section \<open>The loop drains the queue\<close>

definition due_counts :: "PurgeQuery \<Rightarrow> db \<Rightarrow> PurgeResult" where
  "due_counts q d =
     \<lparr>pr_Settled = count (\<lambda>h. purge_due q (clock d) h \<and> h_status h \<noteq> WebhookFailed) (hooks d),
      pr_Unsettled = count (\<lambda>h. purge_due q (clock d) h \<and> h_status h = WebhookFailed) (hooks d)\<rparr>"

definition add_counts :: "PurgeResult \<Rightarrow> PurgeResult \<Rightarrow> PurgeResult" where
  "add_counts a b = \<lparr>pr_Settled = pr_Settled a + pr_Settled b, pr_Unsettled = pr_Unsettled a + pr_Unsettled b\<rparr>"

lemma count_map: "count P (map f xs) = count (\<lambda>x. P (f x)) xs"
  by (simp add: count_def filter_map comp_def)

lemma count_cong: "(\<And>x. x \<in> set xs \<Longrightarrow> P x = Q x) \<Longrightarrow> count P xs = count Q xs"
  unfolding count_def by (metis filter_cong)

lemma batch_counts:
  fixes d q
  defines "H \<equiv> set (due_rows q d)"
  shows "due_counts q d = add_counts (purge_tally (map h_status (filter (\<lambda>h. h \<in> H) (hooks d))))
                            (due_counts q (purge_rows H d))"
proof -
  have H: "H \<subseteq> {h. purge_due q (clock d) h}" using due_rows_due by (auto simp: H_def)
  have "count (\<lambda>h. purge_due q (clock d) h \<and> S h) (filter (\<lambda>h. h \<in> H) (hooks d)) =
      count S (filter (\<lambda>h. h \<in> H) (hooks d))" for S
    using H by (intro count_cong) auto
  note 1 = count_purge_rows [OF _ H, of "\<lambda>h. purge_due q (clock d) h \<and> S h" for S, unfolded this]
  show ?thesis
    by (simp add: due_counts_def add_counts_def purge_tally_counts count_map
        1 [of "\<lambda>h. h_status h \<noteq> WebhookFailed"] 1 [of "\<lambda>h. h_status h = WebhookFailed"])
qed

lemma batch_total:
  assumes "hooks_wf d"
  shows "PurgeResult_Total (purge_tally (map h_status (filter (\<lambda>h. h \<in> set (due_rows q d)) (hooks d)))) =
    int (length (due_rows q d))"
proof -
  have uniq: "distinct (map h_event_id (hooks d))" using assms by (simp add: hooks_wf_def ids_unique_def)
  have "count (\<lambda>st. st \<noteq> WebhookFailed) sts + count (\<lambda>st. st = WebhookFailed) sts = int (length sts)" for sts
    by (induction sts) (auto simp: count_def)
  moreover have "filter (\<lambda>h. h \<in> set (due_rows q d)) (hooks d) =
      filter (\<lambda>h. h_event_id h \<in> h_event_id ` set (due_rows q d)) (hooks d)"
    using scan_keyed [OF uniq] by (intro filter_cong) (simp_all add: due_rows_def)
  ultimately show ?thesis
    using scan_keyed_length [OF uniq]
    by (simp add: PurgeResult_Total_def purge_tally_counts due_rows_def)
qed

lemma purge_rows_cong:
  assumes "\<And>h. h \<in> set (hooks d) \<Longrightarrow> h \<in> H \<longleftrightarrow> h \<in> K"
  shows "purge_rows H d = purge_rows K d"
proof -
  have "map (\<lambda>h. if h \<in> H then purged_row d h else h) (hooks d) =
      map (\<lambda>h. if h \<in> K then purged_row d h else h) (hooks d)" using assms by (intro map_cong) auto
  then show ?thesis by (simp add: purge_rows_def)
qed

lemma PurgePayloads_run:
  assumes "w_plan W = []" "hooks_wf (w_db W)" "0 \<le> pq_Limit q"
  shows "run_state (PurgePayloads q) W =
      (Inr (purge_tally (map h_status (filter (\<lambda>h. h \<in> set (due_rows q (w_db W))) (hooks (w_db W))))),
       W\<lparr>w_db := purge_rows (set (due_rows q (w_db W))) (w_db W)\<rparr>)"
    and "hooks_wf (purge_rows (set (due_rows q (w_db W))) (w_db W))"
  using purge_batch [OF assms(2,3)] assms(1) scan_update_wf [OF disjI2 assms(2)]
  by (simp_all add: PurgePayloads_def query_rows_quiet)

text \<open>A batch that is not full is the last one, and leaves nothing due.\<close>

lemma short_batch:
  assumes "int (length (due_rows q d)) < pq_Limit q"
  shows "purge_rows (set (due_rows q d)) d = purge_all q d"
    and "due_counts q (purge_rows (set (due_rows q d)) d) = \<lparr>pr_Settled = 0, pr_Unsettled = 0\<rparr>"
proof -
  have all: "h \<in> set (due_rows q d) \<longleftrightarrow> purge_due q (clock d) h" if "h \<in> set (hooks d)" for h
    using scan_short [OF _ that, where P = "purge_due q (clock d)"] assms due_rows_due [of h q d]
    by (auto simp: due_rows_def)
  then show "purge_rows (set (due_rows q d)) d = purge_all q d"
    unfolding purge_all_def by (intro purge_rows_cong) simp
  have "\<not> purge_due q (clock d) h" if "h \<in> set (hooks (purge_rows (set (due_rows q d)) d))" for h
    using that all by (auto simp: purge_rows_def split: if_splits)
  then show "due_counts q (purge_rows (set (due_rows q d)) d) = \<lparr>pr_Settled = 0, pr_Unsettled = 0\<rparr>"
    by (auto simp: due_counts_def count_def filter_empty_conv)
qed

lemma batch_progress:
  assumes "due_rows q d \<noteq> []"
  shows "length (filter (purge_due q (clock d)) (hooks (purge_rows (set (due_rows q d)) d)))
    < length (filter (purge_due q (clock d)) (hooks d))"
proof -
  let ?H = "set (due_rows q d)"
  have sub: "?H \<subseteq> {h. purge_due q (clock d) h}" using due_rows_due by auto
  have "int (length (filter (purge_due q (clock d)) (hooks d))) =
      count (purge_due q (clock d)) (filter (\<lambda>h. h \<in> ?H) (hooks d)) +
      int (length (filter (purge_due q (clock d)) (hooks (purge_rows ?H d))))"
    using count_purge_rows [OF _ sub, of "purge_due q (clock d)"] by (simp add: count_def)
  moreover have "0 < count (purge_due q (clock d)) (filter (\<lambda>h. h \<in> ?H) (hooks d))"
    using due_rows_due [of "hd (due_rows q d)"] hd_in_set [OF assms] by (auto simp: count_pos)
  ultimately show ?thesis by linarith
qed

lemma purge_loop_drains:
  assumes "w_plan W = []" "w_polls W = []" "hooks_wf (w_db W)"
    and "q = RetentionConfig_query (rw_cfg w) (rc_BatchSize (rw_cfg w))" "0 < rc_BatchSize (rw_cfg w)"
    and "length (filter (purge_due q (clock (w_db W))) (hooks (w_db W))) < n"
  shows "run_state (purge_loop w n tot) W =
    (Some (add_counts tot (due_counts q (w_db W))), W\<lparr>w_db := purge_all q (w_db W)\<rparr>)"
  using assms
proof (induction n arbitrary: W tot)
  case (Suc n)
  let ?d = "w_db W" let ?H = "set (due_rows q ?d)" let ?d1 = "purge_rows ?H ?d"
  let ?batch = "purge_tally (map h_status (filter (\<lambda>h. h \<in> ?H) (hooks ?d)))"
  have lim: "pq_Limit q = rc_BatchSize (rw_cfg w)" using Suc.prems(4) by (simp add: RetentionConfig_query_def)
  then have "0 \<le> pq_Limit q" using Suc.prems(5) by simp
  note run = PurgePayloads_run [OF Suc.prems(1,3) this]
  note tot = batch_total [OF Suc.prems(3), of q]
  show ?case
  proof (cases "PurgeResult_Total ?batch < rc_BatchSize (rw_cfg w)")
    case True
    note short = short_batch [of q ?d, unfolded lim, OF True [unfolded tot]]
    have "due_counts q ?d = ?batch" using batch_counts [of q ?d] short(2) by (simp add: add_counts_def)
    with short(1) Suc.prems(2,4) run True show ?thesis by (simp add: Let_def add_counts_def)
  next
    case False
    then have "due_rows q ?d \<noteq> []" using Suc.prems(5) by (auto simp: tot)
    from batch_progress [OF this] have
      "run_state (purge_loop w n (add_counts tot ?batch)) (W\<lparr>w_db := ?d1\<rparr>) =
        (Some (add_counts (add_counts tot ?batch) (due_counts q ?d1)), W\<lparr>w_db := purge_all q ?d1\<rparr>)"
      using Suc.IH [of "W\<lparr>w_db := ?d1\<rparr>" "add_counts tot ?batch"] Suc.prems run(2) by simp
    moreover have "purge_all q ?d1 = purge_all q ?d"
      using due_rows_due by (intro purge_rows_again) auto
    moreover have "add_counts (add_counts tot ?batch) (due_counts q ?d1) = add_counts tot (due_counts q ?d)"
      using batch_counts [of q ?d] by (simp add: add_counts_def)
    ultimately show ?thesis
      using Suc.prems(2,4) run False by (simp add: Let_def add_counts_def [symmetric])
  qed
qed simp

section \<open>The tokens past their grace\<close>

definition expired_at :: "duration \<Rightarrow> time \<Rightarrow> RefreshToken \<Rightarrow> bool" where
  "expired_at grace now t \<longleftrightarrow> t_ExpiresAt t < now - grace"

definition prune_all :: "duration \<Rightarrow> db \<Rightarrow> db" where
  "prune_all grace d = d\<lparr>tokens := filter (\<lambda>t. \<not> expired_at grace (clock d) t) (tokens d)\<rparr>"

definition prune_rows :: "duration \<Rightarrow> int \<Rightarrow> db \<Rightarrow> RefreshToken list" where
  "prune_rows grace limit d = scan_limit t_ExpiresAt (expired_at grace (clock d)) (\<lambda>_. False) limit (tokens d)"

lemma prune_rows_expired: "t \<in> set (prune_rows g l d) \<Longrightarrow> t \<in> set (tokens d) \<and> expired_at g (clock d) t"
  unfolding prune_rows_def by (drule scan_limit_set) simp

lemma DeleteExpired_run:
  assumes "w_plan W = []" "distinct (map t_ID (tokens (w_db W)))" "0 \<le> l"
  shows "run_state (DeleteExpiredRefreshTokens g l) W =
    (Inr (int (length (prune_rows g l (w_db W)))),
     W\<lparr>w_db := (w_db W)\<lparr>tokens := filter (\<lambda>t. t \<notin> set (prune_rows g l (w_db W))) (tokens (w_db W))\<rparr>\<rparr>)"
proof -
  let ?d = "w_db W" let ?s = "prune_rows g l ?d"
  have ids: "t_ID t \<in> t_ID ` set ?s \<longleftrightarrow> t \<in> set ?s" if "t \<in> set (tokens ?d)" for t
    unfolding prune_rows_def by (rule scan_keyed [OF assms(2) that])
  have "length (filter (\<lambda>t. t_ID t \<in> t_ID ` set ?s) (tokens ?d)) = length ?s"
    unfolding prune_rows_def by (rule scan_keyed_length [OF assms(2)])
  moreover have "filter (\<lambda>t. t_ID t \<notin> t_ID ` set ?s) (tokens ?d) = filter (\<lambda>t. t \<notin> set ?s) (tokens ?d)"
    using ids by (intro filter_cong) auto
  ultimately have "delete_expired_stmt g l (quiet_step ?d) ?d =
      Inr (int (length ?s), ?d\<lparr>tokens := filter (\<lambda>t. t \<notin> set ?s) (tokens ?d)\<rparr>)"
    using assms(3)
    by (simp add: delete_expired_stmt_def prune_rows_def expired_at_def [abs_def] Let_def)
  then show ?thesis
    using assms(1) by (simp add: DeleteExpiredRefreshTokens_def exec_count_def run_stmt_quiet)
qed

lemma filter_gone:
  assumes "set xs \<subseteq> {x \<in> set ys. P x}" "distinct xs" "distinct ys"
  shows "length (filter P ys) = length xs + length (filter P (filter (\<lambda>y. y \<notin> set xs) ys))"
proof -
  have "length (filter P ys) = card {y \<in> set ys. P y}"
    using assms(3) by (metis distinct_card distinct_filter set_filter)
  also have "{y \<in> set ys. P y} = set xs \<union> {y \<in> set ys. P y \<and> y \<notin> set xs}" using assms(1) by auto
  also have "card \<dots> = card (set xs) + card {y \<in> set ys. P y \<and> y \<notin> set xs}"
    by (intro card_Un_disjoint) auto
  also have "card {y \<in> set ys. P y \<and> y \<notin> set xs} = length (filter P (filter (\<lambda>y. y \<notin> set xs) ys))"
    using assms(3) by (subst distinct_card [symmetric]) (auto intro!: arg_cong [where f = card])
  finally show ?thesis using assms(2) by (simp add: distinct_card)
qed

lemma prune_loop_drains:
  assumes "w_plan W = []" "w_polls W = []" "distinct (map t_ID (tokens (w_db W)))" "0 < rc_BatchSize (rw_cfg w)"
    and "g = rc_RefreshTokenGrace (rw_cfg w)"
    and "length (filter (expired_at g (clock (w_db W))) (tokens (w_db W))) < n"
  shows "run_state (prune_loop w n tot) W =
    (Some (Some (tot + count (expired_at g (clock (w_db W))) (tokens (w_db W)))),
     W\<lparr>w_db := prune_all g (w_db W)\<rparr>)"
  using assms
proof (induction n arbitrary: W tot)
  case (Suc n)
  let ?d = "w_db W" let ?l = "rc_BatchSize (rw_cfg w)" let ?s = "prune_rows g ?l ?d"
  let ?d1 = "?d\<lparr>tokens := filter (\<lambda>t. t \<notin> set ?s) (tokens ?d)\<rparr>" let ?P = "expired_at g (clock ?d)"
  have "0 \<le> ?l" using Suc.prems(4) by simp
  note run = DeleteExpired_run [OF Suc.prems(1,3) this, of g]
  have dist: "distinct ?s" "distinct (tokens ?d)"
    using Suc.prems(3) scan_limit_distinct [OF Suc.prems(3)] by (simp_all add: distinct_map prune_rows_def)
  have len: "length (filter ?P (tokens ?d)) = length ?s + length (filter ?P (tokens ?d1))"
    using filter_gone [OF _ dist, of ?P] prune_rows_expired [of _ g ?l ?d] by auto
  have "filter (\<lambda>x. x \<notin> set ?s \<and> \<not> ?P x) (tokens ?d) = filter (\<lambda>t. \<not> ?P t) (tokens ?d)"
    using prune_rows_expired [of _ g ?l ?d] by (intro filter_cong) auto
  then have gone: "prune_all g ?d1 = prune_all g ?d" by (simp add: prune_all_def)
  show ?case
  proof (cases "int (length ?s) < ?l")
    case True
    have "t \<in> set ?s \<longleftrightarrow> ?P t" if "t \<in> set (tokens ?d)" for t
      using scan_short [OF _ that, where P = ?P] True prune_rows_expired [of t g ?l ?d] by (auto simp: prune_rows_def)
    then have none: "filter (\<lambda>t. t \<notin> set ?s) (tokens ?d) = filter (\<lambda>t. \<not> ?P t) (tokens ?d)"
      by (intro filter_cong) auto
    have "length (filter ?P (tokens ?d1)) = 0" unfolding none by (simp add: filter_empty_conv)
    with len have "count ?P (tokens ?d) = int (length ?s)" by (simp add: count_def)
    with run True none Suc.prems(2,5) show ?thesis by (simp add: prune_all_def)
  next
    case False
    then have "length (filter ?P (tokens ?d1)) < n" using len Suc.prems(4,6) by linarith
    moreover have "distinct (map t_ID (tokens ?d1))" using Suc.prems(3) by (simp add: distinct_map_filter)
    ultimately have "run_state (prune_loop w n (tot + int (length ?s))) (W\<lparr>w_db := ?d1\<rparr>) =
        (Some (Some (tot + int (length ?s) + count ?P (tokens ?d1))), W\<lparr>w_db := prune_all g ?d1\<rparr>)"
      using Suc.IH [of "W\<lparr>w_db := ?d1\<rparr>" "tot + int (length ?s)"] Suc.prems by simp
    moreover have "int (length ?s) + count ?P (tokens ?d1) = count ?P (tokens ?d)"
      using len by (simp add: count_def)
    ultimately show ?thesis using run False Suc.prems(2,5) gone by (simp add: add.assoc)
  qed
qed simp

section \<open>The loops end\<close>

lemma exec_plan: "run_state (exec b body) W = (r, W') \<Longrightarrow> w_plan W' = tl (w_plan W)"
  by (cases "w_plan W") (auto simp: exec_def next_step_def Let_def split: fault.splits sum.splits prod.splits)

lemma PurgePayloads_plan: "run_state (PurgePayloads q) W = (r, W') \<Longrightarrow> w_plan W' = tl (w_plan W)"
  by (auto simp: PurgePayloads_def query_rows_def dest: exec_plan split: prod.splits)

lemma Delete_plan: "run_state (DeleteExpiredRefreshTokens g l) W = (r, W') \<Longrightarrow> w_plan W' = tl (w_plan W)"
  by (auto simp: DeleteExpiredRefreshTokens_def exec_count_def run_stmt_def dest: exec_plan split: prod.splits)

lemma ctx_err_plan: "run_state ctx_err W = (b, W') \<Longrightarrow> w_plan W' = w_plan W \<and> w_db W' = w_db W"
  by (auto simp: ctx_err_def split: list.splits)

lemma filter_shrinks_strictly:
  assumes "list_all2 R rs rs'" "\<And>r r'. R r r' \<Longrightarrow> Q r' \<Longrightarrow> Q r"
    and "\<exists>r \<in> set rs. Q r \<and> (\<forall>r'. R r r' \<longrightarrow> \<not> Q r')"
  shows "length (filter Q rs') < length (filter Q rs)"
  using assms(1,3)
proof (induction rule: list_all2_induct)
  case (Cons r rs r' rs')
  have le: "length (filter Q rs') \<le> length (filter Q rs)" using Cons(2) assms(2) by (rule filter_shrinks)
  show ?case
  proof (cases "Q r \<and> \<not> Q r'")
    case True
    with le show ?thesis by simp
  next
    case False
    then have "Q r \<longleftrightarrow> Q r'" using assms(2) [OF Cons(1)] by blast
    moreover have "\<exists>r \<in> set rs. Q r \<and> (\<forall>r'. R r r' \<longrightarrow> \<not> Q r')" using Cons(1,4) False by auto
    ultimately show ?thesis using Cons(3) by simp
  qed
qed simp

text \<open>Even on a table without its constraints, a batch that wrote anything leaves fewer due rows.\<close>

lemma purge_progress:
  assumes "purge_stmt q s d = Inr (sts, d')" "sts \<noteq> []"
  shows "length (filter (purge_due q (clock d)) (hooks d')) < length (filter (purge_due q (clock d)) (hooks d))"
    and "clock d' = clock d"
proof -
  define ids where "ids = map h_event_id (scan_limit h_received_at (purge_due q (clock d)) (locked_by_others s)
      (pq_Limit q) (hooks d))"
  let ?P = "\<lambda>h. h_event_id h \<in> set ids" let ?f = "hook_write d (to_purged (clock d))"
  obtain hit all where u: "sql_update ?P ?f (hooks d) = Inr (hit, all)" and d': "d' = d\<lparr>hooks := all\<rparr>"
    and hit: "sts = map h_status hit"
    using assms(1)
    by (auto simp: purge_stmt_def hook_update_def Let_def ids_def split: if_splits sum.splits prod.splits)
  have "filter ?P (hooks d) \<noteq> []" using sql_update_hit [OF u] assms(2) hit by auto
  then obtain x where x: "x \<in> set (scan_limit h_received_at (purge_due q (clock d)) (locked_by_others s)
      (pq_Limit q) (hooks d))" by (auto simp: filter_empty_conv ids_def)
  have gone: "\<not> purge_due q (clock d) h'" if "?f h = Inr h'" for h h'
  proof -
    have "h' = to_purged (clock d) h \<or> h' = touch_hook d (to_purged (clock d) h)"
      using that unfolding hook_write_def write_row_ok by (metis (no_types, lifting))
    then have "h_payload_purged_at h' = Some (clock d)" by (auto simp: to_purged_def touch_hook_def)
    then show ?thesis by (simp add: purge_due_def)
  qed
  have "length (filter (purge_due q (clock d)) all) < length (filter (purge_due q (clock d)) (hooks d))"
  proof (rule filter_shrinks_strictly [OF sql_update_rel [OF u]])
    show "purge_due q (clock d) h" if "row_step ?P ?f h h'" "purge_due q (clock d) h'" for h h'
      using that gone by (auto simp: row_step_def split: if_splits)
    show "\<exists>r \<in> set (hooks d). purge_due q (clock d) r \<and> (\<forall>r'. row_step ?P ?f r r' \<longrightarrow> \<not> purge_due q (clock d) r')"
      using scan_limit_set [OF x] x gone by (intro bexI [of _ x]) (auto simp: row_step_def ids_def)
  qed
  then show "length (filter (purge_due q (clock d)) (hooks d')) < length (filter (purge_due q (clock d)) (hooks d))"
    and "clock d' = clock d" by (simp_all add: d')
qed

lemma purge_loop_more:
  "run_state (purge_loop w n tot) W = (Some r, W') \<Longrightarrow> n \<le> m \<Longrightarrow> run_state (purge_loop w m tot) W = (Some r, W')"
proof (induction n arbitrary: m tot W)
  case (Suc n)
  then obtain k where m: "m = Suc k" "n \<le> k" by (cases m) auto
  show ?case
    using Suc.prems(1) Suc.IH [OF _ m(2)]
    by (auto simp: m(1) Let_def split: prod.splits if_splits sum.splits)
qed simp

lemma prune_loop_more:
  "run_state (prune_loop w n tot) W = (Some r, W') \<Longrightarrow> n \<le> m \<Longrightarrow> run_state (prune_loop w m tot) W = (Some r, W')"
proof (induction n arbitrary: m tot W)
  case (Suc n)
  then obtain k where m: "m = Suc k" "n \<le> k" by (cases m) auto
  show ?case
    using Suc.prems(1) Suc.IH [OF _ m(2)]
    by (auto simp: m(1) split: prod.splits if_splits sum.splits)
qed simp

text \<open>One round of a loop either ends it or hands on to the next round.\<close>

lemma purge_loop_round:
  assumes "0 < rc_BatchSize (rw_cfg w)" "q = RetentionConfig_query (rw_cfg w) (rc_BatchSize (rw_cfg w))"
  obtains (stops) r W' where "\<And>n. run_state (purge_loop w (Suc n) tot) W = (Some r, W')"
    | (goes_on) tot' W' where "\<And>n. run_state (purge_loop w (Suc n) tot) W = run_state (purge_loop w n tot') W'"
        "w_plan W' = tl (w_plan W)"
        "w_plan W = [] \<Longrightarrow> \<exists>s sts. purge_stmt q s (w_db W) = Inr (sts, w_db W') \<and> sts \<noteq> []"
proof -
  obtain stop W1 where c: "run_state ctx_err W = (stop, W1)" by fastforce
  note 1 = ctx_err_plan [OF c]
  obtain r W2 where p: "run_state (PurgePayloads q) W1 = (r, W2)" by fastforce
  show thesis
  proof (cases "\<not> stop \<and> (\<exists>batch. r = Inr batch \<and> \<not> PurgeResult_Total batch < rc_BatchSize (rw_cfg w))")
    case False
    then have "\<exists>x W'. \<forall>n. run_state (purge_loop w (Suc n) tot) W = (Some x, W')"
      using c p assms(2) by (cases stop; cases r) (auto simp: Let_def)
    then show thesis using stops by blast
  next
    case True
    then obtain batch where b: "r = Inr batch" "\<not> PurgeResult_Total batch < rc_BatchSize (rw_cfg w)" by blast
    let ?tot = "\<lparr>pr_Settled = pr_Settled tot + pr_Settled batch, pr_Unsettled = pr_Unsettled tot + pr_Unsettled batch\<rparr>"
    have "run_state (purge_loop w (Suc n) tot) W = run_state (purge_loop w n ?tot) W2" for n
      using True c p b assms(2) by (simp add: Let_def)
    moreover have "w_plan W2 = tl (w_plan W)" using PurgePayloads_plan [OF p] 1 by simp
    moreover have "\<exists>s sts. purge_stmt q s (w_db W) = Inr (sts, w_db W2) \<and> sts \<noteq> []" if plan: "w_plan W = []"
    proof -
      obtain sts where "purge_stmt q (quiet_step (w_db W)) (w_db W) = Inr (sts, w_db W2)" "batch = purge_tally sts"
        using p b(1) 1 plan
        by (auto simp: PurgePayloads_def query_rows_quiet split: sum.splits prod.splits)
      moreover have "sts \<noteq> []" using b(2) assms(1) calculation(2)
        by (auto simp: purge_tally_def PurgeResult_Total_def)
      ultimately show ?thesis by blast
    qed
    ultimately show thesis by (rule goes_on)
  qed
qed

lemma purge_loop_ends_quiet:
  assumes "0 < rc_BatchSize (rw_cfg w)" "w_plan W = []"
    and "q = RetentionConfig_query (rw_cfg w) (rc_BatchSize (rw_cfg w))"
  shows "\<exists>n r W'. run_state (purge_loop w n tot) W = (Some r, W')"
  using assms(2)
proof (induction "length (filter (purge_due q (clock (w_db W))) (hooks (w_db W)))" arbitrary: W tot rule: less_induct)
  case less
  show ?case
  proof (cases rule: purge_loop_round [OF assms(1,3), of tot W, case_names stops goes_on])
    case (goes_on tot' W')
    then obtain s sts where p: "purge_stmt q s (w_db W) = Inr (sts, w_db W')" "sts \<noteq> []" using less.prems by blast
    have "w_plan W' = []" using goes_on(2) less.prems by simp
    with less.hyps [of W' tot'] purge_progress [OF p] goes_on(1) show ?thesis by metis
  qed blast
qed

lemma purge_loop_ends:
  assumes "0 < rc_BatchSize (rw_cfg w)"
  shows "\<exists>n r W'. run_state (purge_loop w n tot) W = (Some r, W')"
proof (induction "length (w_plan W)" arbitrary: W tot)
  case 0
  then show ?case using purge_loop_ends_quiet [OF assms] by simp
next
  case (Suc k)
  show ?case
  proof (cases rule: purge_loop_round [OF assms refl, of tot W, case_names stops goes_on])
    case (goes_on tot' W')
    then have "k = length (w_plan W')" using Suc(2) by simp
    with Suc(1) [of W' tot'] goes_on(1) show ?thesis by metis
  qed blast
qed

text \<open>The same for the pruning, whose table shrinks.\<close>

lemma prune_loop_round:
  assumes "0 < rc_BatchSize (rw_cfg w)"
  obtains (stops) r W' where "\<And>n. run_state (prune_loop w (Suc n) tot) W = (Some r, W')"
    | (goes_on) tot' W' where "\<And>n. run_state (prune_loop w (Suc n) tot) W = run_state (prune_loop w n tot') W'"
        "w_plan W' = tl (w_plan W)"
        "w_plan W = [] \<Longrightarrow> length (tokens (w_db W')) < length (tokens (w_db W))"
proof -
  let ?del = "DeleteExpiredRefreshTokens (rc_RefreshTokenGrace (rw_cfg w)) (rc_BatchSize (rw_cfg w))"
  obtain stop W1 where c: "run_state ctx_err W = (stop, W1)" by fastforce
  note 1 = ctx_err_plan [OF c]
  obtain r W2 where p: "run_state ?del W1 = (r, W2)" by fastforce
  show thesis
  proof (cases "\<not> stop \<and> (\<exists>k. r = Inr k \<and> \<not> k < rc_BatchSize (rw_cfg w))")
    case False
    then have "\<exists>x W'. \<forall>n. run_state (prune_loop w (Suc n) tot) W = (Some x, W')"
      using c p by (cases stop; cases r) auto
    then show thesis using stops by blast
  next
    case True
    then obtain k where k: "r = Inr k" "\<not> k < rc_BatchSize (rw_cfg w)" by blast
    have "run_state (prune_loop w (Suc n) tot) W = run_state (prune_loop w n (tot + k)) W2" for n
      using True c p k by simp
    moreover have "w_plan W2 = tl (w_plan W)" using Delete_plan [OF p] 1 by simp
    moreover have "length (tokens (w_db W2)) < length (tokens (w_db W))" if plan: "w_plan W = []"
    proof -
      obtain ids where "k = int (length (filter (\<lambda>t. t_ID t \<in> ids) (tokens (w_db W))))"
        "tokens (w_db W2) = filter (\<lambda>t. t_ID t \<notin> ids) (tokens (w_db W))"
        using p k(1) 1 plan
        by (auto simp: DeleteExpiredRefreshTokens_def exec_count_def run_stmt_quiet delete_expired_stmt_def Let_def
            split: sum.splits prod.splits if_splits)
      moreover have "length ts = length (filter P ts) + length (filter (\<lambda>t. \<not> P t) ts)" for P and ts :: "RefreshToken list"
        by (rule sum_length_filter_compl [symmetric])
      ultimately show ?thesis using k(2) assms by (metis less_add_same_cancel2 of_nat_0_less_iff not_less order_less_le_trans)
    qed
    ultimately show thesis by (rule goes_on)
  qed
qed

lemma prune_loop_ends_quiet:
  assumes "0 < rc_BatchSize (rw_cfg w)" "w_plan W = []"
  shows "\<exists>n r W'. run_state (prune_loop w n tot) W = (Some r, W')"
  using assms(2)
proof (induction "length (tokens (w_db W))" arbitrary: W tot rule: less_induct)
  case less
  show ?case
  proof (cases rule: prune_loop_round [OF assms(1), of tot W, case_names stops goes_on])
    case (goes_on tot' W')
    with less.prems have "w_plan W' = []" "length (tokens (w_db W')) < length (tokens (w_db W))" by simp_all
    with less.hyps [of W' tot'] goes_on(1) show ?thesis by metis
  qed blast
qed

lemma prune_loop_ends:
  assumes "0 < rc_BatchSize (rw_cfg w)"
  shows "\<exists>n r W'. run_state (prune_loop w n tot) W = (Some r, W')"
proof (induction "length (w_plan W)" arbitrary: W tot)
  case 0
  then show ?case using prune_loop_ends_quiet [OF assms] by simp
next
  case (Suc k)
  show ?case
  proof (cases rule: prune_loop_round [OF assms, of tot W, case_names stops goes_on])
    case (goes_on tot' W')
    then have "k = length (w_plan W')" using Suc(2) by simp
    with Suc(1) [of W' tot'] goes_on(1) show ?thesis by metis
  qed blast
qed

section \<open>What a pass keeps\<close>

locale retention_relation = hook_relation R + token_writes R
  for R :: "db \<Rightarrow> db \<Rightarrow> bool"
begin

lemma keeps_purge_loop: "keeps R (purge_loop w n tot)"
  by (induction n arbitrary: tot)
     (simp_all only: purge_loop.simps Let_def,
      (intro keeps_if keeps_return keeps_bind keeps_case_sum keeps_effects keeps_ctx_err keeps_Purge; assumption?)+)

lemma keeps_prune_loop: "keeps R (prune_loop w n tot)"
  by (induction n arbitrary: tot)
     (simp_all only: prune_loop.simps,
      (intro keeps_if keeps_return keeps_bind keeps_case_sum keeps_effects keeps_ctx_err keeps_token_ops; assumption?)+)

lemma keeps_RunOnce: "keeps R (RunOnce w n)"
  unfolding RunOnce_def pruneRefreshTokens_def retention_report_def
  by (intro keeps_if keeps_return keeps_bind keeps_case_sum keeps_case_option keeps_effects keeps_Stats
      keeps_purge_loop keeps_prune_loop)

end

interpretation ledger_tokens: token_relation ledger_sound
  by unfold_locales (simp add: ledger_sound_same)

interpretation sound_retention: retention_relation ledger_sound
  by unfold_locales

section \<open>Properties\<close>

lemma NewRetentionWorker_batch: "0 < rc_BatchSize (rw_cfg (NewRetentionWorker b c))"
  by (simp add: NewRetentionWorker_def RetentionConfig_withDefaults_def or_default_def defaultRetentionBatch_def)

text \<open>
  C18 (a pass ends). In every world, whatever the other workers and the network do, the two
  loops of a retention pass end: enough fuel makes it return.
\<close>

theorem RunOnce_terminates:
  "\<exists>fuel tot W'. run_state (RunOnce (NewRetentionWorker b c) fuel) W = (Some tot, W')"
proof -
  let ?w = "NewRetentionWorker b c" let ?z = "\<lparr>pr_Settled = 0, pr_Unsettled = 0\<rparr>"
  obtain n tot W1 where purge: "run_state (purge_loop ?w n ?z) W = (Some tot, W1)"
    using purge_loop_ends [OF NewRetentionWorker_batch, of b c ?z W] by blast
  define W2 where "W2 = snd (run_state (do {
      (if 0 < PurgeResult_Total tot then log_line Info ''webhook payloads minimised''
       else State_Monad.return ());
      (if 0 < pr_Unsettled tot
       then log_line Warn (''purged payloads of unresolved events past the retention bound; '' @
                           ''these can no longer be replayed'')
       else State_Monad.return ()) }) W1)"
  obtain m r W3 where prune: "run_state (prune_loop ?w m 0) W2 = (Some r, W3)"
    using prune_loop_ends [OF NewRetentionWorker_batch, of b c 0 W2] by blast
  have "run_state (purge_loop ?w (max n m) ?z) W = (Some tot, W1)" by (rule purge_loop_more [OF purge]) simp
  moreover have "run_state (prune_loop ?w (max n m) 0) W2 = (Some r, W3)" by (rule prune_loop_more [OF prune]) simp
  ultimately have "\<exists>W'. run_state (RunOnce ?w (max n m)) W = (Some tot, W')"
    by (cases "rw_tokens ?w"; cases r) (simp_all add: RunOnce_def pruneRefreshTokens_def W2_def case_prod_beta)
  then show ?thesis by blast
qed

lemma pruneRefreshTokens_run:
  assumes "w_plan W = []" "w_polls W = []" "distinct (map t_ID (tokens (w_db W)))" "0 < rc_BatchSize (rw_cfg w)"
    and "length (filter (expired_at (rc_RefreshTokenGrace (rw_cfg w)) (clock (w_db W))) (tokens (w_db W))) < n"
  shows "\<exists>W'. run_state (pruneRefreshTokens w n) W = (Some (), W') \<and> w_plan W' = [] \<and>
    w_db W' = (if rw_tokens w then prune_all (rc_RefreshTokenGrace (rw_cfg w)) (w_db W) else w_db W)"
  using prune_loop_drains [OF assms(1-4) refl assms(5), of 0] assms(1) by (simp add: pruneRefreshTokens_def)

lemma retention_report_run:
  assumes "w_plan W = []" "rs_DueNow (retention_stats (RetentionConfig_query (rw_cfg w) 0) (w_db W)) = 0"
  shows "\<exists>W'. run_state (retention_report w) W = ((), W') \<and> w_db W' = w_db W \<and>
    last (w_logs W') = (Debug, ''webhook payload retention is current'')"
  using assms by (simp add: retention_report_def WebhookRepo_RetentionStats_def run_stmt_quiet)

lemma RunOnce_run:
  assumes "run_state (purge_loop w n \<lparr>pr_Settled = 0, pr_Unsettled = 0\<rparr>) W = (Some tot, W\<lparr>w_db := d1\<rparr>)"
    and "\<And>W1. w_db W1 = d1 \<Longrightarrow> w_plan W1 = [] \<Longrightarrow> w_polls W1 = [] \<Longrightarrow>
      \<exists>W2. run_state (pruneRefreshTokens w n) W1 = (Some (), W2) \<and> w_db W2 = d2 \<and> w_plan W2 = []"
    and "w_plan W = []" "w_polls W = []" "run_state (RunOnce w n) W = (r, W')"
    and "rs_DueNow (retention_stats (RetentionConfig_query (rw_cfg w) 0) d2) = 0"
  shows "r = Some tot \<and> w_db W' = d2 \<and> last (w_logs W') = (Debug, ''webhook payload retention is current'')"
proof -
  define W1 where "W1 = snd (run_state (do {
      (if 0 < PurgeResult_Total tot then log_line Info ''webhook payloads minimised''
       else State_Monad.return ());
      (if 0 < pr_Unsettled tot
       then log_line Warn (''purged payloads of unresolved events past the retention bound; '' @
                           ''these can no longer be replayed'')
       else State_Monad.return ()) }) (W\<lparr>w_db := d1\<rparr>))"
  have W1: "w_db W1 = d1" "w_plan W1 = []" "w_polls W1 = []" using assms(3,4) by (simp_all add: W1_def)
  obtain W2 where 2: "run_state (pruneRefreshTokens w n) W1 = (Some (), W2)" "w_db W2 = d2" "w_plan W2 = []"
    using assms(2) [OF W1] by blast
  have "run_state (RunOnce w n) W = run_state (do { retention_report w; State_Monad.return (Some tot) }) W2"
    using assms(1) 2(1) by (simp add: RunOnce_def W1_def case_prod_beta)
  with retention_report_run [of W2 w] 2 assms(5,6) show ?thesis by auto
qed

text \<open>
  C14 (a pass enforces the retention policy). In a quiet world, with fuel beyond the number of
  rows, a pass does in batches what the policy says in one sentence: every settled payload past
  its window and every failed one past the outer bound is replaced by its skeleton and stamped,
  every other row, in flight ones included, stays as it is; every refresh token past its grace
  is gone and no other is; the result counts the purged rows; and the report finds nothing due.
\<close>

theorem RunOnce_enforces_policy:
  fixes b c W
  defines "w \<equiv> NewRetentionWorker b c"
    and "q \<equiv> RetentionConfig_query (rw_cfg (NewRetentionWorker b c)) (rc_BatchSize (rw_cfg (NewRetentionWorker b c)))"
    and "now \<equiv> clock (w_db W)"
  assumes "w_plan W = []" "w_polls W = []" "hooks_wf (w_db W)" "distinct (map t_ID (tokens (w_db W)))"
    and "length (hooks (w_db W)) < fuel" "length (tokens (w_db W)) < fuel"
    and "run_state (RunOnce w fuel) W = (r, W')"
  shows "hooks (w_db W') =
      map (\<lambda>h. if purge_due q now h
               then h\<lparr>h_payload := map_option payloadSkeleton (h_payload h),
                      h_payload_purged_at := Some now, h_updated_at := now\<rparr>
               else h) (hooks (w_db W)) \<and>
    tokens (w_db W') =
      (if b then filter (\<lambda>t. \<not> t_ExpiresAt t < now - rc_RefreshTokenGrace (rw_cfg w)) (tokens (w_db W))
       else tokens (w_db W)) \<and>
    (\<exists>tot. r = Some tot \<and>
       PurgeResult_Total tot = int (length (filter (purge_due q now) (hooks (w_db W))))) \<and>
    last (w_logs W') = (Debug, ''webhook payload retention is current'')"
proof -
  let ?d = "w_db W" let ?d1 = "purge_all q ?d" let ?g = "rc_RefreshTokenGrace (rw_cfg w)"
  let ?d2 = "if b then prune_all ?g ?d1 else ?d1"
  have "length (filter (purge_due q (clock ?d)) (hooks ?d)) < fuel"
    by (rule le_less_trans [OF length_filter_le assms(8)])
  then have 1: "run_state (purge_loop w fuel \<lparr>pr_Settled = 0, pr_Unsettled = 0\<rparr>) W =
      (Some (due_counts q ?d), W\<lparr>w_db := ?d1\<rparr>)"
    using purge_loop_drains [of W q w fuel] assms(4-6) NewRetentionWorker_batch [of b c]
    by (simp add: w_def q_def add_counts_def)
  have tok: "tokens ?d1 = tokens ?d" "clock ?d1 = clock ?d" by (simp_all add: purge_all_def purge_rows_def)
  have w: "0 < rc_BatchSize (rw_cfg w)" "rw_tokens w = b"
    by (simp_all add: w_def NewRetentionWorker_batch) (simp add: NewRetentionWorker_def)
  have "length (filter (expired_at ?g (clock ?d)) (tokens ?d)) < fuel"
    by (rule le_less_trans [OF length_filter_le assms(9)])
  then have 2: "\<exists>W2. run_state (pruneRefreshTokens w fuel) W1 = (Some (), W2) \<and> w_db W2 = ?d2 \<and> w_plan W2 = []"
    if "w_db W1 = ?d1" "w_plan W1 = []" "w_polls W1 = []" for W1
    using that assms(7) w pruneRefreshTokens_run [of W1 w fuel] by (cases b) (auto simp: tok)
  have nodue: "rs_DueNow (retention_stats (RetentionConfig_query (rw_cfg w) 0) ?d2) = 0"
  proof -
    have "purge_due (RetentionConfig_query (rw_cfg w) 0) = purge_due q"
      by (simp add: fun_eq_iff purge_due_def q_def w_def RetentionConfig_query_def)
    moreover have "hooks ?d2 = hooks ?d1" "clock ?d2 = clock ?d" by (simp_all add: prune_all_def tok)
    ultimately show ?thesis
      by (auto simp: retention_stats_def Let_def count_def filter_empty_conv purge_all_def purge_rows_def)
  qed
  have "r = Some (due_counts q ?d) \<and> w_db W' = ?d2 \<and>
      last (w_logs W') = (Debug, ''webhook payload retention is current'')"
    by (rule RunOnce_run [OF 1 _ assms(4,5,10) nodue]) (rule 2)
  moreover have "PurgeResult_Total (due_counts q ?d) = int (length (filter (purge_due q now) (hooks ?d)))"
  proof -
    have "int (length (filter (\<lambda>h. P h \<and> \<not> Q h) hs)) + int (length (filter (\<lambda>h. P h \<and> Q h) hs)) =
        int (length (filter P hs))" for P Q and hs :: "hook_row list"
      by (induction hs) auto
    then show ?thesis by (simp add: PurgeResult_Total_def due_counts_def count_def now_def)
  qed
  ultimately show ?thesis
    by (auto simp: purge_all_def purge_rows_def prune_all_def purged_row_def touch_hook_def to_purged_def
        expired_at_def now_def)
qed

definition sample_retention :: RetentionConfig where
  "sample_retention = \<lparr>rc_Interval = 0, rc_SettledAfter = 0, rc_UnsettledAfter = 0, rc_BatchSize = 0,
                       rc_RefreshTokenGrace = 0\<rparr>"

theorem RunOnce_enforces_policy_witness:
  "map h_payload_purged_at (hooks (w_db (snd (run_state (RunOnce (NewRetentionWorker True sample_retention) 5)
     (quiet ((sample_db WebhookSucceeded)\<lparr>clock := unix 1800000000\<rparr>)))))) = [Some (unix 1800000000)]"
proof -
  let ?W = "quiet ((sample_db WebhookSucceeded)\<lparr>clock := unix 1800000000\<rparr>)"
  obtain r W' where run: "run_state (RunOnce (NewRetentionWorker True sample_retention) 5) ?W = (r, W')" by fastforce
  have "hooks_wf (w_db ?W)" using sample_db_wf [of WebhookSucceeded] by (simp add: hooks_wf_def ids_unique_def)
  moreover have "length (hooks (w_db ?W)) = 1" "tokens (w_db ?W) = []" by (simp_all add: sample_db_def)
  ultimately have "hooks (w_db W') = map (\<lambda>h. if purge_due (RetentionConfig_query
        (rw_cfg (NewRetentionWorker True sample_retention))
        (rc_BatchSize (rw_cfg (NewRetentionWorker True sample_retention)))) (clock (w_db ?W)) h
      then h\<lparr>h_payload := map_option payloadSkeleton (h_payload h), h_payload_purged_at := Some (clock (w_db ?W)),
             h_updated_at := clock (w_db ?W)\<rparr> else h) (hooks (w_db ?W))"
    by (intro RunOnce_enforces_policy [OF _ _ _ _ _ _ run, THEN conjunct1]) simp_all
  then have "map h_payload_purged_at (hooks (w_db W')) = [Some (unix 1800000000)]"
    by (simp add: sample_defs purge_due_def settled_status_def RetentionConfig_query_def NewRetentionWorker_def
        RetentionConfig_withDefaults_def sample_retention_def or_default_def defaultSettledAfter_def
        unix_def hour_def minute_def second_def)
  then show ?thesis by (simp add: run)
qed

text \<open>
  C21 (the skeleton is an allowlist). What replaces a purged payload has no other key than those
  of the list, at the top and under data.object, keeps the event's id when it is a string, and
  depends on nothing but the listed fields: two payloads that agree on them have one skeleton.
\<close>

theorem payloadSkeleton_allowlist:
  "set (jkeys (payloadSkeleton p)) \<subseteq> {''id'', ''object'', ''type'', ''created'', ''livemode'', ''api_version'', ''data''} \<and>
   (\<exists>v. jpath [''data'', ''object''] (payloadSkeleton p) = Some v \<and> is_JObj v \<and> set (jkeys v) \<subseteq> {''id'', ''object''}) \<and>
   jget ''id'' (payloadSkeleton (JObj ((''id'', JStr i) # kvs))) = Some (JStr i) \<and>
   (payloadSkeleton p = payloadSkeleton p' \<or>
    (\<exists>k \<in> {''id'', ''object'', ''type'', ''created'', ''livemode'', ''api_version''}. jget k p \<noteq> jget k p') \<or>
    (\<exists>k \<in> {''id'', ''object''}. jpath [''data'', ''object'', k] p \<noteq> jpath [''data'', ''object'', k] p'))"
proof (intro conjI)
  show "set (jkeys (payloadSkeleton p)) \<subseteq> {''id'', ''object'', ''type'', ''created'', ''livemode'', ''api_version'', ''data''}"
    unfolding payloadSkeleton_def by (rule subset_trans [OF jkeys_strip]) simp
  show "\<exists>v. jpath [''data'', ''object''] (payloadSkeleton p) = Some v \<and> is_JObj v \<and> set (jkeys v) \<subseteq> {''id'', ''object''}"
    using skeleton_object [of p] skeleton_object_keys [of p] by blast
  show "jget ''id'' (payloadSkeleton (JObj ((''id'', JStr i) # kvs))) = Some (JStr i)"
    unfolding payloadSkeleton_def by (simp add: jval_def)
  show "payloadSkeleton p = payloadSkeleton p' \<or>
    (\<exists>k \<in> {''id'', ''object'', ''type'', ''created'', ''livemode'', ''api_version''}. jget k p \<noteq> jget k p') \<or>
    (\<exists>k \<in> {''id'', ''object''}. jpath [''data'', ''object'', k] p \<noteq> jpath [''data'', ''object'', k] p')"
    unfolding payloadSkeleton_def by (simp only: bex_simps) (metis insertCI)
qed

end
