(* ===== verification/Delivery.thy ===== *)
theory Delivery
  imports Retention
begin

text \<open>
  Deliveries seen from outside: what a redelivery of an event does after a first delivery was
  acknowledged, where a subscription event that was processed lands, and how linking a
  customer can undo another link.
\<close>

section \<open>A second delivery\<close>

lemma claim_stmt_valid:
  assumes "claim_stmt J win w s d = Inr (h, d')"
  obtains p where "jsonb_arg J (payloadOrNil (w_Payload w)) = Inr p" "passes hook_checks (claim_row w p (clock d))"
  using assms by (auto simp: claim_stmt_def Let_def check_row_None split: sum.splits option.splits)

lemma TryClaimEvent_granted:
  assumes "w_plan W = []" "run_state (TryClaimEvent J win w) W = (Inr (True, w'), W1)"
  obtains h where "claim_stmt J win w (quiet_step (w_db W)) (w_db W) = Inr (h, w_db W1)"
    "ProcessedWebhook_Validate (json_valid J) w = None" "w_plan W1 = []"
  using assms
  by (auto simp: TryClaimEvent_def run_stmt_quiet split: option.splits sum.splits if_splits prod.splits)

lemma TryClaimEvent_refused:
  assumes "w_plan W = []" "hooks_wf (w_db W)" "ProcessedWebhook_Validate (json_valid J) w = None"
    and "jsonb_arg J (payloadOrNil (w_Payload w)) = Inr p" "passes hook_checks (claim_row w p (clock (w_db W)))"
    and "h \<in> set (hooks (w_db W))" "h_event_id h = w_EventID w" "\<not> claimable (clock (w_db W)) win h"
  shows "run_state (TryClaimEvent J win w) W = (Inr (False, w), W)"
proof -
  obtain x where x: "find (\<lambda>x. h_event_id x = w_EventID w) (hooks (w_db W)) = Some x"
    using assms(6,7) by (cases "find (\<lambda>x. h_event_id x = w_EventID w) (hooks (w_db W))") (auto simp: find_None_iff)
  have "x = h"
    using find_id_SomeD [OF x] assms(2,6,7) same_id_unique [of "w_db W" h x] by (auto simp: hooks_wf_def)
  with claim_stmt_existing [OF assms(2) x assms(4,5), of win] assms(8)
  have "claim_stmt J win w (quiet_step (w_db W)) (w_db W) = Inl NoRows" by simp
  then show ?thesis using assms(1,3) by (simp add: TryClaimEvent_def run_stmt_quiet)
qed

lemma ProcessEvent_duplicate:
  assumes "construct_event (sv_lib S) payload sig (cl_webhookSecret (sv_client S))
             (cl_webhookTolerance (sv_client S)) (cl_ignoreAPIVersionMismatch (sv_client S))
             (clock (w_db W)) = Inr ev"
    and "run_state (TryClaimEvent (sv_json S) (sv_stale S) (claim_record ev payload)) W = (Inr (False, w), W)"
  shows "\<exists>W'. run_state (ProcessEvent S payload sig) W = ((OutcomeDuplicate, None), W') \<and> w_db W' = w_db W"
  using assms by (simp add: ProcessEvent_def VerifyWebhook_def service_observe_def)

text \<open>The clock of the database stands still in a quiet world.\<close>

definition clock_kept :: "db \<Rightarrow> db \<Rightarrow> bool" where
  "clock_kept d d' \<longleftrightarrow> clock d' = clock d"

interpretation clock_billing: billing_relation clock_kept
  by unfold_locales
     (auto simp: clock_kept_def intro!: stmt_okI dest!: sub_frames user_frames hook_frames)

section \<open>Properties\<close>

text \<open>
  C4 (at least once becomes exactly once). In a quiet world, once a delivery was claimed and
  acknowledged, delivering the event again with a signature the SDK accepts is answered as a
  duplicate, without error, and changes nothing in the database.
\<close>

theorem redelivery_changes_nothing:
  assumes "w_plan W = []" "hooks_wf (w_db W)"
    and "construct_event (sv_lib S) payload sig (cl_webhookSecret (sv_client S))
           (cl_webhookTolerance (sv_client S)) (cl_ignoreAPIVersionMismatch (sv_client S))
           (clock (w_db W)) = Inr ev"
    and "run_state (TryClaimEvent (sv_json S) (sv_stale S) (claim_record ev payload)) W = (Inr (True, w), W1)"
    and "run_state (ProcessEvent S payload sig) W = ((oc, e), W2)" "Outcome_Acknowledge oc"
  shows "\<exists>W3. run_state (ProcessEvent S payload sig) W2 = ((OutcomeDuplicate, None), W3) \<and> w_db W3 = w_db W2"
proof -
  let ?w = "claim_record ev payload"
  obtain h where c: "claim_stmt (sv_json S) (sv_stale S) ?w (quiet_step (w_db W)) (w_db W) = Inr (h, w_db W1)"
    and v: "ProcessedWebhook_Validate (json_valid (sv_json S)) ?w = None" and p1: "w_plan W1 = []"
    using TryClaimEvent_granted [OF assms(1,4)] .
  obtain p where j: "jsonb_arg (sv_json S) (payloadOrNil (w_Payload ?w)) = Inr p"
    "passes hook_checks (claim_row ?w p (clock (w_db W)))" by (rule claim_stmt_valid [OF c])
  have env: "env_ok clock_kept W" "env_ok ledger_sound W" using assms(1) by (simp_all add: env_ok_def)
  have clk: "clock (w_db W2) = clock (w_db W)"
    using keepsD [OF clock_billing.keeps_ProcessEvent env(1) assms(5)] by (simp add: clock_kept_def)
  have wf: "hooks_wf (w_db W2)" "w_plan W2 = []"
    using keepsD [OF sound_billing.keeps_ProcessEvent env(2) assms(5)] assms(1,2) advances_quiet
    by (auto simp: ledger_sound_def)
  have run: "run_state (process_claimed S ev (clock (w_db W))) W1 = ((oc, e), W2)"
    using assms(3-5) by (simp add: ProcessEvent_def VerifyWebhook_def)
  have "holds_claim (ev_ID ev) (h_attempts h) W1"
    using claim_stmt_holds [OF c] claim_stmt_wf [OF c assms(2)] assms(2) p1
    by (auto simp: holds_claim_def hooks_wf_def claim_record_def)
  from process_claimed_settles [OF this run] obtain x where
    x: "x \<in> set (hooks (w_db W2))" "h_event_id x = ev_ID ev" "settles_as oc e x" by blast
  have "\<not> claimable (clock (w_db W2)) (sv_stale S) x"
    using x(3) assms(6) by (cases oc) (auto simp: settles_as_def claimable_def Outcome_Acknowledge_def)
  then have "run_state (TryClaimEvent (sv_json S) (sv_stale S) ?w) W2 = (Inr (False, ?w), W2)"
    using TryClaimEvent_refused [OF wf(2,1) v j(1) _ x(1)] j(2) x(2) by (simp add: clk claim_record_def)
  then show ?thesis using ProcessEvent_duplicate [of S payload sig W2 ev] assms(3) by (simp add: clk)
qed

lemma sample_delivery:
  "\<exists>W2. run_state (ProcessEvent (sample_service ''invoice.paid'') ''{}'' ''good'') (quiet (sample_world_db None)) =
     ((OutcomeSkipped, None), W2)"
proof -
  let ?S = "sample_service ''invoice.paid''" let ?W = "quiet (sample_world_db None)"
  obtain w W1 where "run_state (TryClaimEvent (sv_json ?S) (sv_stale ?S)
      (claim_record (sample_event ''invoice.paid'') ''{}'')) ?W = (Inr (True, w), W1)"
    using sample_world_claim [of "sv_stale ?S" None] unfolding sample_claim_record by (auto simp: sample_service_def)
  moreover have "construct_event (sv_lib ?S) ''{}'' ''good'' s t i n = Inr (sample_event ''invoice.paid'')" for s t i n
    by (simp add: sample_service_def sample_lib_def)
  moreover obtain x W2 where x: "run_state (settleSkipped ''evt_1'' ''event type not subscribed'') W1 = (x, W2)" by fastforce
  moreover have "x = (OutcomeSkipped, None)" using yieldsD [OF settleSkipped_skips x] .
  moreover have "ev_ID (sample_event ''invoice.paid'') = ''evt_1''"
    "ev_Type (sample_event ''invoice.paid'') \<notin> set handledEventTypes"
    by (simp_all add: sample_event_def handledEventTypes_def)
  ultimately show ?thesis by (simp add: ProcessEvent_def VerifyWebhook_def process_claimed_def)
qed

theorem redelivery_changes_nothing_witness:
  "\<exists>W3. run_state (ProcessEvent (sample_service ''invoice.paid'') ''{}'' ''good'')
     (snd (run_state (ProcessEvent (sample_service ''invoice.paid'') ''{}'' ''good'') (quiet (sample_world_db None)))) =
     ((OutcomeDuplicate, None), W3)"
proof -
  let ?S = "sample_service ''invoice.paid''" let ?W = "quiet (sample_world_db None)"
  obtain W2 where run: "run_state (ProcessEvent ?S ''{}'' ''good'') ?W = ((OutcomeSkipped, None), W2)"
    using sample_delivery by blast
  obtain w W1 where claim: "run_state (TryClaimEvent (sv_json ?S) (sv_stale ?S)
      (claim_record (sample_event ''invoice.paid'') ''{}'')) ?W = (Inr (True, w), W1)"
    using sample_world_claim [of "sv_stale ?S" None] unfolding sample_claim_record by (auto simp: sample_service_def)
  have "hooks_wf (w_db ?W)" by (simp add: hooks_wf_def ids_unique_def sample_world_db_def)
  moreover have "construct_event (sv_lib ?S) ''{}'' ''good'' s t i n = Inr (sample_event ''invoice.paid'')" for s t i n
    by (simp add: sample_service_def sample_lib_def)
  ultimately show ?thesis
    using redelivery_changes_nothing [OF _ _ _ claim run] unfolding run by (auto simp: Outcome_Acknowledge_def)
qed

text \<open>The steps of the next property, in a database with the user of customer cus_1 and no subscription.\<close>

lemma sample_user_found:
  "run_state (resolveUser (sample_service ty) [] ''cus_1'' []) (quiet (sample_world_db (Some ''cus_1''))) =
     (Inr (Some (sample_user (Some ''cus_1''))), quiet (sample_world_db (Some ''cus_1'')))"
  by (simp add: resolveUser_def metadata_get_def user_by_customer_def GetUserByStripeCustomerID_def query_row_def
      first_row_def run_stmt_quiet sample_world_db_def sample_user_def)

definition sample_record :: Subscription where
  "sample_record =
     (case subscriptionFrom 7 (sample_stripe_sub SubscriptionActive) (sample_event ''customer.subscription.deleted'')
      of Inr r \<Rightarrow> r)"

lemmas sample_record_defs =
  sample_record_def subscriptionFrom_def primaryItem_def sample_stripe_sub_def sample_event_def Let_def
  customerIDOf_def nonempty_def unixPtr_def ensureCanceledAt_def int32_of_def unix_def second_def

lemma sample_record_from:
  "subscriptionFrom 7 (sample_stripe_sub SubscriptionActive) (sample_event ''customer.subscription.deleted'') =
     Inr sample_record"
  by (simp add: sample_record_defs)

lemma sample_record_fields [simp]:
  "s_StripeSubscriptionID sample_record = ''sub_1''" "s_Status sample_record = SubscriptionActive"
  "s_CanceledAt sample_record = None" "s_UserID sample_record = 7"
  by (simp_all add: sample_record_defs)

lemma sample_record_valid: "Subscription_Validate sample_record = None"
  by (simp add: sample_record_defs Subscription_Validate_def vresult_def vadd_def has_prefix_def trial_order_def
      SubscriptionStatus_Valid_def to_lower_def ascii_lower_def byte_def)

lemma sample_record_passes: "passes sub_checks (new_sub_row sample_record i t)"
  by (simp add: passes_def sub_checks_def new_sub_row_def sample_record_defs trial_order_def
      id_format_def has_prefix_def is_alnum_def is_lower_def byte_def)

lemma sample_record_created:
  "\<exists>x. run_state (CreateSubscription sample_record) (quiet (sample_world_db c)) =
    (Inr x, (quiet (sample_world_db c))\<lparr>w_db := (sample_world_db c)
       \<lparr>subs := [new_sub_row sample_record (fresh_uuid (sample_world_db c)) (clock (sample_world_db c))]\<rparr>\<rparr>)"
proof -
  let ?d = "sample_world_db c"
  have "check_row ''subscriptions'' sub_checks (new_sub_row sample_record (es_rand (quiet_step ?d)) (clock ?d)) = None"
    by (simp add: check_row_None sample_record_passes)
  moreover have "subs ?d = []" "list_ex (\<lambda>u. u_ID u = 7) (users ?d)"
    by (simp_all add: sample_world_db_def sample_db_def sample_user_def)
  ultimately have "create_sub_stmt sample_record (quiet_step ?d) ?d =
      Inr (new_sub_row sample_record (fresh_uuid ?d) (clock ?d),
           ?d\<lparr>subs := [new_sub_row sample_record (fresh_uuid ?d) (clock ?d)]\<rparr>)"
    by (simp add: create_sub_stmt_def Let_def SubscriptionStatus_Valid_def new_sub_row_def)
  then show ?thesis by (simp add: CreateSubscription_def sample_record_valid run_stmt_quiet)
qed

lemma sample_deletion_missing:
  "\<exists>u. statusUpdateFrom (sample_stripe_sub SubscriptionActive) (sample_event ''customer.subscription.deleted'') True = Inr u \<and>
     run_state (UpdateSubscriptionStatus u) (quiet (sample_world_db c)) =
       (Inl (Wrap ''update subscription status: lock row: '' (Sentinel ErrNotFound) []), quiet (sample_world_db c))"
  by (simp add: statusUpdateFrom_def primaryItem_def sample_stripe_sub_def Let_def SubscriptionStatus_Valid_def
      UpdateSubscriptionStatus_def guarded_quiet the_sub_def sample_world_db_def sample_db_def)

lemma sample_deletion:
  "\<exists>W. run_state (handleSubscriptionChanged (sample_service ''customer.subscription.deleted'')
              (sample_event ''customer.subscription.deleted'') True) (quiet (sample_world_db (Some ''cus_1''))) =
         ((OutcomeProcessed, None), W)"
proof -
  let ?ev = "sample_event ''customer.subscription.deleted''" let ?sub = "sample_stripe_sub SubscriptionActive"
  obtain u where u: "statusUpdateFrom ?sub ?ev True = Inr u"
    "run_state (UpdateSubscriptionStatus u) (quiet (sample_world_db (Some ''cus_1''))) =
       (Inl (Wrap ''update subscription status: lock row: '' (Sentinel ErrNotFound) []),
        quiet (sample_world_db (Some ''cus_1'')))"
    using sample_deletion_missing by blast
  obtain x where x: "run_state (CreateSubscription sample_record) (quiet (sample_world_db (Some ''cus_1''))) =
    (Inr x, (quiet (sample_world_db (Some ''cus_1'')))\<lparr>w_db := (sample_world_db (Some ''cus_1''))
       \<lparr>subs := [new_sub_row sample_record (fresh_uuid (sample_world_db (Some ''cus_1'')))
                 (clock (sample_world_db (Some ''cus_1'')))]\<rparr>\<rparr>)"
    using sample_record_created by blast
  have sub: "ss_ID ?sub = ''sub_1''" "ss_Customer ?sub = Some ''cus_1''" "ss_Metadata ?sub = []"
    by (simp_all add: sample_stripe_sub_def)
  have "unmarshal_subscription (sv_lib (sample_service ''customer.subscription.deleted'')) r = Inr ?sub" for r
    by (simp add: sample_service_def sample_lib_def)
  moreover have "u_ID (sample_user c) = 7" for c by (simp add: sample_user_def)
  ultimately show ?thesis
    by (simp add: handleSubscriptionChanged_def sub u createFromEvent_def customerIDOf_def sample_user_found
        upsertSubscription_def sample_record_from x)
qed

lemma resolveUser_quiet:
  assumes "w_plan W = []"
  shows "snd (run_state (resolveUser S c i m) W) = W"
  using assms
  by (simp add: resolveUser_def user_by_customer_def GetUserByID_def GetUserByStripeCustomerID_def
      user_row_quiet Let_def split: option.split)

lemma CreateSubscription_quiet:
  assumes "w_plan W = []" "run_state (CreateSubscription s) W = (r, W1)"
  shows "case r of
           Inl e \<Rightarrow> W1 = W
         | Inr x \<Rightarrow> the_sub (s_StripeSubscriptionID s) (w_db W) = None \<and> (\<exists>u \<in> set (users (w_db W)). u_ID u = s_UserID s) \<and>
             w_db W1 = (w_db W)\<lparr>subs := subs (w_db W) @ [new_sub_row s (fresh_uuid (w_db W)) (clock (w_db W))]\<rparr>"
  using assms
  by (auto simp: CreateSubscription_def run_stmt_quiet create_sub_stmt_def Let_def the_sub_def find_None_iff
      list_ex_iff by_stripe_id_def new_sub_row_def split: option.splits sum.splits if_splits)

lemma statusUpdateFromD:
  assumes "statusUpdateFrom sub ev deleted = Inr u"
  shows "su_StripeSubscriptionID u = ss_ID sub" "su_EventCreatedAt u = unix (ev_Created ev)"
    "su_Status u = (if deleted then SubscriptionCanceled else ss_Status sub)" "SubscriptionStatus_Valid (su_Status u)"
    "su_Status u = SubscriptionCanceled \<Longrightarrow> su_CanceledAt u \<noteq> None"
  using assms
  by (auto simp: statusUpdateFrom_def Let_def ensureCanceledAt_def split: sum.splits if_splits)

lemma subscriptionFromD:
  assumes "subscriptionFrom i sub ev = Inr s"
  shows "s_StripeSubscriptionID s = ss_ID sub" "s_LastStripeEventAt s = Some (unix (ev_Created ev))"
    "s_Status s = ss_Status sub" "s_UserID s = i" "s_StripeCustomerID s = customerIDOf (ss_Customer sub)"
    "s_Status s = SubscriptionCanceled \<Longrightarrow> s_CanceledAt s \<noteq> None"
  using assms
  by (auto simp: subscriptionFrom_def Let_def ensureCanceledAt_def split: sum.splits option.splits)

text \<open>A status update of a quiet world, and a first insertion, by what they leave under the id.\<close>

lemma UpdateSubscriptionStatus_lands:
  assumes "w_plan W = []" "sids_unique (w_db W)" "SubscriptionStatus_Valid (su_Status u)"
    and "run_state (UpdateSubscriptionStatus u) W = (Inr x, W1)"
  shows "\<exists>s. the_sub (su_StripeSubscriptionID u) (w_db W) = Some s \<and>
             the_sub (su_StripeSubscriptionID u) (w_db W1) = Some (stamped (w_db W) (apply_status u) s)"
proof -
  obtain s where s: "the_sub (su_StripeSubscriptionID u) (w_db W) = Some s"
    using assms(1,4) by (auto simp: UpdateSubscriptionStatus_def guarded_quiet split: option.splits)
  have "w_db W1 = replace_sub (stamped (w_db W) (apply_status u) s) (w_db W)"
    using assms(4) s
    by (auto simp: UpdateSubscriptionStatus_def guarded_quiet [OF assms(1)] update_status_quiet [OF assms(2) s assms(3)]
        split: if_splits option.splits)
  moreover have "s_StripeSubscriptionID (stamped (w_db W) (apply_status u) s) = su_StripeSubscriptionID u"
    using the_sub_Some [OF s] by simp
  ultimately show ?thesis using s the_sub_replace [OF s] by simp
qed

lemma UpdateSubscriptionStatus_found:
  assumes "w_plan W = []" "sids_unique (w_db W)" "SubscriptionStatus_Valid (su_Status u)"
    and "the_sub (su_StripeSubscriptionID u) (w_db W) = Some s"
    and "run_state (UpdateSubscriptionStatus u) W = (Inl e, W1)"
  shows "\<not> err_is e ErrNotFound"
  using assms(4,5)
  by (auto simp: UpdateSubscriptionStatus_def guarded_quiet [OF assms(1)] update_status_quiet [OF assms(2,4,3)]
      dest!: check_row_Some split: if_splits option.splits)

lemma stamped_field: "(\<And>x. f (touch_sub d x) = f x) \<Longrightarrow> f (stamped d upd s) = f (upd s)"
  by (auto simp: stamped_def)

lemma stamped_fields:
  "s_LastStripeEventAt (stamped d (apply_status u) s) = Some (su_EventCreatedAt u)"
  "s_Status (stamped d (apply_status u) s) = su_Status u"
  "s_CanceledAt (stamped d (apply_status u) s) = coalesce_null (su_CanceledAt u) (s_CanceledAt s)"
  "s_UserID (stamped d (apply_status u) s) = s_UserID s"
  "s_StripeCustomerID (stamped d (apply_status u) s) = s_StripeCustomerID s"
  by (subst stamped_field; simp add: touch_sub_def apply_status_def)+

lemma UpdateSubscriptionStatus_unknown:
  assumes "w_plan W = []" "the_sub (su_StripeSubscriptionID u) (w_db W) = None"
  shows "run_state (UpdateSubscriptionStatus u) W =
    (Inl (Wrap ''update subscription status: lock row: '' (Sentinel ErrNotFound) []), W)"
  using assms by (simp add: UpdateSubscriptionStatus_def guarded_quiet)

lemma the_sub_append:
  "the_sub (s_StripeSubscriptionID s) d = None \<Longrightarrow>
   the_sub (s_StripeSubscriptionID s) (d\<lparr>subs := subs d @ [new_sub_row s i t]\<rparr>) = Some (new_sub_row s i t)"
  by (simp add: the_sub_def find_append_None by_stripe_id_def new_sub_row_def)

lemma createFromEvent_lands:
  assumes "w_plan W = []" "the_sub (ss_ID sub) (w_db W) = None"
    and "run_state (createFromEvent S sub ev) W = ((OutcomeProcessed, None), W1)"
  shows "\<exists>user row0. user \<in> set (users (w_db W)) \<and> subscriptionFrom (u_ID user) sub ev = Inr row0 \<and>
    the_sub (ss_ID sub) (w_db W1) = Some (new_sub_row row0 (fresh_uuid (w_db W)) (clock (w_db W)))"
proof -
  obtain r where r: "run_state (resolveUser S [] (customerIDOf (ss_Customer sub)) (ss_Metadata sub)) W = (r, W)"
    using resolveUser_quiet [OF assms(1)] by (metis prod.collapse)
  have "\<exists>(user :: User) x. run_state (upsertSubscription (u_ID user) sub ev) W = ((x, None), W1)"
    using assms(3) r by (auto simp: createFromEvent_def split: sum.splits option.splits prod.splits intro!: exI)
  then obtain user :: User and x where user: "run_state (upsertSubscription (u_ID user) sub ev) W = ((x, None), W1)" by blast
  obtain row0 where rec: "subscriptionFrom (u_ID user) sub ev = Inr row0"
    using user by (auto simp: upsertSubscription_def split: sum.splits)
  obtain c Wc where c: "run_state (CreateSubscription row0) W = (c, Wc)" by fastforce
  note q = CreateSubscription_quiet [OF assms(1) c] and f = subscriptionFromD [OF rec]
  show ?thesis
  proof (cases c)
    case (Inl e)
    then have "Wc = W" using q by simp
    then show ?thesis using user rec c Inl UpdateSubscriptionStatus_unknown [OF assms(1)] assms(2) statusUpdateFromD(1)
      by (auto simp: upsertSubscription_def split: sum.splits if_splits)
  next
    case (Inr y)
    then have "w_db W1 = w_db Wc" using user rec c by (auto simp: upsertSubscription_def log_line_def)
    then show ?thesis using q Inr f(1,4) rec the_sub_append [of row0 "w_db W"] by auto
  qed
qed

text \<open>
  C23 (where a subscription event lands). In a quiet world, whenever the handler of a
  subscription event reports it as processed, the subscription of the event's object is
  recorded at the event's time, and canceled rows carry a cancellation date. A subscription
  that was recorded before keeps its owner and its customer and has the object's status, or
  canceled if the event was a deletion. One that was not recorded is inserted for a known
  account, with the object's customer and the object's status even if the event was a
  deletion: a deletion whose object still says active leaves an active subscription.
\<close>

theorem change_event_lands:
  assumes "w_plan W = []" "sids_unique (w_db W)"
    and "unmarshal_subscription (sv_lib S) (ev_Raw ev) = Inr sub"
    and "run_state (handleSubscriptionChanged S ev deleted) W = ((OutcomeProcessed, None), W')"
  shows "\<exists>s'. the_sub (ss_ID sub) (w_db W') = Some s' \<and>
     s_LastStripeEventAt s' = Some (unix (ev_Created ev)) \<and>
     (s_Status s' = SubscriptionCanceled \<longrightarrow> s_CanceledAt s' \<noteq> None) \<and>
     (case the_sub (ss_ID sub) (w_db W) of
        Some s \<Rightarrow> s_Status s' = (if deleted then SubscriptionCanceled else ss_Status sub) \<and>
                  s_UserID s' = s_UserID s \<and> s_StripeCustomerID s' = s_StripeCustomerID s
      | None \<Rightarrow> s_Status s' = ss_Status sub \<and> (\<exists>u \<in> set (users (w_db W)). s_UserID s' = u_ID u) \<and>
                s_StripeCustomerID s' = customerIDOf (ss_Customer sub))"
proof -
  obtain u where u: "statusUpdateFrom sub ev deleted = Inr u"
    using assms(3,4) by (auto simp: handleSubscriptionChanged_def split: if_splits sum.splits)
  note f = statusUpdateFromD [OF u]
  obtain r W1 where r: "run_state (UpdateSubscriptionStatus u) W = (r, W1)" by fastforce
  show ?thesis
  proof (cases "the_sub (ss_ID sub) (w_db W)")
    case None
    then have "run_state (createFromEvent S sub ev) W = ((OutcomeProcessed, None), W')"
      using assms(3,4) u UpdateSubscriptionStatus_unknown [OF assms(1), of u] f(1)
      by (auto simp: handleSubscriptionChanged_def split: if_splits)
    from createFromEvent_lands [OF assms(1) None this] obtain user row0 where
      c: "user \<in> set (users (w_db W))" "subscriptionFrom (u_ID user) sub ev = Inr row0"
        "the_sub (ss_ID sub) (w_db W') = Some (new_sub_row row0 (fresh_uuid (w_db W)) (clock (w_db W)))" by blast
    then show ?thesis using None subscriptionFromD [OF c(2)] by (auto simp: new_sub_row_def)
  next
    case (Some s)
    have "\<not> err_is e ErrNotFound" if "r = Inl e" for e
      using UpdateSubscriptionStatus_found [OF assms(1,2) f(4)] r that Some f(1) by simp
    then obtain x where x: "r = Inr x" and W': "w_db W' = w_db W1"
      using assms(3,4) u r
      by (cases r) (auto simp: handleSubscriptionChanged_def log_line_def split: if_splits)
    have "the_sub (ss_ID sub) (w_db W') = Some (stamped (w_db W) (apply_status u) s)"
      using UpdateSubscriptionStatus_lands [OF assms(1,2) f(4)] r x Some f(1) W' by auto
    then show ?thesis using Some f by (auto simp: stamped_fields coalesce_null_def split: option.split)
  qed
qed

text \<open>The case of the finding: the customer is known, the subscription is not, the object says active.\<close>

theorem change_event_lands_witness:
  "\<exists>W s. run_state (handleSubscriptionChanged (sample_service ''customer.subscription.deleted'')
              (sample_event ''customer.subscription.deleted'') True) (quiet (sample_world_db (Some ''cus_1''))) =
         ((OutcomeProcessed, None), W) \<and>
       the_sub ''sub_1'' (w_db W) = Some s \<and> s_Status s = SubscriptionActive \<and> s_StripeCustomerID s = ''cus_1''"
proof -
  let ?S = "sample_service ''customer.subscription.deleted''" let ?W = "quiet (sample_world_db (Some ''cus_1''))"
  let ?ev = "sample_event ''customer.subscription.deleted''" let ?sub = "sample_stripe_sub SubscriptionActive"
  obtain W where run: "run_state (handleSubscriptionChanged ?S ?ev True) ?W = ((OutcomeProcessed, None), W)"
    using sample_deletion by blast
  have sub: "unmarshal_subscription (sv_lib ?S) r = Inr ?sub" for r
    by (simp add: sample_service_def sample_lib_def)
  have "sids_unique (w_db ?W)" "the_sub ''sub_1'' (w_db ?W) = None"
    by (simp_all add: sids_unique_def the_sub_def sample_world_db_def sample_db_def)
  moreover have "ss_ID ?sub = ''sub_1''" "ss_Status ?sub = SubscriptionActive" "ss_Customer ?sub = Some ''cus_1''"
    by (simp_all add: sample_stripe_sub_def)
  ultimately show ?thesis using change_event_lands [OF _ _ sub run] run by (auto simp: customerIDOf_def)
qed

lemma sample_user_valid: "User_Validate (sample_user (Some ''cus_2'')) = (None, sample_user (Some ''cus_2''))"
proof -
  have "trim_space ''a@b.co'' = ''a@b.co''" "contains ''a@b.co'' ''@''" by code_simp+
  then show ?thesis
    by (simp add: User_Validate_def sample_user_def email_errors_def vresult_def vadd_def has_prefix_def contains_any_def)
qed

lemma sample_user_passes: "passes user_checks ((sample_user (Some ''cus_2''))\<lparr>u_UpdatedAt := t\<rparr>)"
proof -
  have "email_format ''a@b.co''" "char_length ''a@b.co'' = 6" "id_format ''cus_'' ''cus_2''" by code_simp+
  then show ?thesis by (simp add: passes_def user_checks_def sample_user_def)
qed

lemma sample_user_updated:
  assumes "users d = [sample_user (Some ''cus_1'')]"
  shows "\<exists>r. update_user_stmt (sample_user (Some ''cus_2'')) s d =
    Inr (r, d\<lparr>users := [(sample_user (Some ''cus_2''))\<lparr>u_UpdatedAt := clock d\<rparr>]\<rparr>)"
proof -
  have "set_user (sample_user (Some ''cus_2'')) (sample_user (Some ''cus_1'')) = sample_user (Some ''cus_2'')"
    "sample_user (Some ''cus_2'') \<noteq> sample_user (Some ''cus_1'')" "u_ID (sample_user c) = 7" "u_DeletedAt (sample_user c) = None" for c
    by (simp_all add: set_user_def sample_user_def)
  then show ?thesis
    using sample_user_passes [of "clock d"]
    by (simp add: update_user_stmt_def assms user_write_def write_row_def Let_def touch_user_def
        check_row_None [THEN iffD2] user_conflict_def)
qed

text \<open>
  Linking a customer can undo another link. A user read without a customer is linked by
  another delivery before this one writes: the write puts its own customer in place of the
  other, and reports no error.
\<close>

theorem linkCustomer_overwrites:
  "\<exists>W. run_state (linkCustomer (sample_user None) ''cus_2'')
         ((quiet (sample_world_db None))\<lparr>w_plan := [\<lparr>es_others = \<lambda>d. d\<lparr>users := [sample_user (Some ''cus_1'')]\<rparr>,
            es_locked = [], es_rand = 0, es_fault = NoFault\<rparr>]\<rparr>) = (None, W) \<and>
       map u_StripeCustomerID (users (w_db W)) = [Some ''cus_2'']"
proof -
  let ?d = "(sample_world_db None)\<lparr>users := [sample_user (Some ''cus_1'')]\<rparr>"
  let ?s = "\<lparr>es_others = \<lambda>d. d\<lparr>users := [sample_user (Some ''cus_1'')]\<rparr>, es_locked = [], es_rand = 0, es_fault = NoFault\<rparr>"
  obtain r where r: "update_user_stmt (sample_user (Some ''cus_2'')) ?s ?d =
      Inr (r, ?d\<lparr>users := [(sample_user (Some ''cus_2''))\<lparr>u_UpdatedAt := clock ?d\<rparr>]\<rparr>)"
    using sample_user_updated [of ?d ?s] by auto
  have "(sample_user None)\<lparr>u_StripeCustomerID := Some ''cus_2''\<rparr> = sample_user (Some ''cus_2'')"
    "u_StripeCustomerID (sample_user c) = c" "u_ID (sample_user c) = 7" for c by (simp_all add: sample_user_def)
  then show ?thesis
    using r by (simp add: linkCustomer_def UpdateUser_def sample_user_valid run_stmt_def exec_def next_step_def)
qed

end
