(* ===== verification/Ledger_Clock.thy ===== *)
theory Ledger_Clock
  imports Router Retention
begin

text \<open>
  The stamps of the ledger. The trigger of the table writes the time into \<open>updated_at\<close> on
  every change, and the stale window of a claim (webhook_repo.go, \<open>TryClaimEvent\<close>) is measured
  from that stamp, so what a claim excludes rests on the stamps never moving back. \<open>ledger_timed\<close> says so of two ledgers; it
  asks of the other processes, and of time, that the clock of the database does not run
  backwards. Every statement of the service satisfies it.
\<close>

section \<open>Stamps\<close>

text \<open>No row carries a stamp from the future.\<close>

definition stamped :: "db \<Rightarrow> bool" where
  "stamped d \<longleftrightarrow> (\<forall>h \<in> set (hooks d). h_updated_at h \<le> clock d)"

definition hook_timed :: "hook_row \<Rightarrow> hook_row \<Rightarrow> bool" where
  "hook_timed h h' \<longleftrightarrow> h_event_id h' = h_event_id h \<and> h_updated_at h \<le> h_updated_at h'"

interpretation timed_rows: row_evolution h_event_id hook_timed
  by unfold_locales (auto simp: hook_timed_def)

definition ledger_timed :: "db \<Rightarrow> db \<Rightarrow> bool" where
  "ledger_timed d d' \<longleftrightarrow>
     (stamped d \<longrightarrow>
        clock d \<le> clock d' \<and> stamped d' \<and> table_grows h_event_id hook_timed (hooks d) (hooks d'))"

lemma ledger_timed_same: "hooks d' = hooks d \<Longrightarrow> clock d' = clock d \<Longrightarrow> ledger_timed d d'"
  by (simp add: ledger_timed_def stamped_def timed_rows.grows_refl)

lemma ledger_timed_trans: "ledger_timed a b \<Longrightarrow> ledger_timed b c \<Longrightarrow> ledger_timed a c"
  unfolding ledger_timed_def using timed_rows.grows_trans order_trans by blast

lemma ledger_timed_row:
  assumes "ledger_timed d d'" "stamped d" "ids_unique d" "h \<in> set (hooks d)"
  shows "\<exists>h' \<in> set (hooks d'). hook_timed h h'"
  using assms timed_rows.grows_row [of "hooks d" "hooks d'" h]
  by (simp add: ledger_timed_def ids_unique_def)

section \<open>The statements\<close>

text \<open>A change that leaves the id and the stamp alone is stamped by the trigger with the present.\<close>

definition leaves_stamp :: "(hook_row \<Rightarrow> hook_row) \<Rightarrow> bool" where
  "leaves_stamp upd \<longleftrightarrow>
     (\<forall>h. h_event_id (upd h) = h_event_id h \<and> h_updated_at (upd h) = h_updated_at h)"

definition stamps :: "db \<Rightarrow> (hook_row \<Rightarrow> pg_error + hook_row) \<Rightarrow> bool" where
  "stamps d f \<longleftrightarrow>
     (\<forall>h h'. h_updated_at h \<le> clock d \<longrightarrow> f h = Inr h' \<longrightarrow> hook_timed h h' \<and> h_updated_at h' \<le> clock d)"

lemma leaves_stamp_updates:
  "leaves_stamp to_processing" "leaves_stamp (to_succeeded now)" "leaves_stamp (to_skipped r now)"
  "leaves_stamp (to_failed r now)" "leaves_stamp (to_purged now)"
  by (simp_all add: leaves_stamp_def to_processing_def to_succeeded_def to_skipped_def to_failed_def to_purged_def)

lemma stamps_write: "leaves_stamp upd \<Longrightarrow> stamps d (hook_write d upd)"
  by (auto simp: stamps_def leaves_stamp_def hook_write_def write_row_ok touch_hook_def hook_timed_def
      split: if_splits)

lemma stamps_bump: "leaves_stamp upd \<Longrightarrow> stamps d (hook_bump d upd)"
  using stamps_write [of "\<lambda>h. (upd h)\<lparr>h_attempts := h_attempts h + 1\<rparr>" d]
  by (simp add: stamps_def leaves_stamp_def hook_bump_def)

lemma hook_update_timed:
  assumes "hook_update P f d = Inr (hit, d')" "stamps d f"
  shows "ledger_timed d d'"
  unfolding ledger_timed_def
proof (intro impI conjI)
  assume d: "stamped d"
  obtain all where u: "sql_update P f (hooks d) = Inr (hit, all)" and d': "d' = d\<lparr>hooks := all\<rparr>"
    using assms(1) by (auto simp: hook_update_def split: sum.splits)
  show "clock d \<le> clock d'" by (simp add: d')
  have "h_updated_at h' \<le> clock d" if "h' \<in> set all" for h'
  proof -
    obtain h where "h \<in> set (hooks d)" "row_step P f h h'"
      using list_all2_mem2 [OF sql_update_rel [OF u] \<open>h' \<in> set all\<close>] by blast
    then show ?thesis using d assms(2) by (auto simp: row_step_def stamped_def stamps_def split: if_splits)
  qed
  then show "stamped d'" by (simp add: stamped_def d')
  have "hook_timed r r'" if "r \<in> set (hooks d)" "f r = Inr r'" for r r'
    using that d assms(2) unfolding stamped_def stamps_def by blast
  then show "table_grows h_event_id hook_timed (hooks d) (hooks d')"
    unfolding d' by (simp, intro timed_rows.grows_update [OF u]) blast
qed

lemma claim_timed: "stmt_ok ledger_timed (claim_stmt J win w)"
proof (rule stmt_okI)
  fix s d h d'
  assume "claim_stmt J win w s d = Inr (h, d')"
  then show "ledger_timed d d'"
  proof (cases rule: claim_stmt_cases)
    case (new p)
    then show ?thesis
      by (auto simp: ledger_timed_def stamped_def find_None_iff claim_row_def intro!: timed_rows.grows_append)
  next
    case (again hit)
    then show ?thesis by (rule hook_update_timed) (intro stamps_bump leaves_stamp_updates)
  qed
qed

lemma mark_timed:
  assumes "upd \<in> {to_succeeded, to_skipped reason, to_failed reason}"
  shows "stmt_ok ledger_timed (mark_stmt e upd)"
proof (rule stmt_okI)
  fix s d a d'
  assume "mark_stmt e upd s d = Inr (a, d')"
  then show "ledger_timed d d'"
    unfolding mark_stmt_def
    by (rule hook_update_timed) (use assms leaves_stamp_updates in \<open>auto intro!: stamps_write\<close>)
qed

lemma retry_claim_timed: "stmt_ok ledger_timed (retry_claim_stmt e m)"
  by (rule stmt_okI, unfold retry_claim_stmt_def, erule hook_update_timed)
     (intro stamps_bump leaves_stamp_updates)

lemma scan_timed:
  "stmt_ok ledger_timed (reclaim_stmt win limit reason)" "stmt_ok ledger_timed (purge_stmt q)"
  by (rule stmt_okI,
      auto simp: reclaim_stmt_def purge_stmt_def Let_def leaves_stamp_updates
        intro!: stamps_write dest!: hook_update_timed split: if_splits sum.splits prod.splits)+

lemmas ledger_timed_stmts = claim_timed mark_timed retry_claim_timed scan_timed

interpretation timed_billing: billing_relation ledger_timed
  by unfold_locales
     ((rule ledger_timed_stmts ledger_timed_same ledger_timed_trans; (assumption | rule refl)?)+,
      (auto intro!: stmt_okI ledger_timed_same dest!: sub_frames user_frames)+)

interpretation timed_tokens: token_relation ledger_timed
  by unfold_locales (simp add: ledger_timed_same)

interpretation timed_app: app_relation ledger_timed
  by unfold_locales

interpretation timed_retention: retention_relation ledger_timed
  by unfold_locales

section \<open>Taking a claim\<close>

text \<open>
  The two ways to take the claim of an event: the delivery of the event, and the retry of the
  sweeper. \<open>seen_by\<close> is the database the claiming statement runs on, after whatever other
  processes did before it.
\<close>

definition takes_claim :: "jsonlib \<Rightarrow> duration \<Rightarrow> string \<Rightarrow> world \<Rightarrow> world \<Rightarrow> bool" where
  "takes_claim J win e W W' \<longleftrightarrow>
     (\<exists>w r. w_EventID w = e \<and> run_state (TryClaimEvent J win w) W = (Inr (True, r), W')) \<or>
     (\<exists>m. run_state (ClaimEventForRetry e m) W = (Inr True, W'))"

definition seen_by :: "world \<Rightarrow> db" where
  "seen_by W = (let (s, W1) = next_step W in es_others s (w_db W1))"

lemma run_stmt_granted:
  assumes "run_state (run_stmt body) W = (Inr a, W')"
  shows "\<exists>s. body s (seen_by W) = Inr (a, w_db W') \<and> advances W W'"
  using assms
  by (auto simp: run_stmt_def exec_def seen_by_def Let_def next_step_def advances_def suffix_def
      split: prod.splits fault.splits sum.splits list.splits)


text \<open>The row a claiming UPDATE returns is a row it selected, claimed again.\<close>

lemma bump_changes: "(to_processing r)\<lparr>h_attempts := h_attempts r + 1\<rparr> \<noteq> r"
proof
  assume "(to_processing r)\<lparr>h_attempts := h_attempts r + 1\<rparr> = r"
  then have "h_attempts ((to_processing r)\<lparr>h_attempts := h_attempts r + 1\<rparr>) = h_attempts r" by simp
  then show False by simp
qed

lemma hook_bump_claims: "hook_bump d to_processing r = Inr h \<Longrightarrow> h = claimed_again d r"
  using bump_changes [of r]
  by (auto simp: hook_bump_def hook_write_def write_row_ok claimed_again_def touch_hook_def to_processing_def
      split: if_splits)

lemma bump_update_hit:
  assumes "hook_update P (hook_bump d to_processing) d = Inr (h # hit, d')"
  shows "\<exists>r \<in> set (hooks d). P r \<and> h = claimed_again d r \<and> h \<in> set (hooks d') \<and> clock d' = clock d"
proof -
  obtain all where upd: "sql_update P (hook_bump d to_processing) (hooks d) = Inr (h # hit, all)"
    and d': "d' = d\<lparr>hooks := all\<rparr>"
    using assms by (auto simp: hook_update_def split: sum.splits)
  obtain r where "r \<in> set (filter P (hooks d))" "hook_bump d to_processing r = Inr h"
    using sql_update_hit [OF upd] unfolding list_all2_Cons2 by (metis list.set_intros(1))
  then show ?thesis using sql_update_hit_sub [OF upd] hook_bump_claims by (auto simp: d')
qed

text \<open>
  Whoever takes a claim finds no row of the event, or one that failed or whose stamp is older
  than the window, and leaves the row in flight with its stamp at the present.
\<close>

definition claims_row :: "duration \<Rightarrow> string \<Rightarrow> db \<Rightarrow> hook_row \<Rightarrow> bool" where
  "claims_row win e d h \<longleftrightarrow> held e h \<and> h_updated_at h = clock d \<and>
     ((\<forall>r \<in> set (hooks d). h_event_id r \<noteq> e) \<or>
      (\<exists>r \<in> set (hooks d). h_event_id r = e \<and> claimable (clock d) win r \<and> h = claimed_again d r))"

lemma claims_rowI:
  "r \<in> set (hooks d) \<Longrightarrow> h_event_id r = e \<Longrightarrow> claimable (clock d) win r \<Longrightarrow> claims_row win e d (claimed_again d r)"
  by (auto simp: claims_row_def held_def claimed_again_def)

lemma claim_stmt_claims:
  assumes "claim_stmt J win w s d = Inr (h, d')"
  shows "claims_row win (w_EventID w) d h \<and> h \<in> set (hooks d') \<and> clock d' = clock d"
  using assms
proof (cases rule: claim_stmt_cases)
  case (new p)
  then show ?thesis by (auto simp: claims_row_def held_def claim_row_def find_None_iff)
next
  case (again hit)
  from bump_update_hit [OF this] show ?thesis by (auto intro: claims_rowI)
qed

lemma retry_claim_claims:
  assumes "retry_claim_stmt e m s d = Inr (hit, d')" "length hit = 1"
  shows "\<exists>h. claims_row win e d h \<and> h \<in> set (hooks d') \<and> clock d' = clock d"
proof -
  obtain h where "hit = [h]" using assms(2) by (auto simp: length_Suc_conv)
  from bump_update_hit [OF assms(1) [unfolded retry_claim_stmt_def this]] obtain r where
    "r \<in> set (hooks d)" "h_event_id r = e" "h_status r = WebhookFailed" "h = claimed_again d r" "h \<in> set (hooks d')"
    "clock d' = clock d" by blast
  then show ?thesis using claims_rowI [of r d e win] by (auto simp: claimable_def)
qed

lemma claim_taken:
  assumes "takes_claim J win e W W'"
  shows "\<exists>h. claims_row win e (seen_by W) h \<and> h \<in> set (hooks (w_db W')) \<and> clock (w_db W') = clock (seen_by W)"
  using assms unfolding takes_claim_def
proof (elim disjE exE conjE)
  fix w r
  assume e: "w_EventID w = e" and run: "run_state (TryClaimEvent J win w) W = (Inr (True, r), W')"
  obtain c W1 where c: "run_state (run_stmt (claim_stmt J win w)) W = (c, W1)" by fastforce
  with run obtain h where "c = Inr h" "W1 = W'"
    by (auto simp: TryClaimEvent_def split: option.splits sum.splits if_splits)
  with run_stmt_granted [of "claim_stmt J win w"] c claim_stmt_claims show ?thesis unfolding e [symmetric] by blast
next
  fix m
  assume run: "run_state (ClaimEventForRetry e m) W = (Inr True, W')"
  obtain c W1 where c: "run_state (run_stmt (retry_claim_stmt e m)) W = (c, W1)" by fastforce
  with run obtain hit where "c = Inr hit" "W1 = W'" "length hit = 1"
    by (auto simp: ClaimEventForRetry_def split: sum.splits)
  with run_stmt_granted [of "retry_claim_stmt e m"] c retry_claim_claims show ?thesis by blast
qed

end
