(* ===== verification/Service_Steps.thy ===== *)
theory Service_Steps
  imports Api Delivery Ledger_Clock
begin

text \<open>
  The running service as a step relation: it serves requests, its sweeper and its retention
  worker, where they are enabled, make their passes, and between them anything else may happen to the database that
  respects what every replica respects. Inside one step the plan of the world interleaves
  the other replicas with every statement, so a step is not atomic for the database.

  The properties: what happens to a settled event, to a subscription's cursors and to a
  session that has ended along every run, and that two claims of one event exclude each
  other while the window of the first lasts.
\<close>

section \<open>Steps\<close>

record system =
  sy_app :: app
  sy_router :: RouterConfig
  sy_sweeper :: "WebhookSweeper option"
  sy_retention :: "RetentionWorker option"

datatype activity = Serve Request | SweepPass | RetentionPass | Elsewhere

text \<open>What other replicas, and time, may do to the database.\<close>

definition tables_ok :: "db \<Rightarrow> db \<Rightarrow> bool" where
  "tables_ok d d' \<longleftrightarrow>
     ledger_sound d d' \<and> subs_evolve d d' \<and> users_kept d d' \<and> tokens_sound d d' \<and> ledger_timed d d'"

inductive service_step :: "system \<Rightarrow> world \<Rightarrow> activity \<Rightarrow> world \<Rightarrow> bool" for S where
  serve: "run_state (NewRouter (sy_app S) (sy_router S) r new_writer) W = (x, W') \<Longrightarrow> service_step S W (Serve r) W'"
| sweep: "sy_sweeper S = Some s \<Longrightarrow> run_state (Sweep s) W = (y, W') \<Longrightarrow> service_step S W SweepPass W'"
| retention: "sy_retention S = Some w \<Longrightarrow> run_state (RunOnce w fuel) W = (Some z, W') \<Longrightarrow> service_step S W RetentionPass W'"
| elsewhere: "tables_ok (w_db W) d \<Longrightarrow> env_ok tables_ok V \<Longrightarrow>
    service_step S W Elsewhere (W\<lparr>w_db := d, w_plan := w_plan V, w_polls := w_polls V\<rparr>)"

inductive service_run :: "system \<Rightarrow> world \<Rightarrow> activity list \<Rightarrow> world \<Rightarrow> bool" for S where
  start: "service_run S W [] W"
| step: "service_run S W as W1 \<Longrightarrow> service_step S W1 a W2 \<Longrightarrow> service_run S W (as @ [a]) W2"

inductive_cases service_stepE: "service_step S W a W'"
inductive_simps service_step_simps [simp]:
  "service_step S W SweepPass W'" "service_step S W RetentionPass W'" "service_step S W (Serve r) W'"

section \<open>Every step respects the tables\<close>

text \<open>Each table's relation is one the router, the sweeper and the retention worker keep.\<close>

locale service_relation = app_relation R + retention_relation R for R :: "db \<Rightarrow> db \<Rightarrow> bool"
begin

lemma kept_refl: "R d d" and kept_trans: "R a b \<Longrightarrow> R b c \<Longrightarrow> R a c"
  by (rule R_refl) (rule R_trans)

lemma step_keeps:
  assumes "service_step S W a W'" "a \<noteq> Elsewhere" "env_ok R W"
  shows "R (w_db W) (w_db W') \<and> advances W W'"
  using assms(1)
proof (cases rule: service_step.cases)
  case (serve r x)
  then show ?thesis using keepsD [OF keeps_NewRouter assms(3)] by blast
next
  case (sweep s y)
  then show ?thesis using keepsD [OF sweeping.keeps_Sweep [OF refl] assms(3)] by blast
next
  case (retention w fuel z)
  then show ?thesis using keepsD [OF keeps_RunOnce assms(3)] by blast
qed (use assms(2) in simp)

text \<open>The same of taking a claim, and of what happens just before one.\<close>

lemma claim_keeps:
  assumes "takes_claim J win e W W'" "env_ok R W"
  shows "R (w_db W) (w_db W') \<and> advances W W'"
  using assms(1) keepsD [OF keeps_TryClaimEvent assms(2)] keepsD [OF keeps_ClaimForRetry assms(2)]
  unfolding takes_claim_def by blast

lemma seen_kept: "env_ok R W \<Longrightarrow> R (w_db W) (seen_by W)"
  using others_ok [of W "fst (next_step W)" "snd (next_step W)" "w_db W"]
  by (auto simp: seen_by_def next_step_def split: list.splits)

end

context service_relation
begin

text \<open>The same along a run in which the other replicas are heard through the plan only.\<close>

lemma run_keeps:
  assumes "service_run S W as W'" "Elsewhere \<notin> set as" "env_ok R W"
  shows "R (w_db W) (w_db W') \<and> env_ok R W'"
  using assms
proof (induction rule: service_run.induct)
  case (start W)
  then show ?case by (simp add: kept_refl)
next
  case (step W as W1 a W2)
  then have 1: "R (w_db W) (w_db W1)" "env_ok R W1" by auto
  then have 2: "R (w_db W1) (w_db W2)" "advances W1 W2" using step_keeps [OF step.hyps(2)] step.prems(1) by auto
  show ?case using kept_trans [OF 1(1) 2(1)] advances_env_ok [OF 2(2) 1(2)] by blast
qed

end

interpretation ledger_service: service_relation ledger_sound
  by unfold_locales

interpretation cursor_service: service_relation subs_evolve
  by unfold_locales

interpretation account_service: service_relation users_kept
  by unfold_locales

interpretation token_service: service_relation tokens_sound
  by unfold_locales

interpretation timed_service: service_relation ledger_timed
  by unfold_locales

interpretation session_app: app_relation sessions_kept
  by unfold_locales (auto intro!: stmt_okI sessions_kept_same dest!: sub_frames hook_frames user_frames)

interpretation session_service: service_relation sessions_kept
  by unfold_locales

lemmas kept_refls = ledger_service.kept_refl cursor_service.kept_refl account_service.kept_refl
  token_service.kept_refl timed_service.kept_refl

lemmas kept_trans = ledger_service.kept_trans cursor_service.kept_trans account_service.kept_trans
  token_service.kept_trans timed_service.kept_trans

lemmas steps_keep = ledger_service.step_keeps cursor_service.step_keeps account_service.step_keeps
  token_service.step_keeps timed_service.step_keeps

lemmas claims_keep = ledger_service.claim_keeps cursor_service.claim_keeps account_service.claim_keeps
  token_service.claim_keeps timed_service.claim_keeps

lemmas seen_kepts = ledger_service.seen_kept cursor_service.seen_kept account_service.seen_kept
  token_service.seen_kept timed_service.seen_kept

lemma env_ok_tables:
  "env_ok tables_ok W \<longleftrightarrow>
     env_ok ledger_sound W \<and> env_ok subs_evolve W \<and> env_ok users_kept W \<and> env_ok tokens_sound W \<and>
     env_ok ledger_timed W"
  by (auto simp: env_ok_def tables_ok_def)

lemma tables_ok_trans: "tables_ok a b \<Longrightarrow> tables_ok b c \<Longrightarrow> tables_ok a c"
  unfolding tables_ok_def by (meson kept_trans)

lemma tables_ok_refl: "tables_ok d d"
  by (simp add: tables_ok_def kept_refls)

lemma service_step_ok:
  assumes "service_step S W a W'" "env_ok tables_ok W"
  shows "tables_ok (w_db W) (w_db W') \<and> env_ok tables_ok W'"
proof (cases "a = Elsewhere")
  case True
  with assms(1) show ?thesis by (cases rule: service_step.cases) (auto simp: env_ok_def)
next
  case False
  note e = assms(2) [unfolded env_ok_tables]
  have "ledger_sound (w_db W) (w_db W')" "subs_evolve (w_db W) (w_db W')" "users_kept (w_db W) (w_db W')"
    "tokens_sound (w_db W) (w_db W')" "ledger_timed (w_db W) (w_db W')" and adv: "advances W W'"
    using steps_keep [OF assms(1) False] e by blast+
  then show ?thesis using advances_env_ok [OF adv assms(2)] by (simp add: tables_ok_def)
qed

lemma service_run_ok:
  assumes "service_run S W as W'" "env_ok tables_ok W"
  shows "tables_ok (w_db W) (w_db W') \<and> env_ok tables_ok W'"
  using assms
proof (induction rule: service_run.induct)
  case (start W)
  then show ?case by (simp add: tables_ok_refl)
next
  case (step W as W1 a W2)
  then show ?case using service_step_ok tables_ok_trans by blast
qed

section \<open>Properties\<close>

definition consistent :: "db \<Rightarrow> bool" where
  "consistent d \<longleftrightarrow>
     hooks_wf d \<and> users_wf (users d) \<and> sids_unique d \<and> tokens_wf (tokens d) \<and> stamped d"

lemma tables_ok_consistent: "tables_ok d d' \<Longrightarrow> consistent d \<Longrightarrow> consistent d'"
  by (auto simp: tables_ok_def consistent_def ledger_sound_def ledger_timed_def users_kept_def tokens_sound_def subs_evolve_def
      sids_unique_def table_grows_def)

text \<open>
  So along every run from a consistent database, after any requests with any bodies, sweeps and
  retention passes in any order, with the statements of other replicas interleaved, replies
  lost and connections broken, the database is consistent: what the checks and unique indexes
  of the ledger, the accounts and the refresh tokens say and the unique Stripe ids, which the
  database enforces itself, and that no ledger row is stamped later than the database's clock.
\<close>

lemma reachable_states_consistent:
  assumes "service_run S W as W'" "env_ok tables_ok W" "consistent (w_db W)"
  shows "consistent (w_db W')"
  using service_run_ok [OF assms(1,2)] assms(3) tables_ok_consistent by blast

text \<open>
  C6 (an ended session stays ended). Take a refresh token that has been exchanged or revoked, by
  a renewal, a sign-out or the detection of a reuse. After any requests, sweeps and retention
  passes in any order, with the statements of other replicas interleaved that keep the same of
  their sessions, and with faults, a row with its hash is still its row, of the same account
  and family and still exchanged or revoked as it was; and presenting the token then, with no
  other work in the way, never yields a session. The one exception both allow is a row with
  the same hash that was issued anew since.
\<close>

theorem ended_sessions_stay_ended:
  assumes "service_run S W as W'" "Elsewhere \<notin> set as" "env_ok sessions_kept W" "env_ok tokens_sound W"
    and "tokens_wf (tokens (w_db W))" "t \<in> set (tokens (w_db W))" "t_UsedAt t \<noteq> None \<or> t_RevokedAt t \<noteq> None"
  shows "(\<forall>t' \<in> set (tokens (w_db W')). t_TokenHash t' = t_TokenHash t \<longrightarrow>
            clock (w_db W) \<le> t_CreatedAt t' \<or>
            t_UserID t' = t_UserID t \<and> t_FamilyID t' = t_FamilyID t \<and>
            (t_UsedAt t \<noteq> None \<longrightarrow> t_UsedAt t' \<noteq> None) \<and> (t_RevokedAt t \<noteq> None \<longrightarrow> t_RevokedAt t' \<noteq> None)) \<and>
         (\<forall>A presented a W''. w_plan W' = [] \<longrightarrow> HashRefreshToken presented = t_TokenHash t \<longrightarrow>
            run_state (Refresh A presented) W' = (Inr a, W'') \<longrightarrow>
            (\<exists>t' \<in> set (tokens (w_db W')). t_TokenHash t' = t_TokenHash t \<and> clock (w_db W) \<le> t_CreatedAt t'))"
proof -
  have kept: "sessions_kept (w_db W) (w_db W')" and wf: "tokens_wf (tokens (w_db W'))"
    using session_service.run_keeps [OF assms(1-3)] token_service.run_keeps [OF assms(1,2,4)] assms(5)
    by (auto simp: tokens_sound_def)
  have evolves: "clock (w_db W) \<le> t_CreatedAt t' \<or> session_evolves t t'"
    if t': "t' \<in> set (tokens (w_db W'))" "t_TokenHash t' = t_TokenHash t" for t'
  proof (rule disjCI)
    assume "\<not> session_evolves t t'"
    moreover have "x = t" if "x \<in> set (tokens (w_db W))" "session_evolves x t'" for x
      using that t'(2) assms(5,6) by (auto simp: tokens_wf_def distinct_map session_evolves_def dest: inj_onD)
    ultimately show "clock (w_db W) \<le> t_CreatedAt t'" using kept t'(1) by (auto simp: sessions_kept_def)
  qed
  have "\<exists>t' \<in> set (tokens (w_db W')). t_TokenHash t' = t_TokenHash t \<and> clock (w_db W) \<le> t_CreatedAt t'"
    if quiet: "w_plan W' = []" and h: "HashRefreshToken presented = t_TokenHash t"
      and run: "run_state (Refresh A presented) W' = (Inr a, W'')" for A presented a W''
  proof -
    obtain buf stored W1 where c: "run_state (ConsumeRefreshToken (renewal A presented buf (clock (w_db W')))) (drawn W') = (Inr stored, W1)"
      by (rule Refresh_exchanges [OF quiet run])
    then obtain p where p: "p \<in> set (tokens (w_db W'))" "t_TokenHash p = HashRefreshToken presented" "live_token p"
      using exchanged_was_live [OF _ _ c] quiet wf by (auto simp: renewal_def)
    then show ?thesis using evolves [OF p(1)] assms(7) h by (auto simp: session_evolves_def live_token_def)
  qed
  then show ?thesis using evolves unfolding session_evolves_def by blast
qed

definition deployment :: system where
  "deployment =
     \<lparr>sy_app = shop, sy_router = shop_config, sy_sweeper = Some sample_sweeper,
      sy_retention = Some (NewRetentionWorker True
        \<lparr>rc_Interval = 0, rc_SettledAfter = 0, rc_UnsettledAfter = 0, rc_BatchSize = 0, rc_RefreshTokenGrace = 0\<rparr>)\<rparr>"

lemma sample_consistent: "consistent (sample_db st)"
  using sample_db_wf [of st] by (simp add: consistent_def users_wf_def sids_unique_def tokens_wf_def stamped_def sample_defs unix_def second_def)

lemma sample_run: "\<exists>W'. service_run deployment (quiet (sample_db st)) [Serve webhook_request, SweepPass] W'"
proof -
  obtain x W1 where 1: "run_state (NewRouter (sy_app deployment) (sy_router deployment) webhook_request new_writer)
      (quiet (sample_db st)) = (x, W1)" by fastforce
  obtain y W2 where 2: "run_state (Sweep sample_sweeper) W1 = (y, W2)" by fastforce
  have "service_run deployment (quiet (sample_db st)) (([] @ [Serve webhook_request]) @ [SweepPass]) W2"
    by (rule service_run.step [OF service_run.step [OF service_run.start service_step.serve [OF 1]] service_step.sweep [OF _ 2]])
       (simp add: deployment_def)
  then show ?thesis by auto
qed

text \<open>Handling webhooks leaves the sessions alone.\<close>

definition tokens_same :: "db \<Rightarrow> db \<Rightarrow> bool" where
  "tokens_same d d' \<longleftrightarrow> tokens d' = tokens d"

interpretation billing_sessions: billing_relation tokens_same
  by unfold_locales (auto simp: tokens_same_def intro!: stmt_okI dest!: sub_frames hook_frames user_frames)

text \<open>A token that was signed out, and a pass of the sweeper that goes by.\<close>

definition signed_out_db :: "string \<Rightarrow> db" where
  "signed_out_db tok = (token_db None)\<lparr>tokens := [(sample_token None)\<lparr>t_TokenHash := HashRefreshToken tok,
     t_RevokedAt := Some (unix 400), t_RevokedReason := Some ''signed out''\<rparr>]\<rparr>"

theorem ended_sessions_stay_ended_witness:
  "\<exists>W'. service_run deployment (quiet (signed_out_db ''tok'')) [SweepPass] W' \<and>
     (\<exists>e. fst (run_state (Refresh Auth_Service.sample_service ''tok'') W') = Inl e)"
proof -
  let ?W = "quiet (signed_out_db ''tok'')"
  let ?t = "(sample_token None)\<lparr>t_TokenHash := HashRefreshToken ''tok'', t_RevokedAt := Some (unix 400),
     t_RevokedReason := Some ''signed out''\<rparr>"
  obtain y W' where sweep: "run_state (Sweep sample_sweeper) ?W = (y, W')" by fastforce
  have "service_run deployment ?W ([] @ [SweepPass]) W'"
    by (rule service_run.step [OF service_run.start service_step.sweep [OF _ sweep]]) (simp add: deployment_def)
  then have run: "service_run deployment ?W [SweepPass] W'" by simp
  have tokens: "tokens (w_db ?W) = [?t]" by (simp add: signed_out_db_def)
  have after: "tokens (w_db W') = [?t]" "w_plan W' = []"
    using keepsD [OF billing_sessions.sweeping.keeps_Sweep [OF refl] _ sweep] advances_quiet tokens
    by (auto simp: tokens_same_def env_ok_def)
  have wf: "tokens_wf (tokens (w_db ?W))"
    using session_db_wf [of "''tok''"] unfolding tokens by (simp add: tokens_wf_def session_db_def passes_def token_checks_def)
  have "t_CreatedAt ?t < clock (w_db ?W)" by (simp add: signed_out_db_def token_db_def sample_token_def)
  then have "run_state (Refresh Auth_Service.sample_service ''tok'') W' \<noteq> (Inr a, W'')" for a W''
    using ended_sessions_stay_ended [OF run _ _ _ wf, of ?t] tokens after by (auto simp: env_ok_def)
  then show ?thesis using run by (metis obj_sumE prod.collapse)
qed

text \<open>
  C9 (history is kept). Along every such run no event and no subscription disappears. An event
  that is settled keeps its status, attempts, processing time and error text, and the
  attempts of any event only grow; a subscription keeps its identity, its owner and its
  customer, and the cursors that order its status and its invoice events never move back.
\<close>

theorem history_is_kept:
  assumes "service_run S W as W'" "env_ok tables_ok W" "ids_unique (w_db W)" "sids_unique (w_db W)"
  shows "(\<forall>h \<in> set (hooks (w_db W)). \<exists>h' \<in> set (hooks (w_db W')).
            h_event_id h' = h_event_id h \<and> h_attempts h \<le> h_attempts h' \<and>
            (settled_status (h_status h) \<longrightarrow>
               h_status h' = h_status h \<and> h_attempts h' = h_attempts h \<and> h_processed_at h' = h_processed_at h \<and>
               h_last_error h' = h_last_error h)) \<and>
         (\<forall>s \<in> set (subs (w_db W)). \<exists>s' \<in> set (subs (w_db W')).
            s_StripeSubscriptionID s' = s_StripeSubscriptionID s \<and> s_UserID s' = s_UserID s \<and>
            s_StripeCustomerID s' = s_StripeCustomerID s \<and>
            cursor_le (s_LastStripeEventAt s) (s_LastStripeEventAt s') \<and>
            cursor_le (s_LastInvoiceEventAt s) (s_LastInvoiceEventAt s'))"
proof (intro conjI ballI)
  have ok: "ledger_grows (w_db W) (w_db W')" "subs_evolve (w_db W) (w_db W')"
    using service_run_ok [OF assms(1,2)] by (simp_all add: tables_ok_def ledger_sound_def)
  fix h
  assume "h \<in> set (hooks (w_db W))"
  from ledger_grows_row [OF ok(1) assms(3) this]
  show "\<exists>h' \<in> set (hooks (w_db W')). h_event_id h' = h_event_id h \<and> h_attempts h \<le> h_attempts h' \<and>
      (settled_status (h_status h) \<longrightarrow> h_status h' = h_status h \<and> h_attempts h' = h_attempts h \<and>
         h_processed_at h' = h_processed_at h \<and> h_last_error h' = h_last_error h)"
    by (auto simp: hook_evolves_def)
next
  have ok: "subs_evolve (w_db W) (w_db W')" using service_run_ok [OF assms(1,2)] by (simp add: tables_ok_def)
  fix s
  assume "s \<in> set (subs (w_db W))"
  from subs_evolve_row [OF ok assms(4) this]
  show "\<exists>s' \<in> set (subs (w_db W')). s_StripeSubscriptionID s' = s_StripeSubscriptionID s \<and> s_UserID s' = s_UserID s \<and>
      s_StripeCustomerID s' = s_StripeCustomerID s \<and> cursor_le (s_LastStripeEventAt s) (s_LastStripeEventAt s') \<and>
      cursor_le (s_LastInvoiceEventAt s) (s_LastInvoiceEventAt s')"
    by (auto simp: sub_evolves_def)
qed

theorem history_is_kept_witness:
  "\<exists>W'. service_run deployment (quiet (sample_db WebhookSucceeded)) [Serve webhook_request, SweepPass] W' \<and>
     (\<exists>h \<in> set (hooks (w_db W')). h_event_id h = ''evt_1'' \<and> h_status h = WebhookSucceeded)"
proof -
  obtain W' where run: "service_run deployment (quiet (sample_db WebhookSucceeded)) [Serve webhook_request, SweepPass] W'"
    using sample_run by blast
  have "ids_unique (sample_db WebhookSucceeded)" "sids_unique (sample_db WebhookSucceeded)"
    using sample_consistent by (auto simp: consistent_def hooks_wf_def)
  with history_is_kept [OF run] obtain h where "h \<in> set (hooks (w_db W'))" "h_event_id h = ''evt_1''"
      "h_status h = WebhookSucceeded"
    by (auto simp: env_ok_def sample_defs settled_status_def)
  then show ?thesis using run by blast
qed

section \<open>Claims exclude each other\<close>

lemma takes_claim_ok:
  assumes "takes_claim J win e W W'" "env_ok tables_ok W"
  shows "tables_ok (w_db W) (w_db W') \<and> env_ok tables_ok W'"
proof -
  note env = assms(2) [unfolded env_ok_tables]
  have "tables_ok (w_db W) (w_db W')" "advances W W'"
    using claims_keep [OF assms(1)] env unfolding tables_ok_def by blast+
  then show ?thesis using advances_env_ok [OF _ assms(2)] by blast
qed

lemma seen_by_ok: "env_ok tables_ok W \<Longrightarrow> tables_ok (w_db W) (seen_by W)"
  using seen_kepts unfolding env_ok_tables tables_ok_def by blast

text \<open>The row of an event in flight, some time later: its attempts have not fallen, nor its stamp.\<close>

lemma held_row_later:
  assumes "tables_ok d d'" "consistent d" "h \<in> set (hooks d)"
  shows "\<exists>h' \<in> set (hooks d'). hook_evolves h h' \<and> h_updated_at h \<le> h_updated_at h'"
proof -
  have d: "ids_unique d" "stamped d" and g: "ledger_grows d d'" "ledger_timed d d'"
    using assms(1,2) by (auto simp: consistent_def hooks_wf_def tables_ok_def ledger_sound_def)
  obtain h1 where h1: "h1 \<in> set (hooks d')" "hook_evolves h h1" by (rule bexE [OF ledger_grows_row [OF g(1) d(1) assms(3)]])
  obtain h2 where h2: "h2 \<in> set (hooks d')" "hook_timed h h2"
    by (rule bexE [OF ledger_timed_row [OF g(2) d(2,1) assms(3)]])
  have "h2 = h1"
    by (rule same_id_unique [OF ledger_grows_unique [OF g(1) d(1)] h1(1) h2(1)])
       (use h1(2) h2(2) in \<open>simp add: hook_timed_def hook_evolves_key\<close>)
  then show ?thesis using h1 h2 by (auto simp: hook_timed_def)
qed

text \<open>
  C2 (claims exclude each other). Let a worker take the claim of an event, by a delivery or by
  a retry of the sweeper, and let any worker take it again after any run of the service, with
  the other replicas interleaved. Then the second claim counts a later attempt, and it was
  taken from a row that had been marked failed, or more than the second worker's stale window
  after the first claim, by the clock of the database. So two workers hold one event only if
  the first outlived the window.
\<close>

theorem claims_are_exclusive:
  assumes "takes_claim J win e W0 W1" "service_run S W1 as W2" "takes_claim J' win' e W2 W3"
    and "env_ok tables_ok W0" "consistent (w_db W0)"
  shows "\<exists>h1 \<in> set (hooks (w_db W1)). \<exists>h \<in> set (hooks (seen_by W2)). \<exists>h3 \<in> set (hooks (w_db W3)).
     held e h1 \<and> held e h3 \<and> h_event_id h = e \<and>
     h_attempts h1 \<le> h_attempts h \<and> h_attempts h3 = h_attempts h + 1 \<and>
     (h_status h = WebhookFailed \<or> clock (w_db W1) + win' < clock (w_db W3))"
proof -
  obtain h1 where h1: "claims_row win e (seen_by W0) h1" "h1 \<in> set (hooks (w_db W1))"
    and c1: "clock (w_db W1) = clock (seen_by W0)" using claim_taken [OF assms(1)] by blast
  obtain h3 where h3: "claims_row win' e (seen_by W2) h3" "h3 \<in> set (hooks (w_db W3))"
    and c3: "clock (w_db W3) = clock (seen_by W2)" using claim_taken [OF assms(3)] by blast
  note ok1 = takes_claim_ok [OF assms(1,4)]
  note ok2 = service_run_ok [OF assms(2) conjunct2 [OF ok1]]
  have cons1: "consistent (w_db W1)" using ok1 assms(5) tables_ok_consistent by blast
  have ok: "tables_ok (w_db W1) (seen_by W2)" using ok2 seen_by_ok tables_ok_trans by blast
  obtain h where h: "h \<in> set (hooks (seen_by W2))" "hook_evolves h1 h" "h_updated_at h1 \<le> h_updated_at h"
    using held_row_later [OF ok cons1 h1(2)] by blast
  have e: "h_event_id h = e" using h(2) h1(1) by (simp add: hook_evolves_key claims_row_def held_def)
  obtain r where r: "r \<in> set (hooks (seen_by W2))" "h_event_id r = e" "claimable (clock (seen_by W2)) win' r"
    "h3 = claimed_again (seen_by W2) r" using h3(1) h(1) e by (auto simp: claims_row_def)
  have "ids_unique (seen_by W2)" using tables_ok_consistent [OF ok cons1] by (simp add: consistent_def hooks_wf_def)
  then have "r = h" by (rule same_id_unique [OF _ h(1) r(1)]) (simp add: r(2) e)
  then have "h_status h = WebhookFailed \<or> clock (w_db W1) + win' < clock (w_db W3)" "h_attempts h3 = h_attempts h + 1"
    using r(3,4) h(3) h1(1) c1 c3 by (auto simp: claimable_def claims_row_def claimed_again_def)
  moreover have "held e h1" "held e h3" "h_attempts h1 \<le> h_attempts h"
    using h1(1) h3(1) h(2) by (simp_all add: claims_row_def hook_evolves_def)
  ultimately show ?thesis using h1(2) h(1) h3(2) e by blast
qed

text \<open>A worker takes a failed event and goes silent; six minutes later another takes it over.\<close>

lemma quiet_claim:
  assumes "w_plan W = []" "hooks_wf (w_db W)" "hooks (w_db W) = [h]" "h_event_id h = ''evt_1''"
    and "claimable (clock (w_db W)) win h" "h_attempts h < int4_max"
  shows "takes_claim sample_jsonlib win ''evt_1'' W (W\<lparr>w_db := replace_hook (claimed_again (w_db W) h) (w_db W)\<rparr>)"
proof -
  have "claim_stmt sample_jsonlib win sample_hook s (w_db W) =
      Inr (claimed_again (w_db W) h, replace_hook (claimed_again (w_db W) h) (w_db W))" for s
    using claim_stmt_existing [OF assms(2), of sample_hook h sample_jsonlib "Some (JObj [(''id'', JStr ''{}'')])" win s]
      assms(3-6) sample_hook_valid
    by (simp add: sample_hook_def sample_jsonlib_def jsonb_arg_def payloadOrNil_def)
  then have "\<exists>r. run_state (TryClaimEvent sample_jsonlib win sample_hook) W =
      (Inr (True, r), W\<lparr>w_db := replace_hook (claimed_again (w_db W) h) (w_db W)\<rparr>)"
    using assms(1) sample_hook_valid(1) by (simp add: TryClaimEvent_def run_stmt_quiet)
  then show ?thesis unfolding takes_claim_def by (metis sample_hook_def ProcessedWebhook.select_convs(1))
qed

lemma tables_ok_later: "clock d \<le> t \<Longrightarrow> tables_ok d (d\<lparr>clock := t\<rparr>)"
  by (auto simp: tables_ok_def ledger_sound_same users_kept_def tokens_sound_def ledger_timed_def stamped_def
      timed_rows.grows_refl)

theorem claims_are_exclusive_witness:
  "\<exists>W1 W2 W3. takes_claim sample_jsonlib (5 * minute) ''evt_1'' (quiet (sample_db WebhookFailed)) W1 \<and>
     service_run deployment W1 [Elsewhere] W2 \<and>
     takes_claim sample_jsonlib (5 * minute) ''evt_1'' W2 W3 \<and>
     (\<exists>h \<in> set (hooks (w_db W3)). h_attempts h = 3 \<and> held ''evt_1'' h)"
proof -
  let ?W0 = "quiet (sample_db WebhookFailed)"
  let ?h0 = "sample_row WebhookFailed"
  let ?h1 = "claimed_again (sample_db WebhookFailed) ?h0"
  let ?d1 = "replace_hook ?h1 (sample_db WebhookFailed)"
  let ?d2 = "?d1\<lparr>clock := clock ?d1 + 6 * minute\<rparr>"
  define W1 where "W1 = ?W0\<lparr>w_db := ?d1\<rparr>"
  define W2 where "W2 = W1\<lparr>w_db := ?d2, w_plan := w_plan ?W0, w_polls := w_polls ?W0\<rparr>"
  have c1: "takes_claim sample_jsonlib (5 * minute) ''evt_1'' ?W0 W1"
    unfolding W1_def using quiet_claim [of ?W0 ?h0 "5 * minute"] sample_db_wf [of WebhookFailed]
    by (simp add: claimable_def sample_defs int4_max_def)
  have env: "env_ok tables_ok ?W0" by simp
  note ok = takes_claim_ok [OF c1 env]
  have later: "tables_ok (w_db W1) ?d2" unfolding W1_def
    by (simp, rule tables_ok_later) (simp add: minute_def second_def)
  then have "service_step deployment W1 Elsewhere W2"
    unfolding W2_def using env by (rule service_step.elsewhere)
  from service_run.step [OF service_run.start this] have run: "service_run deployment W1 [Elsewhere] W2" by simp
  have "hooks_wf (w_db W2)"
    using tables_ok_consistent [OF tables_ok_trans [OF conjunct1 [OF ok] later]] sample_consistent
    by (simp add: consistent_def W2_def)
  then have c3: "takes_claim sample_jsonlib (5 * minute) ''evt_1'' W2
      (W2\<lparr>w_db := replace_hook (claimed_again (w_db W2) ?h1) (w_db W2)\<rparr>)"
    by (intro quiet_claim)
       (simp_all add: W2_def replace_hook_def claimed_again_def sample_defs claimable_def int4_max_def
          minute_def second_def)
  have "h_attempts h = 2" if "h \<in> set (hooks (seen_by W2))" for h
    using that by (simp add: seen_by_def next_step_def W2_def replace_hook_def claimed_again_def sample_defs)
  then show ?thesis
    using claims_are_exclusive [OF c1 run c3 env] sample_consistent c1 run c3 by fastforce
qed

end
