(* ===== verification/Conversions.thy ===== *)
theory Conversions
  imports Exec Complex_Main
begin

text \<open>
  Text and numbers, as the configuration loader reads and prints them: \<open>strconv.Atoi\<close> and
  \<open>strconv.ParseBool\<close>, \<open>time.Duration.String\<close> and \<open>time.ParseDuration\<close>, which
  internal/config/config.go calls for every typed variable, for its messages and for its boot
  log line.

  \<open>ParseDuration\<close> works on unsigned 64-bit integers, written out with their wrap-around, and
  scales a fraction in float64. A float64 is the rational it denotes; \<open>float64\<close> rounds to 53
  bits, ties to even. The range of the exponent is left out: only the scale of a fraction with
  more than three hundred leading zeros leaves it, and such a fraction is cut to nothing either
  way.

  The last section shows that both printers are read back exactly, for every 64-bit value.
\<close>

section \<open>Numbers\<close>

definition digit :: "char \<Rightarrow> bool" where
  "digit c \<longleftrightarrow> 48 \<le> byte c \<and> byte c \<le> 57"

definition digits_value :: "string \<Rightarrow> int" where
  "digits_value ds = foldl (\<lambda>n c. 10 * n + (int (byte c) - 48)) 0 ds"

text \<open>\<open>strconv.Atoi\<close>: an optional sign, then decimal digits, within 64 bits.\<close>

definition Atoi :: "string \<Rightarrow> int option" where
  "Atoi s =
     (let signed_text = (s \<noteq> [] \<and> (hd s = CHR ''-'' \<or> hd s = CHR ''+''));
          ds = (if signed_text then tl s else s);
          n = (if signed_text \<and> hd s = CHR ''-'' then - digits_value ds else digits_value ds)
      in if ds \<noteq> [] \<and> list_all digit ds \<and> - (2 ^ 63) \<le> n \<and> n < 2 ^ 63 then Some n else None)"

definition ParseBool :: "string \<Rightarrow> bool option" where
  "ParseBool s =
     (if s \<in> set [''1'', ''t'', ''T'', ''true'', ''TRUE'', ''True''] then Some True
      else if s \<in> set [''0'', ''f'', ''F'', ''false'', ''FALSE'', ''False''] then Some False
      else None)"

text \<open>\<open>Duration.String\<close>: the fraction of \<open>u\<close> below \<open>10 ^ prec\<close>, without trailing zeros.\<close>

definition fmtFrac :: "nat \<Rightarrow> nat \<Rightarrow> string" where
  "fmtFrac u prec =
     (let ds = decimal (u mod 10 ^ prec);
          padded = replicate (prec - length ds) (CHR ''0'') @ ds;
          trimmed = rev (dropWhile (\<lambda>c. c = CHR ''0'') (rev padded))
      in if trimmed = [] then [] else CHR ''.'' # trimmed)"

definition fmt_seconds :: "nat \<Rightarrow> string" where
  "fmt_seconds u =
     (let s = u div 10 ^ 9; m = s div 60; h = m div 60
      in (if 0 < h then decimal h @ ''h'' else []) @
         (if 0 < m then decimal (m mod 60) @ ''m'' else []) @
         decimal (s mod 60) @ fmtFrac u 9 @ ''s'')"

definition duration_string :: "duration \<Rightarrow> string" where
  "duration_string d =
     (let u = nat \<bar>d\<bar>
      in (if d < 0 then ''-'' else []) @
         (if u = 0 then ''0s''
          else if u < 10 ^ 3 then decimal u @ ''ns''
          else if u < 10 ^ 6 then decimal (u div 10 ^ 3) @ fmtFrac u 3 @ [CHR 0xC2, CHR 0xB5] @ ''s''
          else if u < 10 ^ 9 then decimal (u div 10 ^ 6) @ fmtFrac u 6 @ ''ms''
          else fmt_seconds u))"

section \<open>Parsing durations\<close>

fun bitlen :: "int \<Rightarrow> nat" where
  "bitlen n = (if n \<le> 0 then 0 else Suc (bitlen (n div 2)))"

declare bitlen.simps [simp del]

text \<open>
  The float64 nearest to a positive rational: scaled until its integer part has at least 53
  bits, cut to 53 and rounded by the remainder.
\<close>

definition float64 :: "rat \<Rightarrow> rat" where
  "float64 x =
     (let (p, q) = quotient_of x;
          up = 64 + bitlen q;
          cut = bitlen (p * 2 ^ up div q) - 53;
          den = q * 2 ^ cut;
          m = p * 2 ^ up div den; r = p * 2 ^ up mod den;
          m' = (if den < 2 * r \<or> den = 2 * r \<and> odd m then m + 1 else m)
      in if x \<le> 0 then 0 else of_int m' * 2 ^ cut / 2 ^ up)"

fun leadingInt :: "int \<Rightarrow> string \<Rightarrow> (int \<times> string) option" where
  "leadingInt x [] = Some (x, [])"
| "leadingInt x (c # s) =
     (if \<not> digit c then Some (x, c # s)
      else if 2 ^ 63 div 10 < x then None
      else if 2 ^ 63 < 10 * x + (int (byte c) - 48) then None
      else leadingInt (10 * x + (int (byte c) - 48)) s)"

fun leadingFraction :: "int \<Rightarrow> rat \<Rightarrow> bool \<Rightarrow> string \<Rightarrow> int \<times> rat \<times> string" where
  "leadingFraction x scale over [] = (x, scale, [])"
| "leadingFraction x scale over (c # s) =
     (if \<not> digit c then (x, scale, c # s)
      else if over then leadingFraction x scale True s
      else if (2 ^ 63 - 1) div 10 < x then leadingFraction x scale True s
      else if 2 ^ 63 < 10 * x + (int (byte c) - 48) then leadingFraction x scale True s
      else leadingFraction (10 * x + (int (byte c) - 48)) (float64 (scale * 10)) False s)"

definition unitMap :: "(string \<times> int) list" where
  "unitMap =
     [(''ns'', 1), (''us'', 10 ^ 3), ([CHR 0xC2, CHR 0xB5] @ ''s'', 10 ^ 3),
      ([CHR 0xCE, CHR 0xBC] @ ''s'', 10 ^ 3), (''ms'', 10 ^ 6), (''s'', 10 ^ 9),
      (''m'', 60 * 10 ^ 9), (''h'', 3600 * 10 ^ 9)]"

definition unit_char :: "char \<Rightarrow> bool" where
  "unit_char c \<longleftrightarrow> \<not> (c = CHR ''.'' \<or> digit c)"

text \<open>The optional fraction: its digits, their scale, whether there were any, and the rest.\<close>

definition fraction_part :: "string \<Rightarrow> int \<times> rat \<times> bool \<times> string" where
  "fraction_part s =
     (if s \<noteq> [] \<and> hd s = CHR ''.''
      then let (f, scale, r) = leadingFraction 0 1 False (tl s)
           in (f, scale, length (tl s) \<noteq> length r, r)
      else (0, 1, False, s))"

text \<open>One round of the loop: a number, an optional fraction and a unit.\<close>

definition duration_term :: "string \<Rightarrow> (int \<times> string) option" where
  "duration_term s =
     (if s = [] \<or> unit_char (hd s) then None
      else case leadingInt 0 s of
        None \<Rightarrow> None
      | Some (v, s1) \<Rightarrow>
          (let pre = (length s \<noteq> length s1); (f, scale, post, s2) = fraction_part s1;
               u = takeWhile unit_char s2
           in if \<not> pre \<and> \<not> post \<or> u = [] then None
              else case map_of unitMap u of
                None \<Rightarrow> None
              | Some ns \<Rightarrow>
                  if 2 ^ 63 div ns < v then None
                  else let w = (if 0 < f
                                then v * ns + \<lfloor>float64 (float64 (of_int f) * float64 (of_int ns / scale))\<rfloor>
                                else v * ns)
                       in if 2 ^ 63 < w then None else Some (w, dropWhile unit_char s2)))"

lemma leadingInt_length: "leadingInt x s = Some (v, r) \<Longrightarrow> length r \<le> length s"
  by (induction x s rule: leadingInt.induct) (auto split: if_splits)

lemma leadingFraction_length: "leadingFraction x sc ov s = (v, sc', r) \<Longrightarrow> length r \<le> length s"
  by (induction x sc ov s rule: leadingFraction.induct) (auto split: if_splits intro: le_SucI)

lemma fraction_part_length: "fraction_part s = (f, sc, p, r) \<Longrightarrow> length r \<le> length s"
  by (auto simp: fraction_part_def split: if_splits prod.splits dest!: leadingFraction_length)

lemma duration_term_shorter:
  assumes "duration_term s = Some (v, r)"
  shows "length r < length s"
proof -
  obtain v1 s1 f sc p s2 where 1: "leadingInt 0 s = Some (v1, s1)" "fraction_part s1 = (f, sc, p, s2)"
    and u: "takeWhile unit_char s2 \<noteq> []" "r = dropWhile unit_char s2"
    using assms by (auto simp: duration_term_def Let_def split: if_splits option.splits prod.splits)
  have "length (takeWhile unit_char s2) + length r = length s2"
    by (simp add: u(2) flip: length_append)
  then have "length r < length s2" using u(1) by (cases "takeWhile unit_char s2") auto
  then show ?thesis using leadingInt_length [OF 1(1)] fraction_part_length [OF 1(2)] by simp
qed

function duration_terms :: "int \<Rightarrow> string \<Rightarrow> int option" where
  "duration_terms d s =
     (if s = [] then Some d
      else case duration_term s of
        None \<Rightarrow> None
      | Some (v, rest) \<Rightarrow>
          if 2 ^ 63 < (d + v) mod 2 ^ 64 then None else duration_terms ((d + v) mod 2 ^ 64) rest)"
  by auto
termination by (relation "measure (length \<circ> snd)") (auto dest: duration_term_shorter)

declare duration_terms.simps [simp del]

definition ParseDuration :: "string \<Rightarrow> duration option" where
  "ParseDuration s0 =
     (let marked = (s0 \<noteq> [] \<and> (hd s0 = CHR ''-'' \<or> hd s0 = CHR ''+''));
          neg = (marked \<and> hd s0 = CHR ''-'');
          s = (if marked then tl s0 else s0)
      in if s = ''0'' then Some 0
         else if s = [] then None
         else case duration_terms 0 s of
           None \<Rightarrow> None
         | Some d \<Rightarrow> if neg then Some (- d)
                     else if 2 ^ 63 - 1 < d then None else Some d)"

section \<open>Digits\<close>

text \<open>Reading digits onto what has been read before; \<open>digits_value\<close> starts from nothing.\<close>

definition digits_onto :: "int \<Rightarrow> string \<Rightarrow> int" where
  "digits_onto x ds = foldl (\<lambda>n c. 10 * n + (int (byte c) - 48)) x ds"

lemma digits_onto_simps [simp]:
  "digits_onto x [] = x" "digits_onto x (c # ds) = digits_onto (10 * x + (int (byte c) - 48)) ds"
  "digits_onto x (ds @ es) = digits_onto (digits_onto x ds) es"
  by (simp_all add: digits_onto_def)

lemma digits_value_onto: "digits_value ds = digits_onto 0 ds"
  by (simp add: digits_value_def digits_onto_def)

lemma digits_onto_ge: "list_all digit ds \<Longrightarrow> 0 \<le> x \<Longrightarrow> x \<le> digits_onto x ds"
proof (induction ds arbitrary: x)
  case (Cons c ds)
  then have "10 * x + (int (byte c) - 48) \<le> digits_onto (10 * x + (int (byte c) - 48)) ds"
    by (intro Cons.IH) (auto simp: digit_def)
  then show ?case using Cons.prems by (auto simp: digit_def)
qed simp

lemma byte_digit_char: "n < 10 \<Longrightarrow> byte (char_of (48 + n)) = 48 + n"
  by (simp add: byte_def)

lemma decimal_digits: "list_all digit (decimal n) \<and> digits_onto 0 (decimal n) = int n"
proof (induction n rule: decimal.induct)
  case (1 n)
  have "byte (char_of (48 + n mod 10)) = 48 + n mod 10" by (rule byte_digit_char) simp
  moreover have "10 * int (n div 10) + int (n mod 10) = int n" by presburger
  ultimately show ?case
    using 1 by (cases "n < 10") (auto simp: decimal.simps [of n] digit_def byte_digit_char)
qed

lemma decimal_not_nil [simp]: "decimal n \<noteq> []"
  by (simp add: decimal.simps [of n])

lemma digits_onto_zeros:
  "digits_onto 0 (replicate k (CHR ''0'') @ ds) = digits_onto 0 ds"
  "digits_onto x (replicate k (CHR ''0'')) = x * 10 ^ k"
proof -
  show "digits_onto x (replicate k (CHR ''0'')) = x * 10 ^ k" for x
    by (induction k arbitrary: x) (simp_all add: byte_def)
  then show "digits_onto 0 (replicate k (CHR ''0'') @ ds) = digits_onto 0 ds" by simp
qed

text \<open>What follows the digits does not go on with one.\<close>

definition no_digit :: "string \<Rightarrow> bool" where
  "no_digit r \<longleftrightarrow> r = [] \<or> \<not> digit (hd r)"

lemma leadingInt_digits:
  "list_all digit ds \<Longrightarrow> no_digit r \<Longrightarrow> 0 \<le> x \<Longrightarrow> digits_onto x ds \<le> 2 ^ 63 \<Longrightarrow>
   leadingInt x (ds @ r) = Some (digits_onto x ds, r)"
proof (induction ds arbitrary: x)
  case Nil
  then show ?case by (cases r) (auto simp: no_digit_def)
next
  case (Cons c ds)
  let ?y = "10 * x + (int (byte c) - 48)"
  have "0 \<le> ?y" using Cons.prems by (simp add: digit_def)
  then have "?y \<le> digits_onto ?y ds" using Cons.prems by (intro digits_onto_ge) simp_all
  then have "?y \<le> 2 ^ 63" using Cons.prems by simp
  moreover from this have "x \<le> 2 ^ 63 div 10" using Cons.prems by (simp add: digit_def)
  ultimately show ?case using Cons \<open>0 \<le> ?y\<close> by simp
qed

lemma leadingInt_decimal: "int n \<le> 2 ^ 63 \<Longrightarrow> no_digit r \<Longrightarrow> leadingInt 0 (decimal n @ r) = Some (int n, r)"
  using leadingInt_digits [of "decimal n" r 0] decimal_digits [of n] by simp

lemma Atoi_format_int:
  assumes "- (2 ^ 63) \<le> n" "n < 2 ^ 63"
  shows "Atoi (format_int n) = Some n"
proof -
  have d: "list_all digit (decimal m)" "digits_value (decimal m) = int m" for m
    using decimal_digits [of m] by (simp_all add: digits_value_onto)
  have "hd (decimal m) \<noteq> CHR ''-'' \<and> hd (decimal m) \<noteq> CHR ''+''" for m
    using d(1) [of m] by (cases "decimal m") (auto simp: digit_def byte_def)
  then show ?thesis using assms d by (simp add: Atoi_def format_int_def Let_def)
qed

section \<open>Exact floats\<close>

lemma bitlen_double: "0 < n \<Longrightarrow> bitlen (n * 2 ^ k) = bitlen n + k"
proof (induction k)
  case (Suc k)
  have "bitlen (n * 2 ^ Suc k) = Suc (bitlen (n * 2 ^ Suc k div 2))"
    using Suc.prems by (subst bitlen.simps) (simp add: not_le)
  then show ?case using Suc by simp
qed simp

lemma bitlen_bound: "n < 2 ^ k \<Longrightarrow> bitlen n \<le> k"
proof (induction k arbitrary: n)
  case 0
  then show ?case by (simp add: bitlen.simps)
next
  case (Suc k)
  have "n div 2 < 2 ^ k" using Suc.prems by simp
  with Suc.IH show ?case by (cases "n \<le> 0") (auto simp: bitlen.simps [of n])
qed

lemma bitlen_one: "bitlen 1 = 1"
  by (simp add: bitlen.simps)

text \<open>A whole number below \<open>2 ^ 53\<close> is a float64.\<close>

lemma float64_int:
  assumes "0 < n" "n < 2 ^ 53"
  shows "float64 (of_int n) = of_int n"
proof -
  define cut where "cut = bitlen n + 12"
  have len: "bitlen (n * 2 ^ 65) - 53 = cut" using bitlen_double [OF assms(1), of 65] by (simp add: cut_def)
  have "cut \<le> 65" using bitlen_bound [OF assms(2)] by (simp add: cut_def)
  then have pow: "(2::int) ^ 65 = 2 ^ (65 - cut) * 2 ^ cut" by (simp flip: power_add)
  then have "n * 2 ^ 65 div 2 ^ cut = n * 2 ^ (65 - cut)" "n * 2 ^ 65 mod 2 ^ cut = 0"
    by (simp_all del: power_numeral add: mult.assoc [symmetric])
  moreover have "(of_int (n * 2 ^ (65 - cut)) * 2 ^ cut / 2 ^ 65 :: rat) = of_int n"
    using arg_cong [OF pow, of "of_int :: int \<Rightarrow> rat"] by (simp add: field_simps)
  ultimately show ?thesis
    using assms(1) len by (simp add: float64_def Let_def bitlen_one quotient_of_rat_of_int)
qed

section \<open>Fractions\<close>

lemma float64_ten: "k < 15 \<Longrightarrow> float64 (10 ^ k * 10) = 10 ^ Suc k"
proof -
  assume k: "k < 15"
  have "(10::int) ^ Suc k \<le> 10 ^ 15" using k by (intro power_increasing) auto
  then have "float64 (of_int (10 ^ Suc k)) = of_int (10 ^ Suc k)" by (intro float64_int) simp_all
  then show ?thesis by (simp add: mult.commute)
qed

lemma leadingFraction_digits:
  "list_all digit ds \<Longrightarrow> no_digit r \<Longrightarrow> 0 \<le> x \<Longrightarrow> digits_onto x ds < 10 ^ 15 \<Longrightarrow> k + length ds \<le> 15 \<Longrightarrow>
   leadingFraction x (10 ^ k) False (ds @ r) = (digits_onto x ds, 10 ^ (k + length ds), r)"
proof (induction ds arbitrary: x k)
  case Nil
  then show ?case by (cases r) (auto simp: no_digit_def)
next
  case (Cons c ds)
  let ?y = "10 * x + (int (byte c) - 48)"
  have y: "0 \<le> ?y" using Cons.prems by (simp add: digit_def)
  then have "?y \<le> digits_onto ?y ds" using Cons.prems by (intro digits_onto_ge) simp_all
  then have b: "?y < 10 ^ 15" using Cons.prems by simp
  then have x: "x \<le> (2 ^ 63 - 1) div 10" using Cons.prems by (simp add: digit_def)
  have "leadingFraction ?y (10 ^ Suc k) False (ds @ r) = (digits_onto ?y ds, 10 ^ (Suc k + length ds), r)"
    using Cons.prems y by (intro Cons.IH) auto
  moreover have "float64 (10 ^ k * 10) = 10 ^ Suc k" using Cons.prems by (intro float64_ten) simp
  ultimately show ?case using Cons.prems x b by (simp add: not_less)
qed

text \<open>The printed fraction is nothing, or a point and the digits without trailing zeros.\<close>

lemma trailing_zeros: "\<exists>k. xs = rev (dropWhile (\<lambda>c. c = z) (rev xs)) @ replicate k z"
proof -
  have "takeWhile (\<lambda>c. c = z) (rev xs) = replicate (length (takeWhile (\<lambda>c. c = z) (rev xs))) z"
    by (metis (full_types) replicate_length_same set_takeWhileD)
  then show ?thesis by (metis rev_append rev_replicate rev_rev_ident takeWhile_dropWhile_id)
qed

lemma decimal_zero: "decimal 0 = ''0''"
  by code_simp

lemma fmtFrac_cases:
  assumes "0 < prec"
  obtains (none) "u mod 10 ^ prec = 0" "fmtFrac u prec = []"
    | (some) ds where "fmtFrac u prec = CHR ''.'' # ds" "ds \<noteq> []" "list_all digit ds" "length ds \<le> prec"
        "0 < digits_onto 0 ds" "digits_onto 0 ds * 10 ^ (prec - length ds) = int (u mod 10 ^ prec)"
proof -
  let ?m = "u mod 10 ^ prec"
  define padded where "padded = replicate (prec - length (decimal ?m)) (CHR ''0'') @ decimal ?m"
  define ds where "ds = rev (dropWhile (\<lambda>c. c = CHR ''0'') (rev padded))"
  have frac: "fmtFrac u prec = (if ds = [] then [] else CHR ''.'' # ds)"
    unfolding fmtFrac_def Let_def padded_def [symmetric] ds_def [symmetric] by (rule refl)
  obtain k where k: "padded = ds @ replicate k (CHR ''0'')" unfolding ds_def by (rule exE [OF trailing_zeros])
  have "?m < 10 ^ Suc (prec - 1)" using assms by simp
  then have "length (decimal ?m) \<le> Suc (prec - 1)" by (rule decimal_length)
  then have len: "length ds + k = prec" using assms arg_cong [OF k, of length] by (simp add: padded_def)
  have "list_all digit padded"
    using decimal_digits [of ?m] by (auto simp: padded_def list_all_iff digit_def byte_def)
  then have dig: "list_all digit ds" by (simp add: k)
  have "digits_onto 0 padded = int ?m" using decimal_digits [of ?m] by (simp add: padded_def digits_onto_zeros)
  then have val: "digits_onto 0 ds * 10 ^ k = int ?m" by (simp add: k digits_onto_zeros)
  show ?thesis
  proof (cases "?m = 0")
    case True
    then have "ds = []" by (simp add: ds_def dropWhile_eq_Nil_conv padded_def decimal_zero)
    then show ?thesis using none True frac by simp
  next
    case False
    then have "ds \<noteq> []" using val by auto
    moreover have "0 < digits_onto 0 ds" using val False by (metis digits_onto_ge dig mult_zero_left of_nat_eq_0_iff order_le_less order_refl)
    moreover have "prec - length ds = k" "length ds \<le> prec" using len by auto
    ultimately show ?thesis using some [of ds] frac dig val by simp
  qed
qed

section \<open>Terms of a duration\<close>

text \<open>Where a term ends: at the end of the text, or at the next number.\<close>

definition term_end :: "string \<Rightarrow> bool" where
  "term_end r \<longleftrightarrow> r = [] \<or> digit (hd r)"

definition unit_text :: "string \<Rightarrow> int \<Rightarrow> bool" where
  "unit_text u ns \<longleftrightarrow> u \<noteq> [] \<and> list_all unit_char u \<and> map_of unitMap u = Some ns \<and> 0 < ns \<and> ns < 2 ^ 53"

lemma unit_texts:
  "unit_text ''ns'' 1" "unit_text ([CHR 0xC2, CHR 0xB5] @ ''s'') (10 ^ 3)" "unit_text ''ms'' (10 ^ 6)"
  "unit_text ''s'' (10 ^ 9)" "unit_text ''m'' (60 * 10 ^ 9)" "unit_text ''h'' (3600 * 10 ^ 9)"
  by (simp_all add: unit_text_def unitMap_def unit_char_def digit_def byte_def)

lemma unit_split:
  assumes "unit_text u ns" "term_end r"
  shows "takeWhile unit_char (u @ r) = u" "dropWhile unit_char (u @ r) = r"
proof -
  have u: "\<And>c. c \<in> set u \<Longrightarrow> unit_char c" using assms(1) by (simp add: unit_text_def list_all_iff)
  have "takeWhile unit_char r = []" "dropWhile unit_char r = r"
    using assms(2) by (cases r; simp add: term_end_def unit_char_def)+
  then show "takeWhile unit_char (u @ r) = u" "dropWhile unit_char (u @ r) = r" using u by simp_all
qed

lemma unit_no_digit: "unit_text u ns \<Longrightarrow> no_digit (u @ r)"
  by (cases u) (auto simp: unit_text_def no_digit_def unit_char_def)

lemma decimal_head: "\<not> unit_char (hd (decimal n @ r))"
  using decimal_digits [of n] by (cases "decimal n") (auto simp: unit_char_def)

text \<open>A whole number of units.\<close>

lemma term_whole:
  assumes "unit_text u ns" "term_end r" "int a * ns \<le> 2 ^ 63"
  shows "duration_term (decimal a @ u @ r) = Some (int a * ns, r)"
proof -
  have ns: "0 < ns" "map_of unitMap u = Some ns" "u \<noteq> []" using assms(1) by (simp_all add: unit_text_def)
  have le: "int a \<le> 2 ^ 63 div ns" using zdiv_mono1 [OF assms(3) ns(1)] ns(1) by simp
  have "int a * 1 \<le> int a * ns" using ns(1) by (intro mult_left_mono) auto
  then have "leadingInt 0 (decimal a @ u @ r) = Some (int a, u @ r)"
    using assms(3) by (intro leadingInt_decimal unit_no_digit [OF assms(1)]) simp
  moreover have "fraction_part (u @ r) = (0, 1, False, u @ r)"
    using assms(1) by (cases u) (auto simp: fraction_part_def unit_text_def unit_char_def)
  ultimately show ?thesis
    using decimal_head [of a "u @ r"] unit_split [OF assms(1,2)] ns le assms(3)
    by (simp add: duration_term_def)
qed

text \<open>A number of units with the fraction that \<open>fmtFrac\<close> prints.\<close>

lemma fraction_value:
  assumes "list_all digit ds" "no_digit r" "length ds \<le> p" "p \<le> 15" "digits_onto 0 ds * 10 ^ (p - length ds) < 10 ^ p"
    and "0 < digits_onto 0 ds"
  shows "leadingFraction 0 1 False (ds @ r) = (digits_onto 0 ds, 10 ^ length ds, r)"
    and "\<lfloor>float64 (float64 (of_int (digits_onto 0 ds)) * float64 (of_int (10 ^ p) / 10 ^ length ds))\<rfloor> =
         digits_onto 0 ds * 10 ^ (p - length ds)"
proof -
  let ?v = "digits_onto 0 ds" and ?e = "10 ^ (p - length ds) :: int"
  have p15: "(10::int) ^ p \<le> 10 ^ 15" using assms(4) by (intro power_increasing) auto
  have "?v * 1 \<le> ?v * ?e" using assms(6) by (intro mult_left_mono) auto
  then have v: "?v < 10 ^ 15" "?v * ?e < 10 ^ 15" using assms(5) p15 by linarith+
  show "leadingFraction 0 1 False (ds @ r) = (?v, 10 ^ length ds, r)"
    using leadingFraction_digits [OF assms(1,2) _ v(1), of 0] assms(3,4) by simp
  have "?e \<le> 10 ^ p" by (intro power_increasing) auto
  then have "?e \<le> 10 ^ 15" by (rule order_trans [OF _ p15])
  then have e: "float64 (of_int ?e) = of_int ?e" by (intro float64_int) simp_all
  have "(10::rat) ^ p = 10 ^ (p - length ds) * 10 ^ length ds" using assms(3) by (simp flip: power_add)
  then have "(of_int (10 ^ p) / 10 ^ length ds :: rat) = of_int ?e" by simp
  moreover have "float64 (of_int ?v) = of_int ?v" using v(1) assms(6) by (intro float64_int) simp_all
  moreover have "float64 (of_int (?v * ?e)) = of_int (?v * ?e)" using v(2) assms(6) by (intro float64_int) simp_all
  ultimately show "\<lfloor>float64 (float64 (of_int ?v) * float64 (of_int (10 ^ p) / 10 ^ length ds))\<rfloor> = ?v * ?e"
    by (simp only: e floor_of_int of_int_mult [symmetric])
qed

lemma term_fraction:
  assumes "unit_text u (10 ^ p)" "term_end r" "0 < p" "p \<le> 15" "int a * 10 ^ p + int (n mod 10 ^ p) \<le> 2 ^ 63"
  shows "duration_term (decimal a @ fmtFrac n p @ u @ r) = Some (int a * 10 ^ p + int (n mod 10 ^ p), r)"
  using assms(3)
proof (cases rule: fmtFrac_cases [where u = n and prec = p])
  case none
  then show ?thesis using term_whole [OF assms(1,2), of a] assms(5) by simp
next
  case (some ds)
  let ?v = "digits_onto 0 ds"
  have "int (n mod 10 ^ p) < 10 ^ p" by (metis of_nat_less_iff of_nat_numeral of_nat_power pos_mod_bound mod_less_divisor zero_less_power zero_less_numeral)
  then have lt: "?v * 10 ^ (p - length ds) < 10 ^ p" using some(6) by simp
  note fv = fraction_value [OF some(3) unit_no_digit [OF assms(1)] some(4) assms(4) lt some(5)]
  have whole: "int a * 10 ^ p \<le> 2 ^ 63" using assms(5) by linarith
  have le: "int a \<le> 2 ^ 63 div 10 ^ p" using zdiv_mono1 [OF whole, of "10 ^ p"] by simp
  have "int a * 1 \<le> int a * 10 ^ p" by (intro mult_left_mono) auto
  then have "leadingInt 0 (decimal a @ CHR ''.'' # ds @ u @ r) = Some (int a, CHR ''.'' # ds @ u @ r)"
    using whole by (intro leadingInt_decimal) (simp_all add: no_digit_def digit_def byte_def)
  moreover have "fraction_part (CHR ''.'' # ds @ u @ r) = (?v, 10 ^ length ds, True, u @ r)"
    using fv(1) some(2) by (simp add: fraction_part_def)
  ultimately show ?thesis
    using decimal_head [of a "CHR ''.'' # ds @ u @ r"] unit_split [OF assms(1,2)] le some fv(2) assms(1,5)
    by (simp add: duration_term_def unit_text_def)
qed

section \<open>Printing and parsing durations\<close>

lemma duration_terms_step:
  assumes "duration_term s = Some (v, r)" "s \<noteq> []" "0 \<le> d + v" "d + v \<le> 2 ^ 63"
  shows "duration_terms d s = duration_terms (d + v) r"
  using assms by (subst duration_terms.simps) simp

lemma duration_terms_nil: "duration_terms d [] = Some d"
  by (subst duration_terms.simps) simp

lemma term_end_decimal: "term_end (decimal n @ r)"
  using decimal_digits [of n] by (cases "decimal n") (auto simp: term_end_def)

lemma term_end_nil: "term_end []"
  by (simp add: term_end_def)

lemma terms_fraction:
  assumes "unit_text u (10 ^ p)" "0 < p" "p \<le> 15" "0 \<le> d" "d + (int a * 10 ^ p + int (n mod 10 ^ p)) \<le> 2 ^ 63"
  shows "duration_terms d (decimal a @ fmtFrac n p @ u) = Some (d + (int a * 10 ^ p + int (n mod 10 ^ p)))"
proof -
  let ?v = "int a * 10 ^ p + int (n mod 10 ^ p)"
  have "0 \<le> ?v" by simp
  then have "duration_term (decimal a @ fmtFrac n p @ u @ []) = Some (?v, [])"
    using assms(4,5) by (intro term_fraction [OF assms(1) term_end_nil assms(2,3)]) linarith
  then show ?thesis
    using duration_terms_step [of "decimal a @ fmtFrac n p @ u" ?v "[]" d] assms(4,5) \<open>0 \<le> ?v\<close>
    by (simp add: duration_terms_nil)
qed

lemma terms_whole:
  assumes "unit_text u ns" "term_end r" "0 \<le> d" "d + int a * ns \<le> 2 ^ 63"
  shows "duration_terms d (decimal a @ u @ r) = duration_terms (d + int a * ns) r"
proof -
  have "0 \<le> int a * ns" using assms(1) by (simp add: unit_text_def)
  then show ?thesis
    using duration_terms_step [OF term_whole [OF assms(1,2)]] assms(3,4) by simp
qed

text \<open>Hours, minutes and seconds.\<close>

lemma seconds_parts:
  "int n = int (n div 10 ^ 9 div 60 div 60) * (3600 * 10 ^ 9) + int (n div 10 ^ 9 div 60 mod 60) * (60 * 10 ^ 9) +
     (int (n div 10 ^ 9 mod 60) * 10 ^ 9 + int (n mod 10 ^ 9))"
  by (simp add: zdiv_int zmod_int) presburger

lemma terms_seconds:
  assumes "int n \<le> 2 ^ 63"
  shows "duration_terms 0 (fmt_seconds n) = Some (int n)"
proof -
  define sec where "sec = n div 10 ^ 9"
  define m where "m = sec div 60"
  define h where "h = m div 60"
  define S where "S = int (sec mod 60) * 10 ^ 9 + int (n mod 10 ^ 9)"
  define M where "M = int (m mod 60) * (60 * 10 ^ 9)"
  define H where "H = int h * (3600 * 10 ^ 9)"
  define secs where "secs = decimal (sec mod 60) @ fmtFrac n 9 @ ''s''"
  have text_eq: "fmt_seconds n = (if 0 < h then decimal h @ ''h'' else []) @ (if 0 < m then decimal (m mod 60) @ ''m'' else []) @ secs"
    unfolding fmt_seconds_def Let_def sec_def [symmetric] m_def [symmetric] h_def [symmetric] secs_def by (rule refl)
  have parts: "H + M + S = int n" unfolding H_def M_def S_def h_def m_def sec_def by (rule seconds_parts [symmetric])
  have nn: "0 \<le> H" "0 \<le> M" "0 \<le> S" by (simp_all add: H_def M_def S_def)
  have end_secs: "term_end secs" unfolding secs_def by (rule term_end_decimal)
  have run_secs: "duration_terms d secs = Some (d + S)" if "0 \<le> d" "d + S \<le> 2 ^ 63" for d
    unfolding secs_def S_def
    by (rule terms_fraction [OF unit_texts(4) _ _ that [unfolded S_def]]) simp_all
  have run_mins: "duration_terms d (decimal (m mod 60) @ ''m'' @ secs) = Some (d + M + S)"
    if d: "0 \<le> d" "d + M + S \<le> 2 ^ 63" for d
  proof -
    have "duration_terms d (decimal (m mod 60) @ ''m'' @ secs) = duration_terms (d + M) secs"
      unfolding M_def by (rule terms_whole [OF unit_texts(5) end_secs d(1)]) (use d nn in \<open>simp add: M_def\<close>)
    also have "\<dots> = Some (d + M + S)" by (rule run_secs) (use d nn in linarith)+
    finally show ?thesis .
  qed
  consider "m = 0" | "0 < m" "h = 0" | "0 < m" "0 < h" by fastforce
  then show ?thesis
  proof cases
    case 1
    then have z: "H = 0" "M = 0" "fmt_seconds n = secs" by (simp_all add: H_def M_def h_def text_eq)
    have "duration_terms 0 secs = Some (0 + S)" by (rule run_secs) (use parts z assms in linarith)+
    then show ?thesis using z parts by simp
  next
    case 2
    then have z: "H = 0" "fmt_seconds n = decimal (m mod 60) @ ''m'' @ secs" by (simp_all add: H_def text_eq)
    have "duration_terms 0 (decimal (m mod 60) @ ''m'' @ secs) = Some (0 + M + S)"
      by (rule run_mins) (use parts z assms in linarith)+
    then show ?thesis using z parts by simp
  next
    case 3
    then have "fmt_seconds n = decimal h @ ''h'' @ decimal (m mod 60) @ ''m'' @ secs" by (simp add: text_eq)
    also have "duration_terms 0 \<dots> = duration_terms (0 + H) (decimal (m mod 60) @ ''m'' @ secs)"
      unfolding H_def by (rule terms_whole [OF unit_texts(6) term_end_decimal order_refl]) (use parts nn assms in \<open>simp add: H_def\<close>)
    also have "\<dots> = Some (0 + H + M + S)" by (rule run_mins) (use parts nn assms in linarith)+
    finally show ?thesis using parts by simp
  qed
qed

lemma terms_duration:
  assumes "0 < n" "int n \<le> 2 ^ 63"
  shows "duration_terms 0 (duration_string (int n)) = Some (int n)"
proof -
  have small: "duration_terms 0 (decimal (n div 10 ^ p) @ fmtFrac n p @ u) = Some (int n)"
    if "unit_text u (10 ^ p)" "0 < p" "p \<le> 15" for u p
  proof -
    have sum: "0 + (int (n div 10 ^ p) * 10 ^ p + int (n mod 10 ^ p)) = int n"
      using arg_cong [OF div_mult_mod_eq [of n "10 ^ p"], of int] by simp
    show ?thesis using terms_fraction [OF that order_refl, of "n div 10 ^ p" n] assms(2) unfolding sum by simp
  qed
  consider "n < 10 ^ 3" | "\<not> n < 10 ^ 3" "n < 10 ^ 6" | "\<not> n < 10 ^ 3" "\<not> n < 10 ^ 6" "n < 10 ^ 9"
    | "\<not> n < 10 ^ 3" "\<not> n < 10 ^ 6" "\<not> n < 10 ^ 9" by blast
  then show ?thesis
  proof cases
    case 1
    then show ?thesis
      using terms_whole [OF unit_texts(1) term_end_nil, of 0 n] assms
      by (simp add: duration_string_def duration_terms_nil)
  next
    case 2
    then show ?thesis using small [OF unit_texts(2)] assms by (simp add: duration_string_def)
  next
    case 3
    then show ?thesis using small [OF unit_texts(3)] assms by (simp add: duration_string_def)
  next
    case 4
    then show ?thesis using terms_seconds [OF assms(2)] assms by (simp add: duration_string_def)
  qed
qed

lemma duration_string_negative: "d < 0 \<Longrightarrow> duration_string d = CHR ''-'' # duration_string (- d)"
  by (simp add: duration_string_def Let_def)

lemma duration_string_head: "0 < n \<Longrightarrow> \<exists>c s. duration_string (int n) = c # s \<and> digit c \<and> duration_string (int n) \<noteq> ''0''"
proof -
  assume n: "0 < n"
  have "\<exists>a r. duration_string (int n) = decimal a @ r \<and> r \<noteq> []"
    using n by (auto simp: duration_string_def fmt_seconds_def Let_def)
  then obtain a r where ar: "duration_string (int n) = decimal a @ r" "r \<noteq> []" by blast
  obtain c ds where "decimal a = c # ds" "digit c" using decimal_digits [of a] by (cases "decimal a") auto
  then show ?thesis using ar by (auto simp: append_eq_Cons_conv)
qed

text \<open>Every duration is read back as it was printed.\<close>

lemma ParseDuration_string:
  assumes "- (2 ^ 63) \<le> d" "d < 2 ^ 63"
  shows "ParseDuration (duration_string d) = Some d"
proof (cases "d = 0")
  case True
  have "ParseDuration ''0s'' = Some 0" by code_simp
  then show ?thesis by (simp add: True duration_string_def)
next
  case False
  define n where "n = nat \<bar>d\<bar>"
  have n: "0 < n" "int n \<le> 2 ^ 63" "int n = \<bar>d\<bar>" using False assms by (simp_all add: n_def)
  obtain c s where h: "duration_string (int n) = c # s" "digit c" "duration_string (int n) \<noteq> ''0''"
    using duration_string_head [OF n(1)] by blast
  have sign: "c \<noteq> CHR ''-''" "c \<noteq> CHR ''+''" using h(2) by (auto simp: digit_def byte_def)
  note run = terms_duration [OF n(1,2)]
  show ?thesis
  proof (cases "d < 0")
    case True
    then have "duration_string d = CHR ''-'' # duration_string (int n)" "int n = - d"
      using duration_string_negative n(3) by simp_all
    then show ?thesis using h run by (auto simp: ParseDuration_def Let_def)
  next
    case False
    then have "d = int n" using n(3) by simp
    then show ?thesis using h sign run assms by (auto simp: ParseDuration_def Let_def)
  qed
qed

end
