(* ===== verification/Configuration.thy ===== *)
theory Configuration
  imports Conversions
begin

text \<open>
  The configuration of the process (\<open>internal/config/config.go\<close>): secrets that print as a
  placeholder, the loader that reads the environment and collects what it cannot parse, and
  the validation rules.

  The environment and the parsers of other packages are the parameter record
  \<open>config_lib\<close>: \<open>os.LookupEnv\<close>, \<open>strconv.ParseFloat\<close> (a finite number as a rational; the
  texts \<open>NaN\<close> and \<open>Inf\<close> are outside the model) and \<open>url.Parse\<close>. \<open>Atoi\<close>, \<open>ParseBool\<close>,
  \<open>ParseDuration\<close> and \<open>Duration.String\<close> are those of the theory Conversions, and the 64-bit
  arithmetic is written out. Go visits the entries of a map in any order; each of the three maps ranged over
  has two entries, and \<open>visit_backwards\<close> says, per loop, which of the two comes first.

  An accumulated error list is a list of messages; \<open>errors.Join\<close> makes one error of it,
  with one message per line.
\<close>

section \<open>Parts of the standard library\<close>

record URL =
  url_Scheme :: string
  url_Host :: string
  url_Path :: string

definition IsAbs :: "URL \<Rightarrow> bool" where
  "IsAbs u \<longleftrightarrow> url_Scheme u \<noteq> []"

record config_lib =
  env_lookup :: "string \<Rightarrow> string option"
  ParseFloat :: "string \<Rightarrow> rat option"
  url_parse :: "string \<Rightarrow> URL option"
  visit_backwards :: "nat \<Rightarrow> bool"

definition int64_of :: "int \<Rightarrow> int" where
  "int64_of x = (x + 2 ^ 63) mod 2 ^ 64 - 2 ^ 63"

lemma int64_of_range: "- (2 ^ 63) \<le> int64_of x \<and> int64_of x < 2 ^ 63"
  by (simp add: int64_of_def)

lemma int64_of_id: "- (2 ^ 63) \<le> x \<Longrightarrow> x < 2 ^ 63 \<Longrightarrow> int64_of x = x"
  by (simp add: int64_of_def)

text \<open>\<open>strings.Split(s, ",")\<close>.\<close>

fun split_list :: "string \<Rightarrow> string list" where
  "split_list [] = [[]]"
| "split_list (c # s) =
     (if c = CHR '','' then [] # split_list s
      else case split_list s of [] \<Rightarrow> [[c]] | p # ps \<Rightarrow> (c # p) # ps)"

definition errors_Join :: "string list \<Rightarrow> goerr option" where
  "errors_Join msgs = (if msgs = [] then None else Some (Text (join [CHR 0x0A] msgs)))"

text \<open>The entries of a map of two, in the order an iteration meets them.\<close>

definition range2 :: "bool \<Rightarrow> 'a \<Rightarrow> 'a \<Rightarrow> 'a list" where
  "range2 backwards x y = (if backwards then [y, x] else [x, y])"

lemma set_range2 [simp]: "set (range2 b x y) = {x, y}"
  by (auto simp: range2_def)

section \<open>Secrets and environments\<close>

definition redacted :: string where "redacted = ''[REDACTED]''"

datatype Secret = Secret (Reveal: string)

definition Secret_String :: "Secret \<Rightarrow> string" where
  "Secret_String s = (if Reveal s = [] then [] else redacted)"

definition GoString :: "Secret \<Rightarrow> string" where
  "GoString s = Secret_String s"

definition Secret_LogValue :: "Secret \<Rightarrow> string" where
  "Secret_LogValue s = Secret_String s"

definition MarshalJSON :: "Secret \<Rightarrow> bytes" where
  "MarshalJSON s = go_quote (Secret_String s)"

definition EnvDevelopment :: string where "EnvDevelopment = ''development''"
definition EnvStaging :: string where "EnvStaging = ''staging''"
definition EnvProduction :: string where "EnvProduction = ''production''"

definition IsProduction :: "string \<Rightarrow> bool" where
  "IsProduction e \<longleftrightarrow> e = EnvProduction"

definition Environment_valid :: "string \<Rightarrow> bool" where
  "Environment_valid e \<longleftrightarrow> e = EnvDevelopment \<or> e = EnvStaging \<or> e = EnvProduction"

section \<open>The configuration\<close>

record AppCfg =
  app_Name :: string
  app_Environment :: string
  app_ShutdownTimeout :: duration

record HTTPCfg =
  hc_Port :: int
  hc_ReadHeaderTimeout :: duration
  hc_ReadTimeout :: duration
  hc_WriteTimeout :: duration
  hc_IdleTimeout :: duration
  hc_APITimeout :: duration
  hc_WebhookTimeout :: duration
  hc_CORSAllowedOrigins :: "string list"
  hc_TrustedProxies :: int
  hc_AuthRateLimitRPS :: rat
  hc_AuthRateLimitBurst :: int
  hc_MetricsPort :: int
  hc_MetricsBindAddress :: string

definition Addr :: "HTTPCfg \<Rightarrow> string" where
  "Addr h = '':'' @ format_int (hc_Port h)"

definition MetricsAddr :: "HTTPCfg \<Rightarrow> string" where
  "MetricsAddr h =
     (if hc_MetricsPort h = 0 then [] else hc_MetricsBindAddress h @ '':'' @ format_int (hc_MetricsPort h))"

record DatabaseCfg =
  dc_DSN :: Secret
  dc_MaxConns :: int
  dc_MinConns :: int
  dc_MaxConnLifetime :: duration
  dc_MaxConnIdleTime :: duration
  dc_HealthCheckPeriod :: duration
  dc_ConnectTimeout :: duration
  dc_StatementTimeout :: duration
  dc_IdleInTxTimeout :: duration
  dc_SlowQueryThreshold :: duration

record StripeCfg =
  st_SecretKey :: Secret
  st_WebhookSecret :: Secret
  st_PublishableKey :: string
  st_APIVersion :: string
  st_WebhookTolerance :: duration
  st_MaxNetworkRetries :: int
  st_HTTPTimeout :: duration
  st_IgnoreAPIVersionMismatch :: bool
  st_CheckoutSuccessURL :: string
  st_CheckoutCancelURL :: string
  st_CheckoutReturnURL :: string
  st_PortalReturnURL :: string
  st_AllowedPriceIDs :: "string list"

record AuthCfg =
  au_JWTSecret :: Secret
  au_JWTIssuer :: string
  au_JWTAudience :: string
  au_AccessTokenTTL :: duration
  au_RefreshTokenTTL :: duration
  au_CookieSecure :: bool
  au_CookieDomain :: string
  au_BcryptCost :: int

record SweeperCfg =
  sp_Enabled :: bool
  sp_Interval :: duration
  sp_MaxAttempts :: int
  sp_BaseBackoff :: duration
  sp_MaxBackoff :: duration
  sp_BatchSize :: int
  sp_StaleClaimAfter :: duration
  sp_AlertAfter :: duration

record RetentionCfg =
  rt_Enabled :: bool
  rt_Interval :: duration
  rt_SettledPayloadAfter :: duration
  rt_UnsettledPayloadAfter :: duration
  rt_BatchSize :: int
  rt_RefreshTokenGrace :: duration

record LogCfg =
  lc_Level :: string
  lc_Format :: string
  lc_AddSource :: bool

record AppConfig =
  App :: AppCfg
  HTTP :: HTTPCfg
  Database :: DatabaseCfg
  Stripe :: StripeCfg
  Auth :: AuthCfg
  SweeperSettings :: SweeperCfg
  RetentionSettings :: RetentionCfg
  Log :: LogCfg

definition stripeKeyMode :: "Secret \<Rightarrow> string" where
  "stripeKeyMode key =
     (if contains (Reveal key) ''_live_'' then ''live''
      else if contains (Reveal key) ''_test_'' then ''test'' else ''unknown'')"

text \<open>The attributes of the boot log line; an integer attribute by its decimal text.\<close>

definition Config_LogValue :: "AppConfig \<Rightarrow> (string \<times> string) list" where
  "Config_LogValue c =
     [(''env'', app_Environment (App c)),
      (''http_addr'', Addr (HTTP c)),
      (''db_max_conns'', format_int (dc_MaxConns (Database c))),
      (''db_min_conns'', format_int (dc_MinConns (Database c))),
      (''db_statement_timeout'', duration_string (dc_StatementTimeout (Database c))),
      (''stripe_api_version'', st_APIVersion (Stripe c)),
      (''stripe_key_mode'', stripeKeyMode (st_SecretKey (Stripe c))),
      (''jwt_issuer'', au_JWTIssuer (Auth c)),
      (''jwt_ttl'', duration_string (au_AccessTokenTTL (Auth c))),
      (''bcrypt_cost'', format_int (au_BcryptCost (Auth c))),
      (''log_level'', lc_Level (Log c)),
      (''log_format'', lc_Format (Log c)),
      (''shutdown_timeout'', duration_string (app_ShutdownTimeout (App c)))]"

section \<open>The loader\<close>

type_synonym 'a loading = "(string list, 'a) state"

definition loader_fail :: "string \<Rightarrow> unit loading" where
  "loader_fail msg = State (\<lambda>errs. ((), errs @ [msg]))"

definition lookup :: "config_lib \<Rightarrow> string \<Rightarrow> string \<times> bool" where
  "lookup L key =
     (let v = trim_space (case env_lookup L key of None \<Rightarrow> [] | Some v \<Rightarrow> v)
      in (v, env_lookup L key \<noteq> None \<and> v \<noteq> []))"

definition str :: "config_lib \<Rightarrow> string \<Rightarrow> string \<Rightarrow> string loading" where
  "str L key dflt = (let (v, ok) = lookup L key in State_Monad.return (if ok then v else dflt))"

definition required :: "config_lib \<Rightarrow> string \<Rightarrow> string loading" where
  "required L key =
     (let (v, ok) = lookup L key
      in do {
        (if \<not> ok then loader_fail (''required environment variable '' @ key @ '' is not set'')
         else State_Monad.return ());
        State_Monad.return v })"

text \<open>The four typed readers differ in the parser and in the word of their message.\<close>

definition typed :: "(string \<Rightarrow> 'a option) \<Rightarrow> string \<Rightarrow> config_lib \<Rightarrow> string \<Rightarrow> 'a \<Rightarrow> 'a loading" where
  "typed parse noun L key dflt =
     (let (v, ok) = lookup L key
      in if \<not> ok then State_Monad.return dflt
         else case parse v of
                None \<Rightarrow> do {
                  loader_fail (key @ '' must be '' @ noun @ '' (got '' @ go_quote v @ '')'');
                  State_Monad.return dflt }
              | Some x \<Rightarrow> State_Monad.return x)"

definition intVal :: "config_lib \<Rightarrow> string \<Rightarrow> int \<Rightarrow> int loading" where
  "intVal = typed Atoi ''an integer''"

definition duration_var :: "config_lib \<Rightarrow> string \<Rightarrow> duration \<Rightarrow> duration loading" where
  "duration_var = typed ParseDuration ''a duration such as 30s or 5m''"

definition boolVal :: "config_lib \<Rightarrow> string \<Rightarrow> bool \<Rightarrow> bool loading" where
  "boolVal = typed ParseBool ''a boolean''"

definition float_var :: "config_lib \<Rightarrow> string \<Rightarrow> rat \<Rightarrow> rat loading" where
  "float_var L = typed (ParseFloat L) ''a number'' L"

definition csv :: "config_lib \<Rightarrow> string \<Rightarrow> string list loading" where
  "csv L key =
     (let (raw, ok) = lookup L key
      in State_Monad.return
           (if \<not> ok then [] else filter (\<lambda>p. p \<noteq> []) (map trim_space (split_list raw))))"

definition load_App :: "config_lib \<Rightarrow> AppCfg loading" where
  "load_App L = do {
     name \<leftarrow> str L ''APP_NAME'' ''stripe-payment-service'';
     environment \<leftarrow> str L ''APP_ENV'' EnvDevelopment;
     shutdown \<leftarrow> duration_var L ''SHUTDOWN_TIMEOUT'' (15 * second);
     State_Monad.return
       \<lparr>app_Name = name, app_Environment = to_lower environment, app_ShutdownTimeout = shutdown\<rparr> }"

definition load_HTTP :: "config_lib \<Rightarrow> HTTPCfg loading" where
  "load_HTTP L = do {
     port \<leftarrow> intVal L ''HTTP_PORT'' 8080;
     readHeader \<leftarrow> duration_var L ''HTTP_READ_HEADER_TIMEOUT'' (5 * second);
     read \<leftarrow> duration_var L ''HTTP_READ_TIMEOUT'' (15 * second);
     write \<leftarrow> duration_var L ''HTTP_WRITE_TIMEOUT'' (30 * second);
     idle \<leftarrow> duration_var L ''HTTP_IDLE_TIMEOUT'' (60 * second);
     api \<leftarrow> duration_var L ''HTTP_API_TIMEOUT'' (10 * second);
     webhook \<leftarrow> duration_var L ''HTTP_WEBHOOK_TIMEOUT'' (25 * second);
     origins \<leftarrow> csv L ''CORS_ALLOWED_ORIGINS'';
     proxies \<leftarrow> intVal L ''TRUSTED_PROXIES'' 0;
     rps \<leftarrow> float_var L ''AUTH_RATE_LIMIT_RPS'' (1 / 5);
     burst \<leftarrow> intVal L ''AUTH_RATE_LIMIT_BURST'' 5;
     metricsPort \<leftarrow> intVal L ''METRICS_PORT'' 9091;
     bind \<leftarrow> str L ''METRICS_BIND_ADDRESS'' [];
     State_Monad.return
       \<lparr>hc_Port = port, hc_ReadHeaderTimeout = readHeader, hc_ReadTimeout = read, hc_WriteTimeout = write,
        hc_IdleTimeout = idle, hc_APITimeout = api, hc_WebhookTimeout = webhook, hc_CORSAllowedOrigins = origins,
        hc_TrustedProxies = proxies, hc_AuthRateLimitRPS = rps, hc_AuthRateLimitBurst = burst,
        hc_MetricsPort = metricsPort, hc_MetricsBindAddress = bind\<rparr> }"

definition load_Database :: "config_lib \<Rightarrow> DatabaseCfg loading" where
  "load_Database L = do {
     dsn \<leftarrow> required L ''DATABASE_URL'';
     maxConns \<leftarrow> intVal L ''DB_MAX_CONNS'' 25;
     minConns \<leftarrow> intVal L ''DB_MIN_CONNS'' 2;
     lifetime \<leftarrow> duration_var L ''DB_MAX_CONN_LIFETIME'' hour;
     idle \<leftarrow> duration_var L ''DB_MAX_CONN_IDLE_TIME'' (30 * minute);
     health \<leftarrow> duration_var L ''DB_HEALTH_CHECK_PERIOD'' minute;
     connect \<leftarrow> duration_var L ''DB_CONNECT_TIMEOUT'' (10 * second);
     statement \<leftarrow> duration_var L ''DB_STATEMENT_TIMEOUT'' (30 * second);
     idleTx \<leftarrow> duration_var L ''DB_IDLE_IN_TX_TIMEOUT'' (60 * second);
     slow \<leftarrow> duration_var L ''DB_SLOW_QUERY_THRESHOLD'' (200 * 1000000);
     State_Monad.return
       \<lparr>dc_DSN = Secret dsn, dc_MaxConns = int32_of maxConns, dc_MinConns = int32_of minConns,
        dc_MaxConnLifetime = lifetime, dc_MaxConnIdleTime = idle, dc_HealthCheckPeriod = health,
        dc_ConnectTimeout = connect, dc_StatementTimeout = statement, dc_IdleInTxTimeout = idleTx,
        dc_SlowQueryThreshold = slow\<rparr> }"

definition load_Stripe :: "config_lib \<Rightarrow> StripeCfg loading" where
  "load_Stripe L = do {
     secretKey \<leftarrow> required L ''STRIPE_SECRET_KEY'';
     webhookSecret \<leftarrow> required L ''STRIPE_WEBHOOK_SECRET'';
     publishable \<leftarrow> str L ''STRIPE_PUBLISHABLE_KEY'' [];
     version \<leftarrow> str L ''STRIPE_API_VERSION'' ''2026-08-26.dahlia'';
     tolerance \<leftarrow> duration_var L ''STRIPE_WEBHOOK_TOLERANCE'' (5 * minute);
     retries \<leftarrow> intVal L ''STRIPE_MAX_NETWORK_RETRIES'' 3;
     timeout \<leftarrow> duration_var L ''STRIPE_HTTP_TIMEOUT'' (20 * second);
     ignoreVersion \<leftarrow> boolVal L ''STRIPE_IGNORE_API_VERSION_MISMATCH'' False;
     success \<leftarrow> str L ''STRIPE_CHECKOUT_SUCCESS_URL''
                  ''http://localhost:3000/billing/success?session_id={CHECKOUT_SESSION_ID}'';
     cancel \<leftarrow> str L ''STRIPE_CHECKOUT_CANCEL_URL'' ''http://localhost:3000/billing/cancel'';
     ret \<leftarrow> str L ''STRIPE_CHECKOUT_RETURN_URL''
              ''http://localhost:5173/billing/return?session_id={CHECKOUT_SESSION_ID}'';
     portal \<leftarrow> str L ''STRIPE_PORTAL_RETURN_URL'' ''http://localhost:5173/'';
     prices \<leftarrow> csv L ''STRIPE_ALLOWED_PRICE_IDS'';
     State_Monad.return
       \<lparr>st_SecretKey = Secret secretKey, st_WebhookSecret = Secret webhookSecret, st_PublishableKey = publishable,
        st_APIVersion = version, st_WebhookTolerance = tolerance, st_MaxNetworkRetries = retries,
        st_HTTPTimeout = timeout, st_IgnoreAPIVersionMismatch = ignoreVersion, st_CheckoutSuccessURL = success,
        st_CheckoutCancelURL = cancel, st_CheckoutReturnURL = ret, st_PortalReturnURL = portal,
        st_AllowedPriceIDs = prices\<rparr> }"

definition load_Auth :: "config_lib \<Rightarrow> AuthCfg loading" where
  "load_Auth L = do {
     secret \<leftarrow> required L ''JWT_SECRET'';
     issuer \<leftarrow> str L ''JWT_ISSUER'' ''stripe-payment-service'';
     audience \<leftarrow> str L ''JWT_AUDIENCE'' ''stripe-payment-service-api'';
     access \<leftarrow> duration_var L ''JWT_ACCESS_TOKEN_TTL'' (15 * minute);
     refresh \<leftarrow> duration_var L ''REFRESH_TOKEN_TTL'' (30 * 24 * hour);
     secure \<leftarrow> boolVal L ''AUTH_COOKIE_SECURE'' False;
     domain \<leftarrow> str L ''AUTH_COOKIE_DOMAIN'' [];
     cost \<leftarrow> intVal L ''BCRYPT_COST'' 12;
     State_Monad.return
       \<lparr>au_JWTSecret = Secret secret, au_JWTIssuer = issuer, au_JWTAudience = audience, au_AccessTokenTTL = access,
        au_RefreshTokenTTL = refresh, au_CookieSecure = secure, au_CookieDomain = domain, au_BcryptCost = cost\<rparr> }"

definition load_Sweeper :: "config_lib \<Rightarrow> SweeperCfg loading" where
  "load_Sweeper L = do {
     enabled \<leftarrow> boolVal L ''WEBHOOK_SWEEPER_ENABLED'' True;
     interval \<leftarrow> duration_var L ''WEBHOOK_SWEEPER_INTERVAL'' minute;
     attempts \<leftarrow> intVal L ''WEBHOOK_SWEEPER_MAX_ATTEMPTS'' 6;
     base \<leftarrow> duration_var L ''WEBHOOK_SWEEPER_BASE_BACKOFF'' (30 * second);
     cap \<leftarrow> duration_var L ''WEBHOOK_SWEEPER_MAX_BACKOFF'' (30 * minute);
     batch \<leftarrow> intVal L ''WEBHOOK_SWEEPER_BATCH_SIZE'' 100;
     window \<leftarrow> duration_var L ''WEBHOOK_STALE_CLAIM_AFTER'' (5 * minute);
     alert \<leftarrow> duration_var L ''WEBHOOK_SWEEPER_ALERT_AFTER'' hour;
     State_Monad.return
       \<lparr>sp_Enabled = enabled, sp_Interval = interval, sp_MaxAttempts = attempts, sp_BaseBackoff = base,
        sp_MaxBackoff = cap, sp_BatchSize = batch, sp_StaleClaimAfter = window, sp_AlertAfter = alert\<rparr> }"

definition load_Retention :: "config_lib \<Rightarrow> RetentionCfg loading" where
  "load_Retention L = do {
     enabled \<leftarrow> boolVal L ''PAYLOAD_RETENTION_ENABLED'' True;
     interval \<leftarrow> duration_var L ''PAYLOAD_RETENTION_INTERVAL'' (6 * hour);
     settled \<leftarrow> duration_var L ''PAYLOAD_RETENTION_SETTLED_AFTER'' (30 * 24 * hour);
     unsettled \<leftarrow> duration_var L ''PAYLOAD_RETENTION_UNSETTLED_AFTER'' (90 * 24 * hour);
     batch \<leftarrow> intVal L ''PAYLOAD_RETENTION_BATCH_SIZE'' 500;
     grace \<leftarrow> duration_var L ''REFRESH_TOKEN_GRACE'' (7 * 24 * hour);
     State_Monad.return
       \<lparr>rt_Enabled = enabled, rt_Interval = interval, rt_SettledPayloadAfter = settled,
        rt_UnsettledPayloadAfter = unsettled, rt_BatchSize = batch, rt_RefreshTokenGrace = grace\<rparr> }"

definition load_Log :: "config_lib \<Rightarrow> LogCfg loading" where
  "load_Log L = do {
     level \<leftarrow> str L ''LOG_LEVEL'' ''info'';
     format \<leftarrow> str L ''LOG_FORMAT'' ''json'';
     addSource \<leftarrow> boolVal L ''LOG_ADD_SOURCE'' False;
     State_Monad.return \<lparr>lc_Level = to_lower level, lc_Format = to_lower format, lc_AddSource = addSource\<rparr> }"

definition load_all :: "config_lib \<Rightarrow> AppConfig loading" where
  "load_all L = do {
     app \<leftarrow> load_App L;
     http \<leftarrow> load_HTTP L;
     database \<leftarrow> load_Database L;
     stripe \<leftarrow> load_Stripe L;
     auth \<leftarrow> load_Auth L;
     sweeper \<leftarrow> load_Sweeper L;
     retention \<leftarrow> load_Retention L;
     log \<leftarrow> load_Log L;
     State_Monad.return
       \<lparr>App = app, HTTP = http, Database = database, Stripe = stripe, Auth = auth, SweeperSettings = sweeper,
        RetentionSettings = retention, Log = log\<rparr> }"

section \<open>Validation\<close>

text \<open>
  \<open>problem\<close> is one guarded call of \<open>add\<close>. A URL that does not parse is treated before any
  of its parts is looked at.
\<close>

definition problem :: "bool \<Rightarrow> string \<Rightarrow> string list" where
  "problem bad msg = (if bad then [msg] else [])"

lemma set_problem [simp]: "set (problem b m) = (if b then {m} else {})" "problem b m = [] \<longleftrightarrow> \<not> b"
  by (simp_all add: problem_def)

fun parseLevelName :: "string \<Rightarrow> level result" where
  "parseLevelName name =
     (let n = to_lower (trim_space name)
      in if n = ''debug'' then Inr Debug
         else if n = ''info'' then Inr Info
         else if n = ''warn'' \<or> n = ''warning'' then Inr Warn
         else if n = ''error'' then Inr Error
         else Inl (Text (''unknown log level '' @ go_quote name)))"

declare parseLevelName.simps [simp del]

definition deadline_problem :: "AppConfig \<Rightarrow> string \<times> duration \<Rightarrow> string list" where
  "deadline_problem c = (\<lambda>(name, d).
     if d \<le> 0 then [name @ '' must be positive'']
     else if 0 < hc_WriteTimeout (HTTP c) \<and> hc_WriteTimeout (HTTP c) \<le> d
     then [name @ '' ('' @ duration_string d @ '') must be shorter than HTTP_WRITE_TIMEOUT ('' @
           duration_string (hc_WriteTimeout (HTTP c)) @ '')'']
     else [])"

definition dsn_problem :: "AppConfig \<Rightarrow> string list" where
  "dsn_problem c =
     (let dsn = Reveal (dc_DSN (Database c))
      in if dsn = [] then []
         else if \<not> has_prefix dsn ''postgres://'' \<and> \<not> has_prefix dsn ''postgresql://'' \<and> \<not> contains dsn ''=''
         then [''DATABASE_URL must be a postgres:// URL or a libpq keyword/value string'']
         else if IsProduction (app_Environment (App c)) \<and> contains dsn ''sslmode=disable''
         then [''DATABASE_URL must not use sslmode=disable in production'']
         else [])"

definition key_problem :: "AppConfig \<Rightarrow> string list" where
  "key_problem c =
     (let key = Reveal (st_SecretKey (Stripe c));
          env = app_Environment (App c)
      in if key = [] then []
         else problem (\<not> has_prefix key ''sk_'' \<and> \<not> has_prefix key ''rk_'')
                ''STRIPE_SECRET_KEY must begin with sk_ or rk_'' @
              (if IsProduction env \<and> contains key ''_test_''
               then [''STRIPE_SECRET_KEY is a test key but APP_ENV is production'']
               else if \<not> IsProduction env \<and> contains key ''_live_''
               then [''STRIPE_SECRET_KEY is a live key but APP_ENV is '' @ env @
                     '' - refusing to start against live Stripe'']
               else []))"

definition redirect_problem :: "config_lib \<Rightarrow> AppConfig \<Rightarrow> string \<times> string \<Rightarrow> string list" where
  "redirect_problem L c = (\<lambda>(name, raw).
     if raw = [] then [name @ '' is required'']
     else case url_parse L raw of
            None \<Rightarrow> [name @ '' must be an absolute URL (got '' @ go_quote raw @ '')'']
          | Some u \<Rightarrow>
              if \<not> IsAbs u then [name @ '' must be an absolute URL (got '' @ go_quote raw @ '')'']
              else if IsProduction (app_Environment (App c)) \<and> url_Scheme u \<noteq> ''https''
              then [name @ '' must use https in production (got scheme '' @ go_quote (url_Scheme u) @ '')'']
              else [])"

definition origin_problem :: "config_lib \<Rightarrow> AppConfig \<Rightarrow> string \<Rightarrow> string list" where
  "origin_problem L c origin =
     (let entry = ''CORS_ALLOWED_ORIGINS entry '' @ go_quote origin
      in if origin = ''*''
         then [''CORS_ALLOWED_ORIGINS must not contain '' @ [CHR 0x27] @ ''*'' @ [CHR 0x27] @ ''; list origins explicitly'']
         else case url_parse L origin of
                None \<Rightarrow> [entry @ '' must be an absolute origin like https://app.example.com'']
              | Some u \<Rightarrow>
                  if \<not> IsAbs u \<or> url_Host u = []
                  then [entry @ '' must be an absolute origin like https://app.example.com'']
                  else if url_Path u \<noteq> [] \<and> url_Path u \<noteq> ''/''
                  then [entry @ '' must be scheme://host[:port] with no path'']
                  else if IsProduction (app_Environment (App c)) \<and> url_Scheme u \<noteq> ''https''
                  then [entry @ '' must use https in production'']
                  else [])"

definition return_problem :: "config_lib \<Rightarrow> AppConfig \<Rightarrow> string \<times> string \<Rightarrow> string list" where
  "return_problem L c = (\<lambda>(name, raw).
     if raw = [] then []
     else case url_parse L raw of
            None \<Rightarrow> [name @ '' must be an absolute URL (got '' @ go_quote raw @ '')'']
          | Some u \<Rightarrow>
              if \<not> IsAbs u then [name @ '' must be an absolute URL (got '' @ go_quote raw @ '')'']
              else if IsProduction (app_Environment (App c)) \<and> url_Scheme u \<noteq> ''https''
              then [name @ '' must use https in production'']
              else [])"

definition price_problem :: "string \<Rightarrow> string list" where
  "price_problem i =
     problem (\<not> has_prefix i ''price_'') (''STRIPE_ALLOWED_PRICE_IDS entry '' @ go_quote i @ '' must begin with price_'')"

definition validateStripe :: "config_lib \<Rightarrow> AppConfig \<Rightarrow> string list" where
  "validateStripe L c =
     (let s = Stripe c;
          ws = Reveal (st_WebhookSecret s);
          production = IsProduction (app_Environment (App c))
      in key_problem c @
         problem (ws \<noteq> [] \<and> \<not> has_prefix ws ''whsec_'') ''STRIPE_WEBHOOK_SECRET must begin with whsec_'' @
         problem (st_PublishableKey s \<noteq> [] \<and> \<not> has_prefix (st_PublishableKey s) ''pk_'')
           ''STRIPE_PUBLISHABLE_KEY must begin with pk_'' @
         problem (st_WebhookTolerance s \<le> 0)
           ''STRIPE_WEBHOOK_TOLERANCE must be positive - it bounds the signature replay window'' @
         problem (st_MaxNetworkRetries s < 0)
           (''STRIPE_MAX_NETWORK_RETRIES must not be negative (got '' @ format_int (st_MaxNetworkRetries s) @ '')'') @
         problem (st_HTTPTimeout s \<le> 0) ''STRIPE_HTTP_TIMEOUT must be positive'' @
         concat (map (redirect_problem L c)
           (range2 (visit_backwards L 1)
              (''STRIPE_CHECKOUT_SUCCESS_URL'', st_CheckoutSuccessURL s)
              (''STRIPE_CHECKOUT_CANCEL_URL'', st_CheckoutCancelURL s))) @
         concat (map (origin_problem L c) (hc_CORSAllowedOrigins (HTTP c))) @
         concat (map (return_problem L c)
           (range2 (visit_backwards L 2)
              (''STRIPE_CHECKOUT_RETURN_URL'', st_CheckoutReturnURL s)
              (''STRIPE_PORTAL_RETURN_URL'', st_PortalReturnURL s))) @
         concat (map price_problem (st_AllowedPriceIDs s)) @
         problem (production \<and> st_AllowedPriceIDs s = []) ''STRIPE_ALLOWED_PRICE_IDS must not be empty in production'' @
         problem (production \<and> st_IgnoreAPIVersionMismatch s)
           (''STRIPE_IGNORE_API_VERSION_MISMATCH must not be enabled in production - '' @
            ''events would be deserialised against a version they were not rendered for''))"

definition validateAuth :: "AppConfig \<Rightarrow> string list" where
  "validateAuth c =
     (let a = Auth c;
          secret = Reveal (au_JWTSecret a);
          production = IsProduction (app_Environment (App c));
          access = au_AccessTokenTTL a;
          refresh = au_RefreshTokenTTL a
      in (if secret = [] then []
          else problem (length secret < 32)
                 (''JWT_SECRET must be at least 32 bytes (got '' @ decimal (length secret) @
                  '') - a shorter HMAC key adds nothing over a 256-bit one and is usually a guessable passphrase'') @
               problem (contains secret ''change_me'' \<or> contains secret ''example'')
                 ''JWT_SECRET still holds a placeholder value - generate one with `openssl rand -base64 48`'') @
         problem (au_JWTIssuer a = []) ''JWT_ISSUER must not be empty'' @
         problem (au_JWTAudience a = []) ''JWT_AUDIENCE must not be empty'' @
         (if access \<le> 0 then [''JWT_ACCESS_TOKEN_TTL must be positive'']
          else problem (production \<and> 24 * hour < access)
                 (''JWT_ACCESS_TOKEN_TTL is '' @ duration_string access @
                  ''; tokens cannot be revoked before expiry, so production must not exceed 24h'')) @
         (if refresh \<le> 0 then [''REFRESH_TOKEN_TTL must be positive'']
          else problem (refresh \<le> access)
                 (''REFRESH_TOKEN_TTL ('' @ duration_string refresh @ '') must exceed JWT_ACCESS_TOKEN_TTL ('' @
                  duration_string access @ ''); a refresh token that expires first cannot renew anything'')) @
         problem (production \<and> \<not> au_CookieSecure a)
           (''AUTH_COOKIE_SECURE must be true in production; the refresh cookie would '' @
            ''otherwise be sent over plain HTTP'') @
         problem (au_BcryptCost a < 10 \<or> 31 < au_BcryptCost a)
           (''BCRYPT_COST must be between 10 and 31 (got '' @ format_int (au_BcryptCost a) @ '')''))"

definition validateSweeper :: "AppConfig \<Rightarrow> string list" where
  "validateSweeper c =
     (let s = SweeperSettings c; deadline = hc_WebhookTimeout (HTTP c)
      in if \<not> sp_Enabled s then []
         else problem (sp_Interval s \<le> 0) ''WEBHOOK_SWEEPER_INTERVAL must be positive'' @
              problem (sp_MaxAttempts s < 1)
                (''WEBHOOK_SWEEPER_MAX_ATTEMPTS must be at least 1 (got '' @ format_int (sp_MaxAttempts s) @ '')'') @
              problem (sp_BatchSize s < 1)
                (''WEBHOOK_SWEEPER_BATCH_SIZE must be at least 1 (got '' @ format_int (sp_BatchSize s) @ '')'') @
              problem (sp_BaseBackoff s \<le> 0) ''WEBHOOK_SWEEPER_BASE_BACKOFF must be positive'' @
              problem (sp_MaxBackoff s < sp_BaseBackoff s)
                (''WEBHOOK_SWEEPER_MAX_BACKOFF ('' @ duration_string (sp_MaxBackoff s) @
                 '') must not be shorter than WEBHOOK_SWEEPER_BASE_BACKOFF ('' @ duration_string (sp_BaseBackoff s) @ '')'') @
              problem (sp_StaleClaimAfter s \<le> deadline)
                (''WEBHOOK_STALE_CLAIM_AFTER ('' @ duration_string (sp_StaleClaimAfter s) @
                 '') must exceed HTTP_WEBHOOK_TIMEOUT ('' @ duration_string deadline @
                 ''), or the sweeper reclaims claims that are still being worked on''))"

text \<open>The retry budget is a product of two 64-bit integers and wraps around like one.\<close>

definition exhaust :: "SweeperCfg \<Rightarrow> duration" where
  "exhaust s = int64_of (sp_MaxAttempts s * sp_MaxBackoff s)"

definition validateRetention :: "AppConfig \<Rightarrow> string list" where
  "validateRetention c =
     (let r = RetentionSettings c; s = SweeperSettings c
      in if \<not> rt_Enabled r
         then problem (IsProduction (app_Environment (App c)))
                (''PAYLOAD_RETENTION_ENABLED is false in production; webhook payloads '' @
                 ''hold customer email and billing address and would be kept indefinitely'')
         else problem (rt_Interval r \<le> 0) ''PAYLOAD_RETENTION_INTERVAL must be positive'' @
              problem (rt_BatchSize r < 1)
                (''PAYLOAD_RETENTION_BATCH_SIZE must be at least 1 (got '' @ format_int (rt_BatchSize r) @ '')'') @
              problem (rt_SettledPayloadAfter r \<le> 0) ''PAYLOAD_RETENTION_SETTLED_AFTER must be positive'' @
              problem (rt_UnsettledPayloadAfter r < rt_SettledPayloadAfter r)
                (''PAYLOAD_RETENTION_UNSETTLED_AFTER ('' @ duration_string (rt_UnsettledPayloadAfter r) @
                 '') must not be shorter than PAYLOAD_RETENTION_SETTLED_AFTER ('' @
                 duration_string (rt_SettledPayloadAfter r) @
                 ''): an unresolved event needs its payload for longer than a settled one, not less'') @
              problem (sp_Enabled s \<and> rt_UnsettledPayloadAfter r < int64_of (10 * exhaust s))
                (''PAYLOAD_RETENTION_UNSETTLED_AFTER ('' @ duration_string (rt_UnsettledPayloadAfter r) @
                 '') is too close to the sweeper'' @ [CHR 0x27] @ ''s retry budget ('' @ format_int (sp_MaxAttempts s) @
                 '' attempts x '' @ duration_string (sp_MaxBackoff s) @ '' = '' @ duration_string (exhaust s) @
                 ''); failed events would lose their payload before the sweeper is done with them''))"

definition http_problems :: "AppConfig \<Rightarrow> string list" where
  "http_problems c =
     (let h = HTTP c
      in problem (hc_Port h < 1 \<or> 65535 < hc_Port h)
           (''HTTP_PORT must be between 1 and 65535 (got '' @ format_int (hc_Port h) @ '')'') @
         problem (hc_ReadHeaderTimeout h \<le> 0)
           ''HTTP_READ_HEADER_TIMEOUT must be positive - a zero value invites Slowloris'' @
         problem (hc_TrustedProxies h < 0)
           (''TRUSTED_PROXIES must not be negative (got '' @ format_int (hc_TrustedProxies h) @ '')'') @
         problem (hc_AuthRateLimitRPS h \<le> 0) ''AUTH_RATE_LIMIT_RPS must be positive'' @
         problem (hc_MetricsPort h \<noteq> 0 \<and> (hc_MetricsPort h < 1 \<or> 65535 < hc_MetricsPort h))
           (''METRICS_PORT must be 0 (disabled) or between 1 and 65535 (got '' @ format_int (hc_MetricsPort h) @ '')'') @
         problem (hc_MetricsPort h \<noteq> 0 \<and> hc_MetricsPort h = hc_Port h)
           (''METRICS_PORT ('' @ format_int (hc_MetricsPort h) @
            '') must differ from HTTP_PORT; sharing the port would put /metrics on the public API'') @
         problem (hc_AuthRateLimitBurst h < 1)
           (''AUTH_RATE_LIMIT_BURST must be at least 1 (got '' @ format_int (hc_AuthRateLimitBurst h) @ '')''))"

definition database_problems :: "AppConfig \<Rightarrow> string list" where
  "database_problems c =
     (let d = Database c
      in dsn_problem c @
         problem (dc_MaxConns d < 1) (''DB_MAX_CONNS must be at least 1 (got '' @ format_int (dc_MaxConns d) @ '')'') @
         problem (dc_MinConns d < 0) (''DB_MIN_CONNS must not be negative (got '' @ format_int (dc_MinConns d) @ '')'') @
         problem (dc_MaxConns d < dc_MinConns d)
           (''DB_MIN_CONNS ('' @ format_int (dc_MinConns d) @ '') must not exceed DB_MAX_CONNS ('' @
            format_int (dc_MaxConns d) @ '')'') @
         problem (dc_ConnectTimeout d \<le> 0)
           (''DB_CONNECT_TIMEOUT must be positive (got '' @ duration_string (dc_ConnectTimeout d) @ '')''))"

definition validation_errs :: "config_lib \<Rightarrow> AppConfig \<Rightarrow> string list" where
  "validation_errs L c =
     problem (\<not> Environment_valid (app_Environment (App c)))
       (''APP_ENV must be one of development, staging, production (got '' @ go_quote (app_Environment (App c)) @ '')'') @
     problem (app_ShutdownTimeout (App c) \<le> 0)
       (''SHUTDOWN_TIMEOUT must be positive (got '' @ duration_string (app_ShutdownTimeout (App c)) @ '')'') @
     http_problems c @
     concat (map (deadline_problem c)
       (range2 (visit_backwards L 0)
          (''HTTP_API_TIMEOUT'', hc_APITimeout (HTTP c))
          (''HTTP_WEBHOOK_TIMEOUT'', hc_WebhookTimeout (HTTP c)))) @
     database_problems c @
     validateStripe L c @ validateAuth c @ validateSweeper c @ validateRetention c @
     problem (isl (parseLevelName (lc_Level (Log c))))
       (''LOG_LEVEL must be one of debug, info, warn, error (got '' @ go_quote (lc_Level (Log c)) @ '')'') @
     problem (lc_Format (Log c) \<noteq> ''json'' \<and> lc_Format (Log c) \<noteq> ''text'')
       (''LOG_FORMAT must be json or text (got '' @ go_quote (lc_Format (Log c)) @ '')'')"

definition Validate :: "config_lib \<Rightarrow> AppConfig \<Rightarrow> goerr option" where
  "Validate L c = errors_Join (validation_errs L c)"

definition Load :: "config_lib \<Rightarrow> AppConfig result" where
  "Load L =
     (let (cfg, errs) = run_state (load_all L) [];
          failures = map err_text (List.map_filter id [errors_Join errs, Validate L cfg])
      in case errors_Join failures of Some err \<Rightarrow> Inl err | None \<Rightarrow> Inr cfg)"

section \<open>What the loader computes\<close>

text \<open>
  Every reader returns a value that depends on the environment alone and appends the problem
  of its own variable, if there is one. So the loader as a whole computes \<open>loaded\<close> and
  reports, in order, the problems of \<open>variables\<close>.
\<close>

definition text_of :: "config_lib \<Rightarrow> string \<Rightarrow> string" where
  "text_of L key = fst (lookup L key)"

definition set_in :: "config_lib \<Rightarrow> string \<Rightarrow> bool" where
  "set_in L key \<longleftrightarrow> snd (lookup L key)"

definition typed_value :: "(string \<Rightarrow> 'a option) \<Rightarrow> config_lib \<Rightarrow> string \<Rightarrow> 'a \<Rightarrow> 'a" where
  "typed_value parse L key dflt =
     (if set_in L key then (case parse (text_of L key) of None \<Rightarrow> dflt | Some x \<Rightarrow> x) else dflt)"

definition typed_problem :: "(string \<Rightarrow> 'a option) \<Rightarrow> string \<Rightarrow> config_lib \<Rightarrow> string \<Rightarrow> string list" where
  "typed_problem parse noun L key =
     problem (set_in L key \<and> parse (text_of L key) = None)
       (key @ '' must be '' @ noun @ '' (got '' @ go_quote (text_of L key) @ '')'')"

lemma run_typed:
  "run_state (typed parse noun L key dflt) errs = (typed_value parse L key dflt, errs @ typed_problem parse noun L key)"
  by (auto simp: typed_def typed_value_def typed_problem_def text_of_def set_in_def problem_def loader_fail_def
      split: prod.splits option.splits)

lemma run_str: "run_state (str L key dflt) errs = (if set_in L key then text_of L key else dflt, errs)"
  by (auto simp: str_def text_of_def set_in_def split: prod.splits)

lemma run_required:
  "run_state (required L key) errs =
     (text_of L key, errs @ problem (\<not> set_in L key) (''required environment variable '' @ key @ '' is not set''))"
  by (auto simp: required_def text_of_def set_in_def problem_def loader_fail_def split: prod.splits)

definition csv_value :: "config_lib \<Rightarrow> string \<Rightarrow> string list" where
  "csv_value L key =
     (if set_in L key then filter (\<lambda>p. p \<noteq> []) (map trim_space (split_list (text_of L key))) else [])"

lemma run_csv: "run_state (csv L key) errs = (csv_value L key, errs)"
  by (auto simp: csv_def csv_value_def text_of_def set_in_def split: prod.splits)

lemmas run_readers = run_typed run_str run_required run_csv intVal_def duration_var_def boolVal_def float_var_def

datatype var_kind = Required | Integer | Duration | Boolean | Number

fun var_problem :: "config_lib \<Rightarrow> var_kind \<times> string \<Rightarrow> string list" where
  "var_problem L (Required, key) =
     problem (\<not> set_in L key) (''required environment variable '' @ key @ '' is not set'')"
| "var_problem L (Integer, key) = typed_problem Atoi ''an integer'' L key"
| "var_problem L (Duration, key) = typed_problem ParseDuration ''a duration such as 30s or 5m'' L key"
| "var_problem L (Boolean, key) = typed_problem ParseBool ''a boolean'' L key"
| "var_problem L (Number, key) = typed_problem (ParseFloat L) ''a number'' L key"

definition vars_App :: "(var_kind \<times> string) list" where
  "vars_App =
     [(Duration, ''SHUTDOWN_TIMEOUT'')]"

definition vars_HTTP :: "(var_kind \<times> string) list" where
  "vars_HTTP =
     [(Integer, ''HTTP_PORT''), (Duration, ''HTTP_READ_HEADER_TIMEOUT''), (Duration, ''HTTP_READ_TIMEOUT''),
      (Duration, ''HTTP_WRITE_TIMEOUT''), (Duration, ''HTTP_IDLE_TIMEOUT''), (Duration, ''HTTP_API_TIMEOUT''),
      (Duration, ''HTTP_WEBHOOK_TIMEOUT''), (Integer, ''TRUSTED_PROXIES''), (Number, ''AUTH_RATE_LIMIT_RPS''),
      (Integer, ''AUTH_RATE_LIMIT_BURST''), (Integer, ''METRICS_PORT'')]"

definition vars_Database :: "(var_kind \<times> string) list" where
  "vars_Database =
     [(Required, ''DATABASE_URL''), (Integer, ''DB_MAX_CONNS''), (Integer, ''DB_MIN_CONNS''),
      (Duration, ''DB_MAX_CONN_LIFETIME''), (Duration, ''DB_MAX_CONN_IDLE_TIME''),
      (Duration, ''DB_HEALTH_CHECK_PERIOD''), (Duration, ''DB_CONNECT_TIMEOUT''),
      (Duration, ''DB_STATEMENT_TIMEOUT''), (Duration, ''DB_IDLE_IN_TX_TIMEOUT''),
      (Duration, ''DB_SLOW_QUERY_THRESHOLD'')]"

definition vars_Stripe :: "(var_kind \<times> string) list" where
  "vars_Stripe =
     [(Required, ''STRIPE_SECRET_KEY''), (Required, ''STRIPE_WEBHOOK_SECRET''),
      (Duration, ''STRIPE_WEBHOOK_TOLERANCE''), (Integer, ''STRIPE_MAX_NETWORK_RETRIES''),
      (Duration, ''STRIPE_HTTP_TIMEOUT''), (Boolean, ''STRIPE_IGNORE_API_VERSION_MISMATCH'')]"

definition vars_Auth :: "(var_kind \<times> string) list" where
  "vars_Auth =
     [(Required, ''JWT_SECRET''), (Duration, ''JWT_ACCESS_TOKEN_TTL''), (Duration, ''REFRESH_TOKEN_TTL''),
      (Boolean, ''AUTH_COOKIE_SECURE''), (Integer, ''BCRYPT_COST'')]"

definition vars_Sweeper :: "(var_kind \<times> string) list" where
  "vars_Sweeper =
     [(Boolean, ''WEBHOOK_SWEEPER_ENABLED''), (Duration, ''WEBHOOK_SWEEPER_INTERVAL''),
      (Integer, ''WEBHOOK_SWEEPER_MAX_ATTEMPTS''), (Duration, ''WEBHOOK_SWEEPER_BASE_BACKOFF''),
      (Duration, ''WEBHOOK_SWEEPER_MAX_BACKOFF''), (Integer, ''WEBHOOK_SWEEPER_BATCH_SIZE''),
      (Duration, ''WEBHOOK_STALE_CLAIM_AFTER''), (Duration, ''WEBHOOK_SWEEPER_ALERT_AFTER'')]"

definition vars_Retention :: "(var_kind \<times> string) list" where
  "vars_Retention =
     [(Boolean, ''PAYLOAD_RETENTION_ENABLED''), (Duration, ''PAYLOAD_RETENTION_INTERVAL''),
      (Duration, ''PAYLOAD_RETENTION_SETTLED_AFTER''), (Duration, ''PAYLOAD_RETENTION_UNSETTLED_AFTER''),
      (Integer, ''PAYLOAD_RETENTION_BATCH_SIZE''), (Duration, ''REFRESH_TOKEN_GRACE'')]"

definition vars_Log :: "(var_kind \<times> string) list" where
  "vars_Log =
     [(Boolean, ''LOG_ADD_SOURCE'')]"

lemmas vars_defs = vars_App_def vars_HTTP_def vars_Database_def vars_Stripe_def vars_Auth_def vars_Sweeper_def vars_Retention_def vars_Log_def

definition loaded_App :: "config_lib \<Rightarrow> AppCfg" where
  "loaded_App L = fst (run_state (load_App L) [])"

definition loaded_HTTP :: "config_lib \<Rightarrow> HTTPCfg" where
  "loaded_HTTP L = fst (run_state (load_HTTP L) [])"

definition loaded_Database :: "config_lib \<Rightarrow> DatabaseCfg" where
  "loaded_Database L = fst (run_state (load_Database L) [])"

definition loaded_Stripe :: "config_lib \<Rightarrow> StripeCfg" where
  "loaded_Stripe L = fst (run_state (load_Stripe L) [])"

definition loaded_Auth :: "config_lib \<Rightarrow> AuthCfg" where
  "loaded_Auth L = fst (run_state (load_Auth L) [])"

definition loaded_Sweeper :: "config_lib \<Rightarrow> SweeperCfg" where
  "loaded_Sweeper L = fst (run_state (load_Sweeper L) [])"

definition loaded_Retention :: "config_lib \<Rightarrow> RetentionCfg" where
  "loaded_Retention L = fst (run_state (load_Retention L) [])"

definition loaded_Log :: "config_lib \<Rightarrow> LogCfg" where
  "loaded_Log L = fst (run_state (load_Log L) [])"

lemma run_load_App: "run_state (load_App L) errs = (loaded_App L, errs @ concat (map (var_problem L) vars_App))"
  by (simp add: loaded_App_def load_App_def vars_App_def run_readers)

lemma run_load_HTTP: "run_state (load_HTTP L) errs = (loaded_HTTP L, errs @ concat (map (var_problem L) vars_HTTP))"
  by (simp add: loaded_HTTP_def load_HTTP_def vars_HTTP_def run_readers)

lemma run_load_Database: "run_state (load_Database L) errs = (loaded_Database L, errs @ concat (map (var_problem L) vars_Database))"
  by (simp add: loaded_Database_def load_Database_def vars_Database_def run_readers)

lemma run_load_Stripe: "run_state (load_Stripe L) errs = (loaded_Stripe L, errs @ concat (map (var_problem L) vars_Stripe))"
  by (simp add: loaded_Stripe_def load_Stripe_def vars_Stripe_def run_readers)

lemma run_load_Auth: "run_state (load_Auth L) errs = (loaded_Auth L, errs @ concat (map (var_problem L) vars_Auth))"
  by (simp add: loaded_Auth_def load_Auth_def vars_Auth_def run_readers)

lemma run_load_Sweeper: "run_state (load_Sweeper L) errs = (loaded_Sweeper L, errs @ concat (map (var_problem L) vars_Sweeper))"
  by (simp add: loaded_Sweeper_def load_Sweeper_def vars_Sweeper_def run_readers)

lemma run_load_Retention: "run_state (load_Retention L) errs = (loaded_Retention L, errs @ concat (map (var_problem L) vars_Retention))"
  by (simp add: loaded_Retention_def load_Retention_def vars_Retention_def run_readers)

lemma run_load_Log: "run_state (load_Log L) errs = (loaded_Log L, errs @ concat (map (var_problem L) vars_Log))"
  by (simp add: loaded_Log_def load_Log_def vars_Log_def run_readers)

definition variables :: "(var_kind \<times> string) list" where
  "variables = vars_App @ vars_HTTP @ vars_Database @ vars_Stripe @ vars_Auth @ vars_Sweeper @ vars_Retention @ vars_Log"

definition loaded :: "config_lib \<Rightarrow> AppConfig" where
  "loaded L =
     \<lparr>App = loaded_App L, HTTP = loaded_HTTP L, Database = loaded_Database L, Stripe = loaded_Stripe L,
      Auth = loaded_Auth L, SweeperSettings = loaded_Sweeper L, RetentionSettings = loaded_Retention L,
      Log = loaded_Log L\<rparr>"

lemma run_load_all: "run_state (load_all L) errs = (loaded L, errs @ concat (map (var_problem L) variables))"
  by (simp add: load_all_def loaded_def variables_def run_load_App run_load_HTTP run_load_Database run_load_Stripe run_load_Auth run_load_Sweeper run_load_Retention run_load_Log)

section \<open>What validation accepts\<close>

lemma errors_Join_None [simp]: "errors_Join msgs = None \<longleftrightarrow> msgs = []"
  by (simp add: errors_Join_def)

lemma join_append: "xs \<noteq> [] \<Longrightarrow> ys \<noteq> [] \<Longrightarrow> join sep (xs @ ys) = join sep xs @ sep @ join sep ys"
proof (induction sep xs rule: join.induct)
  case (2 sep x)
  then show ?case by (cases ys) auto
qed auto

lemma join_mem: "m \<in> set ms \<Longrightarrow> \<exists>a b. join sep ms = a @ m @ b"
proof (induction sep ms rule: join.induct)
  case (2 sep x)
  then have "join sep [x] = [] @ m @ []" by simp
  then show ?case by blast
next
  case (3 sep x y xs)
  show ?case
  proof (cases "m = x")
    case True
    then have "join sep (x # y # xs) = [] @ m @ (sep @ join sep (y # xs))" by simp
    then show ?thesis by blast
  next
    case False
    then obtain a b where "join sep (y # xs) = a @ m @ b" using 3 by auto
    then have "join sep (x # y # xs) = (x @ sep @ a) @ m @ b" by simp
    then show ?thesis by blast
  qed
qed simp

definition all_problems :: "config_lib \<Rightarrow> string list" where
  "all_problems L = concat (map (var_problem L) variables) @ validation_errs L (loaded L)"

lemma Load_eq:
  "Load L = (if all_problems L = [] then Inr (loaded L) else Inl (Text (join [CHR 0x0A] (all_problems L))))"
  by (cases "concat (map (var_problem L) variables) = []"; cases "validation_errs L (loaded L) = []")
     (simp_all add: Load_def run_load_all Validate_def all_problems_def errors_Join_def List.map_filter_def join_append
        del: concat_eq_Nil_conv)

lemma deadline_problem_ok [simp]:
  "deadline_problem c (name, d) = [] \<longleftrightarrow> 0 < d \<and> (0 < hc_WriteTimeout (HTTP c) \<longrightarrow> d < hc_WriteTimeout (HTTP c))"
  by (auto simp: deadline_problem_def)

definition good_url :: "config_lib \<Rightarrow> AppConfig \<Rightarrow> string \<Rightarrow> bool" where
  "good_url L c raw \<longleftrightarrow>
     (\<exists>u. url_parse L raw = Some u \<and> IsAbs u \<and>
          (IsProduction (app_Environment (App c)) \<longrightarrow> url_Scheme u = ''https''))"

definition good_origin :: "config_lib \<Rightarrow> AppConfig \<Rightarrow> string \<Rightarrow> bool" where
  "good_origin L c origin \<longleftrightarrow> origin \<noteq> ''*'' \<and>
     (\<exists>u. url_parse L origin = Some u \<and> IsAbs u \<and> url_Host u \<noteq> [] \<and> (url_Path u = [] \<or> url_Path u = ''/'') \<and>
          (IsProduction (app_Environment (App c)) \<longrightarrow> url_Scheme u = ''https''))"

lemma redirect_problem_ok [simp]: "redirect_problem L c (name, raw) = [] \<longleftrightarrow> raw \<noteq> [] \<and> good_url L c raw"
  by (auto simp: redirect_problem_def good_url_def split: option.splits)

lemma return_problem_ok [simp]: "return_problem L c (name, raw) = [] \<longleftrightarrow> raw = [] \<or> good_url L c raw"
  by (auto simp: return_problem_def good_url_def split: option.splits)

lemma origin_problem_ok [simp]: "origin_problem L c origin = [] \<longleftrightarrow> good_origin L c origin"
  by (auto simp: origin_problem_def good_origin_def Let_def split: option.splits)

lemma price_problem_ok [simp]: "price_problem i = [] \<longleftrightarrow> has_prefix i ''price_''"
  by (simp add: price_problem_def)

lemma map_range2_ok [simp]:
  "(\<forall>x \<in> set (range2 b x y). f x = []) \<longleftrightarrow> f x = [] \<and> f y = []"
  by auto

text \<open>The rules of a valid configuration that the process relies on.\<close>

definition http_rules :: "AppConfig \<Rightarrow> bool" where
  "http_rules c \<longleftrightarrow>
     1 \<le> hc_Port (HTTP c) \<and> hc_Port (HTTP c) \<le> 65535 \<and> 0 < hc_ReadHeaderTimeout (HTTP c) \<and>
     0 \<le> hc_TrustedProxies (HTTP c) \<and> 0 < hc_AuthRateLimitRPS (HTTP c) \<and> 1 \<le> hc_AuthRateLimitBurst (HTTP c) \<and>
     (hc_MetricsPort (HTTP c) \<noteq> 0 \<longrightarrow>
        1 \<le> hc_MetricsPort (HTTP c) \<and> hc_MetricsPort (HTTP c) \<le> 65535 \<and> hc_MetricsPort (HTTP c) \<noteq> hc_Port (HTTP c))"

lemma http_problems_ok: "http_problems c = [] \<longleftrightarrow> http_rules c"
  by (auto simp: http_problems_def http_rules_def Let_def)

definition sweeper_rules :: "AppConfig \<Rightarrow> bool" where
  "sweeper_rules c \<longleftrightarrow> (sp_Enabled (SweeperSettings c) \<longrightarrow>
     0 < sp_Interval (SweeperSettings c) \<and> 1 \<le> sp_MaxAttempts (SweeperSettings c) \<and> 1 \<le> sp_BatchSize (SweeperSettings c) \<and>
     0 < sp_BaseBackoff (SweeperSettings c) \<and> sp_BaseBackoff (SweeperSettings c) \<le> sp_MaxBackoff (SweeperSettings c) \<and>
     hc_WebhookTimeout (HTTP c) < sp_StaleClaimAfter (SweeperSettings c))"

lemma validateSweeper_ok: "validateSweeper c = [] \<longleftrightarrow> sweeper_rules c"
  by (auto simp: validateSweeper_def sweeper_rules_def Let_def)

definition auth_rules :: "AppConfig \<Rightarrow> bool" where
  "auth_rules c \<longleftrightarrow>
     (Reveal (au_JWTSecret (Auth c)) \<noteq> [] \<longrightarrow> 32 \<le> length (Reveal (au_JWTSecret (Auth c))) \<and>
        \<not> contains (Reveal (au_JWTSecret (Auth c))) ''change_me'' \<and> \<not> contains (Reveal (au_JWTSecret (Auth c))) ''example'') \<and>
     au_JWTIssuer (Auth c) \<noteq> [] \<and> au_JWTAudience (Auth c) \<noteq> [] \<and>
     0 < au_AccessTokenTTL (Auth c) \<and> au_AccessTokenTTL (Auth c) < au_RefreshTokenTTL (Auth c) \<and>
     (IsProduction (app_Environment (App c)) \<longrightarrow> au_AccessTokenTTL (Auth c) \<le> 24 * hour \<and> au_CookieSecure (Auth c)) \<and>
     10 \<le> au_BcryptCost (Auth c) \<and> au_BcryptCost (Auth c) \<le> 31"

lemma validateAuth_ok: "validateAuth c = [] \<longleftrightarrow> auth_rules c"
  by (auto simp: validateAuth_def auth_rules_def Let_def)

definition retention_rules :: "AppConfig \<Rightarrow> bool" where
  "retention_rules c \<longleftrightarrow>
     (let r = RetentionSettings c; s = SweeperSettings c
      in (\<not> rt_Enabled r \<longrightarrow> \<not> IsProduction (app_Environment (App c))) \<and>
         (rt_Enabled r \<longrightarrow>
            0 < rt_Interval r \<and> 1 \<le> rt_BatchSize r \<and> 0 < rt_SettledPayloadAfter r \<and>
            rt_SettledPayloadAfter r \<le> rt_UnsettledPayloadAfter r \<and>
            (sp_Enabled s \<longrightarrow> int64_of (10 * exhaust s) \<le> rt_UnsettledPayloadAfter r)))"

lemma validateRetention_ok: "validateRetention c = [] \<longleftrightarrow> retention_rules c"
  by (auto simp: validateRetention_def retention_rules_def Let_def)

definition key_rules :: "AppConfig \<Rightarrow> bool" where
  "key_rules c \<longleftrightarrow>
     (let key = Reveal (st_SecretKey (Stripe c))
      in key \<noteq> [] \<longrightarrow>
           (has_prefix key ''sk_'' \<or> has_prefix key ''rk_'') \<and>
           (if IsProduction (app_Environment (App c)) then \<not> contains key ''_test_'' else \<not> contains key ''_live_''))"

lemma key_problem_ok: "key_problem c = [] \<longleftrightarrow> key_rules c"
  by (auto simp: key_problem_def key_rules_def Let_def)

definition stripe_rules :: "config_lib \<Rightarrow> AppConfig \<Rightarrow> bool" where
  "stripe_rules L c \<longleftrightarrow>
     (let s = Stripe c
      in (Reveal (st_WebhookSecret s) \<noteq> [] \<longrightarrow> has_prefix (Reveal (st_WebhookSecret s)) ''whsec_'') \<and>
         (st_PublishableKey s \<noteq> [] \<longrightarrow> has_prefix (st_PublishableKey s) ''pk_'') \<and>
         0 < st_WebhookTolerance s \<and> 0 \<le> st_MaxNetworkRetries s \<and> 0 < st_HTTPTimeout s \<and>
         st_CheckoutSuccessURL s \<noteq> [] \<and> good_url L c (st_CheckoutSuccessURL s) \<and>
         st_CheckoutCancelURL s \<noteq> [] \<and> good_url L c (st_CheckoutCancelURL s) \<and>
         (\<forall>origin \<in> set (hc_CORSAllowedOrigins (HTTP c)). good_origin L c origin) \<and>
         (st_CheckoutReturnURL s = [] \<or> good_url L c (st_CheckoutReturnURL s)) \<and>
         (st_PortalReturnURL s = [] \<or> good_url L c (st_PortalReturnURL s)) \<and>
         (\<forall>i \<in> set (st_AllowedPriceIDs s). has_prefix i ''price_'') \<and>
         (IsProduction (app_Environment (App c)) \<longrightarrow> st_AllowedPriceIDs s \<noteq> [] \<and> \<not> st_IgnoreAPIVersionMismatch s))"

lemma validateStripe_ok: "validateStripe L c = [] \<longleftrightarrow> key_rules c \<and> stripe_rules L c"
  unfolding validateStripe_def stripe_rules_def key_problem_ok [symmetric] Let_def
  by (simp add: not_less not_le conj_ac) blast

definition database_rules :: "AppConfig \<Rightarrow> bool" where
  "database_rules c \<longleftrightarrow>
     (let dsn = Reveal (dc_DSN (Database c))
      in (dsn \<noteq> [] \<longrightarrow>
            (has_prefix dsn ''postgres://'' \<or> has_prefix dsn ''postgresql://'' \<or> contains dsn ''='') \<and>
            (IsProduction (app_Environment (App c)) \<longrightarrow> \<not> contains dsn ''sslmode=disable'')) \<and>
         1 \<le> dc_MaxConns (Database c) \<and> 0 \<le> dc_MinConns (Database c) \<and>
         dc_MinConns (Database c) \<le> dc_MaxConns (Database c) \<and> 0 < dc_ConnectTimeout (Database c))"

lemma database_problems_ok: "database_problems c = [] \<longleftrightarrow> database_rules c"
  by (auto simp: database_problems_def dsn_problem_def database_rules_def Let_def)

definition deadline_rules :: "AppConfig \<Rightarrow> bool" where
  "deadline_rules c \<longleftrightarrow>
     (\<forall>d \<in> {hc_APITimeout (HTTP c), hc_WebhookTimeout (HTTP c)}.
        0 < d \<and> (0 < hc_WriteTimeout (HTTP c) \<longrightarrow> d < hc_WriteTimeout (HTTP c)))"

lemma validation_ok:
  "validation_errs L c = [] \<longleftrightarrow>
     Environment_valid (app_Environment (App c)) \<and> 0 < app_ShutdownTimeout (App c) \<and> http_rules c \<and> deadline_rules c \<and>
     database_rules c \<and> key_rules c \<and> stripe_rules L c \<and> auth_rules c \<and> sweeper_rules c \<and> retention_rules c \<and>
     \<not> isl (parseLevelName (lc_Level (Log c))) \<and> (lc_Format (Log c) = ''json'' \<or> lc_Format (Log c) = ''text'')"
  by (auto simp: validation_errs_def http_problems_ok database_problems_ok validateStripe_ok validateAuth_ok
      validateSweeper_ok validateRetention_ok deadline_rules_def)

lemma Load_Inr: "Load L = Inr c \<longleftrightarrow>
    c = loaded L \<and> (\<forall>v \<in> set variables. var_problem L v = []) \<and> validation_errs L c = []"
  by (auto simp: Load_eq all_problems_def)

section \<open>The retry budget\<close>

text \<open>
  As long as the products fit into 64 bits, the rule keeps a failed event's payload for ten
  times the sweeper's retry budget. When they do not fit, the rule compares with a wrapped
  number and lets a window pass that is shorter than the budget itself.
\<close>

lemma retention_outlasts_retries:
  assumes "retention_rules c" "rt_Enabled (RetentionSettings c)" "sp_Enabled (SweeperSettings c)"
    "0 \<le> sp_MaxAttempts (SweeperSettings c)" "0 \<le> sp_MaxBackoff (SweeperSettings c)"
    and "10 * (sp_MaxAttempts (SweeperSettings c) * sp_MaxBackoff (SweeperSettings c)) < 2 ^ 63"
  shows "10 * (sp_MaxAttempts (SweeperSettings c) * sp_MaxBackoff (SweeperSettings c)) \<le>
         rt_UnsettledPayloadAfter (RetentionSettings c)"
proof -
  let ?p = "sp_MaxAttempts (SweeperSettings c) * sp_MaxBackoff (SweeperSettings c)"
  have "0 \<le> ?p" using assms(4,5) by simp
  then have "exhaust (SweeperSettings c) = ?p" "int64_of (10 * ?p) = 10 * ?p"
    using assms(6) by (simp_all add: exhaust_def int64_of_id)
  with assms(1-3) show ?thesis by (simp add: retention_rules_def Let_def)
qed

lemma retry_budget_wraps:
  assumes "sp_MaxAttempts s = 10 ^ 7" "sp_MaxBackoff s = 30 * minute"
  shows "int64_of (10 * exhaust s) \<le> 0" "0 < 10 * (sp_MaxAttempts s * sp_MaxBackoff s)"
  using assms by (simp_all add: exhaust_def int64_of_def duration_defs)

section \<open>Trimmed text stays trimmed\<close>

lemma strip_left_stop:
  "(\<And>p. p \<in> set ps \<Longrightarrow> p \<noteq> [] \<Longrightarrow> \<not> has_prefix s p) \<Longrightarrow> strip_left ps s = s"
  by (subst strip_left.simps) (auto simp: find_None_iff split: option.splits dest: find_mem)

lemma strip_left_stripped: "p \<in> set ps \<Longrightarrow> p \<noteq> [] \<Longrightarrow> \<not> has_prefix (strip_left ps s) p"
proof (induction ps s rule: strip_left.induct)
  case (1 ps s)
  show ?case
  proof (cases "find (\<lambda>p. p \<noteq> [] \<and> has_prefix s p) ps")
    case None
    then have "strip_left ps s = s" by (subst strip_left.simps) simp
    with None 1(2,3) show ?thesis by (auto simp: find_None_iff)
  next
    case (Some q)
    then have "strip_left ps s = strip_left ps (drop (length q) s)" by (subst strip_left.simps) simp
    with 1 Some show ?thesis by simp
  qed
qed

lemma strip_left_suffix: "\<exists>a. s = a @ strip_left ps s"
proof (induction ps s rule: strip_left.induct)
  case (1 ps s)
  show ?case
  proof (cases "find (\<lambda>p. p \<noteq> [] \<and> has_prefix s p) ps")
    case None
    then have "s = [] @ strip_left ps s" by (subst strip_left.simps) simp
    then show ?thesis by blast
  next
    case (Some q)
    then obtain a where "drop (length q) s = a @ strip_left ps (drop (length q) s)" using 1 by blast
    moreover have "strip_left ps s = strip_left ps (drop (length q) s)" using Some by (subst strip_left.simps) simp
    ultimately have "s = (take (length q) s @ a) @ strip_left ps s" by (metis append.assoc append_take_drop_id)
    then show ?thesis by blast
  qed
qed

lemma trim_space_idem [simp]: "trim_space (trim_space s) = trim_space s"
proof -
  let ?l = "strip_left go_spaces s" and ?t = "trim_space s"
  obtain a where a: "rev ?l = a @ rev ?t"
    using strip_left_suffix [of "rev ?l" "map rev go_spaces"] by (auto simp: trim_space_def)
  then have l: "?l = ?t @ rev a" by (metis rev_append rev_rev_ident)
  have "strip_left go_spaces ?t = ?t"
  proof (rule strip_left_stop)
    fix p assume "p \<in> set go_spaces" "p \<noteq> []"
    from strip_left_stripped [OF this, of s] show "\<not> has_prefix ?t p" by (auto simp: l has_prefix_iff)
  qed
  moreover have "strip_left (map rev go_spaces) (rev ?t) = rev ?t"
  proof (rule strip_left_stop)
    fix p assume "p \<in> set (map rev go_spaces)" "p \<noteq> []"
    from strip_left_stripped [OF this, of "rev ?l"] show "\<not> has_prefix (rev ?t) p" by (simp add: trim_space_def)
  qed
  ultimately show ?thesis by (simp add: trim_space_def [of ?t])
qed

lemma text_of_trimmed: "trim_space (text_of L key) = text_of L key"
  by (simp add: text_of_def lookup_def Let_def)

lemma set_in_text: "set_in L key \<Longrightarrow> text_of L key \<noteq> []"
  by (simp add: set_in_def text_of_def lookup_def Let_def)

section \<open>The required secrets\<close>

lemma loaded_secrets:
  "Reveal (dc_DSN (Database (loaded L))) = text_of L ''DATABASE_URL''"
  "Reveal (st_SecretKey (Stripe (loaded L))) = text_of L ''STRIPE_SECRET_KEY''"
  "Reveal (st_WebhookSecret (Stripe (loaded L))) = text_of L ''STRIPE_WEBHOOK_SECRET''"
  "Reveal (au_JWTSecret (Auth (loaded L))) = text_of L ''JWT_SECRET''"
  by (simp_all add: loaded_def loaded_Database_def load_Database_def loaded_Stripe_def load_Stripe_def
      loaded_Auth_def load_Auth_def run_readers)

lemma Load_required:
  assumes "Load L = Inr c"
  shows "Reveal (dc_DSN (Database c)) \<noteq> []" "Reveal (st_SecretKey (Stripe c)) \<noteq> []"
    "Reveal (st_WebhookSecret (Stripe c)) \<noteq> []" "Reveal (au_JWTSecret (Auth c)) \<noteq> []"
proof -
  have c: "c = loaded L" and v: "\<forall>v \<in> set variables. var_problem L v = []" using assms by (auto simp: Load_Inr)
  have "set_in L ''DATABASE_URL''" "set_in L ''STRIPE_SECRET_KEY''" "set_in L ''STRIPE_WEBHOOK_SECRET''"
    "set_in L ''JWT_SECRET''"
    using v by (simp_all add: variables_def vars_defs)
  then show "Reveal (dc_DSN (Database c)) \<noteq> []" "Reveal (st_SecretKey (Stripe c)) \<noteq> []"
    "Reveal (st_WebhookSecret (Stripe c)) \<noteq> []" "Reveal (au_JWTSecret (Auth c)) \<noteq> []"
    by (simp_all add: c loaded_secrets set_in_text)
qed

section \<open>Properties\<close>

text \<open>
  C35 (loading fails completely). The process starts from the environment exactly when no
  variable it reads is missing or malformed and the configuration made of the rest (with the
  default where a value could not be read) breaks no rule. Otherwise the one error that is
  returned contains the message of every variable in trouble and of every broken rule.
\<close>

theorem Load_reports_everything:
  "((\<exists>c. Load L = Inr c) \<longleftrightarrow>
      (\<forall>v \<in> set variables. var_problem L v = []) \<and> validation_errs L (fst (run_state (load_all L) [])) = []) \<and>
   (\<forall>e m. Load L = Inl e \<and>
      m \<in> set (concat (map (var_problem L) variables)) \<union> set (validation_errs L (fst (run_state (load_all L) []))) \<longrightarrow>
      contains (err_text e) m)"
proof (intro conjI allI impI)
  show "(\<exists>c. Load L = Inr c) \<longleftrightarrow>
     (\<forall>v \<in> set variables. var_problem L v = []) \<and> validation_errs L (fst (run_state (load_all L) [])) = []"
    by (auto simp: Load_Inr run_load_all)
  fix e m
  assume "Load L = Inl e \<and> m \<in> set (concat (map (var_problem L) variables)) \<union>
      set (validation_errs L (fst (run_state (load_all L) [])))"
  then have "e = Text (join [CHR 0x0A] (all_problems L))" "m \<in> set (all_problems L)"
    by (auto simp: Load_eq all_problems_def run_load_all split: if_splits)
  then show "contains (err_text e) m" using join_mem [of m "all_problems L"] by (simp add: contains_iff)
qed

text \<open>An environment that is complete, and one that is not.\<close>

definition sample_url :: "string \<Rightarrow> URL option" where
  "sample_url s =
     (if has_prefix s ''http://'' then Some \<lparr>url_Scheme = ''http'', url_Host = drop 7 s, url_Path = []\<rparr>
      else if has_prefix s ''https://'' then Some \<lparr>url_Scheme = ''https'', url_Host = drop 8 s, url_Path = []\<rparr>
      else None)"

definition env_lib :: "(string \<times> string) list \<Rightarrow> config_lib" where
  "env_lib env =
     \<lparr>env_lookup = map_of env, ParseFloat = (\<lambda>s. None),
      url_parse = sample_url, visit_backwards = (\<lambda>n. False)\<rparr>"

definition dev_env :: "(string \<times> string) list" where
  "dev_env =
     [(''DATABASE_URL'', '' postgres://db/billing ''), (''STRIPE_SECRET_KEY'', ''sk_test_1''),
      (''STRIPE_WEBHOOK_SECRET'', ''whsec_1''), (''JWT_SECRET'', ''0123456789abcdef0123456789abcdef'')]"

lemma unset_var: "env_lookup L key = None \<Longrightarrow> \<not> set_in L key"
  by (simp add: set_in_def lookup_def Let_def)

lemma env_lib_lookup [simp]: "env_lookup (env_lib env) = map_of env"
  by (simp add: env_lib_def)

lemma dev_lookups:
  "lookup (env_lib dev_env) ''DATABASE_URL'' = (''postgres://db/billing'', True)"
  "lookup (env_lib dev_env) ''STRIPE_SECRET_KEY'' = (''sk_test_1'', True)"
  "lookup (env_lib dev_env) ''STRIPE_WEBHOOK_SECRET'' = (''whsec_1'', True)"
  "lookup (env_lib dev_env) ''JWT_SECRET'' = (''0123456789abcdef0123456789abcdef'', True)"
  by code_simp+

lemma dev_set_in:
  "set_in (env_lib dev_env) key \<longleftrightarrow>
     key \<in> set [''DATABASE_URL'', ''STRIPE_SECRET_KEY'', ''STRIPE_WEBHOOK_SECRET'', ''JWT_SECRET'']"
proof (cases "key \<in> set [''DATABASE_URL'', ''STRIPE_SECRET_KEY'', ''STRIPE_WEBHOOK_SECRET'', ''JWT_SECRET'']")
  case True
  then show ?thesis using dev_lookups by (auto simp: set_in_def)
next
  case False
  then have "map_of dev_env key = None" by (simp add: dev_env_def)
  then have "\<not> set_in (env_lib dev_env) key" by (intro unset_var) simp
  with False show ?thesis by blast
qed

lemma dev_problems: "\<forall>v \<in> set variables. var_problem (env_lib dev_env) v = []"
  by (simp add: variables_def vars_defs typed_problem_def dev_set_in)

lemma dev_loaded:
  "loaded_App (env_lib dev_env) =
     \<lparr>app_Name = ''stripe-payment-service'', app_Environment = to_lower EnvDevelopment, app_ShutdownTimeout = 15 * second\<rparr>"
  "loaded_Log (env_lib dev_env) = \<lparr>lc_Level = to_lower ''info'', lc_Format = to_lower ''json'', lc_AddSource = False\<rparr>"
  "loaded_HTTP (env_lib dev_env) =
     \<lparr>hc_Port = 8080, hc_ReadHeaderTimeout = 5 * second, hc_ReadTimeout = 15 * second, hc_WriteTimeout = 30 * second,
      hc_IdleTimeout = 60 * second, hc_APITimeout = 10 * second, hc_WebhookTimeout = 25 * second,
      hc_CORSAllowedOrigins = [], hc_TrustedProxies = 0, hc_AuthRateLimitRPS = 1 / 5, hc_AuthRateLimitBurst = 5,
      hc_MetricsPort = 9091, hc_MetricsBindAddress = []\<rparr>"
  by (simp_all add: loaded_App_def load_App_def loaded_Log_def load_Log_def loaded_HTTP_def load_HTTP_def run_readers
      typed_value_def csv_value_def dev_set_in)

lemma dev_loaded_more:
  "loaded_Sweeper (env_lib dev_env) =
     \<lparr>sp_Enabled = True, sp_Interval = minute, sp_MaxAttempts = 6, sp_BaseBackoff = 30 * second,
      sp_MaxBackoff = 30 * minute, sp_BatchSize = 100, sp_StaleClaimAfter = 5 * minute, sp_AlertAfter = hour\<rparr>"
  "loaded_Retention (env_lib dev_env) =
     \<lparr>rt_Enabled = True, rt_Interval = 6 * hour, rt_SettledPayloadAfter = 30 * 24 * hour,
      rt_UnsettledPayloadAfter = 90 * 24 * hour, rt_BatchSize = 500, rt_RefreshTokenGrace = 7 * 24 * hour\<rparr>"
  "loaded_Auth (env_lib dev_env) =
     \<lparr>au_JWTSecret = Secret ''0123456789abcdef0123456789abcdef'', au_JWTIssuer = ''stripe-payment-service'',
      au_JWTAudience = ''stripe-payment-service-api'', au_AccessTokenTTL = 15 * minute,
      au_RefreshTokenTTL = 30 * 24 * hour, au_CookieSecure = False, au_CookieDomain = [], au_BcryptCost = 12\<rparr>"
  "loaded_Database (env_lib dev_env) =
     \<lparr>dc_DSN = Secret ''postgres://db/billing'', dc_MaxConns = int32_of 25, dc_MinConns = int32_of 2,
      dc_MaxConnLifetime = hour, dc_MaxConnIdleTime = 30 * minute, dc_HealthCheckPeriod = minute,
      dc_ConnectTimeout = 10 * second, dc_StatementTimeout = 30 * second, dc_IdleInTxTimeout = 60 * second,
      dc_SlowQueryThreshold = 200 * 1000000\<rparr>"
  "loaded_Stripe (env_lib dev_env) =
     \<lparr>st_SecretKey = Secret ''sk_test_1'', st_WebhookSecret = Secret ''whsec_1'', st_PublishableKey = [],
      st_APIVersion = ''2026-08-26.dahlia'', st_WebhookTolerance = 5 * minute, st_MaxNetworkRetries = 3,
      st_HTTPTimeout = 20 * second, st_IgnoreAPIVersionMismatch = False,
      st_CheckoutSuccessURL = ''http://localhost:3000/billing/success?session_id={CHECKOUT_SESSION_ID}'',
      st_CheckoutCancelURL = ''http://localhost:3000/billing/cancel'',
      st_CheckoutReturnURL = ''http://localhost:5173/billing/return?session_id={CHECKOUT_SESSION_ID}'',
      st_PortalReturnURL = ''http://localhost:5173/'', st_AllowedPriceIDs = []\<rparr>"
  by (simp_all add: loaded_Sweeper_def load_Sweeper_def loaded_Retention_def load_Retention_def loaded_Auth_def
      load_Auth_def loaded_Database_def load_Database_def loaded_Stripe_def load_Stripe_def run_readers
      typed_value_def csv_value_def dev_set_in text_of_def dev_lookups)

lemmas sample_config_simps =
  deadline_rules_def http_rules_def database_rules_def key_rules_def stripe_rules_def auth_rules_def sweeper_rules_def
  retention_rules_def good_url_def loaded_def exhaust_def int64_of_def int32_of_def IsAbs_def duration_defs

lemma dev_texts:
  "to_lower EnvDevelopment = EnvDevelopment" "to_lower ''info'' = ''info''" "to_lower ''json'' = ''json''"
  "\<not> isl (parseLevelName ''info'')" "\<not> IsProduction EnvDevelopment" "Environment_valid EnvDevelopment"
  "\<not> contains ''0123456789abcdef0123456789abcdef'' ''change_me''" "\<not> contains ''0123456789abcdef0123456789abcdef'' ''example''"
  "has_prefix ''sk_test_1'' ''sk_''" "has_prefix ''whsec_1'' ''whsec_''" "\<not> contains ''sk_test_1'' ''_live_''"
  "has_prefix ''postgres://db/billing'' ''postgres://''"
  by code_simp+

lemma dev_urls:
  "url_parse (env_lib env) (''http://'' @ s) = Some \<lparr>url_Scheme = ''http'', url_Host = s, url_Path = []\<rparr>"
  by (simp add: env_lib_def sample_url_def has_prefix_def)

lemma dev_env_loads: "Load (env_lib dev_env) = Inr (loaded (env_lib dev_env))"
proof -
  have "validation_errs (env_lib dev_env) (loaded (env_lib dev_env)) = []"
    using dev_urls [of dev_env "''localhost:3000/billing/success?session_id={CHECKOUT_SESSION_ID}''"]
      dev_urls [of dev_env "''localhost:3000/billing/cancel''"] dev_urls [of dev_env "''localhost:5173/''"]
      dev_urls [of dev_env "''localhost:5173/billing/return?session_id={CHECKOUT_SESSION_ID}''"]
    by (simp add: validation_ok dev_loaded dev_loaded_more dev_texts sample_config_simps del: contains.simps)
  then show ?thesis by (simp add: Load_Inr dev_problems)
qed

definition bad_env :: "(string \<times> string) list" where
  "bad_env = [(''HTTP_PORT'', ''eighty'')]"

lemma bad_env_problem:
  "''HTTP_PORT must be an integer (got '' @ go_quote ''eighty'' @ '')'' \<in>
     set (concat (map (var_problem (env_lib bad_env)) variables))"
proof -
  have "(Integer, ''HTTP_PORT'') \<in> set variables" by (simp add: variables_def vars_defs)
  moreover have "lookup (env_lib bad_env) ''HTTP_PORT'' = (''eighty'', True)" "Atoi ''eighty'' = None" by code_simp+
  then have "''HTTP_PORT must be an integer (got '' @ go_quote ''eighty'' @ '')'' \<in>
      set (var_problem (env_lib bad_env) (Integer, ''HTTP_PORT''))"
    by (simp add: typed_problem_def set_in_def text_of_def)
  ultimately show ?thesis unfolding set_concat set_map by blast
qed

theorem Load_reports_everything_witness:
  "(\<exists>c. Load (env_lib dev_env) = Inr c) \<and> list_all (\<lambda>v. var_problem (env_lib dev_env) v = []) variables \<and>
   (\<exists>e. Load (env_lib bad_env) = Inl e \<and>
        contains (err_text e) (''HTTP_PORT must be an integer (got '' @ go_quote ''eighty'' @ '')''))"
proof (intro conjI)
  show "\<exists>c. Load (env_lib dev_env) = Inr c" using dev_env_loads by blast
  then show "list_all (\<lambda>v. var_problem (env_lib dev_env) v = []) variables"
    using Load_reports_everything [of "env_lib dev_env"] by (simp only: list_all_iff) blast
  have "all_problems (env_lib bad_env) \<noteq> []" using bad_env_problem unfolding all_problems_def by force
  then obtain e where "Load (env_lib bad_env) = Inl e" by (simp add: Load_eq)
  then show "\<exists>e. Load (env_lib bad_env) = Inl e \<and>
        contains (err_text e) (''HTTP_PORT must be an integer (got '' @ go_quote ''eighty'' @ '')'')"
    using Load_reports_everything [of "env_lib bad_env"] bad_env_problem by blast
qed

definition key_shape :: "Secret \<Rightarrow> bool list" where
  "key_shape s = (Reveal s = []) # map (has_prefix (Reveal s)) [''sk_'', ''rk_'', ''whsec_'', ''postgres://'', ''postgresql://''] @
     map (contains (Reveal s)) [''_live_'', ''_test_'', ''='', ''sslmode=disable'', ''change_me'', ''example'']"

text \<open>
  C36 (secrets do not reach the log). The boot log line and every message of the validation
  depend on the secrets only through their shape: whether they are empty, the prefixes and
  markers the rules look for, and the length of the signing key. Replacing the secrets by
  others of the same shape changes no byte of what is printed.
\<close>

theorem secrets_stay_secret:
  assumes "key_shape dsn = key_shape (dc_DSN (Database c))" "key_shape key = key_shape (st_SecretKey (Stripe c))"
    "key_shape hook = key_shape (st_WebhookSecret (Stripe c))" "key_shape jwt = key_shape (au_JWTSecret (Auth c))"
    "length (Reveal jwt) = length (Reveal (au_JWTSecret (Auth c)))"
    and c': "c' = c\<lparr>Database := (Database c)\<lparr>dc_DSN := dsn\<rparr>,
                     Stripe := (Stripe c)\<lparr>st_SecretKey := key, st_WebhookSecret := hook\<rparr>,
                     Auth := (Auth c)\<lparr>au_JWTSecret := jwt\<rparr>\<rparr>"
  shows "Config_LogValue c' = Config_LogValue c \<and> Validate L c' = Validate L c"
proof
  note shapes = assms(1-4) [unfolded key_shape_def, simplified]
  show "Config_LogValue c' = Config_LogValue c" by (simp add: c' Config_LogValue_def stripeKeyMode_def shapes)
  have same: "HTTP c' = HTTP c" "App c' = App c" "SweeperSettings c' = SweeperSettings c"
    "RetentionSettings c' = RetentionSettings c" by (simp_all add: c')
  have "http_problems c' = http_problems c" "deadline_problem c' = deadline_problem c"
    "redirect_problem L c' = redirect_problem L c" "origin_problem L c' = origin_problem L c"
    "return_problem L c' = return_problem L c" "validateSweeper c' = validateSweeper c"
    "validateRetention c' = validateRetention c"
    unfolding http_problems_def deadline_problem_def redirect_problem_def origin_problem_def
      return_problem_def validateSweeper_def validateRetention_def same by (rule refl)+
  moreover have "database_problems c' = database_problems c" "key_problem c' = key_problem c"
    "validateAuth c' = validateAuth c"
    by (simp_all add: c' database_problems_def dsn_problem_def key_problem_def validateAuth_def Let_def shapes assms(5))
  ultimately show "Validate L c' = Validate L c"
    by (simp add: Validate_def validation_errs_def validateStripe_def c' Let_def shapes)
qed

theorem secrets_stay_secret_witness:
  "Config_LogValue ((loaded (env_lib dev_env))\<lparr>
      Database := (Database (loaded (env_lib dev_env)))\<lparr>dc_DSN := Secret ''postgres://other''\<rparr>,
      Stripe := (Stripe (loaded (env_lib dev_env)))\<lparr>st_SecretKey := Secret ''sk_test_2'', st_WebhookSecret := Secret ''whsec_2''\<rparr>,
      Auth := (Auth (loaded (env_lib dev_env)))\<lparr>au_JWTSecret := Secret ''ABCDEFGHIJKLMNOPABCDEFGHIJKLMNOP''\<rparr>\<rparr>) =
   Config_LogValue (loaded (env_lib dev_env))"
proof -
  have "key_shape (Secret ''postgres://other'') = key_shape (Secret ''postgres://db/billing'')"
    "key_shape (Secret ''sk_test_2'') = key_shape (Secret ''sk_test_1'')"
    "key_shape (Secret ''whsec_2'') = key_shape (Secret ''whsec_1'')"
    "key_shape (Secret ''ABCDEFGHIJKLMNOPABCDEFGHIJKLMNOP'') = key_shape (Secret ''0123456789abcdef0123456789abcdef'')"
    by code_simp+
  then show ?thesis
    by (intro conjunct1 [OF secrets_stay_secret [OF _ _ _ _ _ refl]]) (simp_all add: loaded_def dev_loaded_more)
qed

text \<open>
  C12 (what production refuses). A configuration that loads for production has a Stripe key
  without the test marker, a database URL without the text sslmode=disable, a signing key of
  at least 32 bytes with neither of the two placeholder texts in it, access tokens that live
  at most a day and less than the refresh tokens, Secure cookies, https for every redirect
  that is set and every allowed origin, no wildcard origin, a list of offered prices, version
  checking and payload retention; and a configuration that loads for another tier has a key
  without the live marker. The database rule is about that text alone: a URL that names no
  sslmode, and leaves the choice to the driver, passes.
\<close>

theorem production_is_locked_down:
  assumes "Load L = Inr c"
  shows "(app_Environment (App c) = EnvProduction \<longrightarrow>
           \<not> contains (Reveal (st_SecretKey (Stripe c))) ''_test_'' \<and>
           \<not> contains (Reveal (dc_DSN (Database c))) ''sslmode=disable'' \<and>
           32 \<le> length (Reveal (au_JWTSecret (Auth c))) \<and> \<not> contains (Reveal (au_JWTSecret (Auth c))) ''change_me'' \<and>
           \<not> contains (Reveal (au_JWTSecret (Auth c))) ''example'' \<and>
           au_AccessTokenTTL (Auth c) \<le> 24 * hour \<and> au_AccessTokenTTL (Auth c) < au_RefreshTokenTTL (Auth c) \<and>
           au_CookieSecure (Auth c) \<and>
           (\<forall>raw \<in> {st_CheckoutSuccessURL (Stripe c), st_CheckoutCancelURL (Stripe c), st_CheckoutReturnURL (Stripe c),
                     st_PortalReturnURL (Stripe c)} - {[]} \<union> set (hc_CORSAllowedOrigins (HTTP c)).
              \<exists>u. url_parse L raw = Some u \<and> url_Scheme u = ''https'') \<and>
           ''*'' \<notin> set (hc_CORSAllowedOrigins (HTTP c)) \<and> st_AllowedPriceIDs (Stripe c) \<noteq> [] \<and>
           \<not> st_IgnoreAPIVersionMismatch (Stripe c) \<and> rt_Enabled (RetentionSettings c)) \<and>
         (app_Environment (App c) \<noteq> EnvProduction \<longrightarrow> \<not> contains (Reveal (st_SecretKey (Stripe c))) ''_live_'')"
proof (rule conjI; rule impI)
  note secrets = Load_required [OF assms]
  have "validation_errs L c = []" using assms unfolding Load_Inr by blast
  then have rules: "key_rules c" "database_rules c" "auth_rules c" "stripe_rules L c" "retention_rules c"
    by (simp_all add: validation_ok)
  show "\<not> contains (Reveal (st_SecretKey (Stripe c))) ''_live_''" if "app_Environment (App c) \<noteq> EnvProduction"
    using rules(1) secrets that by (simp add: key_rules_def IsProduction_def Let_def)
  assume "app_Environment (App c) = EnvProduction"
  then have prod: "IsProduction (app_Environment (App c))" by (simp add: IsProduction_def)
  have key: "\<not> contains (Reveal (st_SecretKey (Stripe c))) ''_test_''"
    using rules(1) secrets(2) prod by (simp add: key_rules_def Let_def)
  have link: "\<not> contains (Reveal (dc_DSN (Database c))) ''sslmode=disable''"
    using rules(2) secrets(1) prod by (simp add: database_rules_def Let_def)
  have token: "32 \<le> length (Reveal (au_JWTSecret (Auth c)))" "\<not> contains (Reveal (au_JWTSecret (Auth c))) ''change_me''"
    "\<not> contains (Reveal (au_JWTSecret (Auth c))) ''example''"
    "au_AccessTokenTTL (Auth c) \<le> 24 * hour" "au_AccessTokenTTL (Auth c) < au_RefreshTokenTTL (Auth c)"
    "au_CookieSecure (Auth c)"
    using rules(3) secrets(4) prod by (simp_all add: auth_rules_def)
  have url: "\<exists>u. url_parse L raw = Some u \<and> url_Scheme u = ''https''"
    if "raw \<in> {st_CheckoutSuccessURL (Stripe c), st_CheckoutCancelURL (Stripe c), st_CheckoutReturnURL (Stripe c),
                     st_PortalReturnURL (Stripe c)} - {[]} \<union> set (hc_CORSAllowedOrigins (HTTP c))" for raw
    using rules(4) prod that by (auto simp: stripe_rules_def good_url_def good_origin_def Let_def)
  have allow: "''*'' \<notin> set (hc_CORSAllowedOrigins (HTTP c))" "st_AllowedPriceIDs (Stripe c) \<noteq> []"
    "\<not> st_IgnoreAPIVersionMismatch (Stripe c)"
    using rules(4) prod by (auto simp: stripe_rules_def good_origin_def Let_def)
  have keep: "rt_Enabled (RetentionSettings c)" using rules(5) prod by (simp add: retention_rules_def Let_def)
  show "\<not> contains (Reveal (st_SecretKey (Stripe c))) ''_test_'' \<and>
           \<not> contains (Reveal (dc_DSN (Database c))) ''sslmode=disable'' \<and>
           32 \<le> length (Reveal (au_JWTSecret (Auth c))) \<and> \<not> contains (Reveal (au_JWTSecret (Auth c))) ''change_me'' \<and>
           \<not> contains (Reveal (au_JWTSecret (Auth c))) ''example'' \<and>
           au_AccessTokenTTL (Auth c) \<le> 24 * hour \<and> au_AccessTokenTTL (Auth c) < au_RefreshTokenTTL (Auth c) \<and>
           au_CookieSecure (Auth c) \<and>
           (\<forall>raw \<in> {st_CheckoutSuccessURL (Stripe c), st_CheckoutCancelURL (Stripe c), st_CheckoutReturnURL (Stripe c),
                     st_PortalReturnURL (Stripe c)} - {[]} \<union> set (hc_CORSAllowedOrigins (HTTP c)).
              \<exists>u. url_parse L raw = Some u \<and> url_Scheme u = ''https'') \<and>
           ''*'' \<notin> set (hc_CORSAllowedOrigins (HTTP c)) \<and> st_AllowedPriceIDs (Stripe c) \<noteq> [] \<and>
           \<not> st_IgnoreAPIVersionMismatch (Stripe c) \<and> rt_Enabled (RetentionSettings c)"
    by (intro conjI ballI key link token url allow keep)
qed

definition prod_env :: "(string \<times> string) list" where
  "prod_env =
     [(''APP_ENV'', ''Production''), (''DATABASE_URL'', ''postgres://db/billing?sslmode=require''), (''STRIPE_SECRET_KEY'', ''sk_live_1''),
      (''STRIPE_WEBHOOK_SECRET'', ''whsec_1''), (''JWT_SECRET'', ''0123456789abcdef0123456789abcdef''),
      (''AUTH_COOKIE_SECURE'', ''true''), (''STRIPE_ALLOWED_PRICE_IDS'', ''price_1, price_2''),
      (''STRIPE_CHECKOUT_SUCCESS_URL'', ''https://shop/ok''), (''STRIPE_CHECKOUT_CANCEL_URL'', ''https://shop/no''),
      (''STRIPE_CHECKOUT_RETURN_URL'', ''https://shop/back''), (''STRIPE_PORTAL_RETURN_URL'', ''https://shop/'')]"

lemma prod_lookups:
  "lookup (env_lib prod_env) ''APP_ENV'' = (''Production'', True)"
  "lookup (env_lib prod_env) ''DATABASE_URL'' = (''postgres://db/billing?sslmode=require'', True)"
  "lookup (env_lib prod_env) ''STRIPE_SECRET_KEY'' = (''sk_live_1'', True)"
  "lookup (env_lib prod_env) ''STRIPE_WEBHOOK_SECRET'' = (''whsec_1'', True)"
  "lookup (env_lib prod_env) ''JWT_SECRET'' = (''0123456789abcdef0123456789abcdef'', True)"
  "lookup (env_lib prod_env) ''AUTH_COOKIE_SECURE'' = (''true'', True)"
  "lookup (env_lib prod_env) ''STRIPE_ALLOWED_PRICE_IDS'' = (''price_1, price_2'', True)"
  "lookup (env_lib prod_env) ''STRIPE_CHECKOUT_SUCCESS_URL'' = (''https://shop/ok'', True)"
  "lookup (env_lib prod_env) ''STRIPE_CHECKOUT_CANCEL_URL'' = (''https://shop/no'', True)"
  "lookup (env_lib prod_env) ''STRIPE_CHECKOUT_RETURN_URL'' = (''https://shop/back'', True)"
  "lookup (env_lib prod_env) ''STRIPE_PORTAL_RETURN_URL'' = (''https://shop/'', True)"
  by code_simp+

lemma prod_set_in:
  "set_in (env_lib prod_env) key \<longleftrightarrow>
     key \<in> set [''APP_ENV'', ''DATABASE_URL'', ''STRIPE_SECRET_KEY'', ''STRIPE_WEBHOOK_SECRET'', ''JWT_SECRET'',
       ''AUTH_COOKIE_SECURE'', ''STRIPE_ALLOWED_PRICE_IDS'', ''STRIPE_CHECKOUT_SUCCESS_URL'',
       ''STRIPE_CHECKOUT_CANCEL_URL'', ''STRIPE_CHECKOUT_RETURN_URL'', ''STRIPE_PORTAL_RETURN_URL'']"
  (is "_ \<longleftrightarrow> key \<in> set ?keys")
proof (cases "key \<in> set ?keys")
  case True
  then have "set_in (env_lib prod_env) key" using prod_lookups by (auto simp: set_in_def)
  with True show ?thesis by blast
next
  case False
  then have "map_of prod_env key = None" by (simp add: prod_env_def)
  then have "\<not> set_in (env_lib prod_env) key" by (intro unset_var) simp
  with False show ?thesis by blast
qed

lemma prod_texts:
  "ParseBool ''true'' = Some True" "to_lower ''Production'' = EnvProduction" "to_lower ''info'' = ''info''"
  "to_lower ''json'' = ''json''" "\<not> isl (parseLevelName ''info'')" "IsProduction EnvProduction"
  "Environment_valid EnvProduction" "\<not> contains ''0123456789abcdef0123456789abcdef'' ''change_me''"
  "\<not> contains ''0123456789abcdef0123456789abcdef'' ''example''" "has_prefix ''sk_live_1'' ''sk_''"
  "has_prefix ''whsec_1'' ''whsec_''" "\<not> contains ''sk_live_1'' ''_test_''"
  "has_prefix ''postgres://db/billing?sslmode=require'' ''postgres://''" "\<not> contains ''postgres://db/billing?sslmode=require'' ''sslmode=disable''"
  "trim_space ''price_1'' = ''price_1''" "trim_space '' price_2'' = ''price_2''"
  "has_prefix ''price_1'' ''price_''" "has_prefix ''price_2'' ''price_''"
  by code_simp+

lemma prod_urls:
  "url_parse (env_lib prod_env) ''https://shop/ok'' = Some \<lparr>url_Scheme = ''https'', url_Host = ''shop/ok'', url_Path = []\<rparr>"
  "url_parse (env_lib prod_env) ''https://shop/no'' = Some \<lparr>url_Scheme = ''https'', url_Host = ''shop/no'', url_Path = []\<rparr>"
  "url_parse (env_lib prod_env) ''https://shop/back'' = Some \<lparr>url_Scheme = ''https'', url_Host = ''shop/back'', url_Path = []\<rparr>"
  "url_parse (env_lib prod_env) ''https://shop/'' = Some \<lparr>url_Scheme = ''https'', url_Host = ''shop/'', url_Path = []\<rparr>"
  by (simp_all add: env_lib_def sample_url_def has_prefix_def)

lemma prod_problems: "\<forall>v \<in> set variables. var_problem (env_lib prod_env) v = []"
  by (simp add: variables_def vars_defs typed_problem_def prod_set_in prod_texts text_of_def prod_lookups)

lemmas prod_reads = run_readers typed_value_def csv_value_def text_of_def prod_lookups prod_set_in prod_texts

lemma prod_loaded:
  "loaded_App (env_lib prod_env) =
     \<lparr>app_Name = ''stripe-payment-service'', app_Environment = EnvProduction, app_ShutdownTimeout = 15 * second\<rparr>"
  "loaded_Log (env_lib prod_env) = loaded_Log (env_lib dev_env)"
  "loaded_HTTP (env_lib prod_env) = loaded_HTTP (env_lib dev_env)"
  "loaded_Sweeper (env_lib prod_env) = loaded_Sweeper (env_lib dev_env)"
  "loaded_Retention (env_lib prod_env) = loaded_Retention (env_lib dev_env)"
  "loaded_Auth (env_lib prod_env) = (loaded_Auth (env_lib dev_env))\<lparr>au_CookieSecure := True\<rparr>"
  "loaded_Database (env_lib prod_env) = (loaded_Database (env_lib dev_env))\<lparr>dc_DSN := Secret ''postgres://db/billing?sslmode=require''\<rparr>"
  "loaded_Stripe (env_lib prod_env) =
     (loaded_Stripe (env_lib dev_env))\<lparr>st_SecretKey := Secret ''sk_live_1'',
        st_CheckoutSuccessURL := ''https://shop/ok'', st_CheckoutCancelURL := ''https://shop/no'',
        st_CheckoutReturnURL := ''https://shop/back'', st_PortalReturnURL := ''https://shop/'',
        st_AllowedPriceIDs := [''price_1'', ''price_2'']\<rparr>"
  unfolding dev_loaded dev_loaded_more
  by (simp_all add: loaded_App_def load_App_def loaded_Log_def load_Log_def loaded_HTTP_def load_HTTP_def
      loaded_Sweeper_def load_Sweeper_def loaded_Retention_def load_Retention_def loaded_Auth_def
      load_Auth_def loaded_Database_def load_Database_def loaded_Stripe_def load_Stripe_def prod_reads)

lemma prod_env_loads: "Load (env_lib prod_env) = Inr (loaded (env_lib prod_env))"
proof -
  have "validation_errs (env_lib prod_env) (loaded (env_lib prod_env)) = []"
    by (simp add: validation_ok prod_loaded dev_loaded dev_loaded_more dev_texts prod_texts prod_urls
        sample_config_simps del: contains.simps)
  then show ?thesis by (simp add: Load_Inr prod_problems)
qed

theorem production_is_locked_down_witness:
  "Load (env_lib prod_env) = Inr (loaded (env_lib prod_env)) \<and>
   \<not> contains (Reveal (dc_DSN (Database (loaded (env_lib prod_env))))) ''sslmode=disable'' \<and>
   \<not> contains (Reveal (au_JWTSecret (Auth (loaded (env_lib prod_env))))) ''example'' \<and>
   au_CookieSecure (Auth (loaded (env_lib prod_env))) \<and> rt_Enabled (RetentionSettings (loaded (env_lib prod_env))) \<and>
   \<not> contains (Reveal (st_SecretKey (Stripe (loaded (env_lib dev_env))))) ''_live_''"
proof -
  have env: "app_Environment (App (loaded (env_lib prod_env))) = EnvProduction"
    "app_Environment (App (loaded (env_lib dev_env))) \<noteq> EnvProduction"
    by (simp_all add: loaded_def prod_loaded dev_loaded dev_texts) (simp add: EnvDevelopment_def EnvProduction_def)
  show ?thesis
    using production_is_locked_down [OF prod_env_loads] production_is_locked_down [OF dev_env_loads] env
      prod_env_loads by blast
qed

text \<open>An environment with a long webhook deadline, and a claim window to match.\<close>

definition slow_env :: "(string \<times> string) list" where
  "slow_env = dev_env @
     [(''HTTP_WEBHOOK_TIMEOUT'', ''6m''), (''HTTP_WRITE_TIMEOUT'', ''6m40s''), (''WEBHOOK_STALE_CLAIM_AFTER'', ''10m'')]"

lemma slow_lookups:
  "lookup (env_lib slow_env) ''DATABASE_URL'' = (''postgres://db/billing'', True)"
  "lookup (env_lib slow_env) ''STRIPE_SECRET_KEY'' = (''sk_test_1'', True)"
  "lookup (env_lib slow_env) ''STRIPE_WEBHOOK_SECRET'' = (''whsec_1'', True)"
  "lookup (env_lib slow_env) ''JWT_SECRET'' = (''0123456789abcdef0123456789abcdef'', True)"
  "lookup (env_lib slow_env) ''HTTP_WEBHOOK_TIMEOUT'' = (''6m'', True)"
  "lookup (env_lib slow_env) ''HTTP_WRITE_TIMEOUT'' = (''6m40s'', True)"
  "lookup (env_lib slow_env) ''WEBHOOK_STALE_CLAIM_AFTER'' = (''10m'', True)"
  by code_simp+

lemma slow_set_in:
  "set_in (env_lib slow_env) key \<longleftrightarrow>
     key \<in> set [''DATABASE_URL'', ''STRIPE_SECRET_KEY'', ''STRIPE_WEBHOOK_SECRET'', ''JWT_SECRET'',
       ''HTTP_WEBHOOK_TIMEOUT'', ''HTTP_WRITE_TIMEOUT'', ''WEBHOOK_STALE_CLAIM_AFTER'']"
  (is "_ \<longleftrightarrow> key \<in> set ?keys")
proof (cases "key \<in> set ?keys")
  case True
  then have "set_in (env_lib slow_env) key" using slow_lookups by (auto simp: set_in_def)
  with True show ?thesis by blast
next
  case False
  then have "map_of slow_env key = None" by (simp add: slow_env_def dev_env_def)
  then have "\<not> set_in (env_lib slow_env) key" by (intro unset_var) simp
  with False show ?thesis by blast
qed

lemma slow_durations:
  "ParseDuration ''6m'' = Some (360 * second)" "ParseDuration ''6m40s'' = Some (400 * second)"
  "ParseDuration ''10m'' = Some (600 * second)"
  by code_simp+

lemma slow_problems: "\<forall>v \<in> set variables. var_problem (env_lib slow_env) v = []"
  by (simp add: variables_def vars_defs typed_problem_def slow_set_in text_of_def slow_lookups slow_durations)

lemma slow_loaded:
  "loaded_App (env_lib slow_env) = loaded_App (env_lib dev_env)"
  "loaded_Log (env_lib slow_env) = loaded_Log (env_lib dev_env)"
  "loaded_HTTP (env_lib slow_env) =
     (loaded_HTTP (env_lib dev_env))\<lparr>hc_WebhookTimeout := 360 * second, hc_WriteTimeout := 400 * second\<rparr>"
  "loaded_Sweeper (env_lib slow_env) = (loaded_Sweeper (env_lib dev_env))\<lparr>sp_StaleClaimAfter := 600 * second\<rparr>"
  "loaded_Retention (env_lib slow_env) = loaded_Retention (env_lib dev_env)"
  "loaded_Auth (env_lib slow_env) = loaded_Auth (env_lib dev_env)"
  "loaded_Database (env_lib slow_env) = loaded_Database (env_lib dev_env)"
  "loaded_Stripe (env_lib slow_env) = loaded_Stripe (env_lib dev_env)"
  unfolding dev_loaded dev_loaded_more
  by (simp_all add: loaded_App_def load_App_def loaded_Log_def load_Log_def loaded_HTTP_def load_HTTP_def
      loaded_Sweeper_def load_Sweeper_def loaded_Retention_def load_Retention_def loaded_Auth_def
      load_Auth_def loaded_Database_def load_Database_def loaded_Stripe_def load_Stripe_def run_readers
      typed_value_def csv_value_def text_of_def slow_lookups slow_set_in slow_durations)

lemma slow_env_loads: "Load (env_lib slow_env) = Inr (loaded (env_lib slow_env))"
proof -
  have "validation_errs (env_lib slow_env) (loaded (env_lib slow_env)) = []"
    using dev_urls [of slow_env "''localhost:3000/billing/success?session_id={CHECKOUT_SESSION_ID}''"]
      dev_urls [of slow_env "''localhost:3000/billing/cancel''"] dev_urls [of slow_env "''localhost:5173/''"]
      dev_urls [of slow_env "''localhost:5173/billing/return?session_id={CHECKOUT_SESSION_ID}''"]
    by (simp add: slow_loaded validation_ok dev_loaded dev_loaded_more dev_texts sample_config_simps del: contains.simps)
  then show ?thesis by (simp add: Load_Inr slow_problems)
qed

section \<open>Settings and the texts that print them\<close>

text \<open>A text that starts and ends with visible ASCII has nothing to trim.\<close>

definition visible :: "char \<Rightarrow> bool" where
  "visible c \<longleftrightarrow> 33 \<le> byte c \<and> byte c \<le> 126"

lemma spaces_invisible:
  "p \<in> set go_spaces \<Longrightarrow> p \<noteq> [] \<and> \<not> visible (hd p) \<and> \<not> visible (last p)"
  by (auto simp: go_spaces_def visible_def byte_def)

lemma trim_visible:
  assumes "s \<noteq> []" "visible (hd s)" "visible (last s)"
  shows "trim_space s = s"
proof -
  have "strip_left go_spaces s = s"
    by (rule strip_left_stop) (use assms spaces_invisible in \<open>auto simp: has_prefix_iff\<close>)
  moreover have "strip_left (map rev go_spaces) (rev s) = rev s"
  proof (rule strip_left_stop)
    fix p
    assume "p \<in> set (map rev go_spaces)"
    then obtain q where q: "q \<in> set go_spaces" "p = rev q" by auto
    then have "hd p \<noteq> hd (rev s)" "p \<noteq> []" using spaces_invisible [OF q(1)] assms by (auto simp: hd_rev)
    then show "\<not> has_prefix (rev s) p" by (auto simp: has_prefix_iff)
  qed
  ultimately show ?thesis by (simp add: trim_space_def)
qed

lemma digit_visible: "digit c \<Longrightarrow> visible c"
  by (simp add: digit_def visible_def)

lemma decimal_ends: "visible (hd (decimal n @ r)) \<and> visible (last (decimal n))"
proof -
  have d: "\<And>c. c \<in> set (decimal n) \<Longrightarrow> visible c"
    using decimal_digits [of n] digit_visible by (auto simp: list_all_iff)
  then show ?thesis using decimal_not_nil [of n] by (simp add: hd_append)
qed

lemma format_int_trimmed: "trim_space (format_int x) = format_int x \<and> format_int x \<noteq> []"
  using decimal_ends [of "nat x" "[]"] decimal_ends [of "nat (- x)" "[]"]
  by (auto simp: format_int_def visible_def byte_def intro!: trim_visible)

lemma last_s: "last (a @ ''s'') = CHR ''s''" "last (a @ b @ ''s'') = CHR ''s''" "last (a @ b @ c @ ''s'') = CHR ''s''"
  "last (a @ b @ c @ e @ ''s'') = CHR ''s''" "last (a @ b @ ''ns'') = CHR ''s''" "last (a @ b @ c @ ''ms'') = CHR ''s''"
  "last (a @ ''0s'') = CHR ''s''"
  by simp_all

lemma fmt_seconds_last: "\<exists>p. fmt_seconds n = p @ ''s''"
  unfolding fmt_seconds_def Let_def by (simp only: append_assoc [symmetric]) blast

lemma duration_string_last: "last (duration_string x) = CHR ''s''"
proof -
  obtain p where "fmt_seconds (nat \<bar>x\<bar>) = p @ ''s''" by (rule exE [OF fmt_seconds_last])
  then show ?thesis
    unfolding duration_string_def Let_def by (simp only: split: if_split) (simp only: last_s simp_thms)
qed

lemma duration_string_hd: "duration_string x \<noteq> [] \<and> visible (hd (duration_string x))"
proof -
  have pos: "duration_string y \<noteq> [] \<and> visible (hd (duration_string y))" if "0 < y" for y
  proof -
    have "0 < nat y" using that by simp
    then obtain c s where "duration_string (int (nat y)) = c # s" "digit c" using duration_string_head by blast
    then show ?thesis using that digit_visible by simp
  qed
  have zero: "duration_string 0 = ''0s''" by (simp add: duration_string_def)
  have ends: "visible (CHR ''-'')" "visible (CHR ''0'')" by (simp_all add: visible_def byte_def)
  consider "x < 0" | "x = 0" | "0 < x" by linarith
  then show ?thesis by cases (simp_all add: duration_string_negative pos zero ends)
qed

lemma duration_string_trimmed: "trim_space (duration_string x) = duration_string x \<and> duration_string x \<noteq> []"
  using duration_string_hd [of x] duration_string_last [of x]
  by (auto simp: visible_def byte_def intro!: trim_visible)

text \<open>The numeric settings: the variable, the default, and the field of the configuration it fills.\<close>

type_synonym setting = "string \<times> int \<times> (AppConfig \<Rightarrow> int)"

definition duration_settings :: "setting list" where
  "duration_settings =
     [(''SHUTDOWN_TIMEOUT'', 15 * second, app_ShutdownTimeout \<circ> App),
      (''HTTP_READ_HEADER_TIMEOUT'', 5 * second, hc_ReadHeaderTimeout \<circ> HTTP),
      (''HTTP_READ_TIMEOUT'', 15 * second, hc_ReadTimeout \<circ> HTTP),
      (''HTTP_WRITE_TIMEOUT'', 30 * second, hc_WriteTimeout \<circ> HTTP),
      (''HTTP_IDLE_TIMEOUT'', 60 * second, hc_IdleTimeout \<circ> HTTP),
      (''HTTP_API_TIMEOUT'', 10 * second, hc_APITimeout \<circ> HTTP),
      (''HTTP_WEBHOOK_TIMEOUT'', 25 * second, hc_WebhookTimeout \<circ> HTTP),
      (''DB_MAX_CONN_LIFETIME'', hour, dc_MaxConnLifetime \<circ> Database),
      (''DB_MAX_CONN_IDLE_TIME'', 30 * minute, dc_MaxConnIdleTime \<circ> Database),
      (''DB_HEALTH_CHECK_PERIOD'', minute, dc_HealthCheckPeriod \<circ> Database),
      (''DB_CONNECT_TIMEOUT'', 10 * second, dc_ConnectTimeout \<circ> Database),
      (''DB_STATEMENT_TIMEOUT'', 30 * second, dc_StatementTimeout \<circ> Database),
      (''DB_IDLE_IN_TX_TIMEOUT'', 60 * second, dc_IdleInTxTimeout \<circ> Database),
      (''DB_SLOW_QUERY_THRESHOLD'', 200 * 1000000, dc_SlowQueryThreshold \<circ> Database),
      (''STRIPE_WEBHOOK_TOLERANCE'', 5 * minute, st_WebhookTolerance \<circ> Stripe),
      (''STRIPE_HTTP_TIMEOUT'', 20 * second, st_HTTPTimeout \<circ> Stripe),
      (''JWT_ACCESS_TOKEN_TTL'', 15 * minute, au_AccessTokenTTL \<circ> Auth),
      (''REFRESH_TOKEN_TTL'', 30 * 24 * hour, au_RefreshTokenTTL \<circ> Auth),
      (''WEBHOOK_SWEEPER_INTERVAL'', minute, sp_Interval \<circ> SweeperSettings),
      (''WEBHOOK_SWEEPER_BASE_BACKOFF'', 30 * second, sp_BaseBackoff \<circ> SweeperSettings),
      (''WEBHOOK_SWEEPER_MAX_BACKOFF'', 30 * minute, sp_MaxBackoff \<circ> SweeperSettings),
      (''WEBHOOK_STALE_CLAIM_AFTER'', 5 * minute, sp_StaleClaimAfter \<circ> SweeperSettings),
      (''WEBHOOK_SWEEPER_ALERT_AFTER'', hour, sp_AlertAfter \<circ> SweeperSettings),
      (''PAYLOAD_RETENTION_INTERVAL'', 6 * hour, rt_Interval \<circ> RetentionSettings),
      (''PAYLOAD_RETENTION_SETTLED_AFTER'', 30 * 24 * hour, rt_SettledPayloadAfter \<circ> RetentionSettings),
      (''PAYLOAD_RETENTION_UNSETTLED_AFTER'', 90 * 24 * hour, rt_UnsettledPayloadAfter \<circ> RetentionSettings),
      (''REFRESH_TOKEN_GRACE'', 7 * 24 * hour, rt_RefreshTokenGrace \<circ> RetentionSettings)]"

definition integer_settings :: "setting list" where
  "integer_settings =
     [(''HTTP_PORT'', 8080, hc_Port \<circ> HTTP),
      (''TRUSTED_PROXIES'', 0, hc_TrustedProxies \<circ> HTTP),
      (''AUTH_RATE_LIMIT_BURST'', 5, hc_AuthRateLimitBurst \<circ> HTTP),
      (''METRICS_PORT'', 9091, hc_MetricsPort \<circ> HTTP),
      (''STRIPE_MAX_NETWORK_RETRIES'', 3, st_MaxNetworkRetries \<circ> Stripe),
      (''BCRYPT_COST'', 12, au_BcryptCost \<circ> Auth),
      (''WEBHOOK_SWEEPER_MAX_ATTEMPTS'', 6, sp_MaxAttempts \<circ> SweeperSettings),
      (''WEBHOOK_SWEEPER_BATCH_SIZE'', 100, sp_BatchSize \<circ> SweeperSettings),
      (''PAYLOAD_RETENTION_BATCH_SIZE'', 500, rt_BatchSize \<circ> RetentionSettings)]"

definition int32_settings :: "setting list" where
  "int32_settings =
     [(''DB_MAX_CONNS'', 25, dc_MaxConns \<circ> Database),
      (''DB_MIN_CONNS'', 2, dc_MinConns \<circ> Database)]"

lemmas loaded_fields =
  loaded_def loaded_App_def load_App_def loaded_HTTP_def load_HTTP_def loaded_Database_def load_Database_def
  loaded_Stripe_def load_Stripe_def loaded_Auth_def load_Auth_def loaded_Sweeper_def load_Sweeper_def
  loaded_Retention_def load_Retention_def run_readers

lemma settings_loaded:
  "list_all (\<lambda>(key, d, get). get (loaded L) = typed_value ParseDuration L key d) duration_settings"
  "list_all (\<lambda>(key, d, get). get (loaded L) = typed_value Atoi L key d) integer_settings"
  "list_all (\<lambda>(key, d, get). get (loaded L) = int32_of (typed_value Atoi L key d)) int32_settings"
  by (simp_all add: duration_settings_def integer_settings_def int32_settings_def loaded_fields)

lemma set_variable:
  assumes "env_lookup L key = Some v" "trim_space v = v \<and> v \<noteq> []" "parse v = Some x"
  shows "typed_value parse L key dflt = x" "typed_problem parse noun L key = []"
  using assms by (simp_all add: typed_value_def typed_problem_def text_of_def set_in_def lookup_def Let_def)

lemma unset_variable:
  assumes "env_lookup L key = None"
  shows "typed_value parse L key dflt = dflt" "typed_problem parse noun L key = []"
  using assms by (simp_all add: typed_value_def typed_problem_def text_of_def set_in_def lookup_def Let_def)

text \<open>
  A setting of a configuration is what its variable says: the value, if the variable is set to
  the text that prints it, or else the default, if it is not set; and nothing is reported.
\<close>

definition reads_back ::
  "(int \<Rightarrow> string) \<Rightarrow> (int \<Rightarrow> int) \<Rightarrow> var_kind \<Rightarrow> config_lib \<Rightarrow> AppConfig \<Rightarrow> int \<Rightarrow> setting \<Rightarrow> bool" where
  "reads_back print narrow kind L c x = (\<lambda>(key, dflt, get).
     (env_lookup L key = Some (print x) \<longrightarrow> var_problem L (kind, key) = [] \<and> get c = narrow x) \<and>
     (env_lookup L key = None \<longrightarrow> var_problem L (kind, key) = [] \<and> get c = narrow dflt))"

text \<open>
  C40 (settings round trip). Every duration setting and every integer setting can be given any
  64-bit value: when its variable is set to the text the service itself prints for the value,
  reading the environment reports nothing about that variable and fills the setting with
  exactly that value; when the variable is not set, it fills it with its default, again
  without a report. The two sizes of the connection pool are the exception, they get the value
  cut to 32 bits. If the configuration then passes its rules and is returned, that is still
  the value; the rules may refuse it, they never change it.
\<close>

theorem settings_round_trip:
  assumes "- (2 ^ 63) \<le> x" "x < 2 ^ 63" and c: "c = fst (run_state (load_all L) []) \<or> Load L = Inr c"
  shows "list_all (reads_back duration_string id Duration L c x) duration_settings \<and>
         list_all (reads_back format_int id Integer L c x) integer_settings \<and>
         list_all (reads_back format_int int32_of Integer L c x) int32_settings"
proof -
  have c: "c = loaded L" using c by (auto simp: Load_Inr run_load_all)
  note dur = set_variable [where parse = ParseDuration and v = "duration_string x", OF _ duration_string_trimmed]
    and num = set_variable [where parse = Atoi and v = "format_int x", OF _ format_int_trimmed]
  note rules = dur num unset_variable ParseDuration_string [OF assms(1,2)] Atoi_format_int [OF assms(1,2)]
  have "list_all (reads_back duration_string id Duration L c x) duration_settings"
    using settings_loaded(1) [of L] unfolding c
    by (rule list.pred_mono_strong) (auto simp: reads_back_def rules)
  moreover have "list_all (reads_back format_int id Integer L c x) integer_settings"
    using settings_loaded(2) [of L] unfolding c
    by (rule list.pred_mono_strong) (auto simp: reads_back_def rules)
  moreover have "list_all (reads_back format_int int32_of Integer L c x) int32_settings"
    using settings_loaded(3) [of L] unfolding c
    by (rule list.pred_mono_strong) (auto simp: reads_back_def rules)
  ultimately show ?thesis by blast
qed

definition tuned_env :: "(string \<times> string) list" where
  "tuned_env =
     [(''WEBHOOK_STALE_CLAIM_AFTER'', duration_string 600000000001), (''HTTP_PORT'', format_int 9000),
      (''DB_MAX_CONNS'', format_int 4294967297)]"

theorem settings_round_trip_witness:
  "(let c = fst (run_state (load_all (env_lib tuned_env)) [])
    in sp_StaleClaimAfter (SweeperSettings c) = 600000000001 \<and> hc_Port (HTTP c) = 9000 \<and>
       dc_MaxConns (Database c) = int32_of 4294967297 \<and> hc_WebhookTimeout (HTTP c) = 25 * second)"
proof -
  let ?c = "fst (run_state (load_all (env_lib tuned_env)) [])"
  have vars: "env_lookup (env_lib tuned_env) ''WEBHOOK_STALE_CLAIM_AFTER'' = Some (duration_string 600000000001)"
    "env_lookup (env_lib tuned_env) ''HTTP_PORT'' = Some (format_int 9000)"
    "env_lookup (env_lib tuned_env) ''DB_MAX_CONNS'' = Some (format_int 4294967297)"
    "env_lookup (env_lib tuned_env) ''HTTP_WEBHOOK_TIMEOUT'' = None"
    by (simp_all add: tuned_env_def)
  note at = settings_round_trip [of _ ?c "env_lib tuned_env", OF _ _ disjI1 [OF refl]]
  have "sp_StaleClaimAfter (SweeperSettings ?c) = 600000000001"
    using at [of 600000000001] vars by (simp add: reads_back_def duration_settings_def)
  moreover have "hc_Port (HTTP ?c) = 9000" using at [of 9000] vars by (simp add: reads_back_def integer_settings_def)
  moreover have "dc_MaxConns (Database ?c) = int32_of 4294967297"
    using at [of 4294967297] vars by (simp add: reads_back_def int32_settings_def)
  moreover have "hc_WebhookTimeout (HTTP ?c) = 25 * second"
    using at [of 0] vars by (simp add: reads_back_def duration_settings_def)
  ultimately show ?thesis by (simp add: Let_def)
qed

end
