(* ===== verification/Logger.thy ===== *)
theory Logger
  imports Configuration Json
begin

text \<open>
  The logger (\<open>internal/logger/logger.go\<close>): level names, the attribute filter that
  normalises the built-in keys and redacts sensitive ones, and the request id a record takes
  from its context. Encoding and writing a record is \<open>log/slog\<close>; a logger is here its level,
  its format and the attributes every record carries.

  An attribute value is one of the kinds the filter tells apart; any other value is
  \<open>SAny\<close> with the text it would print as.
\<close>

section \<open>Attributes\<close>

datatype slog_value =
    SString string
  | STime time
  | SLevel level
  | SSource string int
  | SGroup "(string \<times> slog_value) list"
  | SAny string

type_synonym slog_attr = "string \<times> slog_value"

definition sensitiveKeys :: "string list" where
  "sensitiveKeys =
     [''password'', ''passwd'', ''secret'', ''token'', ''api_key'', ''apikey'', ''authorization'', ''cookie'',
      ''credential'', ''private_key'', ''dsn'', ''database_url'', ''signature'']"

definition isSensitiveKey :: "string \<Rightarrow> bool" where
  "isSensitiveKey key \<longleftrightarrow> list_ex (contains (to_lower key)) sensitiveKeys"

text \<open>\<open>strings.ToLower(lv.String())\<close> for the four levels the service uses.\<close>

fun level_text :: "level \<Rightarrow> string" where
  "level_text Debug = ''debug''"
| "level_text Info = ''info''"
| "level_text Warn = ''warn''"
| "level_text Error = ''error''"

text \<open>
  The last two elements of a slash-separated file name, as \<open>filepath.Base\<close> and
  \<open>filepath.Dir\<close> find them for the clean, absolute names the compiler records.
\<close>

fun split_slash :: "string \<Rightarrow> string list" where
  "split_slash [] = [[]]"
| "split_slash (c # s) =
     (if c = CHR ''/'' then [] # split_slash s
      else case split_slash s of [] \<Rightarrow> [[c]] | p # ps \<Rightarrow> (c # p) # ps)"

definition short_source :: "string \<Rightarrow> string" where
  "short_source file =
     (let parts = rev (filter (\<lambda>p. p \<noteq> []) (split_slash file))
      in join ''/'' (rev (take 2 parts)))"

fun is_group :: "slog_value \<Rightarrow> bool" where
  "is_group (SGroup as) = True"
| "is_group v = False"

definition redact :: "slog_attr \<Rightarrow> slog_attr" where
  "redact a = (if isSensitiveKey (fst a) \<and> \<not> is_group (snd a) then (fst a, SString redacted) else a)"

definition replaceAttr :: "string list \<Rightarrow> slog_attr \<Rightarrow> slog_attr" where
  "replaceAttr groups a =
     (if groups = []
      then (case a of
              (k, STime t) \<Rightarrow> if k = ''time'' then (''ts'', SString (rfc3339 t)) else redact a
            | (k, SLevel l) \<Rightarrow> if k = ''level'' then (''level'', SString (level_text l)) else redact a
            | (k, SSource f n) \<Rightarrow>
                if k = ''source'' then (''source'', SString (short_source f @ '':'' @ format_int n)) else redact a
            | _ \<Rightarrow> redact a)
      else redact a)"

section \<open>Building the logger\<close>

definition ParseLevel :: "string \<Rightarrow> level result" where
  "ParseLevel name =
     (let n = to_lower (trim_space name)
      in if n = [] \<or> n = ''info'' then Inr Info
         else if n = ''debug'' then Inr Debug
         else if n = ''warn'' \<or> n = ''warning'' then Inr Warn
         else if n = ''error'' then Inr Error
         else Inl (Text (''logger: unknown level '' @ go_quote name @ '' (want debug, info, warn or error)'')))"

record Options =
  op_Level :: string
  op_Format :: string
  op_AddSource :: bool
  op_Service :: string
  op_Environment :: string
  op_Version :: string

text \<open>
  A handler: the encoder's settings, the groups opened so far, the attributes bound so far
  each with the groups open at that time, and whether it reads the request id of the context.
\<close>

record Handler =
  lh_level :: level
  lh_text :: bool
  lh_source :: bool
  lh_groups :: "string list"
  lh_attrs :: "(string list \<times> slog_attr) list"
  lh_context :: bool

definition slog_WithAttrs :: "slog_attr list \<Rightarrow> Handler \<Rightarrow> Handler" where
  "slog_WithAttrs as h = h\<lparr>lh_attrs := lh_attrs h @ map (\<lambda>a. (lh_groups h, a)) as, lh_context := False\<rparr>"

definition slog_WithGroup :: "string \<Rightarrow> Handler \<Rightarrow> Handler" where
  "slog_WithGroup name h = h\<lparr>lh_groups := lh_groups h @ [name], lh_context := False\<rparr>"

text \<open>
  The encoder knows nothing of the wrapper: what it derives has no context enrichment, and
  the wrapper's own methods put it back.
\<close>

definition contextHandler :: "Handler \<Rightarrow> Handler" where
  "contextHandler h = h\<lparr>lh_context := True\<rparr>"

definition WithAttrs :: "slog_attr list \<Rightarrow> Handler \<Rightarrow> Handler" where
  "WithAttrs as h = contextHandler (slog_WithAttrs as h)"

definition WithGroup :: "string \<Rightarrow> Handler \<Rightarrow> Handler" where
  "WithGroup name h = (if name = [] then h else contextHandler (slog_WithGroup name h))"

definition equal_fold :: "string \<Rightarrow> string \<Rightarrow> bool" where
  "equal_fold a b \<longleftrightarrow> to_lower a = to_lower b"

definition logger_New :: "Options \<Rightarrow> Handler result" where
  "logger_New opts =
     (case ParseLevel (op_Level opts) of
        Inl err \<Rightarrow> Inl err
      | Inr level \<Rightarrow>
          let h = contextHandler
                    \<lparr>lh_level = level, lh_text = equal_fold (op_Format opts) ''text'', lh_source = op_AddSource opts,
                     lh_groups = [], lh_attrs = [], lh_context = False\<rparr>;
              base = (if op_Service opts \<noteq> [] then [(''service'', SString (op_Service opts))] else []) @
                     (if op_Environment opts \<noteq> [] then [(''env'', SString (op_Environment opts))] else []) @
                     (if op_Version opts \<noteq> [] then [(''version'', SString (op_Version opts))] else [])
          in Inr (if 0 < length base then WithAttrs base h else h))"

section \<open>Writing a record\<close>

text \<open>The context of a record is the request id it carries, if any.\<close>

definition WithRequestID :: "string option \<Rightarrow> string \<Rightarrow> string option" where
  "WithRequestID ctx i = (if i = [] then ctx else Some i)"

definition RequestIDFromContext :: "string option \<Rightarrow> string" where
  "RequestIDFromContext ctx = (case ctx of None \<Rightarrow> [] | Some i \<Rightarrow> i)"

definition Handle :: "Handler \<Rightarrow> string option \<Rightarrow> slog_attr list \<Rightarrow> slog_attr list" where
  "Handle h ctx as =
     (let i = RequestIDFromContext ctx
      in if lh_context h \<and> i \<noteq> [] then as @ [(''request_id'', SString i)] else as)"

text \<open>
  The encoder passes every leaf through the filter, with the groups around it, and never a
  group itself.
\<close>

fun render_attr :: "string list \<Rightarrow> slog_attr \<Rightarrow> slog_attr" where
  "render_attr gs (k, SGroup as) = (k, SGroup (map (render_attr (gs @ [k])) as))"
| "render_attr gs (k, v) = replaceAttr gs (k, v)"

definition rank :: "level \<Rightarrow> nat" where
  "rank l = (case l of Debug \<Rightarrow> 0 | Info \<Rightarrow> 1 | Warn \<Rightarrow> 2 | Error \<Rightarrow> 3)"

definition write_record :: "Handler \<Rightarrow> time \<Rightarrow> level \<Rightarrow> string \<times> int \<Rightarrow> string \<Rightarrow> string option \<Rightarrow> slog_attr list \<Rightarrow>
    (string list \<times> slog_attr) list" where
  "write_record h now lvl src msg ctx as =
     (if rank lvl < rank (lh_level h) then []
      else map (\<lambda>(gs, a). (gs, render_attr gs a))
             ([([], (''time'', STime now)), ([], (''level'', SLevel lvl))] @
              (if lh_source h then [([], (''source'', SSource (fst src) (snd src)))] else []) @
              [([], (''msg'', SString msg))] @ lh_attrs h @ map (\<lambda>a. (lh_groups h, a)) (Handle h ctx as)))"

section \<open>Lemmas\<close>

text \<open>An attribute leaks when a leaf of it has a sensitive key and another value than the placeholder.\<close>

fun leaks :: "slog_attr \<Rightarrow> bool" where
  "leaks (k, SGroup as) \<longleftrightarrow> list_ex leaks as"
| "leaks (k, v) \<longleftrightarrow> isSensitiveKey k \<and> v \<noteq> SString redacted"

lemma builtin_keys: "\<not> isSensitiveKey ''ts''" "\<not> isSensitiveKey ''level''" "\<not> isSensitiveKey ''source''"
  by code_simp+

lemma replaceAttr_no_leak: "\<not> is_group v \<Longrightarrow> \<not> leaks (replaceAttr gs (k, v))"
  by (cases v) (auto simp: replaceAttr_def redact_def builtin_keys)

lemma render_no_leak: "\<not> leaks (render_attr gs a)"
proof (induction gs a rule: render_attr.induct)
  case (1 gs k as)
  then show ?case by (auto simp: list_ex_iff)
qed (simp_all add: replaceAttr_no_leak)

theorem log_redacts: "\<forall>(gs, a) \<in> set (write_record h now lvl src msg ctx as). \<not> leaks a"
  by (auto simp: write_record_def render_no_leak replaceAttr_no_leak)

lemma derived_handlers_keep_context: "lh_context h \<Longrightarrow> lh_context (WithAttrs as h) \<and> lh_context (WithGroup name h)"
  by (simp add: WithAttrs_def WithGroup_def contextHandler_def)

lemma logger_New_context: "logger_New opts = Inr h \<Longrightarrow> lh_context h"
  by (auto simp: logger_New_def WithAttrs_def contextHandler_def Let_def split: sum.splits if_splits)

text \<open>
  The two lists of level names agree on every name the configuration accepts. They differ on
  the empty name, which only the logger accepts.
\<close>

lemma level_names_agree: "parseLevelName name = Inr l \<Longrightarrow> ParseLevel name = Inr l"
  by (auto simp: parseLevelName.simps ParseLevel_def Let_def split: if_splits)

lemma empty_level_differs: "isl (parseLevelName [])" "ParseLevel [] = Inr Info"
  by code_simp+

lemma logger_New_ok: "\<not> isl (parseLevelName (op_Level opts)) \<Longrightarrow> \<exists>h. logger_New opts = Inr h"
  by (cases "parseLevelName (op_Level opts)") (auto simp: logger_New_def level_names_agree Let_def)

end
