(* ===== verification/Database_Pool.thy ===== *)
theory Database_Pool
  imports Configuration Handlers
begin

text \<open>
  The connection pool's setup (\<open>internal/database/postgres.go\<close>): its defaults, the
  parameters every session starts with, the redaction of a connection string in an error, the
  start-up ping, and the tracer that logs slow and failed queries.

  The driver (pgx) is the parameter record \<open>pgx_lib\<close>: parsing a connection string into the
  run-time parameters it sets, or an error text, and building the pool. The ping is a statement
  that does nothing; its deadline, like every deadline, shows as a fault of the statement.
\<close>

section \<open>Configuration\<close>

record PoolConfig =
  pc_DSN :: string
  pc_MaxConns :: int
  pc_MinConns :: int
  pc_MaxConnLifetime :: duration
  pc_MaxConnIdleTime :: duration
  pc_HealthCheckPeriod :: duration
  pc_ConnectTimeout :: duration
  pc_StatementTimeout :: duration
  pc_IdleInTxTimeout :: duration
  pc_ApplicationName :: string
  pc_SlowQueryThreshold :: duration

definition PoolConfig_withDefaults :: "PoolConfig \<Rightarrow> PoolConfig" where
  "PoolConfig_withDefaults c =
     (let maxConns = (if pc_MaxConns c \<le> 0 then 25 else pc_MaxConns c);
          minConns = (if pc_MinConns c < 0 then 0 else pc_MinConns c)
      in c\<lparr>pc_MaxConns := maxConns,
           pc_MinConns := (if maxConns < minConns then maxConns else minConns),
           pc_MaxConnLifetime := (if pc_MaxConnLifetime c \<le> 0 then hour else pc_MaxConnLifetime c),
           pc_MaxConnIdleTime := (if pc_MaxConnIdleTime c \<le> 0 then 30 * minute else pc_MaxConnIdleTime c),
           pc_HealthCheckPeriod := (if pc_HealthCheckPeriod c \<le> 0 then minute else pc_HealthCheckPeriod c),
           pc_ConnectTimeout := (if pc_ConnectTimeout c \<le> 0 then 10 * second else pc_ConnectTimeout c),
           pc_ApplicationName := (if pc_ApplicationName c = [] then ''stripe-payment-service''
                                  else pc_ApplicationName c)\<rparr>)"

text \<open>\<open>d.Milliseconds()\<close> drops the fraction.\<close>

definition millis :: "duration \<Rightarrow> string" where
  "millis d = format_int (trunc_div d 1000000)"

text \<open>\<open>strings.ReplaceAll(s, old, new)\<close> for a non-empty \<open>old\<close>.\<close>

function replace_all :: "string \<Rightarrow> string \<Rightarrow> string \<Rightarrow> string" where
  "replace_all [] old new = []"
| "replace_all (c # s) old new =
     (if old \<noteq> [] \<and> has_prefix (c # s) old then new @ replace_all (drop (length old) (c # s)) old new
      else c # replace_all s old new)"
  by pat_completeness auto
termination
  by (relation "measure (\<lambda>(s, old, new). length s)") auto

definition redactDSNError :: "goerr \<Rightarrow> string \<Rightarrow> goerr" where
  "redactDSNError err dsn =
     (if dsn = [] then err
      else if \<not> contains (err_text err) dsn then err
      else Text (replace_all (err_text err) dsn ''[REDACTED DSN]''))"

section \<open>The pool\<close>

record PoolSettings =
  ps_MaxConns :: int
  ps_MinConns :: int
  ps_MaxConnLifetime :: duration
  ps_MaxConnIdleTime :: duration
  ps_HealthCheckPeriod :: duration
  ps_ConnectTimeout :: duration
  ps_RuntimeParams :: "string \<rightharpoonup> string"
  ps_Tracer :: "duration option"

record pgx_lib =
  pgx_ParseConfig :: "string \<Rightarrow> string + (string \<rightharpoonup> string)"
  pgx_NewWithConfig :: "PoolSettings \<Rightarrow> string option"

definition runtime_params :: "PoolConfig \<Rightarrow> (string \<rightharpoonup> string) \<Rightarrow> (string \<rightharpoonup> string)" where
  "runtime_params cfg parsed =
     (let named = parsed(''application_name'' \<mapsto> pc_ApplicationName cfg, ''timezone'' \<mapsto> ''UTC'');
          timed = (if 0 < pc_StatementTimeout cfg
                   then named(''statement_timeout'' \<mapsto> millis (pc_StatementTimeout cfg)) else named)
      in if 0 < pc_IdleInTxTimeout cfg
         then timed(''idle_in_transaction_session_timeout'' \<mapsto> millis (pc_IdleInTxTimeout cfg)) else timed)"

definition pool_settings :: "PoolConfig \<Rightarrow> (string \<rightharpoonup> string) \<Rightarrow> PoolSettings" where
  "pool_settings cfg parsed =
     \<lparr>ps_MaxConns = pc_MaxConns cfg, ps_MinConns = pc_MinConns cfg, ps_MaxConnLifetime = pc_MaxConnLifetime cfg,
      ps_MaxConnIdleTime = pc_MaxConnIdleTime cfg, ps_HealthCheckPeriod = pc_HealthCheckPeriod cfg,
      ps_ConnectTimeout = pc_ConnectTimeout cfg, ps_RuntimeParams = runtime_params cfg parsed,
      ps_Tracer = (if 0 < pc_SlowQueryThreshold cfg then Some (pc_SlowQueryThreshold cfg) else None)\<rparr>"

definition ping_stmt :: "unit stmt" where
  "ping_stmt s d = Inr ((), d)"

definition Ping :: "goerr option prog" where
  "Ping = do {
     r \<leftarrow> run_stmt ping_stmt;
     State_Monad.return (case r of Inl e \<Rightarrow> Some (Wrap ''ping: '' (Driver e) []) | Inr _ \<Rightarrow> None) }"

definition database_New :: "pgx_lib \<Rightarrow> PoolConfig \<Rightarrow> PoolSettings result prog" where
  "database_New P cfg0 =
     (if trim_space (pc_DSN cfg0) = [] then State_Monad.return (Inl (Text ''database: DSN is empty''))
      else
        let cfg = PoolConfig_withDefaults cfg0
        in case pgx_ParseConfig P (pc_DSN cfg) of
             Inl msg \<Rightarrow>
               State_Monad.return (Inl (Wrap ''database: parse DSN: '' (redactDSNError (Text msg) (pc_DSN cfg)) []))
           | Inr parsed \<Rightarrow>
               let settings = pool_settings cfg parsed
               in (case pgx_NewWithConfig P settings of
                     Some msg \<Rightarrow> State_Monad.return (Inl (Wrap ''database: create pool: '' (Text msg) []))
                   | None \<Rightarrow> do {
                       p \<leftarrow> Ping;
                       (case p of
                          Some err \<Rightarrow> State_Monad.return (Inl (Wrap ''database: initial ping: '' err []))
                        | None \<Rightarrow> do {
                            log_line Info ''database pool ready'';
                            State_Monad.return (Inr settings) }) }))"

text \<open>The counters of the driver's pool, and the map that reports them.\<close>

record pool_stat =
  st_AcquiredConns :: int
  st_IdleConns :: int
  st_TotalConns :: int
  st_MaxConns :: int
  st_AcquireCount :: int
  st_CanceledAcquireCount :: int
  st_EmptyAcquireCount :: int

definition DB_Stats :: "pool_stat \<Rightarrow> (string \<rightharpoonup> int)" where
  "DB_Stats s = map_of
     [(''acquired'', st_AcquiredConns s), (''idle'', st_IdleConns s), (''total'', st_TotalConns s),
      (''max'', st_MaxConns s), (''acquire_count'', st_AcquireCount s),
      (''canceled_acquire'', st_CanceledAcquireCount s), (''empty_acquire'', st_EmptyAcquireCount s)]"

section \<open>The query tracer\<close>

text \<open>\<open>strings.Fields\<close>: the pieces between white space; \<open>summarise\<close> caps the line at 300 bytes.\<close>

function fields :: "string \<Rightarrow> string \<Rightarrow> string list" where
  "fields cur [] = (if cur = [] then [] else [rev cur])"
| "fields cur (c # s) =
     (case find (\<lambda>p. p \<noteq> [] \<and> has_prefix (c # s) p) go_spaces of
        Some p \<Rightarrow> (if cur = [] then [] else [rev cur]) @ fields [] (drop (length p) (c # s))
      | None \<Rightarrow> fields (c # cur) s)"
  by pat_completeness auto
termination
  by (relation "measure (\<lambda>(cur, s). length s)") (auto simp: find_Some_iff)

definition summarise :: "string \<Rightarrow> string" where
  "summarise sql =
     (let s = join '' '' (fields [] sql)
      in if 300 < length s then take 300 s @ [CHR 0xE2, CHR 0x80, CHR 0xA6] else s)"

record traceState =
  tr_start :: time
  tr_sql :: string

definition TraceQueryStart :: "string \<Rightarrow> traceState prog" where
  "TraceQueryStart sql = do { now \<leftarrow> get_now; State_Monad.return \<lparr>tr_start = now, tr_sql = sql\<rparr> }"

text \<open>What the driver reports at the end of a query: success, no row, or an error with its text.\<close>

datatype query_end = QueryOk | QueryNoRows | QueryFailed string

definition trace_line :: "duration \<Rightarrow> duration \<Rightarrow> query_end \<Rightarrow> level \<times> string" where
  "trace_line threshold elapsed r =
     (case r of
        QueryFailed e \<Rightarrow> (Error, ''query failed'')
      | _ \<Rightarrow> if threshold \<le> elapsed then (Warn, ''slow query'') else (Debug, ''query''))"

definition TraceQueryEnd :: "duration \<Rightarrow> traceState option \<Rightarrow> query_end \<Rightarrow> unit prog" where
  "TraceQueryEnd threshold st r =
     (case st of
        None \<Rightarrow> State_Monad.return ()
      | Some st \<Rightarrow> do {
          now \<leftarrow> get_now;
          (let (lvl, msg) = trace_line threshold (now - tr_start st) r in log_line lvl msg) })"

section \<open>Lemmas\<close>

lemma withDefaults_pool: "pc_MinConns (PoolConfig_withDefaults c) \<le> pc_MaxConns (PoolConfig_withDefaults c)"
  "0 < pc_MaxConns (PoolConfig_withDefaults c)" "0 \<le> pc_MinConns (PoolConfig_withDefaults c)"
  "0 < pc_ConnectTimeout (PoolConfig_withDefaults c)"
  by (simp_all add: PoolConfig_withDefaults_def Let_def duration_defs)

lemma summarise_bounded: "length (summarise sql) \<le> 303"
  by (simp add: summarise_def Let_def)

text \<open>
  Replacing every occurrence of a word leaves none, when the word has no bracket and does not
  occur in the placeholder: an occurrence in the result cannot reach into a placeholder, which
  starts and ends with a bracket, and outside of them the scan has passed over none.
\<close>

lemma replace_all_prefix:
  assumes "hd new \<notin> set q" "new \<noteq> []" "has_prefix (replace_all s old new) q"
  shows "has_prefix s q"
  using assms
proof (induction s old new arbitrary: q rule: replace_all.induct)
  case (2 c s old new)
  show ?case
  proof (cases "q = []")
    case False
    then obtain b q' where q: "q = b # q'" by (cases q) auto
    have no: "\<not> (old \<noteq> [] \<and> has_prefix (c # s) old)"
      using 2(3-5) by (auto simp: q has_prefix_iff neq_Nil_conv)
    then have "has_prefix (c # replace_all s old new) q" using 2(5) by (auto split: if_splits)
    then have "b = c" "has_prefix (replace_all s old new) q'" by (auto simp: q has_prefix_def)
    moreover have "has_prefix s q'" using 2(2) [OF no, of q'] calculation 2(3,4) by (simp add: q)
    ultimately show ?thesis by (simp add: q has_prefix_def)
  qed (simp add: has_prefix_def)
qed simp

lemma contains_placeholder:
  assumes "p \<noteq> []" "last new \<notin> set p" "new \<noteq> []" "contains (new @ t) p"
  shows "contains new p \<or> contains t p"
proof -
  obtain a b where ab: "new @ t = a @ p @ b" using assms(4) by (auto simp: contains_iff)
  consider (inside) "length (a @ p) \<le> length new" | (after) "length new \<le> length a"
    | (across) "length a < length new" "length new < length (a @ p)" by linarith
  then show ?thesis
  proof cases
    case inside
    then have "take (length (a @ p)) new = a @ p" using arg_cong [OF ab, of "take (length (a @ p))"] by simp
    then have "new = a @ p @ drop (length (a @ p)) new" by (metis append.assoc append_take_drop_id)
    then show ?thesis by (auto simp: contains_iff)
  next
    case after
    then have "t = drop (length new) a @ p @ b" using arg_cong [OF ab, of "drop (length new)"] by simp
    then show ?thesis by (auto simp: contains_iff)
  next
    case across
    let ?i = "length new - 1"
    have "last new = (a @ p @ b) ! ?i" using assms(3) ab by (metis last_conv_nth length_0_conv nth_append
        diff_less length_greater_0_conv zero_less_one)
    also have "\<dots> = p ! (?i - length a)" using across by (subst nth_append, subst nth_append) auto
    also have "\<dots> \<in> set p" using across by (intro nth_mem) simp
    finally show ?thesis using assms(2) by blast
  qed
qed

lemma replace_all_clean:
  assumes "old \<noteq> []" "new \<noteq> []" "hd new \<notin> set old" "last new \<notin> set old" "\<not> contains new old"
  shows "\<not> contains (replace_all s old new) old"
  using assms
proof (induction s old new rule: replace_all.induct)
  case (2 c s old new)
  show ?case
  proof (cases "has_prefix (c # s) old")
    case True
    then show ?thesis using 2 contains_placeholder [of old new "replace_all (drop (length old) (c # s)) old new"] by auto
  next
    case False
    then have eq: "replace_all (c # s) old new = c # replace_all s old new" by simp
    have "\<not> has_prefix (replace_all (c # s) old new) old" using replace_all_prefix [of new old "c # s" old] False 2(5,4) by blast
    then show ?thesis using 2 False by (simp add: eq)
  qed
qed simp

lemma dsn_error_clean:
  assumes "dsn \<noteq> []" "CHR 0x5B \<notin> set dsn" "CHR 0x5D \<notin> set dsn" "\<not> contains ''[REDACTED DSN]'' dsn"
  shows "\<not> contains (err_text (redactDSNError err dsn)) dsn"
  using assms replace_all_clean [of dsn "''[REDACTED DSN]''"] by (simp add: redactDSNError_def del: contains.simps)

end
