(* ===== verification/Startup.thy ===== *)
theory Startup
  imports Service_Steps Logger Database_Pool
begin

text \<open>
  The process (\<open>cmd/api/main.go\<close>): how a loaded configuration becomes the running service, how
  serving ends, the two command line tools, and the dispatch on the flags. \<open>run_setup\<close> follows
  \<open>run\<close> up to the point where the server starts to serve, with every constructor in its order
  and every error return; opening a socket is a parameter. What follows is the step relation of
  theory \<open>Service_Steps\<close> on the system that \<open>run_setup\<close> returns, and then \<open>serve_until\<close>. A tool
  returns what it prints and its exit status. \<open>libs\<close> collects the parameters of the components.

  The properties: a configuration that loads starts exactly as configured, and the claim window
  of the serving process is not the configured one.
\<close>

section \<open>From the configuration to the parts\<close>

record libs =
  li_config :: config_lib
  li_pgx :: pgx_lib
  li_auth :: auth_lib
  li_stripe :: stripe_lib
  li_json :: jsonlib
  li_http :: http_lib
  li_rate :: rate_lib
  li_chi :: chi_lib
  li_rand :: random
  li_range :: "(string \<times> string) list \<Rightarrow> (string \<times> string) list"
  li_listen :: "string \<Rightarrow> string option"
  li_version :: string

definition url_absolute :: "config_lib \<Rightarrow> string \<Rightarrow> bool" where
  "url_absolute L raw = (case url_parse L raw of None \<Rightarrow> False | Some u \<Rightarrow> IsAbs u)"

definition logger_options :: "string \<Rightarrow> bool \<Rightarrow> AppConfig \<Rightarrow> Options" where
  "logger_options version addSource cfg =
     \<lparr>op_Level = lc_Level (Log cfg), op_Format = lc_Format (Log cfg), op_AddSource = addSource,
      op_Service = app_Name (App cfg), op_Environment = app_Environment (App cfg), op_Version = version\<rparr>"

definition pool_config :: "AppConfig \<Rightarrow> PoolConfig" where
  "pool_config cfg =
     (let d = Database cfg
      in \<lparr>pc_DSN = Reveal (dc_DSN d), pc_MaxConns = dc_MaxConns d, pc_MinConns = dc_MinConns d,
          pc_MaxConnLifetime = dc_MaxConnLifetime d, pc_MaxConnIdleTime = dc_MaxConnIdleTime d,
          pc_HealthCheckPeriod = dc_HealthCheckPeriod d, pc_ConnectTimeout = dc_ConnectTimeout d,
          pc_StatementTimeout = dc_StatementTimeout d, pc_IdleInTxTimeout = dc_IdleInTxTimeout d,
          pc_ApplicationName = app_Name (App cfg), pc_SlowQueryThreshold = dc_SlowQueryThreshold d\<rparr>)"

definition tool_pool_config :: "string \<Rightarrow> AppConfig \<Rightarrow> PoolConfig" where
  "tool_pool_config label cfg =
     \<lparr>pc_DSN = Reveal (dc_DSN (Database cfg)), pc_MaxConns = 4, pc_MinConns = 1, pc_MaxConnLifetime = 0,
      pc_MaxConnIdleTime = 0, pc_HealthCheckPeriod = 0, pc_ConnectTimeout = dc_ConnectTimeout (Database cfg),
      pc_StatementTimeout = dc_StatementTimeout (Database cfg), pc_IdleInTxTimeout = 0,
      pc_ApplicationName = app_Name (App cfg) @ label, pc_SlowQueryThreshold = 0\<rparr>"

definition stripe_config :: "AppConfig \<Rightarrow> Config" where
  "stripe_config cfg =
     (let s = Stripe cfg
      in \<lparr>cf_SecretKey = Reveal (st_SecretKey s), cf_WebhookSecret = Reveal (st_WebhookSecret s),
          cf_APIVersion = st_APIVersion s, cf_MaxNetworkRetries = st_MaxNetworkRetries s,
          cf_HTTPTimeout = st_HTTPTimeout s, cf_WebhookTolerance = st_WebhookTolerance s,
          cf_IgnoreAPIVersionMismatch = st_IgnoreAPIVersionMismatch s\<rparr>)"

definition token_config :: "AppConfig \<Rightarrow> TokenConfig" where
  "token_config cfg =
     \<lparr>tc_Secret = Reveal (au_JWTSecret (Auth cfg)), tc_Issuer = au_JWTIssuer (Auth cfg),
      tc_Audience = au_JWTAudience (Auth cfg), tc_TTL = au_AccessTokenTTL (Auth cfg)\<rparr>"

definition checkout_config :: "AppConfig \<Rightarrow> CheckoutConfig" where
  "checkout_config cfg =
     \<lparr>cc_SuccessURL = st_CheckoutSuccessURL (Stripe cfg), cc_CancelURL = st_CheckoutCancelURL (Stripe cfg),
      cc_ReturnURL = st_CheckoutReturnURL (Stripe cfg), cc_PortalReturnURL = st_PortalReturnURL (Stripe cfg),
      cc_AllowedPriceIDs = st_AllowedPriceIDs (Stripe cfg)\<rparr>"

definition sweeperConfig :: "AppConfig \<Rightarrow> SweeperConfig" where
  "sweeperConfig cfg =
     (let s = SweeperSettings cfg
      in \<lparr>sc_Interval = sp_Interval s, sc_StaleClaimAfter = sp_StaleClaimAfter s,
          sc_MaxAttempts = int32_of (sp_MaxAttempts s), sc_BaseBackoff = sp_BaseBackoff s,
          sc_MaxBackoff = sp_MaxBackoff s, sc_BatchSize = sp_BatchSize s, sc_AlertAfter = sp_AlertAfter s\<rparr>)"

definition retentionConfig :: "AppConfig \<Rightarrow> RetentionConfig" where
  "retentionConfig cfg =
     (let r = RetentionSettings cfg
      in \<lparr>rc_Interval = rt_Interval r, rc_SettledAfter = rt_SettledPayloadAfter r,
          rc_UnsettledAfter = rt_UnsettledPayloadAfter r, rc_BatchSize = rt_BatchSize r,
          rc_RefreshTokenGrace = rt_RefreshTokenGrace r\<rparr>)"

definition NewRateLimiter :: "RateLimitConfig \<Rightarrow> RateLimitConfig" where
  "NewRateLimiter cfg = RateLimitConfig_withDefaults cfg"

definition rate_limits :: "AppConfig \<Rightarrow> RateLimitConfig" where
  "rate_limits cfg =
     \<lparr>rl_Rate = hc_AuthRateLimitRPS (HTTP cfg), rl_Burst = hc_AuthRateLimitBurst (HTTP cfg), rl_TTL = 0,
      rl_MaxEntries = 0\<rparr>"

definition router_config :: "libs \<Rightarrow> AppConfig \<Rightarrow> TokenService \<Rightarrow> RouterConfig" where
  "router_config X cfg ts =
     \<lparr>ro_APITimeout = hc_APITimeout (HTTP cfg),
      ro_CORS = \<lparr>co_AllowedOrigins = hc_CORSAllowedOrigins (HTTP cfg), co_MaxAge = 0\<rparr>,
      ro_Tokens = (li_auth X, ts), ro_AuthRateLimit = Some (li_rate X, NewRateLimiter (rate_limits cfg)),
      ro_TrustedProxies = hc_TrustedProxies (HTTP cfg), ro_Metrics = True,
      ro_WebhookTimeout = hc_WebhookTimeout (HTTP cfg)\<rparr>"

definition NewWebhookService :: "libs \<Rightarrow> duration \<Rightarrow> Client \<Rightarrow> Service" where
  "NewWebhookService X window client =
     \<lparr>sv_lib = li_stripe X, sv_json = li_json X, sv_stale = window, sv_client = client, sv_metrics = False\<rparr>"

definition Service_WithMetrics :: "bool \<Rightarrow> Service \<Rightarrow> Service" where
  "Service_WithMetrics m S = S\<lparr>sv_metrics := m\<rparr>"

section \<open>The server\<close>

record Server =
  srv_Addr :: string
  srv_ReadHeaderTimeout :: duration
  srv_ReadTimeout :: duration
  srv_WriteTimeout :: duration
  srv_IdleTimeout :: duration
  srv_MetricsAddr :: string
  srv_System :: system

text \<open>\<open>defer db.Close()\<close> of the error returns.\<close>

definition DB_Close :: "unit prog" where
  "DB_Close = do { log_line Info ''closing database pool''; log_line Info ''database pool closed'' }"

definition failing :: "string \<Rightarrow> goerr \<Rightarrow> 'a result prog" where
  "failing what err = do { DB_Close; State_Monad.return (Inl (Wrap what err [])) }"

definition background :: "AppConfig \<Rightarrow> Service \<Rightarrow> (RetentionWorker option \<times> WebhookSweeper option) prog" where
  "background cfg service = do {
     retention \<leftarrow>
       (if rt_Enabled (RetentionSettings cfg)
        then State_Monad.return
               (Some (RetentionWorker_WithMetrics True (NewRetentionWorker True (retentionConfig cfg))))
        else do {
          log_line Warn (''payload retention is disabled; stored webhook payloads keep customer '' @
            ''email and billing address indefinitely'');
          State_Monad.return None });
     sweeper \<leftarrow>
       (if sp_Enabled (SweeperSettings cfg)
        then State_Monad.return
               (Some (WebhookSweeper_WithMetrics True True (NewWebhookSweeper service (sweeperConfig cfg))))
        else do {
          log_line Warn ''webhook sweeper is disabled; failed events will not be retried or reported'';
          State_Monad.return None });
     State_Monad.return (retention, sweeper) }"

definition listen :: "libs \<Rightarrow> string \<Rightarrow> string \<Rightarrow> goerr option" where
  "listen X what addr = map_option (\<lambda>msg. Wrap (what @ addr @ '': '') (Text msg) []) (li_listen X addr)"

definition serve_on :: "libs \<Rightarrow> AppConfig \<Rightarrow> system \<Rightarrow> Server result prog" where
  "serve_on X cfg sys =
     (let h = HTTP cfg; addr = MetricsAddr h
      in case listen X ''listen on '' (Addr h) of
           Some err \<Rightarrow> do { DB_Close; State_Monad.return (Inl err) }
         | None \<Rightarrow>
             (case (if addr = [] then None else listen X ''listen for metrics on '' addr) of
                Some err \<Rightarrow> do { DB_Close; State_Monad.return (Inl err) }
              | None \<Rightarrow> do {
                  (if addr = [] then log_line Warn ''metrics are disabled; METRICS_PORT is 0''
                   else log_line Info ''metrics listener started'');
                  State_Monad.return (Inr
                    \<lparr>srv_Addr = Addr h, srv_ReadHeaderTimeout = hc_ReadHeaderTimeout h,
                     srv_ReadTimeout = hc_ReadTimeout h, srv_WriteTimeout = hc_WriteTimeout h,
                     srv_IdleTimeout = hc_IdleTimeout h, srv_MetricsAddr = addr, srv_System = sys\<rparr>) }))"

definition assemble :: "libs \<Rightarrow> AppConfig \<Rightarrow> Client \<Rightarrow> Hasher \<Rightarrow> TokenService \<Rightarrow> Server result prog" where
  "assemble X cfg client hasher ts = do {
     let service = Service_WithMetrics True (NewWebhookService X (NewWebhookRepo 0) client);
     checkout \<leftarrow> NewCheckoutService (url_absolute (li_config X)) (li_range X) (li_stripe X) (checkout_config cfg);
     (case checkout of
        Inl err \<Rightarrow> failing ''build checkout service: '' err
      | Inr checkoutService \<Rightarrow> do {
          let authService = AuthService_WithMetrics
                (NewAuthService (li_auth X) hasher ts (au_RefreshTokenTTL (Auth cfg))) True;
          (retention, sweeper) \<leftarrow> background cfg service;
          let stripeHandler = NewStripeHandler (li_http X) service checkoutService;
          let authHandler = NewAuthHandler (li_http X) authService
                \<lparr>ck_Secure = au_CookieSecure (Auth cfg), ck_Domain = au_CookieDomain (Auth cfg)\<rparr>;
          health \<leftarrow> NewHealthHandler (li_version X);
          serve_on X cfg
            \<lparr>sy_app = \<lparr>ap_chi = li_chi X, ap_rand = li_rand X, ap_stripe = stripeHandler, ap_auth = authHandler,
                        ap_health = health\<rparr>,
             sy_router = router_config X cfg ts, sy_sweeper = sweeper, sy_retention = retention\<rparr> }) }"

definition run_setup :: "libs \<Rightarrow> Server result prog" where
  "run_setup X =
     (case Load (li_config X) of
        Inl err \<Rightarrow> State_Monad.return (Inl (Wrap ''load configuration: '' err []))
      | Inr cfg \<Rightarrow>
          (case logger_New (logger_options (li_version X) (lc_AddSource (Log cfg)) cfg) of
             Inl err \<Rightarrow> State_Monad.return (Inl (Wrap ''build logger: '' err []))
           | Inr _ \<Rightarrow> do {
               log_line Info ''starting'';
               db \<leftarrow> database_New (li_pgx X) (pool_config cfg);
               (case db of
                  Inl err \<Rightarrow> State_Monad.return (Inl (Wrap ''connect to database: '' err []))
                | Inr _ \<Rightarrow> do {
                    c \<leftarrow> New (li_stripe X) (stripe_config cfg);
                    (case c of
                       Inl err \<Rightarrow> failing ''build stripe client: '' err
                     | Inr client \<Rightarrow> do {
                         h \<leftarrow> NewHasher (li_auth X) (au_BcryptCost (Auth cfg));
                         (case h of
                            Inl err \<Rightarrow> failing ''build password hasher: '' err
                          | Inr hasher \<Rightarrow>
                              (case NewTokenService (li_auth X) (token_config cfg) of
                                 Inl err \<Rightarrow> failing ''build token service: '' err
                               | Inr ts \<Rightarrow> assemble X cfg client hasher ts)) }) }) }))"

section \<open>The command line tools\<close>

definition newline :: string where "newline = [CHR 0x0A]"

text \<open>\<open>t.Format(time.RFC3339)\<close> and how long ago \<open>t\<close> was, both to the second.\<close>

definition ago_text :: "time \<Rightarrow> time \<Rightarrow> string" where
  "ago_text t now =
     rfc3339 (t - t mod second) @ '' ('' @ duration_string (trunc_div (now - t) second * second) @ '' ago)'' @ newline"

definition printLedger :: "LedgerStats \<Rightarrow> time \<Rightarrow> string" where
  "printLedger stats now =
     ''processing    '' @ format_int (ls_Processing stats) @ newline @
     ''retryable     '' @ format_int (ls_Retryable stats) @ newline @
     ''dead-lettered '' @ format_int (ls_DeadLettered stats) @ newline @
     (case ls_OldestUnsettled stats of None \<Rightarrow> [] | Some t \<Rightarrow> ''oldest        '' @ ago_text t now) @
     (if 0 < ls_DeadLettered stats
      then newline @ ''Dead-lettered events will not be retried again. Inspect them with:'' @ newline @
           ''  SELECT event_id, event_type, attempts, last_error, updated_at'' @ newline @
           ''  FROM processed_webhooks WHERE status = '' @ [CHR 0x27] @ ''failed'' @ [CHR 0x27] @
           '' ORDER BY updated_at;'' @ newline @
           newline @ ''After fixing the cause, reset their attempt count to make them retryable:'' @ newline @
           ''  UPDATE processed_webhooks SET attempts = 0 WHERE event_id = '' @ [CHR 0x27] @ ''...'' @ [CHR 0x27] @
           '';'' @ newline
      else [])"

text \<open>The start both tools share: configuration, logger, pool.\<close>

definition tool_start :: "libs \<Rightarrow> string \<Rightarrow> AppConfig result prog" where
  "tool_start X label =
     (case Load (li_config X) of
        Inl err \<Rightarrow> State_Monad.return (Inl (Wrap ''load configuration: '' err []))
      | Inr cfg \<Rightarrow>
          (case logger_New (logger_options (li_version X) False cfg) of
             Inl err \<Rightarrow> State_Monad.return (Inl (Wrap ''build logger: '' err []))
           | Inr _ \<Rightarrow> do {
               db \<leftarrow> database_New (li_pgx X) (tool_pool_config label cfg);
               State_Monad.return
                 (case db of
                    Inl err \<Rightarrow> Inl (Wrap ''connect to database: '' err [])
                  | Inr _ \<Rightarrow> Inr cfg) }))"

text \<open>\<open>os.Exit(2)\<close> skips the deferred \<open>Close\<close>; a plain return runs it.\<close>

definition leave :: "string \<Rightarrow> bool \<Rightarrow> (string \<times> nat) result prog" where
  "leave out alarm =
     (if alarm then State_Monad.return (Inr (out, 2))
      else do { DB_Close; State_Monad.return (Inr (out, 0)) })"

definition report_tool :: "AppConfig \<Rightarrow> (string \<times> nat) result prog" where
  "report_tool cfg = do {
     st \<leftarrow> WebhookRepo_LedgerStats (int32_of (sp_MaxAttempts (SweeperSettings cfg)));
     (case st of
        Inl err \<Rightarrow> failing ''read ledger: '' err
      | Inr stats \<Rightarrow> do {
          now \<leftarrow> get_now;
          leave (printLedger stats now) (0 < ls_DeadLettered stats) }) }"

definition sweep_tool :: "libs \<Rightarrow> AppConfig \<Rightarrow> (string \<times> nat) result prog" where
  "sweep_tool X cfg = do {
     c \<leftarrow> New (li_stripe X) (stripe_config cfg);
     (case c of
        Inl err \<Rightarrow> failing ''build stripe client: '' err
      | Inr client \<Rightarrow> do {
          let service = NewWebhookService X (NewWebhookRepo (sp_StaleClaimAfter (SweeperSettings cfg))) client;
          result \<leftarrow> Sweep (NewWebhookSweeper service (sweeperConfig cfg));
          now \<leftarrow> get_now;
          leave (''reclaimed '' @ format_int (sr_Reclaimed result) @ '', retried '' @ format_int (sr_Retried result) @
                 '', recovered '' @ format_int (sr_Recovered result) @ newline @ printLedger (sr_Stats result) now)
            (0 < ls_DeadLettered (sr_Stats result)) }) }"

definition runWebhookTool :: "libs \<Rightarrow> bool \<Rightarrow> (string \<times> nat) result prog" where
  "runWebhookTool X sweep = do {
     r \<leftarrow> tool_start X ''-webhook-tool'';
     (case r of
        Inl err \<Rightarrow> State_Monad.return (Inl err)
      | Inr cfg \<Rightarrow> if sweep then sweep_tool X cfg else report_tool cfg) }"

definition print_retention :: "PurgeResult \<Rightarrow> RetentionStats \<Rightarrow> time \<Rightarrow> string" where
  "print_retention result stats now =
     ''purged '' @ format_int (PurgeResult_Total result) @ '' payload(s): '' @ format_int (pr_Settled result) @
     '' settled, '' @ format_int (pr_Unsettled result) @ '' unresolved'' @ newline @
     ''still holding full payloads  '' @ format_int (rs_WithPayload stats) @ newline @
     ''already minimised            '' @ format_int (rs_Purged stats) @ newline @
     ''past window, not yet purged  '' @ format_int (rs_DueNow stats) @ newline @
     (case rs_OldestPayload stats of None \<Rightarrow> [] | Some t \<Rightarrow> ''oldest full payload          '' @ ago_text t now)"

text \<open>The pass runs with fuel; it is out of fuel (no result) only if the fuel is too small.\<close>

definition runRetentionTool :: "libs \<Rightarrow> nat \<Rightarrow> (string \<times> nat) result option prog" where
  "runRetentionTool X fuel = do {
     r \<leftarrow> tool_start X ''-retention'';
     (case r of
        Inl err \<Rightarrow> State_Monad.return (Some (Inl err))
      | Inr cfg \<Rightarrow> do {
          let w = NewRetentionWorker True (retentionConfig cfg);
          result \<leftarrow> RunOnce w fuel;
          (case result of
             None \<Rightarrow> State_Monad.return None
           | Some tot \<Rightarrow> do {
               st \<leftarrow> RetentionWorker_Stats w;
               (case st of
                  Inl err \<Rightarrow> do { x \<leftarrow> failing ''read retention stats: '' err; State_Monad.return (Some x) }
                | Inr stats \<Rightarrow> do {
                    now \<leftarrow> get_now;
                    x \<leftarrow> leave (print_retention tot stats now) (0 < rs_DueNow stats);
                    State_Monad.return (Some x) }) }) }) }"

text \<open>The container's health probe: the environment's port as it stands, and the status it expects.\<close>

definition probe :: "(string \<Rightarrow> string option) \<Rightarrow> (string \<Rightarrow> string + nat) \<Rightarrow> goerr option" where
  "probe env http_get =
     (let port0 = (case env ''HTTP_PORT'' of None \<Rightarrow> [] | Some v \<Rightarrow> v);
          port = (if port0 = [] then ''8080'' else port0)
      in case http_get (''http://127.0.0.1:'' @ port @ ''/livez'') of
           Inl msg \<Rightarrow> Some (Text msg)
         | Inr status \<Rightarrow> if status \<noteq> 200 then Some (Text (''unexpected status '' @ decimal status)) else None)"

section \<open>Serving and shutting down\<close>

text \<open>
  How serving ends, as the process sees it: the server stops by itself, with an error or not,
  before a signal arrives; or the signal comes first, and then draining may fail, closing by
  force may fail, and the server may report an error. The deferred calls run last: the limiter's
  \<open>Close\<close>, which ends its janitor, and then the pool's. The line of the serving goroutine is
  taken to come first.
\<close>

datatype serve_result = ServerClosed | ServeFailed string

record server_end =
  se_signalled :: bool
  se_Serve :: serve_result
  se_Shutdown :: "string option"
  se_Close :: "string option"

text \<open>The goroutine that serves, and what it sends on \<open>serveErr\<close>.\<close>

definition serve_goroutine :: "serve_result \<Rightarrow> string option prog" where
  "serve_goroutine r = do {
     log_line Info ''http server listening'';
     State_Monad.return (case r of ServerClosed \<Rightarrow> None | ServeFailed msg \<Rightarrow> Some msg) }"

definition log_error :: "string \<Rightarrow> string option \<Rightarrow> unit prog" where
  "log_error msg e = (case e of None \<Rightarrow> State_Monad.return () | Some _ \<Rightarrow> log_line Error msg)"

definition drain :: "server_end \<Rightarrow> string option \<Rightarrow> unit prog" where
  "drain e serveErr = do {
     log_line Info ''shutdown signal received, draining requests'';
     (case se_Shutdown e of
        None \<Rightarrow> State_Monad.return ()
      | Some _ \<Rightarrow> do {
          log_line Error ''graceful shutdown failed, forcing close'';
          log_error ''forced close failed'' (se_Close e) });
     log_error ''http server stopped with error'' serveErr;
     log_line Info ''http server drained'' }"

definition serve_until :: "server_end \<Rightarrow> goerr option prog" where
  "serve_until e = do {
     serveErr \<leftarrow> serve_goroutine (se_Serve e);
     (if \<not> se_signalled e
      then do {
        DB_Close;
        State_Monad.return (map_option (\<lambda>msg. Wrap ''http server: '' (Text msg) []) serveErr) }
      else do { drain e serveErr; DB_Close; State_Monad.return None }) }"

definition run_process :: "libs \<Rightarrow> server_end \<Rightarrow> goerr option prog" where
  "run_process X e = do {
     r \<leftarrow> run_setup X;
     (case r of Inl err \<Rightarrow> State_Monad.return (Some err) | Inr srv \<Rightarrow> serve_until e) }"

fun janitor :: "RateLimitConfig \<Rightarrow> choice list \<Rightarrow> unit prog" where
  "janitor cfg [] = State_Monad.return ()"
| "janitor cfg (Done # cs) = State_Monad.return ()"
| "janitor cfg (Tick # cs) = do { now \<leftarrow> get_now; prune cfg now; janitor cfg cs }"

text \<open>
  The end of the limiter: \<open>Close\<close> closes the channel the janitor waits on, once. Closing a
  closed channel panics, which is \<open>None\<close>.
\<close>

record limiter_life =
  ll_once :: bool
  ll_stop_closed :: bool

definition new_limiter_life :: limiter_life where
  "new_limiter_life = \<lparr>ll_once = False, ll_stop_closed = False\<rparr>"

definition close_stop :: "limiter_life \<Rightarrow> limiter_life option" where
  "close_stop l = (if ll_stop_closed l then None else Some (l\<lparr>ll_stop_closed := True\<rparr>))"

definition RateLimiter_Close :: "limiter_life \<Rightarrow> limiter_life option" where
  "RateLimiter_Close l =
     (if ll_once l then Some l else map_option (\<lambda>l'. l'\<lparr>ll_once := True\<rparr>) (close_stop l))"

section \<open>The command line\<close>

record flags =
  fl_healthcheck :: bool
  fl_version :: bool
  fl_webhookReport :: bool
  fl_webhookSweep :: bool
  fl_retentionRun :: bool

definition no_flags :: flags where
  "no_flags = \<lparr>fl_healthcheck = False, fl_version = False, fl_webhookReport = False, fl_webhookSweep = False,
               fl_retentionRun = False\<rparr>"

text \<open>
  \<open>flag.Parse\<close> on the five switches: arguments are read until the first that is no flag or
  until \<open>--\<close>; a flag starts with one or two dashes and may carry a value after an equals sign.
  A malformed or unknown flag, or a value that is no boolean, ends the process with status 2,
  a request for help with status 0.
\<close>

datatype flag_arg = NoFlag | BadFlag | NamedFlag string string

definition flag_name :: "string \<Rightarrow> flag_arg" where
  "flag_name name =
     (if name = [] \<or> hd name = CHR ''-'' \<or> hd name = CHR ''='' then BadFlag
      else let key = takeWhile (\<lambda>c. c \<noteq> CHR ''='') name
           in NamedFlag key (if key = name then ''true'' else drop (Suc (length key)) name))"

definition read_flag :: "string \<Rightarrow> flag_arg" where
  "read_flag s =
     (if length s < 2 \<or> hd s \<noteq> CHR ''-'' \<or> s = ''--'' then NoFlag
      else if s ! 1 = CHR ''-'' then flag_name (drop 2 s) else flag_name (drop 1 s))"

definition set_flag :: "string \<Rightarrow> bool \<Rightarrow> flags \<Rightarrow> flags option" where
  "set_flag name v f =
     (if name = ''healthcheck'' then Some (f\<lparr>fl_healthcheck := v\<rparr>)
      else if name = ''version'' then Some (f\<lparr>fl_version := v\<rparr>)
      else if name = ''webhook-report'' then Some (f\<lparr>fl_webhookReport := v\<rparr>)
      else if name = ''webhook-sweep'' then Some (f\<lparr>fl_webhookSweep := v\<rparr>)
      else if name = ''retention-run'' then Some (f\<lparr>fl_retentionRun := v\<rparr>)
      else None)"

fun parse_flags :: "flags \<Rightarrow> string list \<Rightarrow> nat + flags" where
  "parse_flags f [] = Inr f"
| "parse_flags f (s # args) =
     (case read_flag s of
        NoFlag \<Rightarrow> Inr f
      | BadFlag \<Rightarrow> Inl 2
      | NamedFlag name value \<Rightarrow>
          if set_flag name True f = None
          then (if name = ''help'' \<or> name = ''h'' then Inl 0 else Inl 2)
          else case ParseBool value of
                 None \<Rightarrow> Inl 2
               | Some v \<Rightarrow> parse_flags (the (set_flag name v f)) args)"

text \<open>What is written to standard output and standard error, and the exit status.\<close>

type_synonym process_exit = "string \<times> string \<times> nat"

definition error_exit :: "string \<Rightarrow> goerr \<Rightarrow> process_exit" where
  "error_exit what err = ([], what @ '' '' @ err_text err @ newline, 1)"

definition tool_exit :: "(string \<times> nat) result \<Rightarrow> process_exit" where
  "tool_exit r = (case r of Inl err \<Rightarrow> error_exit ''error:'' err | Inr (out, code) \<Rightarrow> (out, [], code))"

definition main_go :: "libs \<Rightarrow> string \<times> string \<Rightarrow> (string \<Rightarrow> string + nat) \<Rightarrow> nat \<Rightarrow> server_end \<Rightarrow> flags \<Rightarrow>
    process_exit option prog" where
  "main_go X build http_get fuel e f =
     (if fl_version f
      then State_Monad.return (Some (''stripe-payment-service '' @ li_version X @ '' (commit '' @ fst build @ '', built '' @
             snd build @ '')'' @ newline, [], 0))
      else if fl_healthcheck f
      then State_Monad.return (Some (case probe (env_lookup (li_config X)) http_get of
             Some err \<Rightarrow> error_exit ''healthcheck failed:'' err | None \<Rightarrow> ([], [], 0)))
      else if fl_retentionRun f
      then do { r \<leftarrow> runRetentionTool X fuel; State_Monad.return (map_option tool_exit r) }
      else if fl_webhookReport f \<or> fl_webhookSweep f
      then do { r \<leftarrow> runWebhookTool X (fl_webhookSweep f); State_Monad.return (Some (tool_exit r)) }
      else do {
        r \<leftarrow> run_process X e;
        State_Monad.return (Some (case r of Some err \<Rightarrow> error_exit ''fatal:'' err | None \<Rightarrow> ([], [], 0))) })"

text \<open>The process as it is started; \<open>usage\<close> is the text the flag package prints when it gives up.\<close>

definition main_args :: "libs \<Rightarrow> string \<times> string \<Rightarrow> (string \<Rightarrow> string + nat) \<Rightarrow> nat \<Rightarrow> server_end \<Rightarrow>
    (string list \<Rightarrow> string) \<Rightarrow> string list \<Rightarrow> process_exit option prog" where
  "main_args X build http_get fuel e usage args =
     (case parse_flags no_flags args of
        Inl code \<Rightarrow> State_Monad.return (Some ([], usage args, code))
      | Inr f \<Rightarrow> main_go X build http_get fuel e f)"

section \<open>Lemmas\<close>

text \<open>
  After a signal the pool is closed last, after the server has drained, whatever fails on the
  way; and the process then ends without an error.
\<close>

lemma pool_closes_last:
  assumes "se_signalled e"
  shows "\<exists>before W'. run_state (serve_until e) W = (None, W') \<and>
           w_logs W' = w_logs W @ before @ [(Info, ''http server drained''), (Info, ''closing database pool''),
             (Info, ''database pool closed'')] \<and>
           (Info, ''closing database pool'') \<notin> set before \<and> w_db W' = w_db W"
  using assms
  by (cases "se_Shutdown e"; cases "se_Close e"; cases "se_Serve e")
     (simp_all add: serve_until_def serve_goroutine_def drain_def log_error_def DB_Close_def log_line_def)

text \<open>
  Each switch is understood with one dash and with two, and with a value; a misspelt one ends the
  process with status 2 before it reads its configuration.
\<close>

definition switches :: "string list" where
  "switches = [''healthcheck'', ''version'', ''webhook-report'', ''webhook-sweep'', ''retention-run'']"

lemma switches_read:
  "list_all (\<lambda>name. list_all (\<lambda>dashes. read_flag (dashes @ name) = NamedFlag name ''true'' \<and>
      read_flag (dashes @ name @ ''=false'') = NamedFlag name ''false'') [''-'', ''--'']) switches"
  by code_simp

lemma switch_is_read:
  assumes "set_flag name True f = Some f1" "dashes = ''-'' \<or> dashes = ''--''"
  shows "parse_flags f ((dashes @ name) # args) = parse_flags f1 args"
    and "parse_flags f ((dashes @ name @ ''=false'') # args) = parse_flags (the (set_flag name False f)) args"
proof -
  have "name \<in> set switches" using assms(1) by (auto simp: set_flag_def switches_def split: if_splits)
  then have read: "read_flag (dashes @ name) = NamedFlag name ''true''"
    "read_flag (dashes @ name @ ''=false'') = NamedFlag name ''false''"
    using switches_read assms(2) unfolding list_all_iff by auto
  have "ParseBool ''true'' = Some True" "ParseBool ''false'' = Some False" by code_simp+
  then show "parse_flags f ((dashes @ name) # args) = parse_flags f1 args"
    "parse_flags f ((dashes @ name @ ''=false'') # args) = parse_flags (the (set_flag name False f)) args"
    using assms(1) by (simp_all add: read)
qed

lemma unknown_switch_stops:
  assumes "read_flag s = NamedFlag name v" "set_flag name True no_flags = None" "name \<noteq> ''help''" "name \<noteq> ''h''"
  shows "run_state (main_args X build http_get fuel e usage (s # args)) W = (Some ([], usage (s # args), 2), W)"
  using assms by (simp add: main_args_def)

text \<open>Any number of calls of \<open>Close\<close> is safe, and the janitor's channel is closed after the first.\<close>

lemma limiter_Close_safe:
  "((\<lambda>r. Option.bind r RateLimiter_Close) ^^ Suc n) (Some new_limiter_life) =
     Some \<lparr>ll_once = True, ll_stop_closed = True\<rparr>"
proof (induction n)
  case (Suc n)
  have "((\<lambda>r. Option.bind r RateLimiter_Close) ^^ Suc (Suc n)) (Some new_limiter_life) =
      Option.bind (((\<lambda>r. Option.bind r RateLimiter_Close) ^^ Suc n) (Some new_limiter_life)) RateLimiter_Close"
    by (simp only: funpow.simps o_apply)
  also have "\<dots> = Option.bind (Some \<lparr>ll_once = True, ll_stop_closed = True\<rparr>) RateLimiter_Close"
    by (simp only: Suc.IH)
  also have "\<dots> = Some \<lparr>ll_once = True, ll_stop_closed = True\<rparr>" by (simp add: RateLimiter_Close_def)
  finally show ?case .
qed (simp add: RateLimiter_Close_def close_stop_def new_limiter_life_def)

text \<open>An environment that cannot be loaded ends the process with status 1 before anything is opened.\<close>

lemma bad_environment_stops:
  assumes "Load (li_config X) = Inl err" "\<not> fl_version f" "\<not> fl_healthcheck f"
  shows "\<exists>what. run_state (main_go X build http_get fuel e f) W =
           (Some (error_exit what (Wrap ''load configuration: '' err [])), W)"
  using assms by (auto simp: main_go_def runRetentionTool_def runWebhookTool_def tool_start_def run_process_def
      run_setup_def tool_exit_def)

text \<open>
  The sweeper draws its first delay below a quarter of its interval and panics when that is
  zero. Validation only asks for a positive interval, so one to three nanoseconds pass it.
\<close>

lemma tiny_interval_panics:
  assumes "0 < sp_Interval (SweeperSettings c)" "sp_Interval (SweeperSettings c) < 4"
  shows "fst (run_state (WebhookSweeper_Run (NewWebhookSweeper S (sweeperConfig c)) cs) W) = Panicked"
  using assms
  by (simp add: WebhookSweeper_Run_def NewWebhookSweeper_def SweeperConfig_withDefaults_def sweeperConfig_def
      or_default_def Let_def log_line_def)

text \<open>The exit status of the report is 2 exactly when an event has used up its attempts.\<close>

lemma report_tool_exit:
  assumes "w_plan W = []"
  shows "\<exists>out W'. run_state (report_tool cfg) W =
     (Inr (out, if \<exists>h \<in> set (hooks (w_db W)). h_status h = WebhookFailed \<and>
                     int32_of (sp_MaxAttempts (SweeperSettings cfg)) \<le> h_attempts h then 2 else 0), W')"
  using assms
  by (auto simp: report_tool_def WebhookRepo_LedgerStats_def run_stmt_quiet get_now_def leave_def ledger_stats_def
      Webhook_Repo.count_def DB_Close_def log_line_def filter_empty_conv)

section \<open>A loaded configuration starts\<close>

definition undisturbed :: "world \<Rightarrow> world \<Rightarrow> bool" where
  "undisturbed W W' \<longleftrightarrow> w_db W' = w_db W \<and> w_plan W' = w_plan W"

lemma undisturbed_refl [simp]: "undisturbed W W"
  by (simp add: undisturbed_def)

lemma undisturbed_trans: "undisturbed W1 W2 \<Longrightarrow> undisturbed W2 W3 \<Longrightarrow> undisturbed W1 W3"
  by (simp add: undisturbed_def)

lemma log_undisturbed: "undisturbed W (snd (run_state (log_line l m) W))"
  by (simp add: undisturbed_def log_line_def)

lemma database_New_starts:
  assumes "w_plan W = []" "trim_space (pc_DSN cfg) \<noteq> []" "pgx_ParseConfig P (pc_DSN cfg) = Inr parsed"
    and "pgx_NewWithConfig P (pool_settings (PoolConfig_withDefaults cfg) parsed) = None"
  shows "\<exists>W'. run_state (database_New P cfg) W = (Inr (pool_settings (PoolConfig_withDefaults cfg) parsed), W') \<and>
              undisturbed W W'"
proof -
  have "pc_DSN (PoolConfig_withDefaults cfg) = pc_DSN cfg" by (simp add: PoolConfig_withDefaults_def Let_def)
  then show ?thesis
    using assms by (simp add: database_New_def Ping_def run_stmt_quiet ping_stmt_def Let_def log_line_def undisturbed_def)
qed

lemma New_starts:
  assumes "trim_space (cf_SecretKey cfg) \<noteq> []" "trim_space (cf_WebhookSecret cfg) \<noteq> []"
  shows "\<exists>client W'. run_state (New L cfg) W = (Inr client, W') \<and> undisturbed W W' \<and>
           cl_webhookSecret client = cf_WebhookSecret cfg"
  using assms by (simp add: New_def log_line_def undisturbed_def)

lemma NewHasher_starts:
  assumes "bcrypt_MinCost L \<le> cost" "cost \<le> bcrypt_MaxCost L" "cost \<noteq> 0"
    and "\<And>n. \<exists>d. bcrypt_generate L n ''decoy-for-constant-time-login'' cost = Inr d"
  shows "\<exists>h W'. run_state (NewHasher L cost) W = (Inr h, W') \<and> undisturbed W W' \<and> hs_cost h = cost"
  using assms(1-3) assms(4) [of "w_draws W"] by (auto simp: NewHasher_def Let_def draw_def undisturbed_def)

lemma NewTokenService_starts:
  assumes "auth_rules c" "Reveal (au_JWTSecret (Auth c)) \<noteq> []"
  shows "\<exists>ts. NewTokenService L (token_config c) = Inr ts \<and> ts_ttl ts = au_AccessTokenTTL (Auth c)"
  using assms by (simp add: NewTokenService_def token_config_def auth_rules_def MinSecretBytes_def)

lemma good_url_absolute: "good_url L c raw \<Longrightarrow> url_absolute L raw"
  by (auto simp: good_url_def url_absolute_def)

lemma NewCheckoutService_starts:
  assumes "stripe_rules L c" "\<And>m. set (order m) = set m"
  shows "\<exists>W'. run_state (NewCheckoutService (url_absolute L) order SL (checkout_config c)) W =
                (Inr \<lparr>ck_lib = SL, ck_cfg = checkout_config c\<rparr>, W') \<and> undisturbed W W'"
proof -
  have "st_CheckoutReturnURL (Stripe c) = [] \<or> url_absolute L (st_CheckoutReturnURL (Stripe c))"
    "st_PortalReturnURL (Stripe c) = [] \<or> url_absolute L (st_PortalReturnURL (Stripe c))"
    "st_CheckoutSuccessURL (Stripe c) \<noteq> []" "url_absolute L (st_CheckoutSuccessURL (Stripe c))"
    "st_CheckoutCancelURL (Stripe c) \<noteq> []" "url_absolute L (st_CheckoutCancelURL (Stripe c))"
    using assms(1) good_url_absolute [of L c] by (auto simp: stripe_rules_def Let_def)
  then have "\<forall>e \<in> set (checkout_urls (checkout_config c)). url_problem (url_absolute L) e = []"
    by (auto simp: checkout_urls_def checkout_config_def url_problem_def)
  then have "CheckoutConfig_validate (url_absolute L) order (checkout_config c) = None"
    by (simp add: CheckoutConfig_validate_def assms(2))
  then show ?thesis by (simp add: NewCheckoutService_def log_line_def undisturbed_def)
qed

lemma background_starts:
  "\<exists>W'. run_state (background c S) W =
     ((if rt_Enabled (RetentionSettings c)
       then Some (RetentionWorker_WithMetrics True (NewRetentionWorker True (retentionConfig c))) else None,
       if sp_Enabled (SweeperSettings c)
       then Some (WebhookSweeper_WithMetrics True True (NewWebhookSweeper S (sweeperConfig c))) else None), W') \<and>
     undisturbed W W'"
  by (simp add: background_def log_line_def undisturbed_def)

lemma serve_on_starts:
  assumes "li_listen X (Addr (HTTP c)) = None" "li_listen X (MetricsAddr (HTTP c)) = None"
  shows "\<exists>srv W'. run_state (serve_on X c sys) W = (Inr srv, W') \<and> undisturbed W W' \<and> srv_System srv = sys \<and>
           srv_Addr srv = Addr (HTTP c) \<and> srv_WriteTimeout srv = hc_WriteTimeout (HTTP c)"
  using assms by (simp add: serve_on_def listen_def Let_def log_line_def undisturbed_def)

text \<open>
  The libraries work: bcrypt supports the costs from 10 to 31 and hashes the decoy, the driver
  accepts the connection string and builds the pool, an iteration over a map meets its entries,
  and the two addresses are free.
\<close>

definition libs_ready :: "libs \<Rightarrow> AppConfig \<Rightarrow> bool" where
  "libs_ready X c \<longleftrightarrow>
     bcrypt_MinCost (li_auth X) \<le> 10 \<and> 31 \<le> bcrypt_MaxCost (li_auth X) \<and>
     (\<forall>n. \<exists>d. bcrypt_generate (li_auth X) n ''decoy-for-constant-time-login'' (au_BcryptCost (Auth c)) = Inr d) \<and>
     (\<exists>parsed. pgx_ParseConfig (li_pgx X) (Reveal (dc_DSN (Database c))) = Inr parsed \<and>
        pgx_NewWithConfig (li_pgx X) (pool_settings (PoolConfig_withDefaults (pool_config c)) parsed) = None) \<and>
     (\<forall>m. set (li_range X m) = set m) \<and>
     li_listen X (Addr (HTTP c)) = None \<and> li_listen X (MetricsAddr (HTTP c)) = None"

text \<open>The system a configuration stands for, once client, hasher and token service exist.\<close>

definition wired_service :: "libs \<Rightarrow> Client \<Rightarrow> Service" where
  "wired_service X client = Service_WithMetrics True (NewWebhookService X (NewWebhookRepo 0) client)"

definition wired_app :: "libs \<Rightarrow> AppConfig \<Rightarrow> Client \<Rightarrow> Hasher \<Rightarrow> TokenService \<Rightarrow> HealthHandler \<Rightarrow> app" where
  "wired_app X c client hasher ts health =
     \<lparr>ap_chi = li_chi X, ap_rand = li_rand X,
      ap_stripe = NewStripeHandler (li_http X) (wired_service X client) \<lparr>ck_lib = li_stripe X, ck_cfg = checkout_config c\<rparr>,
      ap_auth = NewAuthHandler (li_http X)
        (AuthService_WithMetrics (NewAuthService (li_auth X) hasher ts (au_RefreshTokenTTL (Auth c))) True)
        \<lparr>ck_Secure = au_CookieSecure (Auth c), ck_Domain = au_CookieDomain (Auth c)\<rparr>,
      ap_health = health\<rparr>"

definition wired :: "libs \<Rightarrow> AppConfig \<Rightarrow> Client \<Rightarrow> Hasher \<Rightarrow> TokenService \<Rightarrow> HealthHandler \<Rightarrow> system" where
  "wired X c client hasher ts health =
     \<lparr>sy_app = wired_app X c client hasher ts health, sy_router = router_config X c ts,
      sy_sweeper = (if sp_Enabled (SweeperSettings c)
        then Some (WebhookSweeper_WithMetrics True True (NewWebhookSweeper (wired_service X client) (sweeperConfig c)))
        else None),
      sy_retention = (if rt_Enabled (RetentionSettings c)
        then Some (RetentionWorker_WithMetrics True (NewRetentionWorker True (retentionConfig c))) else None)\<rparr>"

lemma assemble_starts:
  assumes "libs_ready X c" "stripe_rules (li_config X) c"
  obtains srv W' health where "run_state (assemble X c client hasher ts) W = (Inr srv, W')" "undisturbed W W'"
    "srv_Addr srv = Addr (HTTP c)" "srv_WriteTimeout srv = hc_WriteTimeout (HTTP c)"
    "srv_System srv = wired X c client hasher ts health"
proof -
  let ?s = "wired_service X client"
  from assms(1) have "\<And>m. set (li_range X m) = set m" by (simp add: libs_ready_def)
  from NewCheckoutService_starts [OF assms(2) this]
  obtain W1 where 1: "run_state (NewCheckoutService (url_absolute (li_config X)) (li_range X) (li_stripe X) (checkout_config c)) W =
      (Inr \<lparr>ck_lib = li_stripe X, ck_cfg = checkout_config c\<rparr>, W1)" "undisturbed W W1" by blast
  obtain W2 where 2: "run_state (background c ?s) W1 =
     ((if rt_Enabled (RetentionSettings c)
       then Some (RetentionWorker_WithMetrics True (NewRetentionWorker True (retentionConfig c))) else None,
       if sp_Enabled (SweeperSettings c)
       then Some (WebhookSweeper_WithMetrics True True (NewWebhookSweeper ?s (sweeperConfig c))) else None), W2)"
    "undisturbed W1 W2" using background_starts by blast
  obtain health where 3: "run_state (NewHealthHandler (li_version X)) W2 = (health, W2)"
    by (simp add: NewHealthHandler_def get_now_def)
  have free: "li_listen X (Addr (HTTP c)) = None" "li_listen X (MetricsAddr (HTTP c)) = None"
    using assms(1) by (simp_all add: libs_ready_def)
  obtain srv W3 where 4: "run_state (serve_on X c (wired X c client hasher ts health)) W2 = (Inr srv, W3)" "undisturbed W2 W3"
    "srv_System srv = wired X c client hasher ts health" "srv_Addr srv = Addr (HTTP c)"
    "srv_WriteTimeout srv = hc_WriteTimeout (HTTP c)"
    using serve_on_starts [OF free] by blast
  show thesis
  proof (rule that [OF _ _ 4(4,5,3)])
    show "run_state (assemble X c client hasher ts) W = (Inr srv, W3)"
      using 1(1) 2(1) 3 4(1) by (simp add: assemble_def wired_def wired_app_def wired_service_def Let_def)
    show "undisturbed W W3" using 1(2) 2(2) 4(2) undisturbed_trans by blast
  qed
qed

lemma run_setup_starts:
  assumes "Load (li_config X) = Inr c" "libs_ready X c" "w_plan W = []"
  obtains client hasher ts srv health W' where
    "run_state (run_setup X) W = (Inr srv, W')" "undisturbed W W'"
    "srv_Addr srv = Addr (HTTP c)" "srv_WriteTimeout srv = hc_WriteTimeout (HTTP c)"
    "srv_System srv = wired X c client hasher ts health"
    "hs_cost hasher = au_BcryptCost (Auth c)" "ts_ttl ts = au_AccessTokenTTL (Auth c)"
    "validation_errs (li_config X) c = []"
proof -
  note secrets = Load_required [OF assms(1)]
  have c: "c = loaded (li_config X)" and valid: "validation_errs (li_config X) c = []"
    using assms(1) unfolding Load_Inr by blast+
  then have rules: "auth_rules c" "stripe_rules (li_config X) c" "\<not> isl (parseLevelName (lc_Level (Log c)))"
    by (simp_all add: validation_ok)
  have trims: "trim_space (Reveal (dc_DSN (Database c))) \<noteq> []" "trim_space (Reveal (st_SecretKey (Stripe c))) \<noteq> []"
    "trim_space (Reveal (st_WebhookSecret (Stripe c))) \<noteq> []"
    using secrets unfolding c loaded_secrets text_of_trimmed by simp_all
  obtain h where logger: "logger_New (logger_options (li_version X) (lc_AddSource (Log c)) c) = Inr h"
    using logger_New_ok [of "logger_options (li_version X) (lc_AddSource (Log c)) c"] rules(3)
    by (auto simp: logger_options_def)
  obtain W1 where 1: "run_state (log_line Info ''starting'') W = ((), W1)" "undisturbed W W1"
    by (simp add: log_line_def undisturbed_def)
  have quiet: "w_plan W1 = []" using 1(2) assms(3) by (simp add: undisturbed_def)
  have dsn: "pc_DSN (pool_config c) = Reveal (dc_DSN (Database c))" by (simp add: pool_config_def Let_def)
  obtain parsed where "pgx_ParseConfig (li_pgx X) (pc_DSN (pool_config c)) = Inr parsed"
    "pgx_NewWithConfig (li_pgx X) (pool_settings (PoolConfig_withDefaults (pool_config c)) parsed) = None"
    using assms(2) unfolding libs_ready_def dsn by blast
  then obtain st W2 where 2: "run_state (database_New (li_pgx X) (pool_config c)) W1 = (Inr st, W2)" "undisturbed W1 W2"
    using database_New_starts [OF quiet, of "pool_config c"] trims(1) [folded dsn] by blast
  obtain client W3 where 3: "run_state (New (li_stripe X) (stripe_config c)) W2 = (Inr client, W3)" "undisturbed W2 W3"
    using New_starts [of "stripe_config c" "li_stripe X" W2] trims(2,3) by (auto simp: stripe_config_def Let_def)
  obtain hasher W4 where 4: "run_state (NewHasher (li_auth X) (au_BcryptCost (Auth c))) W3 = (Inr hasher, W4)"
    "undisturbed W3 W4" "hs_cost hasher = au_BcryptCost (Auth c)"
    using NewHasher_starts [of "li_auth X" "au_BcryptCost (Auth c)" W3] assms(2) rules(1)
    by (auto simp: libs_ready_def auth_rules_def)
  obtain ts where 5: "NewTokenService (li_auth X) (token_config c) = Inr ts" "ts_ttl ts = au_AccessTokenTTL (Auth c)"
    using NewTokenService_starts [OF rules(1) secrets(4)] by blast
  obtain srv W' health where 6: "run_state (assemble X c client hasher ts) W4 = (Inr srv, W')" "undisturbed W4 W'"
    "srv_Addr srv = Addr (HTTP c)" "srv_WriteTimeout srv = hc_WriteTimeout (HTTP c)"
    "srv_System srv = wired X c client hasher ts health"
    using assemble_starts [OF assms(2) rules(2)] by blast
  show thesis
  proof (rule that [OF _ _ 6(3-5) 4(3) 5(2) valid])
    show "run_state (run_setup X) W = (Inr srv, W')"
      using 1(1) 2(1) 3(1) 4(1) 5(1) 6(1) logger by (simp add: run_setup_def assms(1))
    show "undisturbed W W'" using 1(2) 2(2) 3(2) 4(2) 6(2) undisturbed_trans by blast
  qed
qed

lemma sweeper_as_configured:
  assumes "sweeper_rules c" "deadline_rules c" "sp_Enabled (SweeperSettings c)"
  shows "sc_Interval (sw_cfg (NewWebhookSweeper S (sweeperConfig c))) = sp_Interval (SweeperSettings c)"
    "sc_BaseBackoff (sw_cfg (NewWebhookSweeper S (sweeperConfig c))) = sp_BaseBackoff (SweeperSettings c)"
    "sc_MaxBackoff (sw_cfg (NewWebhookSweeper S (sweeperConfig c))) = sp_MaxBackoff (SweeperSettings c)"
    "sc_BatchSize (sw_cfg (NewWebhookSweeper S (sweeperConfig c))) = sp_BatchSize (SweeperSettings c)"
    "sp_MaxAttempts (SweeperSettings c) \<le> int4_max \<Longrightarrow>
       sc_MaxAttempts (sw_cfg (NewWebhookSweeper S (sweeperConfig c))) = sp_MaxAttempts (SweeperSettings c)"
    "sc_MaxAttempts (sw_cfg (NewWebhookSweeper S (sweeperConfig c))) =
       (let n = int32_of (sp_MaxAttempts (SweeperSettings c)) in if 0 < n then n else defaultMaxAttempts)"
    "sc_StaleClaimAfter (sw_cfg (NewWebhookSweeper S (sweeperConfig c))) = sp_StaleClaimAfter (SweeperSettings c)"
    "sc_AlertAfter (sw_cfg (NewWebhookSweeper S (sweeperConfig c))) =
       (if 0 < sp_AlertAfter (SweeperSettings c) then sp_AlertAfter (SweeperSettings c) else defaultAlertAfter)"
    "hc_WebhookTimeout (HTTP c) < sp_StaleClaimAfter (SweeperSettings c)"
  using assms
  by (auto simp: NewWebhookSweeper_def SweeperConfig_withDefaults_def sweeperConfig_def or_default_def Let_def
      sweeper_rules_def deadline_rules_def int32_of_id int4_max_def)

lemma retention_as_configured:
  assumes "retention_rules c" "rt_Enabled (RetentionSettings c)"
  shows "rc_Interval (rw_cfg (NewRetentionWorker True (retentionConfig c))) = rt_Interval (RetentionSettings c)"
    "rc_SettledAfter (rw_cfg (NewRetentionWorker True (retentionConfig c))) = rt_SettledPayloadAfter (RetentionSettings c)"
    "rc_UnsettledAfter (rw_cfg (NewRetentionWorker True (retentionConfig c))) = rt_UnsettledPayloadAfter (RetentionSettings c)"
    "rc_BatchSize (rw_cfg (NewRetentionWorker True (retentionConfig c))) = rt_BatchSize (RetentionSettings c)"
    "rc_RefreshTokenGrace (rw_cfg (NewRetentionWorker True (retentionConfig c))) =
       (if 0 < rt_RefreshTokenGrace (RetentionSettings c) then rt_RefreshTokenGrace (RetentionSettings c)
        else defaultRefreshTokenGrace)"
  using assms
  by (auto simp: NewRetentionWorker_def RetentionConfig_withDefaults_def retentionConfig_def or_default_def Let_def
      retention_rules_def)

lemma wired_router:
  "sy_router (wired X c client hasher ts health) = router_config X c ts"
  "ro_APITimeout (router_config X c ts) = hc_APITimeout (HTTP c)"
  "ro_WebhookTimeout (router_config X c ts) = hc_WebhookTimeout (HTTP c)"
  "ro_Tokens (router_config X c ts) = (li_auth X, ts)"
  by (simp_all add: wired_def router_config_def)

lemma wired_auth:
  "as_hasher (ah_auth (ap_auth (sy_app (wired X c client hasher ts health)))) = hasher"
  "0 < au_RefreshTokenTTL (Auth c) \<Longrightarrow>
     as_refreshTTL (ah_auth (ap_auth (sy_app (wired X c client hasher ts health)))) = au_RefreshTokenTTL (Auth c)"
  "ck_Secure (ah_cookie (ap_auth (sy_app (wired X c client hasher ts health)))) = au_CookieSecure (Auth c)"
  by (simp_all add: wired_def wired_app_def NewAuthHandler_def NewAuthService_def AuthService_WithMetrics_def)

lemma router_config_kept:
  "0 < hc_APITimeout (HTTP c) \<Longrightarrow> 0 < hc_WebhookTimeout (HTTP c) \<Longrightarrow>
   RouterConfig_withDefaults (router_config X c ts) = router_config X c ts"
  by (simp add: RouterConfig_withDefaults_def router_config_def)

lemma wired_workers:
  "sy_sweeper (wired X c client hasher ts health) =
     (if sp_Enabled (SweeperSettings c)
      then Some (WebhookSweeper_WithMetrics True True (NewWebhookSweeper (wired_service X client) (sweeperConfig c)))
      else None)"
  "sy_retention (wired X c client hasher ts health) =
     (if rt_Enabled (RetentionSettings c)
      then Some (RetentionWorker_WithMetrics True (NewRetentionWorker True (retentionConfig c))) else None)"
  "sw_cfg (WebhookSweeper_WithMetrics a b s) = sw_cfg s" "rw_cfg (RetentionWorker_WithMetrics a w) = rw_cfg w"
  by (simp_all add: wired_def WebhookSweeper_WithMetrics_def RetentionWorker_WithMetrics_def)

text \<open>
  C11 (a loaded configuration starts, and which of its settings reach the process). Let the
  configuration load and the libraries work. In a quiet world the set-up then runs through
  every constructor to a serving process, without touching a row. The address, the request
  deadlines, which end before the server's write timeout, the password cost, the token
  lifetimes and the cookie flag are the configured ones. The workers run exactly when enabled,
  with the configured intervals, backoffs, batch sizes and retention windows, and the sweeper
  with the configured window for taking a claim back, which is longer than the webhook
  deadline. Three worker settings are kept with a condition only: the number of attempts
  passes through 32 bits, and where it, the alert age or the grace of refresh tokens arrives
  as zero or less, which no rule excludes, the worker's default takes its place. The window
  with which deliveries claim is not among these settings.
\<close>

theorem loaded_config_starts:
  assumes "Load (li_config X) = Inr c" "libs_ready X c" "w_plan W = []"
  shows "\<exists>srv W' S.
     run_state (run_setup X) W = (Inr srv, W') \<and> w_db W' = w_db W \<and> S = srv_System srv \<and>
     srv_Addr srv = Addr (HTTP c) \<and> RouterConfig_withDefaults (sy_router S) = sy_router S \<and>
     ro_APITimeout (sy_router S) = hc_APITimeout (HTTP c) \<and> ro_WebhookTimeout (sy_router S) = hc_WebhookTimeout (HTTP c) \<and>
     (0 < srv_WriteTimeout srv \<longrightarrow>
        ro_APITimeout (sy_router S) < srv_WriteTimeout srv \<and> ro_WebhookTimeout (sy_router S) < srv_WriteTimeout srv) \<and>
     hs_cost (as_hasher (ah_auth (ap_auth (sy_app S)))) = au_BcryptCost (Auth c) \<and>
     ts_ttl (snd (ro_Tokens (sy_router S))) = au_AccessTokenTTL (Auth c) \<and>
     as_refreshTTL (ah_auth (ap_auth (sy_app S))) = au_RefreshTokenTTL (Auth c) \<and>
     ck_Secure (ah_cookie (ap_auth (sy_app S))) = au_CookieSecure (Auth c) \<and>
     (case sy_sweeper S of
        None \<Rightarrow> \<not> sp_Enabled (SweeperSettings c)
      | Some s \<Rightarrow> sp_Enabled (SweeperSettings c) \<and> sc_Interval (sw_cfg s) = sp_Interval (SweeperSettings c) \<and>
          sc_BaseBackoff (sw_cfg s) = sp_BaseBackoff (SweeperSettings c) \<and>
          sc_MaxBackoff (sw_cfg s) = sp_MaxBackoff (SweeperSettings c) \<and>
          sc_BatchSize (sw_cfg s) = sp_BatchSize (SweeperSettings c) \<and>
          sc_StaleClaimAfter (sw_cfg s) = sp_StaleClaimAfter (SweeperSettings c) \<and>
          ro_WebhookTimeout (sy_router S) < sc_StaleClaimAfter (sw_cfg s) \<and>
          sc_MaxAttempts (sw_cfg s) =
            (let n = int32_of (sp_MaxAttempts (SweeperSettings c)) in if 0 < n then n else defaultMaxAttempts) \<and>
          (sp_MaxAttempts (SweeperSettings c) \<le> int4_max \<longrightarrow>
             sc_MaxAttempts (sw_cfg s) = sp_MaxAttempts (SweeperSettings c)) \<and>
          sc_AlertAfter (sw_cfg s) =
            (if 0 < sp_AlertAfter (SweeperSettings c) then sp_AlertAfter (SweeperSettings c) else defaultAlertAfter)) \<and>
     (case sy_retention S of
        None \<Rightarrow> \<not> rt_Enabled (RetentionSettings c)
      | Some w \<Rightarrow> rt_Enabled (RetentionSettings c) \<and> rc_Interval (rw_cfg w) = rt_Interval (RetentionSettings c) \<and>
          rc_SettledAfter (rw_cfg w) = rt_SettledPayloadAfter (RetentionSettings c) \<and>
          rc_UnsettledAfter (rw_cfg w) = rt_UnsettledPayloadAfter (RetentionSettings c) \<and>
          rc_BatchSize (rw_cfg w) = rt_BatchSize (RetentionSettings c) \<and>
          rc_RefreshTokenGrace (rw_cfg w) =
            (if 0 < rt_RefreshTokenGrace (RetentionSettings c) then rt_RefreshTokenGrace (RetentionSettings c)
             else defaultRefreshTokenGrace))"
proof -
  obtain client hasher ts srv health W' where run: "run_state (run_setup X) W = (Inr srv, W')" "undisturbed W W'"
    and made: "srv_Addr srv = Addr (HTTP c)" "srv_WriteTimeout srv = hc_WriteTimeout (HTTP c)"
      "srv_System srv = wired X c client hasher ts health"
    and parts: "hs_cost hasher = au_BcryptCost (Auth c)" "ts_ttl ts = au_AccessTokenTTL (Auth c)"
    and valid: "validation_errs (li_config X) c = []"
    by (rule run_setup_starts [OF assms])
  have rules: "auth_rules c" "deadline_rules c" "sweeper_rules c" "retention_rules c"
    using valid by (simp_all add: validation_ok)
  have ttl: "0 < au_RefreshTokenTTL (Auth c)" using rules(1) by (simp add: auth_rules_def)
  have times: "0 < hc_APITimeout (HTTP c)" "0 < hc_WebhookTimeout (HTTP c)"
    "0 < hc_WriteTimeout (HTTP c) \<Longrightarrow>
       hc_APITimeout (HTTP c) < hc_WriteTimeout (HTTP c) \<and> hc_WebhookTimeout (HTTP c) < hc_WriteTimeout (HTTP c)"
    using rules(2) by (simp_all add: deadline_rules_def)
  note sweeping = sweeper_as_configured [OF rules(3,2)] and keeping = retention_as_configured [OF rules(4)]
  have "w_db W' = w_db W" using run(2) by (simp add: undisturbed_def)
  then show ?thesis
    using run(1) times(3)
    by (intro exI [of _ srv] exI [of _ W'] exI [of _ "wired X c client hasher ts health"])
       (simp add: made wired_router wired_auth ttl router_config_kept times(1,2) wired_workers parts sweeping keeping)
qed

definition demo_libs :: "(string \<times> string) list \<Rightarrow> libs" where
  "demo_libs env =
     \<lparr>li_config = env_lib env, li_pgx = \<lparr>pgx_ParseConfig = (\<lambda>s. Inr Map.empty), pgx_NewWithConfig = (\<lambda>s. None)\<rparr>,
      li_auth = open_auth, li_stripe = till_lib, li_json = sample_jsonlib, li_http = quiet_http, li_rate = idle_lib,
      li_chi = flat_chi, li_rand = (\<lambda>k n. Inr (replicate k (CHR ''x''))), li_range = id, li_listen = (\<lambda>a. None),
      li_version = ''1''\<rparr>"

lemma demo_libs_ready:
  "10 \<le> au_BcryptCost (Auth c) \<Longrightarrow> au_BcryptCost (Auth c) \<le> 31 \<Longrightarrow> libs_ready (demo_libs env) c"
  by (simp add: libs_ready_def demo_libs_def open_auth_def sample_auth_def)

theorem loaded_config_starts_witness:
  "\<exists>srv W'. run_state (run_setup (demo_libs dev_env)) (quiet (sample_db WebhookFailed)) = (Inr srv, W') \<and>
     w_db W' = sample_db WebhookFailed \<and> srv_Addr srv = Addr (HTTP (loaded (env_lib dev_env)))"
proof -
  have "Load (li_config (demo_libs dev_env)) = Inr (loaded (env_lib dev_env))"
    by (simp add: demo_libs_def dev_env_loads)
  moreover have "libs_ready (demo_libs dev_env) (loaded (env_lib dev_env))"
    by (rule demo_libs_ready) (simp_all add: loaded_def dev_loaded_more)
  ultimately show ?thesis
    using loaded_config_starts [of "demo_libs dev_env" "loaded (env_lib dev_env)" "quiet (sample_db WebhookFailed)"]
    by (simp add: quiet_def) blast
qed

text \<open>
  C37 (the claim window is not the configured one). The service that serves webhooks claims
  events with a window of five minutes whatever \<open>WEBHOOK_STALE_CLAIM_AFTER\<close> says. When the
  webhook deadline is longer than that, an event in flight for longer than five minutes but
  still within its deadline is claimable by a second delivery, although the configuration was
  only accepted because its window exceeds the deadline.
\<close>

theorem claim_window_ignores_config:
  assumes "Load (li_config X) = Inr c" "libs_ready X c" "w_plan W = []"
  shows "\<exists>srv W' window. run_state (run_setup X) W = (Inr srv, W') \<and>
     window = sv_stale (sh_webhooks (ap_stripe (sy_app (srv_System srv)))) \<and> window = 5 * minute \<and>
     (\<forall>h now. h_status h = WebhookProcessing \<and> 5 * minute < now - h_updated_at h \<and>
        now - h_updated_at h < ro_WebhookTimeout (sy_router (srv_System srv)) \<longrightarrow>
        claimable now window h \<and> now - h_updated_at h < hc_WebhookTimeout (HTTP c))"
proof -
  obtain client hasher ts srv health W' where run: "run_state (run_setup X) W = (Inr srv, W')" "undisturbed W W'"
      "srv_Addr srv = Addr (HTTP c)" "srv_WriteTimeout srv = hc_WriteTimeout (HTTP c)"
    and made: "srv_System srv = wired X c client hasher ts health"
    and "hs_cost hasher = au_BcryptCost (Auth c)" "ts_ttl ts = au_AccessTokenTTL (Auth c)"
      "validation_errs (li_config X) c = []"
    by (rule run_setup_starts [OF assms])
  have "sv_stale (sh_webhooks (ap_stripe (sy_app (srv_System srv)))) = 5 * minute"
    by (simp add: made wired_def wired_app_def wired_service_def NewStripeHandler_def Service_WithMetrics_def
        NewWebhookService_def NewWebhookRepo_def defaultStaleClaimAfter_def)
  then show ?thesis
    using run(1) by (intro exI [of _ srv] exI [of _ W'] exI [of _ "5 * minute"])
      (simp add: made wired_router claimable_def)
qed

theorem claim_window_ignores_config_witness:
  "\<exists>srv W'. run_state (run_setup (demo_libs slow_env)) (quiet (sample_db WebhookFailed)) = (Inr srv, W') \<and>
     sv_stale (sh_webhooks (ap_stripe (sy_app (srv_System srv)))) = 5 * minute \<and>
     sp_StaleClaimAfter (SweeperSettings (loaded (env_lib slow_env))) = 10 * minute \<and>
     hc_WebhookTimeout (HTTP (loaded (env_lib slow_env))) = 6 * minute"
proof -
  have "Load (li_config (demo_libs slow_env)) = Inr (loaded (env_lib slow_env))"
    by (simp add: demo_libs_def slow_env_loads)
  moreover have "libs_ready (demo_libs slow_env) (loaded (env_lib slow_env))"
    by (rule demo_libs_ready) (simp_all add: loaded_def slow_loaded dev_loaded_more)
  moreover have "sp_StaleClaimAfter (SweeperSettings (loaded (env_lib slow_env))) = 10 * minute"
    "hc_WebhookTimeout (HTTP (loaded (env_lib slow_env))) = 6 * minute"
    by (simp_all add: loaded_def slow_loaded duration_defs)
  ultimately show ?thesis
    using claim_window_ignores_config [of "demo_libs slow_env" "loaded (env_lib slow_env)" "quiet (sample_db WebhookFailed)"]
    by (simp add: quiet_def) blast
qed

end
