(* ===== verification/Operations.thy ===== *)
theory Operations
  imports Api Complex_Main
begin

text \<open>
  The operational surface: the metrics registry (\<open>internal/metrics/metrics.go\<close>) and the
  router of the admin port (\<open>internal/handler/admin.go\<close>).

  Elsewhere in the development a call on the registry is an event, a \<open>metric\<close> appended to the
  world. Here the registry is a state and \<open>apply_metric\<close> is what one such call does to it, so
  a world's events determine what a scrape would read. A counter or gauge with labels is a
  function of its label values; a histogram is the list of its observations. Encoding the
  registry for a scrape is \<open>promhttp\<close>, a parameter.
\<close>

section \<open>The registry\<close>

record Registry =
  requestsTotal :: "string list \<Rightarrow> nat"
  requestDuration :: "string list \<Rightarrow> duration list"
  requestsInFlight :: int
  responseSize :: "string list \<Rightarrow> int list"
  webhookEvents :: "string list \<Rightarrow> nat"
  webhookDuration :: "string list \<Rightarrow> duration list"
  ledgerUnsettled :: "string list \<Rightarrow> int"
  subscriptionsDunning :: int
  payloadsUnpurged :: int
  authAttempts :: "string list \<Rightarrow> nat"
  tokenRefreshes :: "string list \<Rightarrow> nat"
  stripeRequests :: "string list \<Rightarrow> nat"

text \<open>
  What is registered: an instrument by its fully qualified name (namespace, subsystem and name
  joined by underscores), its label names and its kind. \<open>MustRegister\<close> panics on a name that is
  taken; the collectors of the Go runtime and the process use other prefixes.
\<close>

datatype instrument_kind = Counter | Gauge | Histogram "rat list"

record instrument =
  in_name :: string
  in_labels :: "string list"
  in_kind :: instrument_kind

definition sps :: "string \<Rightarrow> string \<Rightarrow> string list \<Rightarrow> instrument_kind \<Rightarrow> instrument" where
  "sps subsystem name labels kind = \<lparr>in_name = join ''_'' [''sps'', subsystem, name], in_labels = labels, in_kind = kind\<rparr>"

definition instruments :: "instrument list" where
  "instruments =
     [sps ''http'' ''requests_total'' [''method'', ''route'', ''status''] Counter,
      sps ''http'' ''request_duration_seconds'' [''method'', ''route'', ''status'']
        (Histogram [5 / 1000, 1 / 100, 25 / 1000, 5 / 100, 1 / 10, 25 / 100, 5 / 10, 1, 25 / 10, 5, 10, 25]),
      sps ''http'' ''requests_in_flight'' [] Gauge,
      sps ''http'' ''response_size_bytes'' [''route''] (Histogram (map (\<lambda>i. 64 * 4 ^ i) [0..<8])),
      sps ''webhook'' ''events_total'' [''event_type'', ''outcome''] Counter,
      sps ''webhook'' ''processing_duration_seconds'' [''event_type'']
        (Histogram [1 / 100, 5 / 100, 1 / 10, 25 / 100, 5 / 10, 1, 25 / 10, 5, 10]),
      sps ''webhook'' ''ledger_unsettled'' [''state''] Gauge,
      sps ''billing'' ''subscriptions_in_dunning'' [] Gauge,
      sps ''retention'' ''payloads_past_window'' [] Gauge,
      sps ''auth'' ''attempts_total'' [''operation'', ''outcome''] Counter,
      sps ''auth'' ''token_refreshes_total'' [''outcome''] Counter,
      sps ''stripe'' ''requests_total'' [''operation'', ''outcome''] Counter]"

fun MustRegister :: "string list \<Rightarrow> instrument list \<Rightarrow> string list option" where
  "MustRegister taken [] = Some taken"
| "MustRegister taken (x # xs) = (if in_name x \<in> set taken then None else MustRegister (taken @ [in_name x]) xs)"

definition zero_registry :: Registry where
  "zero_registry =
     \<lparr>requestsTotal = (\<lambda>l. 0), requestDuration = (\<lambda>l. []), requestsInFlight = 0, responseSize = (\<lambda>l. []),
      webhookEvents = (\<lambda>l. 0), webhookDuration = (\<lambda>l. []), ledgerUnsettled = (\<lambda>l. 0), subscriptionsDunning = 0,
      payloadsUnpurged = 0, authAttempts = (\<lambda>l. 0), tokenRefreshes = (\<lambda>l. 0), stripeRequests = (\<lambda>l. 0)\<rparr>"

text \<open>\<open>New\<close> panics (no result) when a registration does; \<open>taken\<close> are the names of the two collectors.\<close>

definition metrics_New :: "string list \<Rightarrow> Registry option" where
  "metrics_New taken = (case MustRegister taken instruments of None \<Rightarrow> None | Some _ \<Rightarrow> Some zero_registry)"

text \<open>\<open>WithLabelValues(...).Inc()\<close>, \<open>Observe\<close> and \<open>Set\<close>.\<close>

definition inc :: "'l \<Rightarrow> ('l \<Rightarrow> nat) \<Rightarrow> 'l \<Rightarrow> nat" where
  "inc l f = f(l := Suc (f l))"

definition sample :: "'l \<Rightarrow> 'a \<Rightarrow> ('l \<Rightarrow> 'a list) \<Rightarrow> 'l \<Rightarrow> 'a list" where
  "sample l x f = f(l := f l @ [x])"

definition Registry_ObserveRequest :: "string \<Rightarrow> string \<Rightarrow> string \<Rightarrow> duration \<Rightarrow> int \<Rightarrow> Registry \<Rightarrow> Registry" where
  "Registry_ObserveRequest meth route status elapsed bytes m =
     m\<lparr>requestsTotal := inc [meth, route, status] (requestsTotal m),
       requestDuration := sample [meth, route, status] elapsed (requestDuration m),
       responseSize := sample [route] bytes (responseSize m)\<rparr>"

definition Registry_IncInFlight :: "Registry \<Rightarrow> Registry" where
  "Registry_IncInFlight m = m\<lparr>requestsInFlight := requestsInFlight m + 1\<rparr>"

definition Registry_DecInFlight :: "Registry \<Rightarrow> Registry" where
  "Registry_DecInFlight m = m\<lparr>requestsInFlight := requestsInFlight m - 1\<rparr>"

definition Registry_ObserveWebhook :: "string \<Rightarrow> string \<Rightarrow> duration \<Rightarrow> Registry \<Rightarrow> Registry" where
  "Registry_ObserveWebhook eventType outcome elapsed m =
     m\<lparr>webhookEvents := inc [eventType, outcome] (webhookEvents m),
       webhookDuration := sample [eventType] elapsed (webhookDuration m)\<rparr>"

definition Registry_SetLedger :: "int \<Rightarrow> int \<Rightarrow> int \<Rightarrow> Registry \<Rightarrow> Registry" where
  "Registry_SetLedger inWork toRetry deadLettered m =
     m\<lparr>ledgerUnsettled := (ledgerUnsettled m)
         ([''processing''] := inWork, [''retryable''] := toRetry, [''dead_lettered''] := deadLettered)\<rparr>"

definition Registry_SetDunning :: "int \<Rightarrow> Registry \<Rightarrow> Registry" where
  "Registry_SetDunning n m = m\<lparr>subscriptionsDunning := n\<rparr>"

definition Registry_SetPayloadsPastWindow :: "int \<Rightarrow> Registry \<Rightarrow> Registry" where
  "Registry_SetPayloadsPastWindow n m = m\<lparr>payloadsUnpurged := n\<rparr>"

definition Registry_IncAuth :: "string \<Rightarrow> string \<Rightarrow> Registry \<Rightarrow> Registry" where
  "Registry_IncAuth operation outcome m = m\<lparr>authAttempts := inc [operation, outcome] (authAttempts m)\<rparr>"

definition Registry_IncTokenRefresh :: "string \<Rightarrow> Registry \<Rightarrow> Registry" where
  "Registry_IncTokenRefresh outcome m = m\<lparr>tokenRefreshes := inc [outcome] (tokenRefreshes m)\<rparr>"

definition Registry_IncStripe :: "string \<Rightarrow> string \<Rightarrow> Registry \<Rightarrow> Registry" where
  "Registry_IncStripe operation outcome m = m\<lparr>stripeRequests := inc [operation, outcome] (stripeRequests m)\<rparr>"

fun apply_metric :: "metric \<Rightarrow> Registry \<Rightarrow> Registry" where
  "apply_metric (ObserveWebhook ty outcome d) = Registry_ObserveWebhook ty outcome d"
| "apply_metric (SetLedger p r d) = Registry_SetLedger p r d"
| "apply_metric (SetDunning n) = Registry_SetDunning n"
| "apply_metric (SetPayloadsPastWindow n) = Registry_SetPayloadsPastWindow n"
| "apply_metric (IncAuth operation outcome) = Registry_IncAuth operation outcome"
| "apply_metric (IncTokenRefresh outcome) = Registry_IncTokenRefresh outcome"
| "apply_metric IncInFlight = Registry_IncInFlight"
| "apply_metric DecInFlight = Registry_DecInFlight"
| "apply_metric (ObserveRequest meth route status d bytes) = Registry_ObserveRequest meth route status d bytes"

definition scraped :: "metric list \<Rightarrow> Registry" where
  "scraped ms = fold apply_metric ms zero_registry"

lemmas registry_defs =
  Registry_ObserveRequest_def Registry_IncInFlight_def Registry_DecInFlight_def Registry_ObserveWebhook_def
  Registry_SetLedger_def Registry_SetDunning_def Registry_SetPayloadsPastWindow_def Registry_IncAuth_def
  Registry_IncTokenRefresh_def Registry_IncStripe_def

section \<open>The admin port\<close>

text \<open>
  The patterns of \<open>http.ServeMux\<close>: \<open>GET\<close> also serves \<open>HEAD\<close>; a known path with another
  method is answered 405 with the methods allowed, an unknown one 404.
\<close>

definition mux_error :: "int \<Rightarrow> string \<Rightarrow> Writer \<Rightarrow> Writer" where
  "mux_error code body w =
     recorder_Write (body @ [CHR 0x0A])
       (recorder_WriteHeader code
         (set_header ''X-Content-Type-Options'' ''nosniff'' (set_header ''Content-Type'' ''text/plain; charset=utf-8'' w)))"

definition NewAdminRouter :: "handler \<Rightarrow> handler" where
  "NewAdminRouter promhttp r w =
     (if req_Path r \<notin> {''/metrics'', ''/livez''}
      then State_Monad.return (Returned, mux_error 404 ''404 page not found'' w)
      else if req_Method r \<noteq> ''GET'' \<and> req_Method r \<noteq> ''HEAD''
      then State_Monad.return (Returned,
             mux_error 405 ''Method Not Allowed'' (set_header ''Allow'' ''GET, HEAD'' w))
      else if req_Path r = ''/metrics'' then promhttp r w
      else State_Monad.return (Returned, writeJSON 200 (VObj [(''status'', VStr ''ok'')]) w))"

section \<open>Lemmas\<close>

lemma MustRegister_distinct:
  "distinct (taken @ map in_name xs) \<Longrightarrow> MustRegister taken xs = Some (taken @ map in_name xs)"
  by (induction xs arbitrary: taken) auto

text \<open>The service's names are distinct, so the registry is built unless a collector took one of them.\<close>

lemma metrics_New_succeeds:
  assumes "distinct taken" "set taken \<inter> set (map in_name instruments) = {}"
  shows "metrics_New taken = Some zero_registry"
proof -
  have "distinct (map in_name instruments)" by code_simp
  then have "distinct (taken @ map in_name instruments)" using assms by auto
  then show ?thesis by (simp add: metrics_New_def MustRegister_distinct)
qed

lemma in_flight_counts:
  "requestsInFlight (fold apply_metric ms m) =
     requestsInFlight m + int (count_list ms IncInFlight) - int (count_list ms DecInFlight)"
proof (induction ms arbitrary: m)
  case (Cons e ms)
  then show ?case by (cases e) (simp_all add: registry_defs)
qed simp

text \<open>A scrape reads the last backlog the sweeper published, whatever was recorded since.\<close>

lemma scrape_reads_ledger:
  assumes "\<forall>e \<in> set later. \<forall>p r d. e \<noteq> SetLedger p r d"
  shows "ledgerUnsettled (scraped (ms @ SetLedger p r d # later)) [''dead_lettered''] = d"
proof -
  have "ledgerUnsettled (fold apply_metric later m) = ledgerUnsettled m" for m
    using assms
  proof (induction later arbitrary: m)
    case (Cons e later)
    then show ?case by (cases e) (simp_all add: registry_defs)
  qed simp
  then show ?thesis by (simp add: scraped_def registry_defs)
qed

text \<open>No call site of the service records an outbound Stripe call, so its counter stays at zero.\<close>

lemma stripe_requests_never_counted: "stripeRequests (scraped ms) = (\<lambda>l. 0)"
proof -
  have "stripeRequests (fold apply_metric ms m) = stripeRequests m" for m
  proof (induction ms arbitrary: m)
    case (Cons e ms)
    then show ?case by (cases e) (simp_all add: registry_defs)
  qed simp
  then show ?thesis by (simp add: scraped_def zero_registry_def)
qed

text \<open>
  A request outside the API's prefix that names no root route is answered 404 or 405 and
  reaches neither a handler nor the database; so the metrics are not on the public port.
\<close>

lemma unlisted_is_refused:
  assumes "chi_laws (ap_chi A)" "req_Method r \<noteq> ''OPTIONS''" "\<not> has_prefix (req_Path r) ''/api/v1''"
    and "(req_Method r, req_Path r) \<notin> {(''GET'', ''/livez''), (''GET'', ''/healthz''), (''POST'', ''/webhook'')}"
  shows "\<exists>w W' s hs. run_state (NewRouter A cfg r new_writer) W = ((Returned, w), W') \<and>
           rw_Sent w = Some (s, hs) \<and> s \<in> {404, 405} \<and> w_db W' = w_db W \<and> w_plan W' = w_plan W"
proof -
  let ?cfg = "RouterConfig_withDefaults cfg"
  let ?Q = "\<lambda>w d pl po. (\<exists>s hs. rw_Sent w = Some (s, hs) \<and> s \<in> {404, 405}) \<and> d = w_db W \<and> pl = w_plan W"
  have unmounted: "chi_mount (ap_chi A) ''/api/v1'' (req_Path r) = None"
    using chi_mount_out [OF assms(1) static_routes(3) assms(3)] .
  have refused: "chi_match (ap_chi A) (map fst (root_routes A ?cfg)) (req_Method r) (req_Path r) \<noteq> Endpoint e" for e
  proof
    assume "chi_match (ap_chi A) (map fst (root_routes A ?cfg)) (req_Method r) (req_Path r) = Endpoint e"
    then have "e = (req_Method r, req_Path r) \<and> e \<in> set (map fst (root_routes A ?cfg))"
      using assms(1) static_routes(2) unfolding chi_laws_def by blast
    then show False using assms(4) by (auto simp: root_routes_def)
  qed
  have "\<exists>w2 W2. run_state (mux A ?cfg (r\<lparr>req_Pattern := x, req_RequestID := i\<rparr>) (new_writer\<lparr>rw_Header := hs\<rparr>)) W1 =
      ((Returned, w2), W2) \<and> ?Q w2 (w_db W2) (w_plan W2) (w_polls W2)"
    if "w_db W1 = w_db W" "w_plan W1 = w_plan W" for x i hs W1
  proof (cases "chi_match (ap_chi A) (map fst (root_routes A ?cfg)) (req_Method r) (req_Path r)")
    case (Endpoint e)
    then show ?thesis using refused by blast
  qed (simp_all add: that mux_def unmounted serve_def not_found_def method_not_allowed_def writeError_def writeJSON_sent
        wroteHeader_def new_writer_def)
  from NewRouter_through [where Q = ?Q, OF assms(2) this] show ?thesis by blast
qed

lemma metrics_not_public:
  assumes "chi_laws (ap_chi A)" "req_Method r \<noteq> ''OPTIONS''" "req_Path r = ''/metrics''"
  shows "\<exists>w W' s hs. run_state (NewRouter A cfg r new_writer) W = ((Returned, w), W') \<and>
           rw_Sent w = Some (s, hs) \<and> s \<in> {404, 405} \<and> w_db W' = w_db W \<and> w_plan W' = w_plan W"
  by (rule unlisted_is_refused) (simp_all add: assms has_prefix_def)

end
