(* ===== verification/Row_Scan.thy ===== *)
theory Row_Scan
  imports Webhook_Repo Subscription_Repo User_Repo Refresh_Token_Repo
begin

text \<open>
  The boundary between the repositories and the tables: internal/repository/postgres lists the
  columns of a table as text and reads them back by position, and an INSERT lists the columns
  and passes its arguments by position. The statements of the repository theories work on whole
  records; here a row is what the server has, a map from column names to cells, with
  \<open>select_cells\<close>, \<open>insert_cells\<close> and \<open>update_cells\<close> for the column lists and \<open>Scan\<close> for
  the scanners, which fill a zero record destination by destination and fail on a wrong count,
  a wrong type, or a NULL for a field that is no pointer.

  The lemmas show that the positions line up: every row reads back as its record, and a row
  that was inserted reads back as the record the statement of the repository theory stores.
\<close>

section \<open>Cells\<close>

datatype cell = NullC | UuidC uuid | TextC string | IntC int | BoolC bool | TimeC time
  | MapC "(string \<times> string) list" | JsonC json

type_synonym cells = "string \<rightharpoonup> cell"

definition nullable_cell :: "('a \<Rightarrow> cell) \<Rightarrow> 'a option \<Rightarrow> cell" where
  "nullable_cell mk v = (case v of None \<Rightarrow> NullC | Some x \<Rightarrow> mk x)"

fun get_uuid :: "cell \<Rightarrow> uuid option" where
  "get_uuid (UuidC x) = Some x"
| "get_uuid _ = None"

fun get_text :: "cell \<Rightarrow> string option" where
  "get_text (TextC x) = Some x"
| "get_text _ = None"

fun get_int :: "cell \<Rightarrow> int option" where
  "get_int (IntC x) = Some x"
| "get_int _ = None"

fun get_bool :: "cell \<Rightarrow> bool option" where
  "get_bool (BoolC x) = Some x"
| "get_bool _ = None"

fun get_time :: "cell \<Rightarrow> time option" where
  "get_time (TimeC x) = Some x"
| "get_time _ = None"

fun get_map :: "cell \<Rightarrow> (string \<times> string) list option" where
  "get_map (MapC x) = Some x"
| "get_map _ = None"

text \<open>A byte slice takes the text of a jsonb, and NULL as the nil slice.\<close>

fun get_json :: "jsonlib \<Rightarrow> cell \<Rightarrow> bytes option" where
  "get_json J (JsonC j) = Some (jsonb_out J j)"
| "get_json J NullC = Some []"
| "get_json J _ = None"

text \<open>A pointer field.\<close>

fun nullable :: "(cell \<Rightarrow> 'a option) \<Rightarrow> cell \<Rightarrow> 'a option option" where
  "nullable get NullC = Some None"
| "nullable get c = map_option Some (get c)"

section \<open>Statements and scanners\<close>

definition select_cells :: "string list \<Rightarrow> cells \<Rightarrow> cell list option" where
  "select_cells cols r = those (map r cols)"

definition insert_cells :: "string list \<Rightarrow> cell list \<Rightarrow> cells \<Rightarrow> cells option" where
  "insert_cells cols args defaults =
     (if length cols = length args \<and> distinct cols then Some (defaults ++ map_of (zip cols args)) else None)"

definition update_cells :: "string list \<Rightarrow> cell list \<Rightarrow> cells \<Rightarrow> cells" where
  "update_cells cols args r = r ++ map_of (zip cols args)"

text \<open>A destination stores the cell it is given, or fails.\<close>

type_synonym 'r dest = "cell \<Rightarrow> 'r \<Rightarrow> 'r option"

definition into :: "(cell \<Rightarrow> 'a option) \<Rightarrow> ('a \<Rightarrow> 'r \<Rightarrow> 'r) \<Rightarrow> 'r dest" where
  "into get put c r = map_option (\<lambda>x. put x r) (get c)"

fun Scan :: "'r dest list \<Rightarrow> cell list \<Rightarrow> 'r \<Rightarrow> 'r option" where
  "Scan [] [] r = Some r"
| "Scan (d # ds) (c # cs) r = (case d c r of None \<Rightarrow> None | Some r' \<Rightarrow> Scan ds cs r')"
| "Scan _ _ r = None"

text \<open>A nil map is sent as NULL, and \<open>COALESCE\<close> stores the empty object for it.\<close>

definition metadata_arg :: "(string \<times> string) list \<Rightarrow> cell" where
  "metadata_arg m = (if m = [] then NullC else MapC m)"

definition coalesce_map :: "cell \<Rightarrow> cell" where
  "coalesce_map c = (if c = NullC then MapC [] else c)"

section \<open>Users\<close>

definition userColumns :: "string list" where
  "userColumns = [
     ''id'', ''email'', ''email_verified_at'', ''password_hash'', ''full_name'',
     ''stripe_customer_id'', ''metadata'', ''created_at'', ''updated_at'', ''deleted_at'']"

definition user_cells :: "User \<Rightarrow> cells" where
  "user_cells u = map_of [
     (''id'', UuidC (u_ID u)), (''email'', TextC (u_Email u)),
     (''email_verified_at'', nullable_cell TimeC (u_EmailVerifiedAt u)),
     (''password_hash'', nullable_cell TextC (u_PasswordHash u)),
     (''full_name'', nullable_cell TextC (u_FullName u)),
     (''stripe_customer_id'', nullable_cell TextC (u_StripeCustomerID u)),
     (''metadata'', MapC (u_Metadata u)), (''created_at'', TimeC (u_CreatedAt u)),
     (''updated_at'', TimeC (u_UpdatedAt u)),
     (''deleted_at'', nullable_cell TimeC (u_DeletedAt u))]"

definition zero_user :: User where
  "zero_user =
     \<lparr>u_ID = nil_uuid, u_Email = [], u_EmailVerifiedAt = None, u_PasswordHash = None,
      u_FullName = None, u_StripeCustomerID = None, u_Metadata = [], u_CreatedAt = zero_time,
      u_UpdatedAt = zero_time, u_DeletedAt = None\<rparr>"

definition scanUser :: "cell list \<Rightarrow> User option" where
  "scanUser cs = Scan
       [into get_uuid (\<lambda>x. u_ID_update (\<lambda>_. x)),
        into get_text (\<lambda>x. u_Email_update (\<lambda>_. x)),
        into (nullable get_time) (\<lambda>x. u_EmailVerifiedAt_update (\<lambda>_. x)),
        into (nullable get_text) (\<lambda>x. u_PasswordHash_update (\<lambda>_. x)),
        into (nullable get_text) (\<lambda>x. u_FullName_update (\<lambda>_. x)),
        into (nullable get_text) (\<lambda>x. u_StripeCustomerID_update (\<lambda>_. x)),
        into get_map (\<lambda>x. u_Metadata_update (\<lambda>_. x)),
        into get_time (\<lambda>x. u_CreatedAt_update (\<lambda>_. x)),
        into get_time (\<lambda>x. u_UpdatedAt_update (\<lambda>_. x)),
        into (nullable get_time) (\<lambda>x. u_DeletedAt_update (\<lambda>_. x))]
       cs zero_user"

definition user_insert_columns :: "string list" where
  "user_insert_columns = [
     ''email'', ''email_verified_at'', ''password_hash'', ''full_name'', ''stripe_customer_id'',
     ''metadata'']"

definition user_args :: "User \<Rightarrow> cell list" where
  "user_args u = [
     TextC (u_Email u), nullable_cell TimeC (u_EmailVerifiedAt u),
     nullable_cell TextC (u_PasswordHash u), nullable_cell TextC (u_FullName u),
     nullable_cell TextC (u_StripeCustomerID u), coalesce_map (metadata_arg (u_Metadata u))]"

text \<open>The columns an INSERT leaves out take the defaults of the migrations.\<close>

definition user_defaults :: "uuid \<Rightarrow> time \<Rightarrow> cells" where
  "user_defaults i now = map_of [
     (''id'', UuidC i), (''created_at'', TimeC now), (''updated_at'', TimeC now), (''deleted_at'', NullC)]"

definition user_returning :: "string list" where
  "user_returning = [''id'', ''created_at'', ''updated_at'']"

definition scan_user_returned :: "User \<Rightarrow> cell list \<Rightarrow> User option" where
  "scan_user_returned u cs = Scan
       [into get_uuid (\<lambda>x. u_ID_update (\<lambda>_. x)),
        into get_time (\<lambda>x. u_CreatedAt_update (\<lambda>_. x)),
        into get_time (\<lambda>x. u_UpdatedAt_update (\<lambda>_. x))]
       cs u"

section \<open>Refresh tokens\<close>

definition refreshTokenColumns :: "string list" where
  "refreshTokenColumns = [
     ''id'', ''user_id'', ''token_hash'', ''family_id'', ''issued_at'', ''expires_at'',
     ''used_at'', ''revoked_at'', ''revoked_reason'', ''created_at'', ''updated_at'']"

definition token_cells :: "RefreshToken \<Rightarrow> cells" where
  "token_cells t = map_of [
     (''id'', UuidC (t_ID t)), (''user_id'', UuidC (t_UserID t)),
     (''token_hash'', TextC (t_TokenHash t)), (''family_id'', UuidC (t_FamilyID t)),
     (''issued_at'', TimeC (t_IssuedAt t)), (''expires_at'', TimeC (t_ExpiresAt t)),
     (''used_at'', nullable_cell TimeC (t_UsedAt t)),
     (''revoked_at'', nullable_cell TimeC (t_RevokedAt t)),
     (''revoked_reason'', nullable_cell TextC (t_RevokedReason t)),
     (''created_at'', TimeC (t_CreatedAt t)), (''updated_at'', TimeC (t_UpdatedAt t))]"

definition zero_token :: RefreshToken where
  "zero_token =
     \<lparr>t_ID = nil_uuid, t_UserID = nil_uuid, t_TokenHash = [], t_FamilyID = nil_uuid,
      t_IssuedAt = zero_time, t_ExpiresAt = zero_time, t_UsedAt = None, t_RevokedAt = None,
      t_RevokedReason = None, t_CreatedAt = zero_time, t_UpdatedAt = zero_time\<rparr>"

definition scanRefreshToken :: "cell list \<Rightarrow> RefreshToken option" where
  "scanRefreshToken cs = Scan
       [into get_uuid (\<lambda>x. t_ID_update (\<lambda>_. x)),
        into get_uuid (\<lambda>x. t_UserID_update (\<lambda>_. x)),
        into get_text (\<lambda>x. t_TokenHash_update (\<lambda>_. x)),
        into get_uuid (\<lambda>x. t_FamilyID_update (\<lambda>_. x)),
        into get_time (\<lambda>x. t_IssuedAt_update (\<lambda>_. x)),
        into get_time (\<lambda>x. t_ExpiresAt_update (\<lambda>_. x)),
        into (nullable get_time) (\<lambda>x. t_UsedAt_update (\<lambda>_. x)),
        into (nullable get_time) (\<lambda>x. t_RevokedAt_update (\<lambda>_. x)),
        into (nullable get_text) (\<lambda>x. t_RevokedReason_update (\<lambda>_. x)),
        into get_time (\<lambda>x. t_CreatedAt_update (\<lambda>_. x)),
        into get_time (\<lambda>x. t_UpdatedAt_update (\<lambda>_. x))]
       cs zero_token"

definition token_insert_columns :: "string list" where
  "token_insert_columns = [''user_id'', ''token_hash'', ''family_id'', ''expires_at'']"

definition token_args :: "uuid \<Rightarrow> string \<Rightarrow> uuid \<Rightarrow> time \<Rightarrow> cell list" where
  "token_args userID hash family expires = [UuidC userID, TextC hash, UuidC family, TimeC expires]"

definition token_defaults :: "uuid \<Rightarrow> time \<Rightarrow> cells" where
  "token_defaults i now = map_of [
     (''id'', UuidC i), (''issued_at'', TimeC now), (''used_at'', NullC), (''revoked_at'', NullC),
     (''revoked_reason'', NullC), (''created_at'', TimeC now), (''updated_at'', TimeC now)]"

definition token_returning :: "string list" where
  "token_returning = [''id'', ''issued_at'', ''created_at'', ''updated_at'']"

definition scan_token_returned :: "RefreshToken \<Rightarrow> cell list \<Rightarrow> RefreshToken option" where
  "scan_token_returned t cs = Scan
       [into get_uuid (\<lambda>x. t_ID_update (\<lambda>_. x)),
        into get_time (\<lambda>x. t_IssuedAt_update (\<lambda>_. x)),
        into get_time (\<lambda>x. t_CreatedAt_update (\<lambda>_. x)),
        into get_time (\<lambda>x. t_UpdatedAt_update (\<lambda>_. x))]
       cs t"

section \<open>Subscriptions\<close>

definition subscriptionColumns :: "string list" where
  "subscriptionColumns = [
     ''id'', ''user_id'', ''stripe_subscription_id'', ''stripe_customer_id'',
     ''stripe_price_id'', ''stripe_product_id'', ''status'', ''quantity'', ''currency'',
     ''unit_amount'', ''current_period_start'', ''current_period_end'', ''cancel_at_period_end'',
     ''cancel_at'', ''canceled_at'', ''ended_at'', ''trial_start'', ''trial_end'',
     ''latest_invoice_id'', ''default_payment_method_id'', ''last_stripe_event_id'',
     ''last_stripe_event_at'', ''payment_failed_at'', ''payment_failure_count'',
     ''last_payment_error'', ''next_payment_attempt_at'', ''last_invoice_event_id'',
     ''last_invoice_event_at'', ''metadata'', ''created_at'', ''updated_at'']"

definition sub_cells :: "Subscription \<Rightarrow> cells" where
  "sub_cells s = map_of [
     (''id'', UuidC (s_ID s)), (''user_id'', UuidC (s_UserID s)),
     (''stripe_subscription_id'', TextC (s_StripeSubscriptionID s)),
     (''stripe_customer_id'', TextC (s_StripeCustomerID s)),
     (''stripe_price_id'', TextC (s_StripePriceID s)),
     (''stripe_product_id'', nullable_cell TextC (s_StripeProductID s)),
     (''status'', TextC (s_Status s)), (''quantity'', IntC (s_Quantity s)),
     (''currency'', nullable_cell TextC (s_Currency s)),
     (''unit_amount'', nullable_cell IntC (s_UnitAmount s)),
     (''current_period_start'', TimeC (s_CurrentPeriodStart s)),
     (''current_period_end'', TimeC (s_CurrentPeriodEnd s)),
     (''cancel_at_period_end'', BoolC (s_CancelAtPeriodEnd s)),
     (''cancel_at'', nullable_cell TimeC (s_CancelAt s)),
     (''canceled_at'', nullable_cell TimeC (s_CanceledAt s)),
     (''ended_at'', nullable_cell TimeC (s_EndedAt s)),
     (''trial_start'', nullable_cell TimeC (s_TrialStart s)),
     (''trial_end'', nullable_cell TimeC (s_TrialEnd s)),
     (''latest_invoice_id'', nullable_cell TextC (s_LatestInvoiceID s)),
     (''default_payment_method_id'', nullable_cell TextC (s_DefaultPaymentMethodID s)),
     (''last_stripe_event_id'', nullable_cell TextC (s_LastStripeEventID s)),
     (''last_stripe_event_at'', nullable_cell TimeC (s_LastStripeEventAt s)),
     (''payment_failed_at'', nullable_cell TimeC (s_PaymentFailedAt s)),
     (''payment_failure_count'', IntC (s_PaymentFailureCount s)),
     (''last_payment_error'', nullable_cell TextC (s_LastPaymentError s)),
     (''next_payment_attempt_at'', nullable_cell TimeC (s_NextPaymentAttemptAt s)),
     (''last_invoice_event_id'', nullable_cell TextC (s_LastInvoiceEventID s)),
     (''last_invoice_event_at'', nullable_cell TimeC (s_LastInvoiceEventAt s)),
     (''metadata'', MapC (s_Metadata s)), (''created_at'', TimeC (s_CreatedAt s)),
     (''updated_at'', TimeC (s_UpdatedAt s))]"

definition zero_sub :: Subscription where
  "zero_sub =
     \<lparr>s_ID = nil_uuid, s_UserID = nil_uuid, s_StripeSubscriptionID = [], s_StripeCustomerID = [],
      s_StripePriceID = [], s_StripeProductID = None, s_Status = [], s_Quantity = 0,
      s_Currency = None, s_UnitAmount = None, s_CurrentPeriodStart = zero_time,
      s_CurrentPeriodEnd = zero_time, s_CancelAtPeriodEnd = False, s_CancelAt = None,
      s_CanceledAt = None, s_EndedAt = None, s_TrialStart = None, s_TrialEnd = None,
      s_LatestInvoiceID = None, s_DefaultPaymentMethodID = None, s_PaymentFailedAt = None,
      s_PaymentFailureCount = 0, s_LastPaymentError = None, s_NextPaymentAttemptAt = None,
      s_LastInvoiceEventID = None, s_LastInvoiceEventAt = None, s_LastStripeEventID = None,
      s_LastStripeEventAt = None, s_Metadata = [], s_CreatedAt = zero_time,
      s_UpdatedAt = zero_time\<rparr>"

definition scanSubscription :: "cell list \<Rightarrow> Subscription option" where
  "scanSubscription cs = Scan
       [into get_uuid (\<lambda>x. s_ID_update (\<lambda>_. x)),
        into get_uuid (\<lambda>x. s_UserID_update (\<lambda>_. x)),
        into get_text (\<lambda>x. s_StripeSubscriptionID_update (\<lambda>_. x)),
        into get_text (\<lambda>x. s_StripeCustomerID_update (\<lambda>_. x)),
        into get_text (\<lambda>x. s_StripePriceID_update (\<lambda>_. x)),
        into (nullable get_text) (\<lambda>x. s_StripeProductID_update (\<lambda>_. x)),
        into get_text (\<lambda>x. s_Status_update (\<lambda>_. x)),
        into get_int (\<lambda>x. s_Quantity_update (\<lambda>_. x)),
        into (nullable get_text) (\<lambda>x. s_Currency_update (\<lambda>_. x)),
        into (nullable get_int) (\<lambda>x. s_UnitAmount_update (\<lambda>_. x)),
        into get_time (\<lambda>x. s_CurrentPeriodStart_update (\<lambda>_. x)),
        into get_time (\<lambda>x. s_CurrentPeriodEnd_update (\<lambda>_. x)),
        into get_bool (\<lambda>x. s_CancelAtPeriodEnd_update (\<lambda>_. x)),
        into (nullable get_time) (\<lambda>x. s_CancelAt_update (\<lambda>_. x)),
        into (nullable get_time) (\<lambda>x. s_CanceledAt_update (\<lambda>_. x)),
        into (nullable get_time) (\<lambda>x. s_EndedAt_update (\<lambda>_. x)),
        into (nullable get_time) (\<lambda>x. s_TrialStart_update (\<lambda>_. x)),
        into (nullable get_time) (\<lambda>x. s_TrialEnd_update (\<lambda>_. x)),
        into (nullable get_text) (\<lambda>x. s_LatestInvoiceID_update (\<lambda>_. x)),
        into (nullable get_text) (\<lambda>x. s_DefaultPaymentMethodID_update (\<lambda>_. x)),
        into (nullable get_text) (\<lambda>x. s_LastStripeEventID_update (\<lambda>_. x)),
        into (nullable get_time) (\<lambda>x. s_LastStripeEventAt_update (\<lambda>_. x)),
        into (nullable get_time) (\<lambda>x. s_PaymentFailedAt_update (\<lambda>_. x)),
        into get_int (\<lambda>x. s_PaymentFailureCount_update (\<lambda>_. x)),
        into (nullable get_text) (\<lambda>x. s_LastPaymentError_update (\<lambda>_. x)),
        into (nullable get_time) (\<lambda>x. s_NextPaymentAttemptAt_update (\<lambda>_. x)),
        into (nullable get_text) (\<lambda>x. s_LastInvoiceEventID_update (\<lambda>_. x)),
        into (nullable get_time) (\<lambda>x. s_LastInvoiceEventAt_update (\<lambda>_. x)),
        into get_map (\<lambda>x. s_Metadata_update (\<lambda>_. x)),
        into get_time (\<lambda>x. s_CreatedAt_update (\<lambda>_. x)),
        into get_time (\<lambda>x. s_UpdatedAt_update (\<lambda>_. x))]
       cs zero_sub"

definition sub_insert_columns :: "string list" where
  "sub_insert_columns = [
     ''user_id'', ''stripe_subscription_id'', ''stripe_customer_id'', ''stripe_price_id'',
     ''stripe_product_id'', ''status'', ''quantity'', ''currency'', ''unit_amount'',
     ''current_period_start'', ''current_period_end'', ''cancel_at_period_end'', ''cancel_at'',
     ''canceled_at'', ''ended_at'', ''trial_start'', ''trial_end'', ''latest_invoice_id'',
     ''default_payment_method_id'', ''last_stripe_event_id'', ''last_stripe_event_at'',
     ''metadata'']"

definition sub_args :: "Subscription \<Rightarrow> cell list" where
  "sub_args s = [
     UuidC (s_UserID s), TextC (s_StripeSubscriptionID s), TextC (s_StripeCustomerID s),
     TextC (s_StripePriceID s), nullable_cell TextC (s_StripeProductID s), TextC (s_Status s),
     IntC (s_Quantity s), nullable_cell TextC (s_Currency s),
     nullable_cell IntC (s_UnitAmount s), TimeC (s_CurrentPeriodStart s),
     TimeC (s_CurrentPeriodEnd s), BoolC (s_CancelAtPeriodEnd s),
     nullable_cell TimeC (s_CancelAt s), nullable_cell TimeC (s_CanceledAt s),
     nullable_cell TimeC (s_EndedAt s), nullable_cell TimeC (s_TrialStart s),
     nullable_cell TimeC (s_TrialEnd s), nullable_cell TextC (s_LatestInvoiceID s),
     nullable_cell TextC (s_DefaultPaymentMethodID s),
     nullable_cell TextC (s_LastStripeEventID s), nullable_cell TimeC (s_LastStripeEventAt s),
     coalesce_map (metadata_arg (s_Metadata s))]"

definition sub_defaults :: "uuid \<Rightarrow> time \<Rightarrow> cells" where
  "sub_defaults i now = map_of [
     (''id'', UuidC i), (''payment_failed_at'', NullC), (''payment_failure_count'', IntC 0),
     (''last_payment_error'', NullC), (''next_payment_attempt_at'', NullC), (''last_invoice_event_id'', NullC),
     (''last_invoice_event_at'', NullC), (''created_at'', TimeC now), (''updated_at'', TimeC now)]"

definition sub_returning :: "string list" where
  "sub_returning = [''id'', ''created_at'', ''updated_at'']"

definition scan_sub_returned :: "Subscription \<Rightarrow> cell list \<Rightarrow> Subscription option" where
  "scan_sub_returned s cs = Scan
       [into get_uuid (\<lambda>x. s_ID_update (\<lambda>_. x)),
        into get_time (\<lambda>x. s_CreatedAt_update (\<lambda>_. x)),
        into get_time (\<lambda>x. s_UpdatedAt_update (\<lambda>_. x))]
       cs s"

section \<open>The ledger\<close>

definition webhookColumns :: "string list" where
  "webhookColumns = [
     ''event_id'', ''event_type'', ''api_version'', ''livemode'', ''request_id'', ''status'',
     ''attempts'', ''last_error'', ''payload'', ''stripe_created_at'', ''received_at'',
     ''processed_at'', ''created_at'', ''updated_at'']"

definition zero_webhook :: ProcessedWebhook where
  "zero_webhook =
     \<lparr>w_EventID = [], w_EventType = [], w_APIVersion = None, w_Livemode = False,
      w_RequestID = None, w_Status = [], w_Attempts = 0, w_LastError = None, w_Payload = [],
      w_StripeCreatedAt = zero_time, w_ReceivedAt = zero_time, w_ProcessedAt = None,
      w_CreatedAt = zero_time, w_UpdatedAt = zero_time\<rparr>"

definition scanWebhook_cells :: "jsonlib \<Rightarrow> cell list \<Rightarrow> ProcessedWebhook option" where
  "scanWebhook_cells J cs = Scan
       [into get_text (\<lambda>x. w_EventID_update (\<lambda>_. x)),
        into get_text (\<lambda>x. w_EventType_update (\<lambda>_. x)),
        into (nullable get_text) (\<lambda>x. w_APIVersion_update (\<lambda>_. x)),
        into get_bool (\<lambda>x. w_Livemode_update (\<lambda>_. x)),
        into (nullable get_text) (\<lambda>x. w_RequestID_update (\<lambda>_. x)),
        into get_text (\<lambda>x. w_Status_update (\<lambda>_. x)),
        into get_int (\<lambda>x. w_Attempts_update (\<lambda>_. x)),
        into (nullable get_text) (\<lambda>x. w_LastError_update (\<lambda>_. x)),
        into (get_json J) (\<lambda>x. w_Payload_update (\<lambda>_. x)),
        into get_time (\<lambda>x. w_StripeCreatedAt_update (\<lambda>_. x)),
        into get_time (\<lambda>x. w_ReceivedAt_update (\<lambda>_. x)),
        into (nullable get_time) (\<lambda>x. w_ProcessedAt_update (\<lambda>_. x)),
        into get_time (\<lambda>x. w_CreatedAt_update (\<lambda>_. x)),
        into get_time (\<lambda>x. w_UpdatedAt_update (\<lambda>_. x))]
       cs zero_webhook"

definition hook_cells :: "hook_row \<Rightarrow> cells" where
  "hook_cells h = map_of [
     (''event_id'', TextC (h_event_id h)), (''event_type'', TextC (h_event_type h)),
     (''api_version'', nullable_cell TextC (h_api_version h)),
     (''livemode'', BoolC (h_livemode h)),
     (''request_id'', nullable_cell TextC (h_request_id h)),
     (''status'', TextC (WebhookStatus_text (h_status h))), (''attempts'', IntC (h_attempts h)),
     (''last_error'', nullable_cell TextC (h_last_error h)),
     (''payload'', nullable_cell JsonC (h_payload h)),
     (''stripe_created_at'', TimeC (h_stripe_created_at h)),
     (''received_at'', TimeC (h_received_at h)),
     (''processed_at'', nullable_cell TimeC (h_processed_at h)),
     (''created_at'', TimeC (h_created_at h)), (''updated_at'', TimeC (h_updated_at h)),
     (''payload_purged_at'', nullable_cell TimeC (h_payload_purged_at h))]"

definition hook_insert_columns :: "string list" where
  "hook_insert_columns = [
     ''event_id'', ''event_type'', ''api_version'', ''livemode'', ''request_id'',
     ''stripe_created_at'', ''payload'', ''status'', ''attempts'']"

definition hook_args :: "ProcessedWebhook \<Rightarrow> json option \<Rightarrow> cell list" where
  "hook_args w p = [
     TextC (w_EventID w), TextC (w_EventType w), nullable_cell TextC (w_APIVersion w),
     BoolC (w_Livemode w), nullable_cell TextC (w_RequestID w), TimeC (w_StripeCreatedAt w),
     nullable_cell JsonC p, TextC ''processing'', IntC 1]"

definition hook_defaults :: "time \<Rightarrow> cells" where
  "hook_defaults now = map_of [
     (''last_error'', NullC), (''received_at'', TimeC now), (''processed_at'', NullC),
     (''created_at'', TimeC now), (''updated_at'', TimeC now), (''payload_purged_at'', NullC)]"

definition claim_returning :: "string list" where
  "claim_returning = [''attempts'', ''status'', ''received_at'', ''created_at'', ''updated_at'']"

definition scan_claim_returned :: "ProcessedWebhook \<Rightarrow> cell list \<Rightarrow> ProcessedWebhook option" where
  "scan_claim_returned w cs = Scan
       [into get_int (\<lambda>x. w_Attempts_update (\<lambda>_. x)),
        into get_text (\<lambda>x. w_Status_update (\<lambda>_. x)),
        into get_time (\<lambda>x. w_ReceivedAt_update (\<lambda>_. x)),
        into get_time (\<lambda>x. w_CreatedAt_update (\<lambda>_. x)),
        into get_time (\<lambda>x. w_UpdatedAt_update (\<lambda>_. x))]
       cs w"

section \<open>The positions line up\<close>

lemma get_nullable [simp]:
  "nullable get_text (nullable_cell TextC t) = Some t" "nullable get_time (nullable_cell TimeC m) = Some m"
  "nullable get_int (nullable_cell IntC i) = Some i"
  by (simp_all add: nullable_cell_def split: option.split)

lemma get_json_nullable [simp]:
  "get_json J (nullable_cell JsonC p) = Some (case p of None \<Rightarrow> [] | Some j \<Rightarrow> jsonb_out J j)"
  by (simp add: nullable_cell_def split: option.split)

lemma coalesce_metadata [simp]: "coalesce_map (metadata_arg m) = MapC m"
  by (simp add: coalesce_map_def metadata_arg_def)

lemmas cell_defs = select_cells_def insert_cells_def update_cells_def into_def

lemmas user_cell_defs = cell_defs userColumns_def user_cells_def scanUser_def zero_user_def
  user_insert_columns_def user_args_def user_defaults_def

lemmas token_cell_defs = cell_defs refreshTokenColumns_def token_cells_def scanRefreshToken_def zero_token_def
  token_insert_columns_def token_args_def token_defaults_def

lemmas sub_cell_defs = cell_defs subscriptionColumns_def sub_cells_def scanSubscription_def zero_sub_def
  sub_insert_columns_def sub_args_def sub_defaults_def

lemmas hook_cell_defs = cell_defs webhookColumns_def hook_cells_def scanWebhook_cells_def zero_webhook_def
  hook_insert_columns_def hook_args_def hook_defaults_def

lemma user_reads_back: "Option.bind (select_cells userColumns (user_cells u)) scanUser = Some u"
  by (simp add: user_cell_defs)

lemma token_reads_back:
  "Option.bind (select_cells refreshTokenColumns (token_cells t)) scanRefreshToken = Some t"
  by (simp add: token_cell_defs)

lemma sub_reads_back: "Option.bind (select_cells subscriptionColumns (sub_cells s)) scanSubscription = Some s"
  by (simp add: sub_cell_defs)

lemma hook_reads_back:
  "Option.bind (select_cells webhookColumns (hook_cells h)) (scanWebhook_cells J) = Some (scanWebhook J h)"
  by (simp add: hook_cell_defs scanWebhook_def)

text \<open>What the INSERTs store, and what the UPDATE of an account leaves.\<close>

definition read_back :: "string list \<Rightarrow> (cell list \<Rightarrow> 'r option) \<Rightarrow> cells option \<Rightarrow> 'r option" where
  "read_back cols scan r = Option.bind r (\<lambda>cs. Option.bind (select_cells cols cs) scan)"

lemma user_insert_reads_back:
  "read_back userColumns scanUser (insert_cells user_insert_columns (user_args u) (user_defaults i now)) =
     Some (u\<lparr>u_ID := i, u_CreatedAt := now, u_UpdatedAt := now, u_DeletedAt := None\<rparr>)"
  by (simp add: read_back_def user_cell_defs)

lemma user_update_reads_back:
  "read_back userColumns scanUser (Some (update_cells user_insert_columns (user_args u) (user_cells x))) =
     Some (set_user u x)"
  by (simp add: read_back_def user_cell_defs set_user_def)

lemma token_insert_reads_back:
  "read_back refreshTokenColumns scanRefreshToken
     (insert_cells token_insert_columns (token_args userID hash family expires) (token_defaults i now)) =
   Some (new_token_row userID hash family expires i now)"
  by (simp add: read_back_def token_cell_defs new_token_row_def)

lemma sub_insert_reads_back:
  "read_back subscriptionColumns scanSubscription
     (insert_cells sub_insert_columns (sub_args s) (sub_defaults i now)) = Some (new_sub_row s i now)"
  by (simp add: read_back_def sub_cell_defs new_sub_row_def)

lemma hook_insert_reads_back:
  "read_back webhookColumns (scanWebhook_cells J)
     (insert_cells hook_insert_columns (hook_args w p) (hook_defaults now)) =
   Some (scanWebhook J (claim_row w p now))"
  by (simp add: read_back_def hook_cell_defs scanWebhook_def claim_row_def)

text \<open>The RETURNING clauses fill in the caller's record.\<close>

lemma returned_columns:
  "read_back user_returning (scan_user_returned u) (Some (user_cells r)) =
     Some (u\<lparr>u_ID := u_ID r, u_CreatedAt := u_CreatedAt r, u_UpdatedAt := u_UpdatedAt r\<rparr>)"
  "read_back token_returning (scan_token_returned t) (Some (token_cells k)) =
     Some (t\<lparr>t_ID := t_ID k, t_IssuedAt := t_IssuedAt k, t_CreatedAt := t_CreatedAt k, t_UpdatedAt := t_UpdatedAt k\<rparr>)"
  "read_back sub_returning (scan_sub_returned s) (Some (sub_cells b)) =
     Some (s\<lparr>s_ID := s_ID b, s_CreatedAt := s_CreatedAt b, s_UpdatedAt := s_UpdatedAt b\<rparr>)"
  "read_back claim_returning (scan_claim_returned w) (Some (hook_cells h)) =
     Some (w\<lparr>w_Attempts := h_attempts h, w_Status := WebhookStatus_text (h_status h),
             w_ReceivedAt := h_received_at h, w_CreatedAt := h_created_at h, w_UpdatedAt := h_updated_at h\<rparr>)"
     apply (simp add: read_back_def user_cell_defs user_returning_def scan_user_returned_def)
    apply (simp add: read_back_def token_cell_defs token_returning_def scan_token_returned_def)
   apply (simp add: read_back_def sub_cell_defs sub_returning_def scan_sub_returned_def)
  apply (simp add: read_back_def hook_cell_defs claim_returning_def scan_claim_returned_def)
  done

section \<open>Properties\<close>

text \<open>
  C38 (every row reads back). For each of the four tables the list of columns a query selects
  and the list of fields the scanner fills line up: whatever row the table holds, NULLs
  included, scanning the selected columns succeeds and gives the record of that row.
\<close>

theorem rows_read_back:
  "read_back userColumns scanUser (Some (user_cells u)) = Some u \<and>
   read_back refreshTokenColumns scanRefreshToken (Some (token_cells t)) = Some t \<and>
   read_back subscriptionColumns scanSubscription (Some (sub_cells s)) = Some s \<and>
   read_back webhookColumns (scanWebhook_cells J) (Some (hook_cells h)) = Some (scanWebhook J h)"
  by (simp add: read_back_def user_reads_back token_reads_back sub_reads_back hook_reads_back)

text \<open>
  C39 (what is inserted reads back). The column list of each INSERT and its arguments line up
  too: a row inserted for an account, a refresh token, a subscription or a ledger entry reads
  back as the record it was inserted for, with the id and times the database assigned and the
  defaults of the columns it left out; and an account that was updated reads back with exactly
  the six columns of the update changed.
\<close>

theorem inserts_read_back:
  "read_back userColumns scanUser (insert_cells user_insert_columns (user_args u) (user_defaults i now)) =
     Some (u\<lparr>u_ID := i, u_CreatedAt := now, u_UpdatedAt := now, u_DeletedAt := None\<rparr>) \<and>
   read_back userColumns scanUser (Some (update_cells user_insert_columns (user_args u) (user_cells x))) =
     Some (set_user u x) \<and>
   read_back refreshTokenColumns scanRefreshToken
     (insert_cells token_insert_columns (token_args userID hash family expires) (token_defaults i now)) =
     Some (new_token_row userID hash family expires i now) \<and>
   read_back subscriptionColumns scanSubscription
     (insert_cells sub_insert_columns (sub_args s) (sub_defaults i now)) = Some (new_sub_row s i now) \<and>
   read_back webhookColumns (scanWebhook_cells J)
     (insert_cells hook_insert_columns (hook_args w p) (hook_defaults now)) = Some (scanWebhook J (claim_row w p now))"
  by (intro conjI user_insert_reads_back user_update_reads_back token_insert_reads_back
      sub_insert_reads_back hook_insert_reads_back)


end
