(* ===== verification/Spec2Isabelle.thy ===== *)
theory Spec2Isabelle
  imports Startup Operations Row_Scan
begin

text \<open>
  A verification library for the Stripe payment service (\<open>cmd/api\<close>, \<open>internal/\<close> and the
  constraints of \<open>migrations/\<close>).

  \<^bold>\<open>The program.\<close> One Go process serves a JSON API and Stripe's webhook endpoint over a
  PostgreSQL database. A delivery is authenticated by its signature, claimed in a ledger keyed
  by event id (a claim excludes others until its window has passed), applied to the subscription tables by a
  handler per event type, and settled. A sweeper takes back abandoned claims and replays failed
  events with backoff; a retention worker replaces old payloads by skeletons and deletes expired
  refresh tokens. Users register, log in, renew rotating refresh tokens and open checkout and
  portal sessions. Replicas share nothing but the database.

  \<^bold>\<open>The model.\<close> A program is a state monad over a \<open>world\<close>: the database, the environment's
  plan (what other workers do to the database before each statement, which rows they lock,
  whether a statement is lost before or after it took effect), polls of the context, the draws
  of the random source, the rate limiter's buckets, and the log lines and metrics so far. An
  SQL statement is a function on the tables; CHECK constraints, unique indexes and triggers are
  part of it. An error is a chain of wrappings that \<open>errors.Is\<close> looks through. Code outside the
  repository (Stripe's SDK, bcrypt, JWT, chi, the token bucket of \<open>x/time/rate\<close>, pgx) and the
  parsers of encoding/json, net/url, net and strconv's floats are fields of parameter records; what a
  theorem relies on of them is a named hypothesis (\<open>chi_laws\<close>, \<open>jwt_laws\<close>, \<open>bcrypt_laws\<close>,
  \<open>libs_ready\<close>), and its witness instantiates them.

  \<^bold>\<open>Theories, in the order of their imports.\<close>

  \<^item> \<open>Prelude\<close>: Go's strings, integers and times, lists of rows. \<open>Errors\<close>: error chains and
    the SQLSTATE mapping (\<open>repository/postgres/errors.go\<close>). \<open>Domain\<close>: \<open>domain/models.go\<close>.
    \<open>Store\<close>: the tables, their constraints and triggers. \<open>Exec\<close>: statements, transactions,
    faults, interleaving, and the rely-guarantee calculus \<open>keeps\<close> with its locale
    \<open>db_relation\<close>.
  \<^item> \<open>Webhook_Repo\<close>, \<open>Subscription_Repo\<close>, \<open>User_Repo\<close>, \<open>Refresh_Token_Repo\<close>: one theory per
    repository, each with a locale that says what its statements promise of a relation on
    databases (\<open>hook_relation\<close>, \<open>user_relation\<close>, \<open>token_writes\<close> and their like) and
    interpretations on the relations the service keeps: the ledger only grows and settled rows
    stay, subscription cursors never move back, accounts stay unique, a token family has at
    most one live token. \<open>Row_Scan\<close>: rows as cells; the column lists, the scanners and the
    arguments of the INSERTs line up, so the statements may work on whole records.
  \<^item> \<open>Stripe_Client\<close>, \<open>Webhook_Service\<close>, \<open>Sweeper\<close>, \<open>Retention\<close>, \<open>Delivery\<close>:
    \<open>stripe/client.go\<close>, \<open>service/webhook_service.go\<close>, \<open>worker/\<close>, and the properties of a
    delivery from end to end: claims decided, settled exactly once, redelivery harmless,
    the newest event wins, where an event lands, due events retried, dead letters kept, policy
    of retention enforced.
  \<^item> \<open>Bytes_Codec\<close> (hex, base64, SHA-256), \<open>Auth_Primitives\<close> (\<open>auth/\<close>), \<open>Auth_Service\<close>,
    \<open>Billing_Services\<close>: credentials, sessions, checkout. A refused login shows nothing but the
    cost of the digest it met, a stolen token ends its session, a registered user can log in, a
    billing session is the caller's own.
  \<^item> \<open>Http\<close>, \<open>Rate_Limit\<close>, \<open>Json\<close>, \<open>Handlers\<close>, \<open>Router\<close>, \<open>Api\<close>: middleware as functions from
    handler to handler, the limiter, the encoder, every handler, the route table, and the
    properties of whole requests: protected routes need a token, an acknowledged delivery is
    recorded, answers are the caller's own, failed logins look alike.
  \<^item> \<open>Ledger_Clock\<close>: the stamps of the ledger never move back. \<open>Service_Steps\<close>: the running
    service as a step relation (a request, a sweep, a retention pass, the work of other
    replicas): history is kept, ended sessions stay ended, claims exclude each other.
  \<^item> \<open>Conversions\<close> (the readers and printers of numbers and durations the loader uses),
    \<open>Configuration\<close>, \<open>Logger\<close>, \<open>Database_Pool\<close>, \<open>Startup\<close>, \<open>Operations\<close>: \<open>config/config.go\<close>,
    \<open>logger/logger.go\<close>, \<open>database/postgres.go\<close>, \<open>cmd/api/main.go\<close>, \<open>metrics/metrics.go\<close> and
    \<open>handler/admin.go\<close>: loading reports every problem, what production refuses, secrets do
    not reach the log, printed settings are read back, and a configuration that loads starts,
    with the settings that reach the process.

  \<^bold>\<open>How the parts fit.\<close> \<open>run_setup\<close> turns an environment into a \<open>system\<close>: a router over the
  handlers, a sweeper, a retention worker. The router calls handlers, handlers call services,
  services call repositories and clients, repositories run statements; every level is the
  definition of the level below composed as the code composes it, so a theorem about a request
  is a theorem about the statements it sends. A relation on databases that each statement
  satisfies is kept by every program built of them, through the chain of locales
  \<open>db_relation\<close>, the repositories' relations, \<open>billing_relation\<close> and \<open>session_relation\<close>,
  \<open>app_relation\<close> and \<open>service_relation\<close>; the interpretations instantiate it once per table.

  \<^bold>\<open>Quiet worlds.\<close> Theorems that say what a call answers assume an environment without further
  steps (an empty plan); theorems that say what is never violated hold for every plan whose
  steps respect the same relation.

  \<^bold>\<open>Bounds and fuel.\<close> 32-bit and 64-bit integers wrap where the code converts or
  multiplies (\<open>int32_of\<close>, \<open>int64_of\<close>, the sums of
  \<open>ParseDuration\<close>). The two loops of a retention pass take fuel: every world has enough
  fuel for the pass to end, and in a quiet world more than the number of rows is enough. The worker
  loops run over the list of choices of their \<open>select\<close>.

  \<^bold>\<open>Simplifications.\<close> A transaction takes place at its row lock (what escapes this
  is the last section of \<open>Refresh_Token_Repo\<close>). The clock of the process is that of the
  database, and its time zone is UTC. Intervals are exact. Log lines are level and message; their
  attributes appear only in \<open>Logger\<close>. The pool's constructor is given a logger, as
  \<open>main\<close> does. A rate is a rational number. The clock of the
  database does not run backwards. Bytes outside ASCII pass through case folding and quoting. An event
  without data, on which the SDK's type would make the service panic, is outside the model.

  \<^bold>\<open>Not modelled.\<close> Delivering signals and accepting connections (how serving ends is an input
  of \<open>serve_until\<close>); the attributes of log lines; the encoding of a scrape; the
  mocks and tests; the web front end and the deployment files.
\<close>

section \<open>From the environment to a consistent database\<close>

text \<open>
  Set-up and service compose: a process that a configuration starts on a consistent database
  keeps it consistent, whatever it then serves, sweeps and purges.
\<close>

lemma started_service_stays_consistent:
  assumes "run_state (run_setup X) W = (Inr srv, W1)" "undisturbed W W1" "consistent (w_db W)"
    and "service_run (srv_System srv) W1 as W2" "env_ok tables_ok W1"
  shows "consistent (w_db W2)"
proof -
  have "consistent (w_db W1)" using assms(2,3) by (simp add: undisturbed_def)
  then show ?thesis using service_run_ok [OF assms(4,5)] tables_ok_consistent by blast
qed

lemma empty_environment_explains_itself:
  assumes "env_lookup L = Map.empty"
  shows "\<exists>e. Load L = Inl e \<and>
           contains (err_text e) ''required environment variable JWT_SECRET is not set''"
proof -
  have "''required environment variable JWT_SECRET is not set'' \<in> set (var_problem L (Required, ''JWT_SECRET''))"
    using unset_var [of L "''JWT_SECRET''"] assms by simp
  moreover have "(Required, ''JWT_SECRET'') \<in> set variables" by (simp add: variables_def vars_defs)
  ultimately have "''required environment variable JWT_SECRET is not set'' \<in> set (all_problems L)"
    unfolding all_problems_def set_append set_concat set_map by blast
  then show ?thesis
    using join_mem [of "''required environment variable JWT_SECRET is not set''" "all_problems L" "[CHR 0x0A]"]
    by (auto simp: Load_eq contains_iff)
qed

end
